(* ===== verification/Prelude.thy ===== *)
theory Prelude
  imports Main "HOL-Library.Sublist"
begin

text \<open>
  Shared vocabulary of the development.

  Python's \<^verbatim>\<open>str\<close> is a sequence of Unicode code points and the program depends on that
  (CJK ranges, full-width punctuation, 200-character snippets), so text is a list of code
  points, \<open>ustr\<close>; \<open>lit\<close> turns an ASCII literal of the source into it. JSON columns and
  Pydantic \<^verbatim>\<open>dict[str, Any]\<close> values are association lists in insertion order, as Python
  dicts are. The string operations below (\<open>py_strip\<close>, \<open>str_join\<close>, \<open>split_on\<close>,
  \<open>py_prefix\<close>, \<open>int_str\<close>) are the ones of Python's standard library that the source calls.
\<close>

named_theorems str_simps \<open>evaluation of text literals and character classes\<close>
named_theorems result_simps \<open>case analysis on error-or-value results\<close>

section \<open>Text\<close>

type_synonym ustr = "nat list"
type_synonym bytes = "nat list"

definition lit :: "string \<Rightarrow> ustr" where
  "lit s = map of_char s"

lemma lit_simps [simp, str_simps]:
  "lit [] = []"
  "lit (c # s) = of_char c # lit s"
  by (simp_all add: lit_def)

abbreviation nl :: nat where "nl \<equiv> 10"

text \<open>The characters for which Python's \<^verbatim>\<open>str.isspace\<close> (and \<^verbatim>\<open>\s\<close> of \<^verbatim>\<open>re\<close>) holds.\<close>

definition py_space :: "nat \<Rightarrow> bool" where
  "py_space c \<longleftrightarrow>
     (9 \<le> c \<and> c \<le> 13) \<or> (28 \<le> c \<and> c \<le> 32) \<or> c = 0x85 \<or> c = 0xA0 \<or> c = 0x1680
     \<or> (0x2000 \<le> c \<and> c \<le> 0x200A) \<or> c = 0x2028 \<or> c = 0x2029 \<or> c = 0x202F
     \<or> c = 0x205F \<or> c = 0x3000"

definition strip_by :: "('a \<Rightarrow> bool) \<Rightarrow> 'a list \<Rightarrow> 'a list" where
  "strip_by p s = rev (dropWhile p (rev (dropWhile p s)))"

definition py_strip :: "ustr \<Rightarrow> ustr" where
  "py_strip s = strip_by py_space s"

definition py_prefix :: "'a list \<Rightarrow> 'a list \<Rightarrow> bool" where
  "py_prefix p s \<longleftrightarrow> take (length p) s = p"

fun str_join :: "ustr \<Rightarrow> ustr list \<Rightarrow> ustr" where
  "str_join sep [] = []"
| "str_join sep [x] = x"
| "str_join sep (x # y # r) = x @ sep @ str_join sep (y # r)"

text \<open>\<^verbatim>\<open>s.split(c)\<close> for a one-character separator: always at least one part.\<close>

fun split_on :: "nat \<Rightarrow> ustr \<Rightarrow> ustr list" where
  "split_on c [] = [[]]"
| "split_on c (x # s) =
     (if x = c then [] # split_on c s
      else (case split_on c s of [] \<Rightarrow> [[x]] | p # ps \<Rightarrow> (x # p) # ps))"

text \<open>Decimal rendering of integers, as f-strings do.\<close>

fun nat_str :: "nat \<Rightarrow> ustr" where
  "nat_str n = (if n < 10 then [48 + n] else nat_str (n div 10) @ [48 + n mod 10])"

declare nat_str.simps [simp del]

definition int_str :: "int \<Rightarrow> ustr" where
  "int_str i = (if i < 0 then 45 # nat_str (nat (- i)) else nat_str (nat i))"

section \<open>JSON values\<close>

datatype json =
    JNull
  | JBool bool
  | JInt int
  | JStr ustr
  | JList "json list"
  | JObj "(ustr \<times> json) list"

type_synonym dict = "(ustr \<times> json) list"

text \<open>\<^verbatim>\<open>d[k] = v\<close> keeps the position of an existing key and appends a new one.\<close>

fun dict_set :: "ustr \<Rightarrow> json \<Rightarrow> dict \<Rightarrow> dict" where
  "dict_set k v [] = [(k, v)]"
| "dict_set k v ((k', v') # d) = (if k = k' then (k, v) # d else (k', v') # dict_set k v d)"

definition dict_get :: "dict \<Rightarrow> ustr \<Rightarrow> json option" where
  "dict_get d k = map_of d k"

lemma dict_get_set: "dict_get (dict_set k v d) k' = (if k' = k then Some v else dict_get d k')"
  by (induction k v d rule: dict_set.induct) (auto simp: dict_get_def)

lemma dict_set_keys: "fst ` set (dict_set k v d) = insert k (fst ` set d)"
  by (induction k v d rule: dict_set.induct) auto

section \<open>Lemmas on text\<close>

lemma strip_by_ends:
  assumes "strip_by p s \<noteq> []"
  shows "\<not> p (hd (strip_by p s))" and "\<not> p (last (strip_by p s))"
proof -
  let ?u = "dropWhile p s" and ?v = "dropWhile p (rev (dropWhile p s))"
  from assms have v: "?v \<noteq> []" by (auto simp: strip_by_def dest: set_dropWhileD)
  then have u: "?u \<noteq> []" by (cases ?u) auto
  have "last ?v = last (rev ?u)"
    using v by (metis last_append takeWhile_dropWhile_id)
  then have "hd (strip_by p s) = hd ?u"
    using u v by (simp add: strip_by_def hd_rev last_rev)
  then show "\<not> p (hd (strip_by p s))" using u hd_dropWhile by metis
  have "last (strip_by p s) = hd ?v" using v by (simp add: strip_by_def last_rev)
  then show "\<not> p (last (strip_by p s))" using v hd_dropWhile by metis
qed

lemma strip_by_id: "s = [] \<or> \<not> p (hd s) \<and> \<not> p (last s) \<Longrightarrow> strip_by p s = s"
proof (cases s)
  case (Cons a l)
  moreover assume "s = [] \<or> \<not> p (hd s) \<and> \<not> p (last s)"
  ultimately have "dropWhile p s = s" and "dropWhile p (rev s) = rev s"
    by (simp, metis dropWhile_eq_self_iff hd_rev list.distinct(1))
  then show ?thesis by (simp add: strip_by_def)
qed (simp add: strip_by_def)

lemma strip_by_idem: "strip_by p (strip_by p s) = strip_by p s"
  using strip_by_ends [of p s] by (intro strip_by_id) blast

lemma set_strip_by: "set (strip_by p s) \<subseteq> set s"
proof -
  have "set (dropWhile p t) \<subseteq> set t" for t by (auto dest: set_dropWhileD)
  then show ?thesis unfolding strip_by_def by (metis order_trans set_rev)
qed

lemma length_strip_by: "length (strip_by p s) \<le> length s"
  unfolding strip_by_def by (metis length_dropWhile_le length_rev order_trans)

lemma subseq_strip_by: "subseq (strip_by p s) s"
proof -
  have "suffix (dropWhile p s) s" by (simp add: suffix_dropWhile)
  moreover have "prefix (strip_by p s) (dropWhile p s)"
    unfolding strip_by_def
    by (metis rev_rev_ident suffix_dropWhile suffix_to_prefix)
  ultimately show ?thesis
    by (meson list_emb_prefix list_emb_suffix prefix_imp_subseq subseq_order.order_trans suffix_imp_subseq)
qed

lemma py_strip_idem [simp]: "py_strip (py_strip s) = py_strip s"
  by (simp add: py_strip_def strip_by_idem)

lemma strip_by_eq_Nil: "strip_by p s = [] \<longleftrightarrow> (\<forall>c \<in> set s. p c)"
proof -
  have "strip_by p s = [] \<longleftrightarrow> (\<forall>c \<in> set (dropWhile p s). p c)"
    by (simp add: strip_by_def)
  also have "\<dots> \<longleftrightarrow> dropWhile p s = []"
    by (metis hd_dropWhile hd_in_set empty_iff list.set(1))
  finally show ?thesis by simp
qed

lemma str_join_append:
  "xs \<noteq> [] \<Longrightarrow> ys \<noteq> [] \<Longrightarrow> str_join sep (xs @ ys) = str_join sep xs @ sep @ str_join sep ys"
proof (induction sep xs rule: str_join.induct)
  case (2 sep x)
  then show ?case by (cases ys) auto
qed auto

lemma str_join_part: "x \<in> set xs \<Longrightarrow> sublist x (str_join sep xs)"
proof (induction sep xs rule: str_join.induct)
  case (3 sep x y r)
  then show ?case
    by (auto intro: sublist_appendI simp: sublist_append)
qed auto

lemma split_on_not_Nil [simp]: "split_on c s \<noteq> []"
  by (cases s) (auto split: list.splits)

lemma join_split: "str_join [c] (split_on c s) = s"
proof (induction s)
  case (Cons x s)
  then show ?case
    by (cases "split_on c s"; cases "tl (split_on c s)") auto
qed simp

lemma split_on_no_sep: "p \<in> set (split_on c s) \<Longrightarrow> c \<notin> set p"
  by (induction s arbitrary: p) (auto split: if_splits list.splits)

lemma split_on_id: "c \<notin> set s \<Longrightarrow> split_on c s = [s]"
  by (induction s) auto

lemma split_join:
  "xs \<noteq> [] \<Longrightarrow> \<forall>x \<in> set xs. c \<notin> set x \<Longrightarrow> split_on c (str_join [c] xs) = xs"
proof (induction "[c]" xs rule: str_join.induct)
  case (3 x y r)
  have "split_on c (x @ c # s) = x # split_on c s" if "c \<notin> set x" for s
    using that by (induction x) auto
  with 3 show ?case by simp
qed (auto simp: split_on_id)

end
