(* ===== verification/Tables.thy ===== *)
theory Tables
  imports Complex_Main Prelude "HOL-Library.Product_Lexorder"
begin

text \<open>
  The database: rows of \<^verbatim>\<open>infrastructure/db/models.py\<close> as records, the tables as lists of rows
  in one \<open>db\<close> state, and the statements of the repositories
  (\<^verbatim>\<open>infrastructure/db/repositories/\<close>) as functions on it. Identifiers are 128-bit numbers,
  timestamps are microseconds; both come from outside (\<^verbatim>\<open>uuid7\<close>, \<^verbatim>\<open>now()\<close>) and are arguments.
  A statement that violates a primary key, a unique index or a foreign key returns \<open>None\<close>
  (\<^verbatim>\<open>IntegrityError\<close>). Columns restricted by a CHECK constraint are datatypes. Server defaults are
  filled in by the insert functions.
\<close>

type_synonym uuid = nat
type_synonym time = int
type_synonym vec = "rat list"

section \<open>Rows\<close>

datatype user_role = R_user | R_admin
datatype msg_role = Role_system | Role_user | Role_assistant | Role_tool
datatype usage_status = U_ok | U_error
datatype doc_status = St_pending | St_parsing | St_chunking | St_embedding | St_ready | St_failed
datatype stage = Parse | Chunk | Embed
datatype job_status = J_queued | J_running | J_succeeded | J_failed

record user =
  u_id :: uuid
  u_email :: ustr
  u_password_hash :: ustr
  u_role :: user_role
  u_is_active :: bool
  u_created_at :: time
  u_updated_at :: time

record conversation =
  c_id :: uuid
  c_user_id :: uuid
  c_title :: "ustr option"
  c_channel :: ustr
  c_model_alias :: ustr
  c_created_at :: time
  c_updated_at :: time

record message =
  m_id :: uuid
  m_conversation_id :: uuid
  m_role :: msg_role
  m_content :: ustr
  m_content_meta :: dict
  m_client_message_id :: "uuid option"
  m_provider :: "ustr option"
  m_model :: "ustr option"
  m_tokens_in :: "int option"
  m_tokens_out :: "int option"
  m_latency_ms :: "int option"
  m_created_at :: time

record refresh_token =
  rt_id :: uuid
  rt_user_id :: uuid
  rt_family_id :: uuid
  rt_token_hash :: ustr
  rt_expires_at :: time
  rt_revoked_at :: "time option"
  rt_replaced_by :: "uuid option"
  rt_user_agent :: "ustr option"
  rt_created_at :: time

record usage_log =
  ul_id :: uuid
  ul_user_id :: "uuid option"
  ul_conversation_id :: "uuid option"
  ul_message_id :: "uuid option"
  ul_channel :: ustr
  ul_provider :: ustr
  ul_model :: ustr
  ul_tokens_in :: "int option"
  ul_tokens_out :: "int option"
  ul_latency_ms :: "int option"
  ul_status :: usage_status
  ul_error_code :: "ustr option"
  ul_created_at :: time

record knowledge_source =
  ks_id :: uuid
  ks_owner_id :: uuid
  ks_name :: ustr
  ks_type :: ustr
  ks_config :: dict
  ks_enabled :: bool
  ks_created_at :: time
  ks_updated_at :: time

record document =
  d_id :: uuid
  d_source_id :: uuid
  d_uploaded_by :: uuid
  d_filename :: ustr
  d_mime :: ustr
  d_size_bytes :: int
  d_storage_key :: ustr
  d_checksum :: ustr
  d_status :: doc_status
  d_error :: "ustr option"
  d_meta :: dict
  d_created_at :: time
  d_updated_at :: time

record document_chunk =
  ck_id :: uuid
  ck_document_id :: uuid
  ck_seq :: nat
  ck_text :: ustr
  ck_tokens :: nat
  ck_meta :: dict
  ck_embedding :: "vec option"
  ck_embedding_version :: "ustr option"
  ck_tsv :: ustr

record ingestion_job =
  j_id :: uuid
  j_document_id :: uuid
  j_stage :: stage
  j_status :: job_status
  j_attempts :: nat
  j_error :: "ustr option"
  j_started_at :: "time option"
  j_finished_at :: "time option"
  j_created_at :: time

record message_citation =
  ci_id :: uuid
  ci_message_id :: uuid
  ci_chunk_id :: "uuid option"
  ci_document_id :: "uuid option"
  ci_filename :: ustr
  ci_snippet :: ustr
  ci_score :: rat
  ci_rank :: nat
  ci_created_at :: time

record db =
  users :: "user list"
  refresh_tokens :: "refresh_token list"
  conversations :: "conversation list"
  messages :: "message list"
  usage_logs :: "usage_log list"
  knowledge_sources :: "knowledge_source list"
  documents :: "document list"
  document_chunks :: "document_chunk list"
  ingestion_jobs :: "ingestion_job list"
  message_citations :: "message_citation list"

definition empty_db :: db where
  "empty_db = \<lparr>users = [], refresh_tokens = [], conversations = [], messages = [], usage_logs = [],
     knowledge_sources = [], documents = [], document_chunks = [], ingestion_jobs = [],
     message_citations = []\<rparr>"

text \<open>\<^verbatim>\<open>update ... where\<close> on a table.\<close>

definition update_where :: "('r \<Rightarrow> bool) \<Rightarrow> ('r \<Rightarrow> 'r) \<Rightarrow> 'r list \<Rightarrow> 'r list" where
  "update_where p f rows = map (\<lambda>r. if p r then f r else r) rows"

section \<open>DocumentRepository\<close>

definition doc_by_id :: "db \<Rightarrow> uuid \<Rightarrow> document option" where
  "doc_by_id s i = find (\<lambda>d. d_id d = i) (documents s)"

definition doc_get_owned :: "db \<Rightarrow> uuid \<Rightarrow> uuid \<Rightarrow> document option" where
  "doc_get_owned s user_id i = find (\<lambda>d. d_id d = i \<and> d_uploaded_by d = user_id) (documents s)"

definition doc_get_by_checksum :: "db \<Rightarrow> uuid \<Rightarrow> ustr \<Rightarrow> document option" where
  "doc_get_by_checksum s user_id checksum =
     find (\<lambda>d. d_uploaded_by d = user_id \<and> d_checksum d = checksum) (documents s)"

definition doc_create :: "document \<Rightarrow> db \<Rightarrow> db option" where
  \<comment> \<open>primary key, \<^verbatim>\<open>ux_documents_owner_checksum\<close> and the two foreign keys\<close>
  "doc_create d s =
     (if (\<exists>e \<in> set (documents s). d_id e = d_id d
            \<or> (d_uploaded_by e = d_uploaded_by d \<and> d_checksum e = d_checksum d))
         \<or> \<not> (\<exists>u \<in> set (users s). u_id u = d_uploaded_by d)
         \<or> \<not> (\<exists>k \<in> set (knowledge_sources s). ks_id k = d_source_id d)
      then None else Some (s\<lparr>documents := documents s @ [d]\<rparr>))"

definition doc_delete :: "uuid \<Rightarrow> db \<Rightarrow> db" where
  \<comment> \<open>ON DELETE CASCADE removes the chunks and jobs of the document\<close>
  "doc_delete i s =
     s\<lparr>documents := filter (\<lambda>d. d_id d \<noteq> i) (documents s),
       document_chunks := filter (\<lambda>c. ck_document_id c \<noteq> i) (document_chunks s),
       ingestion_jobs := filter (\<lambda>j. j_document_id j \<noteq> i) (ingestion_jobs s)\<rparr>"

definition doc_update :: "uuid \<Rightarrow> (document \<Rightarrow> document) \<Rightarrow> db \<Rightarrow> db" where
  "doc_update i f s = s\<lparr>documents := update_where (\<lambda>d. d_id d = i) f (documents s)\<rparr>"

definition doc_claim :: "uuid \<Rightarrow> doc_status list \<Rightarrow> doc_status \<Rightarrow> time \<Rightarrow> db \<Rightarrow> db \<times> bool" where
  "doc_claim i allowed_from to now s =
     (s\<lparr>documents := update_where (\<lambda>d. d_id d = i \<and> d_status d \<in> set allowed_from)
          (\<lambda>d. d\<lparr>d_status := to, d_error := None, d_updated_at := now\<rparr>) (documents s)\<rparr>,
      \<exists>d \<in> set (documents s). d_id d = i \<and> d_status d \<in> set allowed_from)"

definition doc_set_status :: "uuid \<Rightarrow> doc_status \<Rightarrow> time \<Rightarrow> db \<Rightarrow> db" where
  "doc_set_status i st now s = doc_update i (\<lambda>d. d\<lparr>d_status := st, d_updated_at := now\<rparr>) s"

definition doc_set_failed :: "uuid \<Rightarrow> ustr \<Rightarrow> time \<Rightarrow> db \<Rightarrow> db" where
  "doc_set_failed i err now s =
     doc_update i (\<lambda>d. d\<lparr>d_status := St_failed, d_error := Some err, d_updated_at := now\<rparr>) s"

section \<open>IngestionJobRepository\<close>

definition STAGE_ORDER :: "stage list" where
  "STAGE_ORDER = [Parse, Chunk, Embed]"

text \<open>The stages in the order in which a document goes through them.\<close>

instantiation stage :: linorder
begin

definition less_eq_stage :: "stage \<Rightarrow> stage \<Rightarrow> bool" where
  "less_eq_stage a b \<longleftrightarrow> a = Parse \<or> b = Embed \<or> a = b"

definition less_stage :: "stage \<Rightarrow> stage \<Rightarrow> bool" where
  "less_stage a b \<longleftrightarrow> a \<le> b \<and> a \<noteq> b"

instance
proof
  fix a b c :: stage
  show "a < b \<longleftrightarrow> a \<le> b \<and> \<not> b \<le> a" "a \<le> a" "a \<le> b \<Longrightarrow> b \<le> a \<Longrightarrow> a = b" "a \<le> b \<or> b \<le> a"
    "a \<le> b \<Longrightarrow> b \<le> c \<Longrightarrow> a \<le> c"
    by (cases a; cases b; cases c; simp add: less_stage_def less_eq_stage_def)+
qed

end

text \<open>
  Both upserts: insert, or update the row on the conflict of \<^verbatim>\<open>ux_jobs_doc_stage\<close>. The foreign key
  fails when the document is gone. \<open>fresh\<close> is the new row's id.
\<close>

definition job_mark_running :: "uuid \<Rightarrow> stage \<Rightarrow> uuid \<Rightarrow> time \<Rightarrow> db \<Rightarrow> db option" where
  "job_mark_running i st fresh now s =
     (if doc_by_id s i = None then None
      else if \<exists>j \<in> set (ingestion_jobs s). j_document_id j = i \<and> j_stage j = st
      then Some (s\<lparr>ingestion_jobs := update_where (\<lambda>j. j_document_id j = i \<and> j_stage j = st)
             (\<lambda>j. j\<lparr>j_status := J_running, j_attempts := Suc (j_attempts j), j_error := None,
                    j_started_at := Some now, j_finished_at := None\<rparr>) (ingestion_jobs s)\<rparr>)
      else Some (s\<lparr>ingestion_jobs := ingestion_jobs s @
             [\<lparr>j_id = fresh, j_document_id = i, j_stage = st, j_status = J_running, j_attempts = 1,
               j_error = None, j_started_at = Some now, j_finished_at = None, j_created_at = now\<rparr>]\<rparr>))"

definition job_mark_finished ::
  "uuid \<Rightarrow> stage \<Rightarrow> job_status \<Rightarrow> ustr option \<Rightarrow> uuid \<Rightarrow> time \<Rightarrow> db \<Rightarrow> db option" where
  "job_mark_finished i st status err fresh now s =
     (if doc_by_id s i = None then None
      else if \<exists>j \<in> set (ingestion_jobs s). j_document_id j = i \<and> j_stage j = st
      then Some (s\<lparr>ingestion_jobs := update_where (\<lambda>j. j_document_id j = i \<and> j_stage j = st)
             (\<lambda>j. j\<lparr>j_status := status, j_error := err, j_finished_at := Some now\<rparr>)
             (ingestion_jobs s)\<rparr>)
      else Some (s\<lparr>ingestion_jobs := ingestion_jobs s @
             [\<lparr>j_id = fresh, j_document_id = i, j_stage = st, j_status = status, j_attempts = 1,
               j_error = err, j_started_at = None, j_finished_at = Some now, j_created_at = now\<rparr>]\<rparr>))"

definition job_first_failed_stage :: "db \<Rightarrow> uuid \<Rightarrow> stage option" where
  "job_first_failed_stage s i =
     find (\<lambda>st. \<exists>j \<in> set (ingestion_jobs s). j_document_id j = i \<and> j_status j = J_failed \<and> j_stage j = st)
       STAGE_ORDER"

section \<open>ChunkRepository\<close>

definition chunk_list_unembedded :: "db \<Rightarrow> uuid \<Rightarrow> nat \<Rightarrow> document_chunk list" where
  "chunk_list_unembedded s i limit =
     take limit (sort_key ck_seq
       (filter (\<lambda>c. ck_document_id c = i \<and> ck_embedding c = None) (document_chunks s)))"

definition chunk_count_unembedded :: "db \<Rightarrow> uuid \<Rightarrow> nat" where
  "chunk_count_unembedded s i =
     length (filter (\<lambda>c. ck_document_id c = i \<and> ck_embedding c = None) (document_chunks s))"

definition chunk_set_embeddings :: "(uuid \<times> vec) list \<Rightarrow> ustr \<Rightarrow> db \<Rightarrow> db" where
  "chunk_set_embeddings vectors version s =
     fold (\<lambda>(i, v) s. s\<lparr>document_chunks := update_where (\<lambda>c. ck_id c = i)
            (\<lambda>c. c\<lparr>ck_embedding := Some v, ck_embedding_version := Some version\<rparr>) (document_chunks s)\<rparr>)
       vectors s"

section \<open>KnowledgeSourceRepository\<close>

definition DEFAULT_SOURCE_NAME :: ustr where
  "DEFAULT_SOURCE_NAME = [0x6211, 0x7684, 0x4E0A, 0x50B3]"

definition DEFAULT_SOURCE_TYPE :: ustr where
  "DEFAULT_SOURCE_TYPE = lit ''upload''"

definition source_get :: "db \<Rightarrow> uuid \<Rightarrow> knowledge_source option" where
  "source_get s i = find (\<lambda>k. ks_id k = i) (knowledge_sources s)"

definition source_get_owned :: "db \<Rightarrow> uuid \<Rightarrow> uuid \<Rightarrow> knowledge_source option" where
  "source_get_owned s owner i = find (\<lambda>k. ks_id k = i \<and> ks_owner_id k = owner) (knowledge_sources s)"

definition source_get_default :: "db \<Rightarrow> uuid \<Rightarrow> knowledge_source option" where
  "source_get_default s owner =
     find (\<lambda>k. ks_owner_id k = owner \<and> ks_type k = DEFAULT_SOURCE_TYPE) (knowledge_sources s)"

definition source_create_default :: "uuid \<Rightarrow> uuid \<Rightarrow> time \<Rightarrow> db \<Rightarrow> db option" where
  \<comment> \<open>primary key, the owner's foreign key and \<^verbatim>\<open>ux_sources_owner_default\<close>\<close>
  "source_create_default fresh owner now s =
     (if (\<exists>k \<in> set (knowledge_sources s). ks_id k = fresh
            \<or> (ks_owner_id k = owner \<and> ks_type k = DEFAULT_SOURCE_TYPE))
         \<or> \<not> (\<exists>u \<in> set (users s). u_id u = owner)
      then None
      else Some (s\<lparr>knowledge_sources := knowledge_sources s @
             [\<lparr>ks_id = fresh, ks_owner_id = owner, ks_name = DEFAULT_SOURCE_NAME,
               ks_type = DEFAULT_SOURCE_TYPE, ks_config = [], ks_enabled = True,
               ks_created_at = now, ks_updated_at = now\<rparr>]\<rparr>))"

section \<open>Facts about lookups and updates\<close>

named_theorems table_defs \<open>unfolding the statements on documents and jobs\<close>

lemma find_SomeD: "find p xs = Some x \<Longrightarrow> p x \<and> x \<in> set xs"
  by (auto simp: find_Some_iff)

text \<open>The failed stage at which a retry starts is the least one in the order of the pipeline.\<close>

lemma stage_order_sorted: "sorted STAGE_ORDER" "set STAGE_ORDER = UNIV"
proof -
  show "sorted STAGE_ORDER" by (simp add: STAGE_ORDER_def less_eq_stage_def)
  have "st \<in> set STAGE_ORDER" for st by (cases st) (simp_all add: STAGE_ORDER_def)
  then show "set STAGE_ORDER = UNIV" by auto
qed

lemma find_least:
  assumes "sorted xs" and "find p xs = Some x" and "y \<in> set xs" "p y"
  shows "x \<le> (y :: 'a :: linorder)"
  using assms by (induction xs) (auto split: if_splits)

lemma first_failed_is_least:
  assumes "job_first_failed_stage s i = Some st"
  shows "\<exists>j \<in> set (ingestion_jobs s). j_document_id j = i \<and> j_status j = J_failed \<and> j_stage j = st"
    and "j \<in> set (ingestion_jobs s) \<Longrightarrow> j_document_id j = i \<Longrightarrow> j_status j = J_failed \<Longrightarrow> st \<le> j_stage j"
  using assms find_least [OF stage_order_sorted(1), of _ st] stage_order_sorted(2)
  by (auto simp: job_first_failed_stage_def dest: find_SomeD)

lemma no_failed_stage:
  "job_first_failed_stage s i = None \<longleftrightarrow> (\<forall>j \<in> set (ingestion_jobs s). j_document_id j = i \<longrightarrow> j_status j \<noteq> J_failed)"
  using stage_order_sorted(2) by (auto simp: job_first_failed_stage_def find_None_iff)

lemma find_update_where_same:
  assumes "\<And>r. q (f r) = q r"
  shows "find q (update_where p f rows) = map_option (\<lambda>r. if p r then f r else r) (find q rows)"
  using assms by (induction rows) (auto simp: update_where_def)

lemma set_update_where: "set (update_where p f rows) = (\<lambda>r. if p r then f r else r) ` set rows"
  by (simp add: update_where_def)

lemma length_update_where [simp]: "length (update_where p f rows) = length rows"
  by (simp add: update_where_def)

lemma map_update_where: "(\<And>r. g (f r) = g r) \<Longrightarrow> map g (update_where p f rows) = map g rows"
  by (simp add: update_where_def)

lemma doc_by_id_update:
  assumes "\<And>d. d_id (f d) = d_id d"
  shows "doc_by_id (doc_update i f s) k =
    (if k = i then map_option f (doc_by_id s k) else doc_by_id s k)"
proof -
  have "doc_by_id (doc_update i f s) k = map_option (\<lambda>r. if d_id r = i then f r else r) (doc_by_id s k)"
    using assms by (simp add: doc_by_id_def doc_update_def find_update_where_same)
  then show ?thesis by (cases "doc_by_id s k") (auto simp: doc_by_id_def dest: find_SomeD)
qed

lemma doc_set_status_by_id [simp]:
  "doc_by_id (doc_set_status i st now s) k =
     (if k = i then map_option (\<lambda>d. d\<lparr>d_status := st, d_updated_at := now\<rparr>) (doc_by_id s k)
      else doc_by_id s k)"
  by (simp add: doc_set_status_def doc_by_id_update)

lemma doc_set_failed_by_id [simp]:
  "doc_by_id (doc_set_failed i err now s) k =
     (if k = i then map_option (\<lambda>d. d\<lparr>d_status := St_failed, d_error := Some err, d_updated_at := now\<rparr>)
        (doc_by_id s k)
      else doc_by_id s k)"
  by (simp add: doc_set_failed_def doc_by_id_update)

text \<open>Row identities are unique: the primary key of \<^verbatim>\<open>documents\<close>.\<close>

definition docs_keyed :: "db \<Rightarrow> bool" where
  "docs_keyed s \<longleftrightarrow> distinct (map d_id (documents s))"

lemma docs_keyed_by_id:
  "docs_keyed s \<Longrightarrow> d \<in> set (documents s) \<Longrightarrow> doc_by_id s (d_id d) = Some d"
proof -
  have "distinct (map d_id ds) \<Longrightarrow> d \<in> set ds \<Longrightarrow> find (\<lambda>e. d_id e = d_id d) ds = Some d" for ds
    by (induction ds) force+
  then show "docs_keyed s \<Longrightarrow> d \<in> set (documents s) \<Longrightarrow> ?thesis"
    by (simp add: docs_keyed_def doc_by_id_def)
qed

lemma doc_claim_flag:
  "docs_keyed s \<Longrightarrow> snd (doc_claim i allowed to now s) \<longleftrightarrow>
     (\<exists>d. doc_by_id s i = Some d \<and> d_status d \<in> set allowed)"
  using docs_keyed_by_id by (auto simp: doc_claim_def doc_by_id_def dest: find_SomeD)

lemma doc_claim_by_id:
  "docs_keyed s \<Longrightarrow> doc_by_id (fst (doc_claim i allowed to now s)) k =
     (if k = i then map_option (\<lambda>d. if d_status d \<in> set allowed
          then d\<lparr>d_status := to, d_error := None, d_updated_at := now\<rparr> else d) (doc_by_id s k)
      else doc_by_id s k)"
proof -
  have "doc_by_id (fst (doc_claim i allowed to now s)) k =
      map_option (\<lambda>r. if d_id r = i \<and> d_status r \<in> set allowed
         then r\<lparr>d_status := to, d_error := None, d_updated_at := now\<rparr> else r) (doc_by_id s k)"
    by (simp add: doc_by_id_def doc_claim_def find_update_where_same)
  then show ?thesis by (cases "doc_by_id s k") (auto simp: doc_by_id_def dest: find_SomeD)
qed

lemma job_ops_documents:
  "job_mark_running i st fresh now s = Some s' \<Longrightarrow> documents s' = documents s"
  "job_mark_finished i st status err fresh now s = Some s' \<Longrightarrow> documents s' = documents s"
  by (auto simp: job_mark_running_def job_mark_finished_def split: if_splits)

lemma job_ops_chunks:
  "job_mark_running i st fresh now s = Some s' \<Longrightarrow> document_chunks s' = document_chunks s"
  "job_mark_finished i st status err fresh now s = Some s' \<Longrightarrow> document_chunks s' = document_chunks s"
  by (auto simp: job_mark_running_def job_mark_finished_def split: if_splits)

lemma job_ops_defined:
  "doc_by_id s i \<noteq> None \<Longrightarrow> \<exists>s'. job_mark_running i st fresh now s = Some s'"
  "doc_by_id s i \<noteq> None \<Longrightarrow> \<exists>s'. job_mark_finished i st status err fresh now s = Some s'"
  by (auto simp: job_mark_running_def job_mark_finished_def)

section \<open>Facts about embeddings\<close>

definition with_vectors :: "(uuid \<times> vec) list \<Rightarrow> ustr \<Rightarrow> document_chunk \<Rightarrow> document_chunk" where
  "with_vectors vectors version c =
     (case map_of (rev vectors) (ck_id c) of
        None \<Rightarrow> c
      | Some v \<Rightarrow> c\<lparr>ck_embedding := Some v, ck_embedding_version := Some version\<rparr>)"

lemma chunk_set_embeddings_eq:
  "chunk_set_embeddings vectors version s =
     s\<lparr>document_chunks := map (with_vectors vectors version) (document_chunks s)\<rparr>"
proof -
  have "chunk_set_embeddings (rev ws) version s =
     s\<lparr>document_chunks := map (with_vectors (rev ws) version) (document_chunks s)\<rparr>" for ws
  proof (induction ws)
    case Nil
    have "with_vectors [] version = (\<lambda>c. c)" by (simp add: with_vectors_def fun_eq_iff)
    then show ?case by (simp add: chunk_set_embeddings_def)
  next
    case (Cons w ws)
    have "chunk_set_embeddings (rev ws @ [w]) version s =
        (case w of (i, v) \<Rightarrow> \<lambda>s. s\<lparr>document_chunks := update_where (\<lambda>c. ck_id c = i)
            (\<lambda>c. c\<lparr>ck_embedding := Some v, ck_embedding_version := Some version\<rparr>) (document_chunks s)\<rparr>)
          (chunk_set_embeddings (rev ws) version s)"
      by (cases w) (simp add: chunk_set_embeddings_def)
    with Cons show ?case
      by (cases w) (auto simp: update_where_def with_vectors_def split: option.splits)
  qed
  from this [of "rev vectors"] show ?thesis by simp
qed

lemma with_vectors_id [simp]:
  "ck_id (with_vectors vs v c) = ck_id c" "ck_document_id (with_vectors vs v c) = ck_document_id c"
  "ck_seq (with_vectors vs v c) = ck_seq c" "ck_text (with_vectors vs v c) = ck_text c"
  "ck_tokens (with_vectors vs v c) = ck_tokens c" "ck_meta (with_vectors vs v c) = ck_meta c"
  "ck_tsv (with_vectors vs v c) = ck_tsv c"
  by (simp_all add: with_vectors_def split: option.split)

lemma with_vectors_None:
  "ck_embedding (with_vectors vs v c) = None \<longleftrightarrow> ck_id c \<notin> fst ` set vs \<and> ck_embedding c = None"
proof (cases "map_of (rev vs) (ck_id c)")
  case None
  then have "ck_id c \<notin> fst ` set vs" by (simp add: map_of_eq_None_iff)
  with None show ?thesis by (simp add: with_vectors_def)
next
  case (Some a)
  then have "ck_id c \<in> fst ` set vs" by (metis domI dom_map_of_conv_image_fst set_rev)
  with Some show ?thesis by (simp add: with_vectors_def)
qed

lemma with_vectors_other: "ck_id c \<notin> fst ` set vs \<Longrightarrow> with_vectors vs v c = c"
  by (simp add: with_vectors_def map_of_eq_None_iff [THEN iffD2] split: option.split)

lemma count_unembedded_set:
  assumes "set ids = ck_id ` set batch" and "batch \<noteq> []"
    and "set batch \<subseteq> {c \<in> set (document_chunks s). ck_document_id c = i \<and> ck_embedding c = None}"
    and "fst ` set vs = set ids"
  shows "chunk_count_unembedded (chunk_set_embeddings vs v s) i < chunk_count_unembedded s i"
proof -
  let ?P = "\<lambda>c. ck_document_id c = i \<and> ck_embedding c = None"
  let ?new = "\<lambda>c. ck_id c \<notin> ck_id ` set batch"
  have q: "?P \<circ> with_vectors vs v = (\<lambda>c. ck_document_id c = i \<and> ck_embedding c = None \<and> ?new c)"
    using assms(1,4) by (auto simp: fun_eq_iff with_vectors_None)
  have "chunk_count_unembedded (chunk_set_embeddings vs v s) i
      = length (filter ?new (filter ?P (document_chunks s)))"
    by (simp add: chunk_count_unembedded_def chunk_set_embeddings_eq filter_map q del: comp_apply)
  moreover obtain b where "b \<in> set (filter ?P (document_chunks s))" "\<not> ?new b"
    using assms(2,3) by (cases batch) auto
  ultimately show ?thesis
    using length_filter_less [of b "filter ?P (document_chunks s)" ?new]
    by (simp add: chunk_count_unembedded_def)
qed

lemma list_unembedded_set:
  "set (chunk_list_unembedded s i n)
     \<subseteq> {c \<in> set (document_chunks s). ck_document_id c = i \<and> ck_embedding c = None}"
  by (auto simp: chunk_list_unembedded_def dest: in_set_takeD)

lemma list_unembedded_Nil:
  "0 < n \<Longrightarrow> chunk_list_unembedded s i n = [] \<longleftrightarrow> chunk_count_unembedded s i = 0"
proof -
  have "sort_key ck_seq xs = [] \<longleftrightarrow> xs = []" for xs by (metis length_0_conv length_sort)
  then show "0 < n \<Longrightarrow> ?thesis" by (simp add: chunk_list_unembedded_def chunk_count_unembedded_def)
qed

end
