(* ===== verification/Storage.thy ===== *)
theory Storage
  imports Prelude
begin

text \<open>
  Object storage: the port \<^verbatim>\<open>domain/ports/storage.py\<close> as the interface locale
  \<open>object_storage\<close>, its adapter \<^verbatim>\<open>infrastructure/storage/local_fs.py\<close> over a file system
  (a map from absolute paths, as lists of components, to file contents; no symbolic links), and
  the storage keys of the application layer.
\<close>

section \<open>Identifiers as text\<close>

definition hex_digit :: "nat \<Rightarrow> nat" where
  "hex_digit d = (if d < 10 then 48 + d else 87 + d)"

definition hex_digits :: "nat \<Rightarrow> nat \<Rightarrow> ustr" where
  "hex_digits k n = map (\<lambda>i. hex_digit (n div 16 ^ (k - 1 - i) mod 16)) [0..<k]"

text \<open>\<^verbatim>\<open>str(uuid)\<close>: 32 hexadecimal digits in groups of 8, 4, 4, 4 and 12.\<close>

definition uuid_str :: "nat \<Rightarrow> ustr" where
  "uuid_str n =
     (let h = hex_digits 32 n
      in take 8 h @ [45] @ take 4 (drop 8 h) @ [45] @ take 4 (drop 12 h) @ [45]
         @ take 4 (drop 16 h) @ [45] @ drop 20 h)"

lemma hex_digit_inj: "a < 16 \<Longrightarrow> b < 16 \<Longrightarrow> hex_digit a = hex_digit b \<Longrightarrow> a = b"
  by (auto simp: hex_digit_def split: if_splits)

lemma hex_digits_Suc: "hex_digits (Suc k) n = hex_digit (n div 16 ^ k mod 16) # hex_digits k n"
proof -
  have "[0..<Suc k] = 0 # map Suc [0..<k]" by (simp add: upt_conv_Cons map_Suc_upt del: upt_Suc)
  then show ?thesis by (simp add: hex_digits_def comp_def del: upt_Suc)
qed

lemma length_hex_digits [simp]: "length (hex_digits k n) = k"
  by (simp add: hex_digits_def)

lemma hex_digits_inj: "hex_digits k m = hex_digits k n \<Longrightarrow> m mod 16 ^ k = n mod 16 ^ k"
proof (induction k)
  case (Suc k)
  then have "m div 16 ^ k mod 16 = n div 16 ^ k mod 16" and "m mod 16 ^ k = n mod 16 ^ k"
    by (auto simp: hex_digits_Suc dest!: hex_digit_inj [rotated 2])
  moreover have "x mod 16 ^ Suc k = x div 16 ^ k mod 16 * 16 ^ k + x mod 16 ^ k" for x :: nat
    using mod_mult2_eq [of x "16 ^ k" 16] by (simp add: mult.commute)
  ultimately show ?case by presburger
qed simp

lemma uuid_str_inj: "m < 2 ^ 128 \<Longrightarrow> n < 2 ^ 128 \<Longrightarrow> uuid_str m = uuid_str n \<Longrightarrow> m = n"
proof -
  assume mn: "m < 2 ^ 128" "n < 2 ^ 128" and eq: "uuid_str m = uuid_str n"
  have cat: "h = take 8 h @ take 4 (drop 8 h) @ take 4 (drop 12 h) @ take 4 (drop 16 h) @ drop 20 h"
    for h :: ustr
  proof -
    have "take 4 (drop 16 h) @ drop 20 h = drop 16 h"
      using append_take_drop_id [of 4 "drop 16 h"] by (simp del: append_take_drop_id)
    moreover have "take 4 (drop 12 h) @ drop 16 h = drop 12 h"
      using append_take_drop_id [of 4 "drop 12 h"] by (simp del: append_take_drop_id)
    moreover have "take 4 (drop 8 h) @ drop 12 h = drop 8 h"
      using append_take_drop_id [of 4 "drop 8 h"] by (simp del: append_take_drop_id)
    ultimately show ?thesis by simp
  qed
  have "hex_digits 32 m = hex_digits 32 n"
    using eq cat [of "hex_digits 32 m"] cat [of "hex_digits 32 n"]
    by (auto simp: uuid_str_def Let_def)
  from hex_digits_inj [OF this] mn show "m = n" by simp
qed

lemma uuid_str_chars: "c \<in> set (uuid_str n) \<Longrightarrow> c \<noteq> 47 \<and> c \<noteq> 46"
proof -
  have "c \<noteq> 47 \<and> c \<noteq> 46" if "c \<in> set (hex_digits 32 n)" for c
    using that by (auto simp: hex_digits_def hex_digit_def)
  then show "c \<in> set (uuid_str n) \<Longrightarrow> ?thesis"
    by (auto simp: uuid_str_def Let_def dest!: in_set_takeD in_set_dropD)
qed

lemma uuid_str_not_Nil: "uuid_str n \<noteq> []"
  by (simp add: uuid_str_def Let_def)

section \<open>The local file system\<close>

type_synonym path = "ustr list"
type_synonym fs = "path \<Rightarrow> bytes option"

datatype storage_error = ValueError ustr | NotFound | IOError ustr

text \<open>\<^verbatim>\<open>(root / key).resolve()\<close>\<close>

definition path_step :: "path \<Rightarrow> ustr \<Rightarrow> path" where
  "path_step p part =
     (if part = [] \<or> part = lit ''.'' then p
      else if part = lit ''..'' then butlast p
      else p @ [part])"

definition resolve_path :: "path \<Rightarrow> ustr \<Rightarrow> path" where
  "resolve_path root key =
     foldl path_step (if py_prefix (lit ''/'') key then [] else root) (split_on 47 key)"

definition storage_resolve :: "path \<Rightarrow> ustr \<Rightarrow> storage_error + path" where
  "storage_resolve root key =
     (let p = resolve_path root key
      in if p \<noteq> root \<and> \<not> strict_prefix root p
         then Inl (ValueError (lit ''storage key '' @ [0x9038, 0x51FA] @ lit '' root''))
         else Inr p)"

definition storage_put :: "path \<Rightarrow> ustr \<Rightarrow> bytes \<Rightarrow> fs \<Rightarrow> storage_error + fs" where
  "storage_put root key data f =
     (case storage_resolve root key of Inl e \<Rightarrow> Inl e | Inr p \<Rightarrow> Inr (f(p \<mapsto> data)))"

definition storage_get :: "path \<Rightarrow> ustr \<Rightarrow> fs \<Rightarrow> storage_error + bytes" where
  "storage_get root key f =
     (case storage_resolve root key of
        Inl e \<Rightarrow> Inl e
      | Inr p \<Rightarrow> (case f p of None \<Rightarrow> Inl NotFound | Some d \<Rightarrow> Inr d))"

text \<open>
  \<^verbatim>\<open>shutil.rmtree(path, True)\<close>: everything strictly below the path goes; a plain file at the path
  itself and a missing directory are left alone (errors are ignored).
\<close>

definition storage_delete_prefix :: "path \<Rightarrow> ustr \<Rightarrow> fs \<Rightarrow> storage_error + fs" where
  "storage_delete_prefix root pre f =
     (case storage_resolve root pre of
        Inl e \<Rightarrow> Inl e
      | Inr p \<Rightarrow> Inr (\<lambda>q. if strict_prefix p q \<and> f p = None then None else f q))"

section \<open>Keys\<close>

definition storage_prefix :: "nat \<Rightarrow> ustr" where
  "storage_prefix document_id = lit ''documents/'' @ uuid_str document_id @ lit ''/''"

definition normalized_key :: "nat \<Rightarrow> ustr" where
  "normalized_key document_id = lit ''documents/'' @ uuid_str document_id @ lit ''/normalized.json''"

section \<open>The port\<close>

text \<open>
  What the services rely on, for the keys they build: a key names one object, written
  objects are read back, writing one key leaves the others alone, and purging a document's prefix
  removes its objects and no other document's. \<open>place key\<close> says under which prefix a key lives.
\<close>

locale object_storage =
  fixes put :: "ustr \<Rightarrow> bytes \<Rightarrow> 'st \<Rightarrow> storage_error + 'st"
    and get :: "ustr \<Rightarrow> 'st \<Rightarrow> storage_error + bytes"
    and delete_prefix :: "ustr \<Rightarrow> 'st \<Rightarrow> storage_error + 'st"
    and good :: "ustr \<Rightarrow> bool"
    and under :: "ustr \<Rightarrow> ustr \<Rightarrow> bool"
  assumes put_total: "good k \<Longrightarrow> \<exists>s'. put k d s = Inr s'"
    and get_put: "good k \<Longrightarrow> put k d s = Inr s' \<Longrightarrow> get k s' = Inr d"
    and get_put_other: "good k \<Longrightarrow> good k' \<Longrightarrow> k \<noteq> k' \<Longrightarrow> put k d s = Inr s' \<Longrightarrow> get k' s' = get k' s"
    and delete_other: "good k \<Longrightarrow> \<not> under p k \<Longrightarrow> delete_prefix p s = Inr s' \<Longrightarrow> get k s' = get k s"
begin

lemma put_put: "good k \<Longrightarrow> put k d s = Inr s1 \<Longrightarrow> put k d' s1 = Inr s2 \<Longrightarrow> get k s2 = Inr d'"
  by (rule get_put)

lemma overwrite_keeps_others:
  "good k \<Longrightarrow> good k' \<Longrightarrow> k \<noteq> k' \<Longrightarrow> put k d s = Inr s1 \<Longrightarrow> put k d' s1 = Inr s2
     \<Longrightarrow> get k' s2 = get k' s"
  using get_put_other by metis

lemma written_survives_purge:
  "good k \<Longrightarrow> \<not> under p k \<Longrightarrow> put k d s = Inr s1 \<Longrightarrow> delete_prefix p s1 = Inr s2 \<Longrightarrow> get k s2 = Inr d"
  using get_put delete_other by metis

end

section \<open>The local adapter meets the port\<close>

definition doc_key :: "ustr \<Rightarrow> bool" where
  "doc_key k \<longleftrightarrow>
     (\<exists>i name. k = storage_prefix i @ name \<and> 47 \<notin> set name \<and> name \<notin> {[], [46], [46, 46]})"

definition under_prefix :: "ustr \<Rightarrow> ustr \<Rightarrow> bool" where
  "under_prefix p k \<longleftrightarrow> (p \<in> range storage_prefix \<longrightarrow> prefix p k)"

lemma split_on_append: "c \<notin> set a \<Longrightarrow> split_on c (a @ c # b) = a # split_on c b"
  by (induction a) auto

lemma split_doc_key:
  "split_on 47 (storage_prefix i @ name) = lit ''documents'' # uuid_str i # split_on 47 name"
proof -
  have k: "storage_prefix i @ name = lit ''documents'' @ 47 # uuid_str i @ 47 # name"
    by (simp add: storage_prefix_def)
  have d: "47 \<notin> set (lit ''documents'')" by simp
  have u: "47 \<notin> set (uuid_str i)" using uuid_str_chars by blast
  show ?thesis by (simp only: k split_on_append [OF d] split_on_append [OF u])
qed

lemma path_step_plain: "part \<notin> {[], [46], [46, 46]} \<Longrightarrow> path_step p part = p @ [part]"
  by (simp add: path_step_def)

lemma uuid_part: "uuid_str i \<notin> {[], [46], [46, 46]}"
  using uuid_str_not_Nil [of i] uuid_str_chars [of 46 i] by auto

lemma path_step_documents: "path_step p (lit ''documents'') = p @ [lit ''documents'']"
  by (simp add: path_step_def)

lemma resolve_key:
  assumes "47 \<notin> set name" and "name \<notin> {[], [46], [46, 46]}"
  shows "storage_resolve root (storage_prefix i @ name) = Inr (root @ [lit ''documents'', uuid_str i, name])"
proof -
  have "\<not> py_prefix (lit ''/'') (storage_prefix i @ name)"
    by (simp add: py_prefix_def storage_prefix_def)
  then have "resolve_path root (storage_prefix i @ name) = root @ [lit ''documents'', uuid_str i, name]"
    by (simp only: resolve_path_def split_doc_key split_on_id [OF assms(1)] if_False foldl.simps
        path_step_documents path_step_plain [OF uuid_part] path_step_plain [OF assms(2)] append.simps
        append_assoc)
  moreover have "strict_prefix root (root @ [lit ''documents'', uuid_str i, name])"
    by (auto simp: strict_prefix_def)
  ultimately show ?thesis by (simp only: storage_resolve_def Let_def simp_thms if_False)
qed

lemma resolve_prefix:
  "storage_resolve root (storage_prefix i) = Inr (root @ [lit ''documents'', uuid_str i])"
proof -
  have "\<not> py_prefix (lit ''/'') (storage_prefix i)"
    by (simp add: py_prefix_def storage_prefix_def)
  moreover have "split_on 47 (storage_prefix i) = [lit ''documents'', uuid_str i, []]"
    using split_doc_key [of i "[]"] by simp
  moreover have "path_step p [] = p" for p by (simp add: path_step_def)
  ultimately have "resolve_path root (storage_prefix i) = root @ [lit ''documents'', uuid_str i]"
    by (simp only: resolve_path_def if_False foldl.simps path_step_documents
        path_step_plain [OF uuid_part] append.simps append_assoc)
  moreover have "strict_prefix root (root @ [lit ''documents'', uuid_str i])"
    by (auto simp: strict_prefix_def)
  ultimately show ?thesis by (simp only: storage_resolve_def Let_def simp_thms if_False)
qed

lemma doc_keyE:
  assumes "doc_key k"
  obtains i name where "k = storage_prefix i @ name" "47 \<notin> set name" "name \<notin> {[], [46], [46, 46]}"
  using assms unfolding doc_key_def by blast

lemma doc_key_resolves: "doc_key k \<Longrightarrow> \<exists>p. storage_resolve root k = Inr p"
  by (metis doc_keyE resolve_key)

lemma uuid_split:
  assumes "uuid_str i @ 47 # a = uuid_str j @ 47 # b"
  shows "uuid_str i = uuid_str j \<and> a = b"
proof -
  have len: "length (uuid_str n) = 36" for n by (simp add: uuid_str_def Let_def)
  with assms show ?thesis by (metis append_eq_append_conv list.inject)
qed

lemma doc_keys_apart:
  assumes "doc_key k" "doc_key k'" "k \<noteq> k'" "storage_resolve root k = Inr p" "storage_resolve root k' = Inr p'"
  shows "p \<noteq> p'"
proof -
  from assms(1) obtain i a where k: "k = storage_prefix i @ a" "47 \<notin> set a" "a \<notin> {[], [46], [46, 46]}"
    by (rule doc_keyE)
  from assms(2) obtain j b where k': "k' = storage_prefix j @ b" "47 \<notin> set b" "b \<notin> {[], [46], [46, 46]}"
    by (rule doc_keyE)
  have "p = root @ [lit ''documents'', uuid_str i, a]" "p' = root @ [lit ''documents'', uuid_str j, b]"
    using assms(4,5) unfolding k(1) k'(1) resolve_key [OF k(2,3)] resolve_key [OF k'(2,3)] by simp_all
  moreover have "uuid_str i \<noteq> uuid_str j \<or> a \<noteq> b"
    using assms(3) unfolding k(1) k'(1) storage_prefix_def by auto
  ultimately show ?thesis by (simp only: same_append_eq list.inject) blast
qed

interpretation local_fs: object_storage
  "storage_put root" "storage_get root" "storage_delete_prefix root" doc_key under_prefix for root
proof
  fix k d and s :: fs
  assume "doc_key k"
  from doc_key_resolves [OF this, of root] show "\<exists>s'. storage_put root k d s = Inr s'"
    by (auto simp: storage_put_def)
next
  fix k d and s s' :: fs
  assume "storage_put root k d s = Inr s'"
  then show "storage_get root k s' = Inr d"
    by (auto simp: storage_put_def storage_get_def split: sum.splits)
next
  fix k k' d and s s' :: fs
  assume k: "doc_key k" "doc_key k'" "k \<noteq> k'" and p: "storage_put root k d s = Inr s'"
  from doc_key_resolves [OF k(1), of root] doc_key_resolves [OF k(2), of root] obtain q q' where
    q: "storage_resolve root k = Inr q" "storage_resolve root k' = Inr q'" by blast
  from doc_keys_apart [OF k q] p q show "storage_get root k' s' = storage_get root k' s"
    by (auto simp: storage_put_def storage_get_def)
next
  fix k p and s s' :: fs
  assume k: "doc_key k" and u: "\<not> under_prefix p k" and d: "storage_delete_prefix root p s = Inr s'"
  from k obtain i name where n: "k = storage_prefix i @ name" "47 \<notin> set name" "name \<notin> {[], [46], [46, 46]}"
    by (rule doc_keyE)
  from u obtain j where p: "p = storage_prefix j" and "\<not> prefix p k" by (auto simp: under_prefix_def)
  with n(1) have "uuid_str j \<noteq> uuid_str i" by (auto simp: storage_prefix_def)
  then have "\<not> strict_prefix (root @ [lit ''documents'', uuid_str j]) (root @ [lit ''documents'', uuid_str i, name])"
    by (auto simp: strict_prefix_def)
  with d p n show "storage_get root k s' = storage_get root k s"
    by (auto simp: storage_delete_prefix_def storage_get_def resolve_prefix resolve_key
        simp del: insert_iff)
qed

lemma normalized_key_doc_key: "doc_key (normalized_key i)"
proof -
  have "normalized_key i = storage_prefix i @ lit ''normalized.json''"
    by (simp add: normalized_key_def storage_prefix_def)
  moreover have "47 \<notin> set (lit ''normalized.json'')" "lit ''normalized.json'' \<notin> {[], [46], [46, 46]}"
    by simp_all
  ultimately show ?thesis unfolding doc_key_def by blast
qed

text \<open>
  no key, whatever its components (absolute paths and \<^verbatim>\<open>..\<close> included), makes the local storage
  write outside its root: either the call is refused and nothing changes, or only a
  path at or below the root changes.
\<close>

theorem storage_stays_in_root:
  assumes "storage_put root key data f = Inr f'" and "f' q \<noteq> f q"
  shows "prefix root q"
  using assms
  by (auto simp: storage_put_def storage_resolve_def Let_def strict_prefix_def
      split: if_splits)

theorem storage_stays_in_root_witness:
  "\<exists>f'. storage_put [[97]] (lit ''x'') [1] Map.empty = Inr f' \<and> f' [[97], lit ''x''] \<noteq> None
     \<and> prefix [[97::nat]] [[97], lit ''x'']"
proof -
  let ?f = "Map.empty([[97], lit ''x''] \<mapsto> [1])"
  have h: "storage_put [[97]] (lit ''x'') [1] Map.empty = Inr ?f"
    by (simp add: storage_put_def storage_resolve_def resolve_path_def py_prefix_def path_step_def
        strict_prefix_def)
  have "?f [[97], lit ''x''] \<noteq> Map.empty [[97], lit ''x'']" by simp
  from storage_stays_in_root [OF h this] h show ?thesis by (intro exI [of _ ?f]) simp
qed

text \<open>
  purging the prefix of one document leaves every stored object of every other document as it was.
\<close>

theorem purge_spares_other_documents:
  assumes "i < 2 ^ 128" "j < 2 ^ 128" "i \<noteq> j"
    and "47 \<notin> set name" "name \<notin> {[], [46], [46, 46]}"
    and "storage_delete_prefix root (storage_prefix i) f = Inr f'"
  shows "storage_get root (storage_prefix j @ name) f' = storage_get root (storage_prefix j @ name) f"
proof (rule local_fs.delete_other [OF _ _ assms(6)])
  show "doc_key (storage_prefix j @ name)" using assms(4,5) by (auto simp: doc_key_def simp del: insert_iff)
  have len: "length (uuid_str n) = 36" for n by (simp add: uuid_str_def Let_def)
  have "uuid_str i \<noteq> uuid_str j" using uuid_str_inj assms(1-3) by blast
  then show "\<not> under_prefix (storage_prefix i) (storage_prefix j @ name)"
    using len by (auto simp: under_prefix_def storage_prefix_def prefix_def)
qed

theorem purge_spares_other_documents_witness:
  "\<exists>f'. storage_delete_prefix [] (storage_prefix 1) Map.empty = Inr f' \<and>
     storage_get [] (storage_prefix 2 @ [97]) f' = storage_get [] (storage_prefix 2 @ [97]) Map.empty"
proof -
  obtain f' where h: "storage_delete_prefix [] (storage_prefix 1) Map.empty = Inr f'"
    using resolve_prefix [of "[]" 1] by (simp add: storage_delete_prefix_def)
  show ?thesis
    using h purge_spares_other_documents [OF _ _ _ _ _ h, of 2 "[97]"] by (intro exI [of _ f']) simp
qed

end
