(* ===== verification/Http.thy ===== *)
theory Http
  imports Prelude
begin

text \<open>
  What every HTTP response goes through: the error classes and the frozen error envelope of
  \<^verbatim>\<open>core/errors.py\<close>, the request-id middleware of \<^verbatim>\<open>api/middleware.py\<close> and the redaction
  processor of \<^verbatim>\<open>core/logging.py\<close>. A class attribute (\<^verbatim>\<open>code\<close>, \<^verbatim>\<open>http_status\<close>, \<^verbatim>\<open>message\<close>) is a
  function on the error datatype. \<^verbatim>\<open>str.lower\<close> is Unicode data and a parameter (\<open>lower\<close>).
\<close>

section \<open>Application errors\<close>

datatype app_error =
    EmailAlreadyRegistered
  | InvalidCredentials
  | UserInactive
  | InvalidToken
  | InvalidRefreshToken
  | ValidationError "ustr option"
  | ConversationNotFound
  | InvalidCursor
  | DuplicateMessage
  | DocumentNotFound
  | SourceNotFound
  | UnsupportedMediaType
  | FileTooLarge
  | DocumentNotRetryable

fun app_code :: "app_error \<Rightarrow> ustr" where
  "app_code EmailAlreadyRegistered = lit ''email_already_registered''"
| "app_code InvalidCredentials = lit ''invalid_credentials''"
| "app_code UserInactive = lit ''user_inactive''"
| "app_code InvalidToken = lit ''invalid_token''"
| "app_code InvalidRefreshToken = lit ''invalid_refresh_token''"
| "app_code (ValidationError _) = lit ''validation_error''"
| "app_code ConversationNotFound = lit ''conversation_not_found''"
| "app_code InvalidCursor = lit ''invalid_cursor''"
| "app_code DuplicateMessage = lit ''duplicate_message''"
| "app_code DocumentNotFound = lit ''document_not_found''"
| "app_code SourceNotFound = lit ''source_not_found''"
| "app_code UnsupportedMediaType = lit ''unsupported_media_type''"
| "app_code FileTooLarge = lit ''file_too_large''"
| "app_code DocumentNotRetryable = lit ''document_not_retryable''"

fun http_status :: "app_error \<Rightarrow> nat" where
  "http_status EmailAlreadyRegistered = 409"
| "http_status InvalidCredentials = 401"
| "http_status UserInactive = 403"
| "http_status InvalidToken = 401"
| "http_status InvalidRefreshToken = 401"
| "http_status (ValidationError _) = 422"
| "http_status ConversationNotFound = 404"
| "http_status InvalidCursor = 422"
| "http_status DuplicateMessage = 409"
| "http_status DocumentNotFound = 404"
| "http_status SourceNotFound = 404"
| "http_status UnsupportedMediaType = 415"
| "http_status FileTooLarge = 413"
| "http_status DocumentNotRetryable = 409"

definition validation_message :: ustr where
  "validation_message = [0x8ACB, 0x6C42, 0x53C3, 0x6578, 0x9A57, 0x8B49, 0x5931, 0x6557]"

fun app_message :: "app_error \<Rightarrow> ustr" where
  "app_message EmailAlreadyRegistered = [0x6B64, 0x20, 0x65, 0x6D, 0x61, 0x69, 0x6C, 0x20, 0x5DF2, 0x88AB, 0x8A3B, 0x518A]"
| "app_message InvalidCredentials = [0x5E33, 0x865F, 0x6216, 0x5BC6, 0x78BC, 0x932F, 0x8AA4]"
| "app_message UserInactive = [0x5E33, 0x865F, 0x5DF2, 0x505C, 0x7528]"
| "app_message InvalidToken = [0x6191, 0x8B49, 0x7121, 0x6548, 0x6216, 0x5DF2, 0x904E, 0x671F]"
| "app_message InvalidRefreshToken = [0x767B, 0x5165, 0x6191, 0x8B49, 0x5DF2, 0x5931, 0x6548, 0x2C, 0x8ACB, 0x91CD, 0x65B0, 0x767B, 0x5165]"
| "app_message (ValidationError m) = (case m of None \<Rightarrow> validation_message | Some t \<Rightarrow> t)"
| "app_message ConversationNotFound = [0x627E, 0x4E0D, 0x5230, 0x5C0D, 0x8A71]"
| "app_message InvalidCursor = [0x5206, 0x9801, 0x6E38, 0x6A19, 0x7121, 0x6548]"
| "app_message DuplicateMessage = [0x8A0A, 0x606F, 0x5DF2, 0x9001, 0x51FA]"
| "app_message DocumentNotFound = [0x627E, 0x4E0D, 0x5230, 0x6587, 0x4EF6]"
| "app_message SourceNotFound = [0x627E, 0x4E0D, 0x5230, 0x77E5, 0x8B58, 0x4F86, 0x6E90]"
| "app_message UnsupportedMediaType = [0x4E0D, 0x652F, 0x63F4, 0x7684, 0x6A94, 0x6848, 0x578B, 0x5225]"
| "app_message FileTooLarge = [0x6A94, 0x6848, 0x8D85, 0x904E, 0x5927, 0x5C0F, 0x4E0A, 0x9650]"
| "app_message DocumentNotRetryable = [0x50C5, 0x8655, 0x7406, 0x5931, 0x6557, 0x7684, 0x6587, 0x4EF6, 0x53EF, 0x91CD, 0x8A66]"

section \<open>The envelope and the handlers\<close>

type_synonym header = "ustr \<times> ustr"

record response =
  r_status :: nat
  r_headers :: "header list"
  r_body :: json

text \<open>The \<^verbatim>\<open>request_id\<close> of the request's state; \<open>fresh\<close> is \<^verbatim>\<open>uuid4().hex\<close>.\<close>

definition trace_id :: "ustr option \<Rightarrow> ustr \<Rightarrow> ustr" where
  "trace_id request_id fresh =
     (case request_id of None \<Rightarrow> fresh | Some t \<Rightarrow> if t = [] then fresh else t)"

definition X_REQUEST_ID :: ustr where "X_REQUEST_ID = lit ''X-Request-ID''"

definition envelope :: "ustr \<Rightarrow> ustr \<Rightarrow> ustr \<Rightarrow> nat \<Rightarrow> response" where
  "envelope code msg trace status =
     \<lparr>r_status = status, r_headers = [(X_REQUEST_ID, trace)],
      r_body = JObj [(lit ''error'',
        JObj [(lit ''code'', JStr code), (lit ''message'', JStr msg), (lit ''trace_id'', JStr trace)])]\<rparr>"

datatype raised = R_app app_error | R_request_validation | R_exception

definition handle_error :: "ustr option \<Rightarrow> ustr \<Rightarrow> raised \<Rightarrow> response" where
  \<comment> \<open>\<^verbatim>\<open>register_error_handlers\<close>: the most specific handler of the exception's class\<close>
  "handle_error request_id fresh e =
     (case e of
        R_app a \<Rightarrow> envelope (app_code a) (app_message a) (trace_id request_id fresh) (http_status a)
      | R_request_validation \<Rightarrow>
          envelope (lit ''validation_error'') validation_message (trace_id request_id fresh) 422
      | R_exception \<Rightarrow>
          envelope (lit ''internal_error'') [0x4F3A, 0x670D, 0x5668, 0x767C, 0x751F, 0x975E, 0x9810, 0x671F, 0x932F, 0x8AA4, 0x2C, 0x8ACB, 0x7A0D, 0x5F8C, 0x518D, 0x8A66] (trace_id request_id fresh) 500)"

section \<open>Request-id middleware\<close>

definition HEADER :: ustr where "HEADER = lit ''x-request-id''"

definition ascii_lower :: "ustr \<Rightarrow> ustr" where
  \<comment> \<open>\<^verbatim>\<open>bytes.lower\<close>\<close>
  "ascii_lower s = map (\<lambda>c. if 65 \<le> c \<and> c \<le> 90 then c + 32 else c) s"

definition request_id_of :: "header list \<Rightarrow> ustr \<Rightarrow> ustr" where
  \<comment> \<open>\<^verbatim>\<open>dict(headers).get\<close>: the last header of that name; an empty value counts as absent\<close>
  "request_id_of headers fresh =
     (case map_of (rev headers) HEADER of
        None \<Rightarrow> fresh
      | Some v \<Rightarrow> if v = [] then fresh else v)"

definition send_with_header :: "ustr \<Rightarrow> header list \<Rightarrow> header list" where
  "send_with_header request_id headers =
     (if \<exists>(k, _) \<in> set headers. ascii_lower k = HEADER then headers
      else headers @ [(HEADER, request_id)])"

text \<open>
  The middleware around an application that answers or raises: the request id goes into the
  request's state, and what the application sends gets the header. Only \<^verbatim>\<open>Exception\<close> is handled
  outside of it (Starlette's \<^verbatim>\<open>ServerErrorMiddleware\<close>), with the same request state.
\<close>

definition serve :: "ustr \<Rightarrow> ustr \<Rightarrow> (ustr \<Rightarrow> raised + response) \<Rightarrow> header list \<Rightarrow> response" where
  "serve fresh fresh' app headers =
     (let rid = request_id_of headers fresh in
      case app rid of
        Inr r \<Rightarrow> r\<lparr>r_headers := send_with_header rid (r_headers r)\<rparr>
      | Inl R_exception \<Rightarrow> handle_error (Some rid) fresh' R_exception
      | Inl e \<Rightarrow>
          (let r = handle_error (Some rid) fresh' e
           in r\<lparr>r_headers := send_with_header rid (r_headers r)\<rparr>))"

section \<open>Redaction\<close>

definition REDACT_KEYS :: "ustr set" where
  "REDACT_KEYS = {lit ''password'', lit ''password_hash'', lit ''token'', lit ''access_token'',
     lit ''refresh_token'', lit ''rt'', lit ''authorization'', lit ''cookie'', lit ''set-cookie'',
     lit ''jwt_secret''}"

definition REDACTED :: json where "REDACTED = JStr (lit ''<redacted>'')"

definition redact_sensitive :: "(ustr \<Rightarrow> ustr) \<Rightarrow> dict \<Rightarrow> dict" where
  "redact_sensitive lower event_dict =
     foldl (\<lambda>d key. if lower key \<in> REDACT_KEYS then dict_set key REDACTED d else d)
       event_dict (map fst event_dict)"

section \<open>Correctness\<close>

lemma ascii_lower_request_id: "ascii_lower X_REQUEST_ID = HEADER"
  by (simp add: ascii_lower_def X_REQUEST_ID_def HEADER_def)

lemma serve_error:
  assumes "app (request_id_of headers fresh) = Inl e"
  shows "serve fresh fresh' app headers = handle_error (Some (request_id_of headers fresh)) fresh' e"
proof -
  have "send_with_header rid (r_headers (envelope c m t s)) = r_headers (envelope c m t s)" for rid c m t s
    by (simp add: send_with_header_def envelope_def ascii_lower_request_id)
  then have "(envelope c m t s)\<lparr>r_headers := send_with_header rid (r_headers (envelope c m t s))\<rparr> = envelope c m t s"
    for rid c m t s by simp
  with assms show ?thesis by (cases e) (auto simp: serve_def Let_def handle_error_def)
qed

lemma app_status_range: "400 \<le> http_status a \<and> http_status a < 500"
  by (cases a) auto

text \<open>
  whatever the application raises, the client gets the frozen envelope: a 4xx or 500 status, the
  error's code and message and the trace id, which is the non-empty id the request came with (or the generated one)
  and is repeated in the \<^verbatim>\<open>X-Request-ID\<close> header; an unexpected exception leaks nothing of itself.
\<close>

theorem error_envelope:
  assumes "app (request_id_of headers fresh) = Inl e" and "fresh \<noteq> []"
  shows "\<exists>code msg. serve fresh fresh' app headers =
       \<lparr>r_status = (case e of R_app a \<Rightarrow> http_status a | R_request_validation \<Rightarrow> 422 | R_exception \<Rightarrow> 500),
        r_headers = [(X_REQUEST_ID, request_id_of headers fresh)],
        r_body = JObj [(lit ''error'', JObj [(lit ''code'', JStr code), (lit ''message'', JStr msg),
           (lit ''trace_id'', JStr (request_id_of headers fresh))])]\<rparr>
     \<and> code = (case e of R_app a \<Rightarrow> app_code a | R_request_validation \<Rightarrow> lit ''validation_error''
          | R_exception \<Rightarrow> lit ''internal_error'')
     \<and> r_status (serve fresh fresh' app headers) \<in> {400..<500} \<union> {500}"
proof -
  have "request_id_of headers fresh \<noteq> []"
    using assms(2) by (simp add: request_id_of_def split: option.splits)
  then have "trace_id (Some (request_id_of headers fresh)) fresh' = request_id_of headers fresh"
    by (simp add: trace_id_def)
  then show ?thesis
    using serve_error [of app headers fresh e fresh'] assms(1)
    by (cases e) (auto simp: handle_error_def envelope_def app_status_range)
qed

theorem error_envelope_witness:
  "r_status (serve [97] [98] (\<lambda>_. Inl (R_app DocumentNotFound)) []) = 404
   \<and> r_status (serve [97] [98] (\<lambda>_. Inl (R_app DocumentNotFound)) []) \<in> {400..<500} \<union> {500}"
  using error_envelope [of "\<lambda>_. Inl (R_app DocumentNotFound)" "[]" "[97]" "R_app DocumentNotFound" "[98]"]
  by auto

lemma redact_fold:
  "dict_get (foldl (\<lambda>d key. if lower key \<in> REDACT_KEYS then dict_set key REDACTED d else d) d ks) k =
     (if k \<in> set ks \<and> lower k \<in> REDACT_KEYS then Some REDACTED else dict_get d k)"
  by (induction ks arbitrary: d) (auto simp: dict_get_set)

text \<open>
  after redaction every sensitive key (in any letter case) of a log event shows the
  placeholder, every other key keeps its value, and no key appears or disappears.
\<close>

theorem redact_sensitive_spec:
  "dict_get (redact_sensitive lower d) k =
     (case dict_get d k of
        None \<Rightarrow> None
      | Some v \<Rightarrow> Some (if lower k \<in> REDACT_KEYS then REDACTED else v))"
proof -
  have "k \<in> set (map fst d) \<longleftrightarrow> dict_get d k \<noteq> None"
    by (auto simp: dict_get_def map_of_eq_None_iff)
  then show ?thesis
    by (auto simp: redact_sensitive_def redact_fold split: option.splits)
qed

end
