(* ===== verification/Effects.thy ===== *)
theory Effects
  imports Tables Storage Http
begin

text \<open>
  The state the services share and the effects they use. \<open>sys\<close> holds the committed database, the
  view of the current \<^verbatim>\<open>AsyncSession\<close> (what it would commit), the object storage and the task
  broker's messages. A service function is a state transformer that returns a value or raises; a
  statement changes the session's view, \<open>commit\<close> publishes it and a session that ends without one
  loses it. Where the outside world can fail (network, disk, database, time limit) the
  function asks its environment's fault script at a named point.

  \<open>wp m Q E s\<close> is the weakest precondition of running \<open>m\<close> in \<open>s\<close>: \<open>Q\<close> on return, \<open>E\<close> on an exception.
\<close>

section \<open>Exceptions\<close>

datatype provider_error_code = Rate_limited | Auth | Context_length | Transient | Provider_error

datatype exn =
    TransientStageError ustr
  | OSError ustr
  | FileNotFoundError
  | SQLAlchemyError ustr
  | IntegrityError
  | SoftTimeLimitExceeded
  | EmbeddingError provider_error_code ustr
  | App app_error
  | PyError ustr ustr \<comment> \<open>any other class: its name and its \<^verbatim>\<open>str\<close>\<close>

section \<open>State\<close>

datatype call = Stage_call stage uuid | Purge_call ustr | Title_call uuid

record task_message =
  tm_call :: call
  tm_retries :: nat
  tm_countdown :: nat

record sys =
  committed :: db
  pending :: db
  files :: fs
  broker :: "task_message list"

section \<open>The state and exception monad\<close>

type_synonym ('s, 'a) eff = "'s \<Rightarrow> (exn + 'a) \<times> 's"

definition ret :: "'a \<Rightarrow> ('s, 'a) eff" where
  "ret a s = (Inr a, s)"

definition throw :: "exn \<Rightarrow> ('s, 'a) eff" where
  "throw e s = (Inl e, s)"

definition bnd :: "('s, 'a) eff \<Rightarrow> ('a \<Rightarrow> ('s, 'b) eff) \<Rightarrow> ('s, 'b) eff" where
  "bnd m f s = (case m s of (Inl e, s') \<Rightarrow> (Inl e, s') | (Inr a, s') \<Rightarrow> f a s')"

definition try_with :: "('s, 'a) eff \<Rightarrow> (exn \<Rightarrow> ('s, 'a) eff) \<Rightarrow> ('s, 'a) eff" where
  "try_with m h s = (case m s of (Inl e, s') \<Rightarrow> h e s' | (Inr a, s') \<Rightarrow> (Inr a, s'))"

definition look :: "('s \<Rightarrow> 'a) \<Rightarrow> ('s, 'a) eff" where
  "look f s = (Inr (f s), s)"

definition change :: "('s \<Rightarrow> 's) \<Rightarrow> ('s, unit) eff" where
  "change f s = (Inr (), f s)"

definition guard_fault :: "exn option \<Rightarrow> ('s, unit) eff" where
  "guard_fault f = (case f of None \<Rightarrow> ret () | Some e \<Rightarrow> throw e)"

definition wp :: "('s, 'a) eff \<Rightarrow> ('a \<Rightarrow> 's \<Rightarrow> bool) \<Rightarrow> (exn \<Rightarrow> 's \<Rightarrow> bool) \<Rightarrow> 's \<Rightarrow> bool" where
  "wp m Q E s = (case m s of (Inl e, s') \<Rightarrow> E e s' | (Inr a, s') \<Rightarrow> Q a s')"

named_theorems wp_simps \<open>weakest preconditions of the effects\<close>

lemma wp_ret [wp_simps]: "wp (ret a) Q E s = Q a s"
  by (simp add: wp_def ret_def)

lemma wp_throw [wp_simps]: "wp (throw e) Q E s = E e s"
  by (simp add: wp_def throw_def)

lemma wp_bnd [wp_simps]: "wp (bnd m f) Q E s = wp m (\<lambda>a. wp (f a) Q E) E s"
  by (simp add: wp_def bnd_def split: prod.split sum.split)

lemma wp_try [wp_simps]: "wp (try_with m h) Q E s = wp m Q (\<lambda>e. wp (h e) Q E) s"
  by (simp add: wp_def try_with_def split: prod.split sum.split)

lemma wp_look [wp_simps]: "wp (look f) Q E s = Q (f s) s"
  by (simp add: wp_def look_def)

lemma wp_change [wp_simps]: "wp (change f) Q E s = Q () (f s)"
  by (simp add: wp_def change_def)

lemma wp_guard_fault [wp_simps]:
  "wp (guard_fault f) Q E s = (case f of None \<Rightarrow> Q () s | Some e \<Rightarrow> E e s)"
  by (simp add: guard_fault_def wp_simps split: option.split)

lemma wp_if [wp_simps]: "wp (if b then m else m') Q E s = (if b then wp m Q E s else wp m' Q E s)"
  by simp

lemma wp_case_option [wp_simps]:
  "wp (case x of None \<Rightarrow> m | Some a \<Rightarrow> f a) Q E s
     = (case x of None \<Rightarrow> wp m Q E s | Some a \<Rightarrow> wp (f a) Q E s)"
  by (simp split: option.split)

lemma wp_case_sum [wp_simps]:
  "wp (case x of Inl e \<Rightarrow> f e | Inr a \<Rightarrow> g a) Q E s
     = (case x of Inl e \<Rightarrow> wp (f e) Q E s | Inr a \<Rightarrow> wp (g a) Q E s)"
  by (simp split: sum.split)

text \<open>The same equations between predicates, for a state that is not at hand.\<close>

lemma wp_ret_fun: "wp (ret a) Q E = Q a"
  and wp_throw_fun: "wp (throw e) Q E = E e"
  by (rule ext, simp add: wp_simps)+

lemma wp_bnd_fun: "wp (bnd m f) Q E = wp m (\<lambda>a. wp (f a) Q E) E"
  by (rule ext) (simp add: wp_simps)

lemma wp_try_fun: "wp (try_with m h) Q E = wp m Q (\<lambda>e. wp (h e) Q E)"
  by (rule ext) (simp add: wp_simps)

lemmas wp_fun = wp_ret_fun wp_throw_fun wp_bnd_fun wp_try_fun

lemma wp_mono:
  assumes "wp m Q E s" and "\<And>a t. Q a t \<Longrightarrow> Q' a t" and "\<And>e t. E e t \<Longrightarrow> E' e t"
  shows "wp m Q' E' s"
  using assms by (auto simp: wp_def split: prod.splits sum.splits)

lemma wp_conj:
  "wp m Q E s \<Longrightarrow> wp m Q' E' s \<Longrightarrow> wp m (\<lambda>a t. Q a t \<and> Q' a t) (\<lambda>e t. E e t \<and> E' e t) s"
  by (auto simp: wp_def split: prod.splits sum.splits)

lemma wp_ends: "wp m (\<lambda>_. R) (\<lambda>_. R) s \<longleftrightarrow> R (snd (m s))"
  by (auto simp: wp_def split: prod.splits sum.splits)

section \<open>Sessions, storage and broker\<close>

definition stmt :: "(db \<Rightarrow> db) \<Rightarrow> (sys, unit) eff" where
  "stmt f = change (\<lambda>s. s\<lparr>pending := f (pending s)\<rparr>)"

definition stmt_opt :: "(db \<Rightarrow> db option) \<Rightarrow> (sys, unit) eff" where
  "stmt_opt f =
     bnd (look pending) (\<lambda>d. case f d of None \<Rightarrow> throw IntegrityError
                                      | Some d' \<Rightarrow> change (\<lambda>s. s\<lparr>pending := d'\<rparr>))"

definition stmt_exn :: "(db \<Rightarrow> exn + db) \<Rightarrow> (sys, unit) eff" where
  "stmt_exn f =
     bnd (look pending) (\<lambda>d. case f d of Inl e \<Rightarrow> throw e | Inr d' \<Rightarrow> change (\<lambda>s. s\<lparr>pending := d'\<rparr>))"

definition query :: "(db \<Rightarrow> 'a) \<Rightarrow> (sys, 'a) eff" where
  "query f = look (\<lambda>s. f (pending s))"

definition commit :: "(sys, unit) eff" where
  "commit = change (\<lambda>s. s\<lparr>committed := pending s\<rparr>)"

definition rollback :: "(sys, unit) eff" where
  "rollback = change (\<lambda>s. s\<lparr>pending := committed s\<rparr>)"

definition in_session :: "(sys, 'a) eff \<Rightarrow> (sys, 'a) eff" where
  \<comment> \<open>\<^verbatim>\<open>async with session_factory() as session\<close>: starts from and falls back to the committed state\<close>
  "in_session m s =
     (case m (s\<lparr>pending := committed s\<rparr>) of (r, s') \<Rightarrow> (r, s'\<lparr>pending := committed s'\<rparr>))"

definition storage_exn :: "storage_error \<Rightarrow> exn" where
  "storage_exn e =
     (case e of ValueError m \<Rightarrow> PyError (lit ''ValueError'') m | NotFound \<Rightarrow> FileNotFoundError
        | IOError m \<Rightarrow> OSError m)"

definition fs_get :: "path \<Rightarrow> ustr \<Rightarrow> (sys, bytes) eff" where
  "fs_get base key =
     bnd (look files) (\<lambda>f. case storage_get base key f of Inl e \<Rightarrow> throw (storage_exn e) | Inr d \<Rightarrow> ret d)"

definition fs_put :: "path \<Rightarrow> ustr \<Rightarrow> bytes \<Rightarrow> (sys, unit) eff" where
  "fs_put base key data =
     bnd (look files) (\<lambda>f. case storage_put base key data f of Inl e \<Rightarrow> throw (storage_exn e)
        | Inr f' \<Rightarrow> change (\<lambda>s. s\<lparr>files := f'\<rparr>))"

definition fs_delete_prefix :: "path \<Rightarrow> ustr \<Rightarrow> (sys, unit) eff" where
  "fs_delete_prefix base pre =
     bnd (look files) (\<lambda>f. case storage_delete_prefix base pre f of Inl e \<Rightarrow> throw (storage_exn e)
        | Inr f' \<Rightarrow> change (\<lambda>s. s\<lparr>files := f'\<rparr>))"

definition enqueue :: "call \<Rightarrow> nat \<Rightarrow> nat \<Rightarrow> (sys, unit) eff" where
  "enqueue c retries countdown =
     change (\<lambda>s. s\<lparr>broker := broker s @ [\<lparr>tm_call = c, tm_retries = retries, tm_countdown = countdown\<rparr>]\<rparr>)"

lemma wp_stmt [wp_simps]: "wp (stmt f) Q E s = Q () (s\<lparr>pending := f (pending s)\<rparr>)"
  by (simp add: stmt_def wp_simps)

lemma wp_stmt_opt [wp_simps]:
  "wp (stmt_opt f) Q E s =
     (case f (pending s) of None \<Rightarrow> E IntegrityError s | Some d \<Rightarrow> Q () (s\<lparr>pending := d\<rparr>))"
  by (simp add: stmt_opt_def wp_simps split: option.split)

lemma wp_stmt_exn [wp_simps]:
  "wp (stmt_exn f) Q E s =
     (case f (pending s) of Inl e \<Rightarrow> E e s | Inr d \<Rightarrow> Q () (s\<lparr>pending := d\<rparr>))"
  by (simp add: stmt_exn_def wp_simps split: sum.split)

lemma wp_query [wp_simps]: "wp (query f) Q E s = Q (f (pending s)) s"
  by (simp add: query_def wp_simps)

lemma wp_commit [wp_simps]: "wp commit Q E s = Q () (s\<lparr>committed := pending s\<rparr>)"
  by (simp add: commit_def wp_simps)

lemma wp_rollback [wp_simps]: "wp rollback Q E s = Q () (s\<lparr>pending := committed s\<rparr>)"
  by (simp add: rollback_def wp_simps)

lemma wp_in_session [wp_simps]:
  "wp (in_session m) Q E s =
     wp m (\<lambda>a t. Q a (t\<lparr>pending := committed t\<rparr>)) (\<lambda>e t. E e (t\<lparr>pending := committed t\<rparr>))
       (s\<lparr>pending := committed s\<rparr>)"
  by (simp add: wp_def in_session_def split: prod.split sum.split)

lemma wp_fs_get [wp_simps]:
  "wp (fs_get base key) Q E s =
     (case storage_get base key (files s) of Inl e \<Rightarrow> E (storage_exn e) s | Inr d \<Rightarrow> Q d s)"
  by (simp add: fs_get_def wp_simps split: sum.split)

lemma wp_fs_put [wp_simps]:
  "wp (fs_put base key data) Q E s =
     (case storage_put base key data (files s) of Inl e \<Rightarrow> E (storage_exn e) s
        | Inr f \<Rightarrow> Q () (s\<lparr>files := f\<rparr>))"
  by (simp add: fs_put_def wp_simps split: sum.split)

lemma wp_fs_delete_prefix [wp_simps]:
  "wp (fs_delete_prefix base pre) Q E s =
     (case storage_delete_prefix base pre (files s) of Inl e \<Rightarrow> E (storage_exn e) s
        | Inr f \<Rightarrow> Q () (s\<lparr>files := f\<rparr>))"
  by (simp add: fs_delete_prefix_def wp_simps split: sum.split)

lemma wp_enqueue [wp_simps]:
  "wp (enqueue c r n) Q E s =
     Q () (s\<lparr>broker := broker s @ [\<lparr>tm_call = c, tm_retries = r, tm_countdown = n\<rparr>]\<rparr>)"
  by (simp add: enqueue_def wp_simps)

end
