(* ===== verification/Blocks.thy ===== *)
theory Blocks
  imports Prelude
begin

text \<open>
  The parsers' common rules: \<^verbatim>\<open>domain/entities/document.py\<close> (\<open>block\<close>,
  \<open>normalized_document\<close>) and \<^verbatim>\<open>infrastructure/parsing/blocks.py\<close> (normalisation, dropping
  of empty blocks, truncation of single blocks and tables, the limit on the whole document).
  Every parser ends in \<open>finalize_document\<close>; the interface locale \<open>document_parser\<close> states what
  the rest of the pipeline may rely on.
\<close>

section \<open>Data\<close>

datatype block_type = Heading | Paragraph | List_item | Table | Code

record block =
  b_type :: block_type
  b_text :: ustr
  b_level :: "int option"
  b_page :: "int option"
  b_rows :: "ustr list list option"

record normalized_document =
  nd_blocks :: "block list"
  nd_meta :: dict

datatype parse_error = ParseError ustr

definition text_block :: "block_type \<Rightarrow> ustr \<Rightarrow> block" where
  "text_block ty t = \<lparr>b_type = ty, b_text = t, b_level = None, b_page = None, b_rows = None\<rparr>"

definition MAX_BLOCK_CHARS :: nat where "MAX_BLOCK_CHARS = 20000"
definition MAX_DOCUMENT_CHARS :: nat where "MAX_DOCUMENT_CHARS = 2000000"

section \<open>Operations\<close>

definition replace1 :: "nat \<Rightarrow> ustr \<Rightarrow> ustr \<Rightarrow> ustr" where
  "replace1 src dst s = concat (map (\<lambda>x. if x = src then dst else [x]) s)"

fun replace_crlf :: "ustr \<Rightarrow> ustr" where
  "replace_crlf [] = []"
| "replace_crlf [c] = [c]"
| "replace_crlf (c # d # s) =
     (if c = 13 \<and> d = 10 then 10 # replace_crlf s else c # replace_crlf (d # s))"

definition newlines :: "ustr \<Rightarrow> ustr" where
  "newlines s = replace1 13 [10] (replace_crlf s)"

definition SPACE_EQUIVALENTS :: "(nat \<times> ustr) list" where
  "SPACE_EQUIVALENTS = [(0x3000, [32]), (0xA0, [32]), (0x200B, [])]"

definition normalize_text :: "ustr \<Rightarrow> ustr" where
  "normalize_text raw =
     py_strip (fold (\<lambda>(src, dst) t. replace1 src dst t) SPACE_EQUIVALENTS (newlines raw))"

definition normalize_rows :: "ustr list list \<Rightarrow> ustr list list" where
  "normalize_rows rows =
     filter (\<lambda>row. \<exists>cell \<in> set row. cell \<noteq> []) (map (map normalize_text) rows)"

definition row_chars :: "ustr list \<Rightarrow> nat" where
  "row_chars row = sum_list (map length row)"

fun cap_loop :: "ustr list list \<Rightarrow> ustr list list \<Rightarrow> nat \<Rightarrow> ustr list list \<times> bool" where
  "cap_loop [] kept tot = (kept, False)"
| "cap_loop (row # rows) kept tot =
     (let tot = tot + row_chars row
      in if tot > MAX_BLOCK_CHARS \<and> kept \<noteq> [] then (kept, True)
         else cap_loop rows (kept @ [row]) tot)"

definition cap_rows :: "ustr list list \<Rightarrow> ustr list list \<times> bool" where
  "cap_rows rows = cap_loop rows [] 0"

definition block_chars :: "block \<Rightarrow> nat" where
  "block_chars b =
     (case b_rows b of
        Some rows \<Rightarrow> sum_list (map row_chars rows)
      | None \<Rightarrow> length (b_text b))"

text \<open>
  One round of the loop body up to the running total: the block as it would be kept, and
  the warning kind when it was cut; \<open>None\<close> is the \<^verbatim>\<open>continue\<close> for an empty block.
\<close>

definition prepare_block :: "block \<Rightarrow> (block \<times> ustr option) option" where
  "prepare_block b =
     (case b_rows b of
        Some rows \<Rightarrow>
          (case normalize_rows rows of
             [] \<Rightarrow> None
           | r # rs \<Rightarrow>
               (let (rows', truncated) = cap_rows (r # rs)
                in Some (b\<lparr>b_rows := Some rows', b_text := []\<rparr>,
                         if truncated then Some (lit ''table_truncated:'') else None)))
      | None \<Rightarrow>
          (let t = normalize_text (b_text b)
           in if t = [] then None
              else if length t > MAX_BLOCK_CHARS
              then Some (b\<lparr>b_text := take MAX_BLOCK_CHARS t\<rparr>, Some (lit ''block_truncated:''))
              else Some (b\<lparr>b_text := t\<rparr>, None)))"

definition too_long_message :: ustr where
  \<comment> \<open>f"... \<open>MAX_DOCUMENT_CHARS\<close> ..." with its Chinese text as code points\<close>
  "too_long_message =
     [0x6587, 0x4EF6, 0x5167, 0x5BB9, 0x8D85, 0x904E, 0x20] @ nat_str MAX_DOCUMENT_CHARS
     @ [0x20, 0x5B57, 0x4E0A, 0x9650]"

fun finalize_loop :: "block list \<Rightarrow> block list \<Rightarrow> ustr list \<Rightarrow> nat
    \<Rightarrow> parse_error + (block list \<times> ustr list)" where
  "finalize_loop [] kept warnings tot = Inr (kept, warnings)"
| "finalize_loop (b # bs) kept warnings tot =
     (case prepare_block b of
        None \<Rightarrow> finalize_loop bs kept warnings tot
      | Some (b', trunc) \<Rightarrow>
          (let warnings = (case trunc of None \<Rightarrow> warnings
                           | Some kind \<Rightarrow> warnings @ [kind @ nat_str (length kept)]);
               tot = tot + block_chars b'
           in if tot > MAX_DOCUMENT_CHARS then Inl (ParseError too_long_message)
              else finalize_loop bs (kept @ [b']) warnings tot))"

definition finalize_document :: "block list \<Rightarrow> dict \<Rightarrow> parse_error + normalized_document" where
  "finalize_document blocks meta =
     (case finalize_loop blocks [] [] 0 of
        Inl e \<Rightarrow> Inl e
      | Inr (kept, warnings) \<Rightarrow>
          Inr \<lparr>nd_blocks = kept,
               nd_meta = (if warnings = [] then meta
                          else dict_set (lit ''warnings'') (JList (map JStr warnings)) meta)\<rparr>)"

section \<open>Normalisation\<close>

lemma replace1_id: "c \<notin> set s \<Longrightarrow> replace1 c d s = s"
  by (induction s) (auto simp: replace1_def)

lemma set_replace1: "set (replace1 c d s) \<subseteq> (set s - {c}) \<union> set d"
  by (induction s) (auto simp: replace1_def split: if_splits)

lemma set_replace_crlf: "set (replace_crlf s) \<subseteq> set s"
  by (induction s rule: replace_crlf.induct) auto

lemma replace_crlf_id: "13 \<notin> set s \<Longrightarrow> replace_crlf s = s"
  by (induction s rule: replace_crlf.induct) auto

definition clean_text :: "ustr \<Rightarrow> bool" where
  "clean_text t \<longleftrightarrow> set t \<inter> {13, 0x3000, 0xA0, 0x200B} = {}"

lemma newlines_no_cr: "13 \<notin> set (newlines s)"
  using set_replace1 [of 13 "[10]"] by (fastforce simp: newlines_def)

lemma newlines_id: "13 \<notin> set s \<Longrightarrow> newlines s = s"
  by (simp add: newlines_def replace_crlf_id replace1_id)

lemma clean_spaces:
  assumes "13 \<notin> set s"
  shows "clean_text (fold (\<lambda>(src, dst) t. replace1 src dst t) SPACE_EQUIVALENTS s)"
proof -
  let ?a = "replace1 0x3000 [32] s"
  let ?b = "replace1 0xA0 [32] ?a"
  have "set ?a \<inter> {13, 0x3000} = {}" using assms set_replace1 [of "0x3000" "[32]" s] by auto
  then have "set ?b \<inter> {13, 0x3000, 0xA0} = {}" using set_replace1 [of "0xA0" "[32]" ?a] by auto
  then show ?thesis
    using set_replace1 [of "0x200B" "[]" ?b] by (auto simp: clean_text_def SPACE_EQUIVALENTS_def)
qed

lemma clean_text_mono: "set t \<subseteq> set s \<Longrightarrow> clean_text s \<Longrightarrow> clean_text t"
  by (auto simp: clean_text_def)

lemma normalize_clean: "clean_text (normalize_text s)"
  unfolding normalize_text_def py_strip_def
  by (rule clean_text_mono [OF set_strip_by clean_spaces [OF newlines_no_cr]])

lemma normalize_of_clean: "clean_text t \<Longrightarrow> normalize_text t = py_strip t"
  by (simp add: normalize_text_def SPACE_EQUIVALENTS_def clean_text_def newlines_id replace1_id)

text \<open>normalising a text twice is the same as normalising it once, so re-parsing stored text is stable.\<close>

theorem normalize_text_idem: "normalize_text (normalize_text s) = normalize_text s"
proof -
  have "py_strip (normalize_text s) = normalize_text s" by (simp add: normalize_text_def)
  then show ?thesis by (simp add: normalize_of_clean normalize_clean)
qed

section \<open>Tables\<close>

lemma cap_loop_prefix:
  "cap_loop rows kept tot = (rows', trunc) \<Longrightarrow>
     \<exists>n \<le> length rows. rows' = kept @ take n rows \<and> (trunc \<longleftrightarrow> n < length rows)"
proof (induction rows kept tot rule: cap_loop.induct)
  case (2 row rows kept tot)
  show ?case
  proof (cases "tot + row_chars row > MAX_BLOCK_CHARS \<and> kept \<noteq> []")
    case True
    with "2.prems" show ?thesis by (intro exI [of _ 0]) (auto simp: Let_def)
  next
    case False
    with "2.prems" have "cap_loop rows (kept @ [row]) (tot + row_chars row) = (rows', trunc)"
      by (auto simp: Let_def)
    with "2.IH" [OF refl False] obtain n where
      "n \<le> length rows" "rows' = (kept @ [row]) @ take n rows" "trunc \<longleftrightarrow> n < length rows"
      by auto
    then show ?thesis by (intro exI [of _ "Suc n"]) auto
  qed
qed auto

lemma cap_loop_bound:
  "cap_loop rows kept tot = (rows', trunc) \<Longrightarrow> tot = sum_list (map row_chars kept)
     \<Longrightarrow> sum_list (map row_chars kept) \<le> MAX_BLOCK_CHARS \<or> length kept \<le> 1
     \<Longrightarrow> sum_list (map row_chars rows') \<le> MAX_BLOCK_CHARS \<or> length rows' \<le> 1"
proof (induction rows kept tot rule: cap_loop.induct)
  case (2 row rows kept tot)
  show ?case
  proof (cases "tot + row_chars row > MAX_BLOCK_CHARS \<and> kept \<noteq> []")
    case True
    with "2.prems" show ?thesis by (auto simp: Let_def)
  next
    case False
    with "2.prems"(1) have "cap_loop rows (kept @ [row]) (tot + row_chars row) = (rows', trunc)"
      by (auto simp: Let_def)
    with "2.IH" [OF refl False] "2.prems"(2) False show ?thesis by auto
  qed
qed auto

lemma cap_loop_nonempty: "cap_loop rows kept tot = (rows', trunc) \<Longrightarrow> kept \<noteq> [] \<Longrightarrow> rows' \<noteq> []"
  using cap_loop_prefix by fastforce

text \<open>
  a table is cut only at row boundaries: what is kept is a prefix of its rows, the warning
  flag says whether anything was dropped, a non-empty table keeps a row, and what is kept
  stays within the block limit unless it is one single row.
\<close>

theorem cap_rows_spec:
  assumes "cap_rows rows = (rows', trunc)"
  shows "(\<exists>n \<le> length rows. rows' = take n rows \<and> (trunc \<longleftrightarrow> n < length rows))
    \<and> (rows \<noteq> [] \<longrightarrow> rows' \<noteq> [])
    \<and> (sum_list (map row_chars rows') \<le> MAX_BLOCK_CHARS \<or> length rows' = 1)"
proof -
  from assms have c: "cap_loop rows [] 0 = (rows', trunc)" by (simp add: cap_rows_def)
  have ne: "rows \<noteq> [] \<longrightarrow> rows' \<noteq> []"
  proof (cases rows)
    case (Cons r rs)
    with c have "cap_loop rs [r] (row_chars r) = (rows', trunc)" by simp
    then show ?thesis using cap_loop_nonempty by blast
  qed simp
  from cap_loop_bound [OF c] have "sum_list (map row_chars rows') \<le> MAX_BLOCK_CHARS \<or> length rows' \<le> 1"
    by simp
  then have "sum_list (map row_chars rows') \<le> MAX_BLOCK_CHARS \<or> length rows' = 1"
    by (cases rows') auto
  with cap_loop_prefix [OF c] ne show ?thesis by auto
qed

theorem cap_rows_spec_witness:
  "cap_rows [[[1, 2]], [[3]]] = ([[[1, 2]], [[3]]], False)
   \<and> (sum_list (map row_chars [[[1, 2]], [[3]]]) \<le> MAX_BLOCK_CHARS \<or> length [[[1, 2]], [[3::nat]]] = 1)"
proof -
  have h: "cap_rows [[[1, 2]], [[3]]] = ([[[1, 2]], [[3]]], False)"
    by (simp add: cap_rows_def Let_def row_chars_def MAX_BLOCK_CHARS_def)
  show ?thesis using h cap_rows_spec [OF h] by blast
qed

section \<open>The whole document\<close>

text \<open>What a block looks like after the common rules.\<close>

definition normal_block :: "block \<Rightarrow> bool" where
  "normal_block b \<longleftrightarrow>
     (case b_rows b of
        None \<Rightarrow> b_text b \<noteq> [] \<and> length (b_text b) \<le> MAX_BLOCK_CHARS \<and> clean_text (b_text b)
      | Some rows \<Rightarrow> b_text b = [] \<and> rows \<noteq> []
          \<and> (\<forall>row \<in> set rows. (\<exists>cell \<in> set row. cell \<noteq> []) \<and> (\<forall>cell \<in> set row. clean_text cell))
          \<and> (block_chars b \<le> MAX_BLOCK_CHARS \<or> length rows = 1))"

definition prepared :: "block list \<Rightarrow> (block \<times> ustr option) list" where
  "prepared bs = List.map_filter prepare_block bs"

definition chars_of :: "block list \<Rightarrow> nat" where
  "chars_of bs = sum_list (map block_chars bs)"

definition cut_warnings :: "nat \<Rightarrow> (block \<times> ustr option) list \<Rightarrow> ustr list" where
  "cut_warnings i ps =
     concat (map (\<lambda>(j, (_, c)). case c of None \<Rightarrow> [] | Some kind \<Rightarrow> [kind @ nat_str j])
       (enumerate i ps))"

lemma prepared_simps [simp]:
  "prepared [] = []"
  "prepared (b # bs) = (case prepare_block b of None \<Rightarrow> prepared bs | Some p \<Rightarrow> p # prepared bs)"
  by (simp_all add: prepared_def List.map_filter_simps split: option.split)

lemma cut_warnings_simps [simp]:
  "cut_warnings i [] = []"
  "cut_warnings i ((b, c) # ps) =
     (case c of None \<Rightarrow> [] | Some kind \<Rightarrow> [kind @ nat_str i]) @ cut_warnings (Suc i) ps"
  by (simp_all add: cut_warnings_def)

lemma normalize_rows_normal:
  assumes "row \<in> set (normalize_rows rows)"
  shows "\<exists>cell \<in> set row. cell \<noteq> []" and "\<forall>cell \<in> set row. clean_text cell"
  using assms by (auto simp: normalize_rows_def normalize_clean)

lemma prepare_block_normal:
  assumes "prepare_block b = Some (b', trunc)"
  shows "normal_block b'"
proof (cases "b_rows b")
  case None
  have "clean_text (take MAX_BLOCK_CHARS (normalize_text (b_text b)))"
    by (rule clean_text_mono [OF set_take_subset normalize_clean])
  with None assms show ?thesis
    by (auto simp: prepare_block_def normal_block_def Let_def normalize_clean
        MAX_BLOCK_CHARS_def split: if_splits)
next
  case (Some rows)
  with assms obtain r rs rows' trunc' where n: "normalize_rows rows = r # rs"
    and c: "cap_rows (r # rs) = (rows', trunc')" and b': "b' = b\<lparr>b_rows := Some rows', b_text := []\<rparr>"
    by (auto simp: prepare_block_def split: list.splits prod.splits)
  have "set rows' \<subseteq> set (normalize_rows rows)"
    using cap_rows_spec [OF c] n set_take_subset by metis
  then have "\<forall>row \<in> set rows'. (\<exists>cell \<in> set row. cell \<noteq> []) \<and> (\<forall>cell \<in> set row. clean_text cell)"
    using normalize_rows_normal by blast
  with cap_rows_spec [OF c] b' show ?thesis by (simp add: normal_block_def block_chars_def)
qed

lemma finalize_loop_spec:
  assumes "tot \<le> MAX_DOCUMENT_CHARS"
  shows "finalize_loop bs kept warnings tot =
    (if tot + chars_of (map fst (prepared bs)) > MAX_DOCUMENT_CHARS
     then Inl (ParseError too_long_message)
     else Inr (kept @ map fst (prepared bs), warnings @ cut_warnings (length kept) (prepared bs)))"
  using assms
proof (induction bs arbitrary: kept warnings tot)
  case (Cons b bs)
  show ?case
  proof (cases "prepare_block b")
    case None
    with Cons show ?thesis by simp
  next
    case (Some p)
    obtain b' trunc where p: "p = (b', trunc)" by (cases p)
    show ?thesis
    proof (cases "tot + block_chars b' > MAX_DOCUMENT_CHARS")
      case True
      with Some p show ?thesis by (simp add: chars_of_def Let_def)
    next
      case False
      with Some p Cons.IH [of "tot + block_chars b'"] show ?thesis
        by (simp add: chars_of_def Let_def split: option.split)
    qed
  qed
qed (simp add: chars_of_def)

lemma finalize_is_declared:
  "finalize_document bs meta =
    (let ps = prepared bs; ws = cut_warnings 0 ps
     in if chars_of (map fst ps) > MAX_DOCUMENT_CHARS then Inl (ParseError too_long_message)
        else Inr \<lparr>nd_blocks = map fst ps,
                  nd_meta = (if ws = [] then meta
                             else dict_set (lit ''warnings'') (JList (map JStr ws)) meta)\<rparr>)"
  by (simp add: finalize_document_def finalize_loop_spec Let_def)

text \<open>
  every block of a finalized document is in normal form (no empty block, no carriage return,
  full-width or zero-width space left, single blocks within the limit) and the document as a whole
  is within the limit.
\<close>

theorem finalize_document_normal:
  assumes "finalize_document bs meta = Inr nd"
  shows "(\<forall>b \<in> set (nd_blocks nd). normal_block b) \<and> chars_of (nd_blocks nd) \<le> MAX_DOCUMENT_CHARS"
proof -
  from assms have "nd_blocks nd = map fst (prepared bs)"
    and "chars_of (nd_blocks nd) \<le> MAX_DOCUMENT_CHARS"
    by (auto simp: finalize_is_declared Let_def split: if_splits)
  moreover have "normal_block b'" if "(b', c) \<in> set (prepared bs)" for b' c
    using that prepare_block_normal by (auto simp: prepared_def List.map_filter_def)
  ultimately show ?thesis by auto
qed

theorem finalize_document_normal_witness:
  "\<exists>nd. finalize_document [text_block Paragraph (lit '' a ''), text_block Code (lit ''  '')] [] = Inr nd
     \<and> nd_blocks nd = [text_block Paragraph (lit ''a'')]
     \<and> normal_block (hd (nd_blocks nd)) \<and> chars_of (nd_blocks nd) \<le> MAX_DOCUMENT_CHARS"
proof -
  let ?nd = "\<lparr>nd_blocks = [text_block Paragraph (lit ''a'')], nd_meta = []\<rparr>"
  have h: "finalize_document [text_block Paragraph (lit '' a ''), text_block Code (lit ''  '')] []
      = Inr ?nd"
    by (simp add: finalize_document_def prepare_block_def text_block_def normalize_text_def
        newlines_def replace1_def SPACE_EQUIVALENTS_def py_strip_def strip_by_def py_space_def
        block_chars_def MAX_BLOCK_CHARS_def MAX_DOCUMENT_CHARS_def Let_def)
  show ?thesis using h finalize_document_normal [OF h] by (intro exI [of _ ?nd]) simp
qed

section \<open>The parser interface\<close>

text \<open>
  The port \<^verbatim>\<open>domain/ports/parser.py\<close>: what the pipeline and the chunking strategies rely on
  when a parser succeeds. It is interpreted on each parser in the theories that define them.
\<close>

locale document_parser =
  fixes parse :: "bytes \<Rightarrow> ustr \<Rightarrow> parse_error + normalized_document"
  assumes parse_blocks: "parse data name = Inr nd \<Longrightarrow> b \<in> set (nd_blocks nd) \<Longrightarrow> normal_block b"
    and parse_size: "parse data name = Inr nd \<Longrightarrow> chars_of (nd_blocks nd) \<le> MAX_DOCUMENT_CHARS"
begin

lemma block_has_chars: "normal_block b \<Longrightarrow> 0 < block_chars b"
proof (cases "b_rows b")
  case (Some rows)
  assume "normal_block b"
  with Some have "rows \<noteq> []" and "\<forall>row \<in> set rows. \<exists>cell \<in> set row. cell \<noteq> []"
    by (auto simp: normal_block_def)
  then obtain row cell where "row \<in> set rows" "cell \<in> set row" "cell \<noteq> []"
    by (cases rows) auto
  have "length cell \<le> row_chars row"
    unfolding row_chars_def by (rule member_le_sum_list) (simp_all add: \<open>cell \<in> set row\<close>)
  moreover have "row_chars row \<le> block_chars b"
    unfolding block_chars_def Some option.case
    by (rule member_le_sum_list) (simp_all add: \<open>row \<in> set rows\<close>)
  ultimately show ?thesis using \<open>cell \<noteq> []\<close> by (cases cell) auto
qed (auto simp: normal_block_def block_chars_def)

lemma block_count:
  assumes "parse data name = Inr nd"
  shows "length (nd_blocks nd) \<le> MAX_DOCUMENT_CHARS"
proof -
  have "length bs \<le> chars_of bs" if "\<forall>b \<in> set bs. normal_block b" for bs
    using that by (induction bs) (auto simp: chars_of_def Suc_le_eq add.commute
        dest!: block_has_chars intro: add_less_le_mono)
  then show ?thesis using parse_blocks [OF assms] parse_size [OF assms] order_trans by blast
qed

end

end
