(* ===== verification/Text_Parsers.thy ===== *)
theory Text_Parsers
  imports Blocks
begin

text \<open>
  \<^verbatim>\<open>infrastructure/parsing/text.py\<close>: decoding, the paragraph split on blank lines, the plain
  text parser and the line-by-line Markdown parser (ATX headings and fenced code blocks only).
  The three codecs are parameters (\<open>decode enc data\<close> is \<open>None\<close> for a \<^verbatim>\<open>UnicodeDecodeError\<close>).
\<close>

datatype encoding = Utf8_sig | Utf8 | Cp950

definition ENCODING_CHAIN :: "encoding list" where
  "ENCODING_CHAIN = [Utf8_sig, Utf8, Cp950]"

definition decode_failed_message :: ustr where
  "decode_failed_message =
     [0x7121, 0x6CD5, 0x4EE5, 0x20] @ lit ''utf-8-sig/utf-8/cp950''
     @ [0x20, 0x89E3, 0x78BC, 0x6587, 0x5B57, 0x6A94]"

fun try_decode :: "(encoding \<Rightarrow> bytes \<Rightarrow> ustr option) \<Rightarrow> bytes \<Rightarrow> encoding list
    \<Rightarrow> parse_error + ustr" where
  "try_decode decode data [] = Inl (ParseError decode_failed_message)"
| "try_decode decode data (e # es) =
     (case decode e data of Some t \<Rightarrow> Inr t | None \<Rightarrow> try_decode decode data es)"

definition decode_text :: "(encoding \<Rightarrow> bytes \<Rightarrow> ustr option) \<Rightarrow> bytes \<Rightarrow> parse_error + ustr" where
  "decode_text decode data = try_decode decode data ENCODING_CHAIN"

section \<open>Paragraphs\<close>

text \<open>A match of \<^verbatim>\<open>\n[ \t]*\n\<close> at the start of the text: the rest after it.\<close>

definition blank :: "nat \<Rightarrow> bool" where
  "blank c \<longleftrightarrow> c = 32 \<or> c = 9"

definition match_separator :: "ustr \<Rightarrow> ustr option" where
  "match_separator s =
     (case s of
        [] \<Rightarrow> None
      | c # r \<Rightarrow>
          if c = nl then
            (case dropWhile blank r of
               [] \<Rightarrow> None
             | d # r' \<Rightarrow> if d = nl then Some r' else None)
          else None)"

lemma match_separator_shorter [termination_simp]:
  "match_separator s = Some r \<Longrightarrow> length r < length s"
proof -
  assume "match_separator s = Some r"
  then obtain q where q: "s = nl # q" "dropWhile blank q = nl # r"
    by (auto simp: match_separator_def split: list.splits if_splits)
  have "length (dropWhile blank q) \<le> length q" by (rule length_dropWhile_le)
  with q show ?thesis by simp
qed

fun split_paragraphs :: "ustr \<Rightarrow> ustr list" where
  "split_paragraphs s =
     (case match_separator s of
        Some r \<Rightarrow> [] # split_paragraphs r
      | None \<Rightarrow>
          (case s of
             [] \<Rightarrow> [[]]
           | c # r \<Rightarrow>
               (case split_paragraphs r of
                  [] \<Rightarrow> [[c]]
                | p # ps \<Rightarrow> (c # p) # ps)))"

declare split_paragraphs.simps [simp del]

definition paragraph_blocks :: "ustr \<Rightarrow> block list" where
  "paragraph_blocks t = map (text_block Paragraph) (split_paragraphs t)"

definition parse_plain :: "(encoding \<Rightarrow> bytes \<Rightarrow> ustr option) \<Rightarrow> bytes \<Rightarrow> ustr
    \<Rightarrow> parse_error + normalized_document" where
  "parse_plain decode data filename =
     (case decode_text decode data of
        Inl e \<Rightarrow> Inl e
      | Inr t \<Rightarrow> finalize_document (paragraph_blocks t) [(lit ''source_mime'', JStr (lit ''text/plain''))])"

section \<open>Markdown\<close>

record md_state =
  md_blocks :: "block list"
  md_buffer :: "ustr list"
  md_fence :: "ustr list option"

definition fence_line :: "ustr \<Rightarrow> bool" where
  "fence_line line \<longleftrightarrow> py_prefix (lit ''```'') (py_strip line)"

text \<open>\<^verbatim>\<open>^(#{1,6})\s+(.*)$\<close> on one line: the number of marks and the title.\<close>

definition atx_heading :: "ustr \<Rightarrow> (nat \<times> ustr) option" where
  "atx_heading line =
     (let n = min 6 (length (takeWhile (\<lambda>c. c = 35) line));
          rest = drop n line
      in if 1 \<le> n \<and> takeWhile py_space rest \<noteq> []
         then Some (n, dropWhile py_space rest) else None)"

definition flush_paragraph :: "md_state \<Rightarrow> md_state" where
  "flush_paragraph s =
     (if md_buffer s \<noteq> []
      then s\<lparr>md_blocks := md_blocks s @ paragraph_blocks (str_join [nl] (md_buffer s)),
             md_buffer := []\<rparr>
      else s)"

definition append_block :: "block \<Rightarrow> md_state \<Rightarrow> md_state" where
  "append_block b s = s\<lparr>md_blocks := md_blocks s @ [b]\<rparr>"

definition md_step :: "md_state \<Rightarrow> ustr \<Rightarrow> md_state" where
  "md_step s line =
     (if fence_line line then
        (case md_fence s of
           None \<Rightarrow> (flush_paragraph s)\<lparr>md_fence := Some []\<rparr>
         | Some ls \<Rightarrow> (append_block (text_block Code (str_join [nl] ls)) s)\<lparr>md_fence := None\<rparr>)
      else
        (case md_fence s of
           Some ls \<Rightarrow> s\<lparr>md_fence := Some (ls @ [line])\<rparr>
         | None \<Rightarrow>
             (case atx_heading line of
                Some (n, title) \<Rightarrow>
                  append_block ((text_block Heading title)\<lparr>b_level := Some (int n)\<rparr>)
                    (flush_paragraph s)
              | None \<Rightarrow>
                  if py_strip line = [] then flush_paragraph s
                  else s\<lparr>md_buffer := md_buffer s @ [line]\<rparr>)))"

definition md_finish :: "md_state \<Rightarrow> md_state" where
  "md_finish s =
     flush_paragraph
       (case md_fence s of
          Some ls \<Rightarrow> append_block (text_block Code (str_join [nl] ls)) s
        | None \<Rightarrow> s)"

definition md_raw_blocks :: "ustr \<Rightarrow> block list" where
  "md_raw_blocks t =
     md_blocks (md_finish (foldl md_step \<lparr>md_blocks = [], md_buffer = [], md_fence = None\<rparr>
       (split_on nl t)))"

definition parse_markdown :: "(encoding \<Rightarrow> bytes \<Rightarrow> ustr option) \<Rightarrow> bytes \<Rightarrow> ustr
    \<Rightarrow> parse_error + normalized_document" where
  "parse_markdown decode data filename =
     (case decode_text decode data of
        Inl e \<Rightarrow> Inl e
      | Inr t \<Rightarrow>
          finalize_document (md_raw_blocks (newlines t))
            [(lit ''source_mime'', JStr (lit ''text/markdown''))])"

section \<open>Decoding\<close>

text \<open>
  decoding fails only when all three codecs reject the bytes; otherwise the text is the one of
  the first codec of the chain that accepts them, so cp950 is only tried after UTF-8 has failed.
\<close>

theorem decode_text_spec:
  "decode_text decode data =
     (case List.map_filter (\<lambda>e. decode e data) ENCODING_CHAIN of
        [] \<Rightarrow> Inl (ParseError decode_failed_message)
      | t # _ \<Rightarrow> Inr t)"
  by (auto simp: decode_text_def ENCODING_CHAIN_def List.map_filter_simps split: option.split)

section \<open>Paragraph splitting loses only white space\<close>

definition ink :: "ustr \<Rightarrow> ustr" where
  "ink s = filter (\<lambda>c. \<not> py_space c) s"

lemma ink_simps [simp]:
  "ink [] = []"
  "ink (a @ b) = ink a @ ink b"
  by (simp_all add: ink_def)

lemma blank_space: "blank c \<Longrightarrow> py_space c"
  by (auto simp: blank_def py_space_def)

lemma ink_dropWhile_blank: "ink (dropWhile blank s) = ink s"
  by (induction s) (auto simp: ink_def blank_space)

lemma ink_dropWhile_space: "ink (dropWhile py_space s) = ink s"
  by (induction s) (auto simp: ink_def)

lemma ink_nl: "ink (nl # s) = ink s"
  by (simp add: ink_def py_space_def)

lemma match_separator_ink: "match_separator s = Some r \<Longrightarrow> ink r = ink s"
proof -
  assume "match_separator s = Some r"
  then obtain q where q: "s = nl # q" "dropWhile blank q = nl # r"
    by (auto simp: match_separator_def split: list.splits if_splits)
  have "ink q = ink (nl # r)" using ink_dropWhile_blank [of q] q by simp
  with q show ?thesis by (simp add: ink_nl)
qed

lemma split_paragraphs_ink: "concat (map ink (split_paragraphs s)) = ink s"
proof (induction s rule: split_paragraphs.induct)
  case (1 s)
  show ?case
  proof (cases "match_separator s")
    case (Some r)
    with "1.IH"(2) [OF Some] match_separator_ink [OF Some] show ?thesis
      by (simp add: split_paragraphs.simps [of s])
  next
    case None
    show ?thesis
    proof (cases s)
      case Nil
      with None show ?thesis by (simp add: split_paragraphs.simps [of "[]"])
    next
      case (Cons c r)
      with "1.IH"(1) [OF None Cons] None show ?thesis
        by (auto simp: split_paragraphs.simps [of "c # r"] ink_def split: list.splits)
    qed
  qed
qed

lemma paragraph_blocks_ink: "concat (map (ink \<circ> b_text) (paragraph_blocks s)) = ink s"
  using split_paragraphs_ink [of s] by (simp add: paragraph_blocks_def text_block_def comp_def)

lemma ink_join_nl: "ink (str_join [nl] ls) = concat (map ink ls)"
  by (induction "[nl]" ls rule: str_join.induct) (auto simp: ink_nl)

section \<open>Markdown keeps every line\<close>

text \<open>What the lines say, apart from fence lines, heading marks and white space.\<close>

fun md_ink :: "bool \<Rightarrow> ustr list \<Rightarrow> ustr" where
  "md_ink fenced [] = []"
| "md_ink fenced (l # ls) =
     (if fence_line l then md_ink (\<not> fenced) ls
      else if fenced then ink l @ md_ink fenced ls
      else (case atx_heading l of
              Some (n, title) \<Rightarrow> ink title @ md_ink fenced ls
            | None \<Rightarrow> ink l @ md_ink fenced ls))"

definition block_ink :: "block list \<Rightarrow> ustr" where
  "block_ink bs = concat (map (ink \<circ> b_text) bs)"

definition state_ink :: "md_state \<Rightarrow> ustr" where
  "state_ink s = block_ink (md_blocks s) @ concat (map ink (md_buffer s))
     @ (case md_fence s of None \<Rightarrow> [] | Some ls \<Rightarrow> concat (map ink ls))"

definition md_inv :: "md_state \<Rightarrow> bool" where
  "md_inv s \<longleftrightarrow> (md_fence s \<noteq> None \<longrightarrow> md_buffer s = [])"

lemma block_ink_simps [simp]:
  "block_ink [] = []"
  "block_ink (b # bs) = ink (b_text b) @ block_ink bs"
  "block_ink (as @ bs) = block_ink as @ block_ink bs"
  by (simp_all add: block_ink_def)

lemma flush_ink:
  "block_ink (md_blocks (flush_paragraph s)) = block_ink (md_blocks s) @ concat (map ink (md_buffer s))"
  "md_buffer (flush_paragraph s) = []"
  "md_fence (flush_paragraph s) = md_fence s"
  using paragraph_blocks_ink [of "str_join [nl] (md_buffer s)"]
  by (auto simp: flush_paragraph_def block_ink_def ink_join_nl)

lemma ink_blank_line: "py_strip l = [] \<Longrightarrow> ink l = []"
  by (auto simp: py_strip_def strip_by_eq_Nil ink_def)

lemma md_step_ink:
  assumes "md_inv s"
  shows "md_inv (md_step s l)
    \<and> state_ink (md_step s l) @ md_ink (md_fence (md_step s l) \<noteq> None) ls
      = state_ink s @ md_ink (md_fence s \<noteq> None) (l # ls)"
proof (cases "md_fence s")
  case None
  then show ?thesis
    by (auto simp: md_step_def state_ink_def md_inv_def append_block_def text_block_def flush_ink
        ink_blank_line split: option.split)
next
  case (Some fl)
  with assms have "md_buffer s = []" by (simp add: md_inv_def)
  with Some show ?thesis
    by (auto simp: md_step_def state_ink_def md_inv_def append_block_def text_block_def ink_join_nl)
qed

lemma md_run_ink:
  "md_inv s \<Longrightarrow> md_inv (foldl md_step s ls)
     \<and> state_ink (foldl md_step s ls) = state_ink s @ md_ink (md_fence s \<noteq> None) ls"
proof (induction ls arbitrary: s)
  case (Cons l ls)
  from md_step_ink [OF Cons.prems] Cons.IH [of "md_step s l"] show ?case
    by (metis foldl_Cons)
qed simp

lemma md_finish_ink: "md_inv s \<Longrightarrow> block_ink (md_blocks (md_finish s)) = state_ink s"
  by (auto simp: md_finish_def flush_ink state_ink_def md_inv_def append_block_def text_block_def
      ink_join_nl split: option.split)

text \<open>
  the Markdown parser drops nothing and reorders nothing: the blocks it builds contain, in
  order, exactly the non-blank characters of the lines, with fence lines and heading marks left
  out; an unclosed fence is kept as code.
\<close>

theorem markdown_keeps_content:
  "concat (map (ink \<circ> b_text) (md_raw_blocks t)) = md_ink False (split_on nl t)"
proof -
  let ?s0 = "\<lparr>md_blocks = [], md_buffer = [], md_fence = None\<rparr>"
  have "md_inv ?s0" by (simp add: md_inv_def)
  from md_run_ink [OF this, of "split_on nl t"] show ?thesis
    by (simp add: md_raw_blocks_def md_finish_ink block_ink_def [symmetric])
      (simp add: state_ink_def)
qed

section \<open>Both parsers meet the parser interface\<close>

interpretation plain: document_parser "parse_plain decode" for decode
  by unfold_locales (auto simp: parse_plain_def dest: finalize_document_normal split: sum.splits)

interpretation markdown: document_parser "parse_markdown decode" for decode
  by unfold_locales (auto simp: parse_markdown_def dest: finalize_document_normal split: sum.splits)

end
