(* ===== verification/Parsers.thy ===== *)
theory Parsers
  imports Complex_Main Text_Parsers
begin

text \<open>
  The DOCX, PDF and HTML parsers (\<^verbatim>\<open>infrastructure/parsing/docx.py\<close>, \<^verbatim>\<open>pdf.py\<close>, \<^verbatim>\<open>html.py\<close>)
  and the parser registry (\<^verbatim>\<open>registry.py\<close>). What the third-party readers deliver is a parameter
  (\<open>parser_libs\<close>): the archive listing and body of a DOCX, the pages of a PDF, the wanted
  elements of an HTML page in document order. What the program does with it is modelled: guards,
  heading heuristics, skipping rules, page numbers. Font sizes are rationals: a float is one
  exactly, and the only operation on it that rounds is the ratio to the body size.
\<close>

section \<open>What the libraries deliver\<close>

record docx_paragraph =
  dp_style :: "ustr option option"
  dp_text :: ustr

datatype docx_child = Docx_p docx_paragraph | Docx_tbl "ustr list list" | Docx_other

record pdf_span =
  sp_text :: "ustr option"
  sp_size :: "rat option"
  sp_flags :: "int option"

record pdf_raw_block =
  pr_type :: "int option"
  pr_lines :: "pdf_span list list"

record pdf_file =
  pf_needs_pass :: bool
  pf_pages :: "pdf_raw_block list list"

datatype html_name = Tag_h nat | Tag_p | Tag_li | Tag_table

record html_element =
  he_name :: html_name
  he_text :: ustr
  he_in_table :: bool
  he_in_li :: bool
  he_rows :: "ustr list list"

record parser_libs =
  lib_decode :: "encoding \<Rightarrow> bytes \<Rightarrow> ustr option"
  lib_zip_sizes :: "bytes \<Rightarrow> nat list option"
  lib_open_docx :: "bytes \<Rightarrow> docx_child list option"
  lib_int :: "ustr \<Rightarrow> int option"
  lib_open_pdf :: "bytes \<Rightarrow> pdf_file option"
  lib_soup :: "ustr \<Rightarrow> html_element list"

section \<open>DOCX\<close>

definition MAX_UNCOMPRESSED_BYTES :: nat where
  "MAX_UNCOMPRESSED_BYTES = 200 * 1024 * 1024"

definition LIST_STYLE_PREFIXES :: "ustr list" where
  "LIST_STYLE_PREFIXES = [lit ''List'', [0x6E05, 0x55AE], [0x9805, 0x76EE, 0x7B26, 0x865F]]"

definition MAX_HEADING_LEVEL :: int where "MAX_HEADING_LEVEL = 6"

definition guard_zip_bomb :: "(bytes \<Rightarrow> nat list option) \<Rightarrow> bytes \<Rightarrow> parse_error option" where
  "guard_zip_bomb zip_sizes data =
     (case zip_sizes data of
        None \<Rightarrow> Some (ParseError (lit ''DOCX '' @ [0x6A94, 0x6848, 0x640D, 0x6BC0]))
      | Some sizes \<Rightarrow>
          if sum_list sizes > MAX_UNCOMPRESSED_BYTES
          then Some (ParseError (lit ''DOCX '' @
                 [0x89E3, 0x58D3, 0x5F8C, 0x9AD4, 0x7A4D, 0x8D85, 0x904E, 0x4E0A, 0x9650]))
          else None)"

definition docx_heading_level :: "(ustr \<Rightarrow> int option) \<Rightarrow> ustr \<Rightarrow> int option" where
  "docx_heading_level int_of style =
     (if \<not> py_prefix (lit ''Heading '') style then None
      else map_option (\<lambda>level. min level MAX_HEADING_LEVEL)
             (int_of (py_strip (drop (length (lit ''Heading '')) style))))"

definition paragraph_block :: "(ustr \<Rightarrow> int option) \<Rightarrow> docx_paragraph \<Rightarrow> block" where
  "paragraph_block int_of p =
     (let style = (case dp_style p of Some (Some name) \<Rightarrow> name | _ \<Rightarrow> [])
      in case docx_heading_level int_of style of
           Some level \<Rightarrow> (text_block Heading (dp_text p))\<lparr>b_level := Some level\<rparr>
         | None \<Rightarrow>
             if \<exists>pre \<in> set LIST_STYLE_PREFIXES. py_prefix pre style
             then text_block List_item (dp_text p)
             else text_block Paragraph (dp_text p))"

definition docx_child_blocks :: "(ustr \<Rightarrow> int option) \<Rightarrow> docx_child \<Rightarrow> block list" where
  "docx_child_blocks int_of c =
     (case c of
        Docx_p p \<Rightarrow> [paragraph_block int_of p]
      | Docx_tbl rows \<Rightarrow> [(text_block Table [])\<lparr>b_rows := Some rows\<rparr>]
      | Docx_other \<Rightarrow> [])"

definition docx_mime :: ustr where
  "docx_mime = lit ''application/vnd.openxmlformats-officedocument.wordprocessingml.document''"

definition parse_docx :: "parser_libs \<Rightarrow> bytes \<Rightarrow> ustr \<Rightarrow> parse_error + normalized_document" where
  "parse_docx libs data filename =
     (case guard_zip_bomb (lib_zip_sizes libs) data of
        Some e \<Rightarrow> Inl e
      | None \<Rightarrow>
          (case lib_open_docx libs data of
             None \<Rightarrow> Inl (ParseError (lit ''DOCX '' @ [0x7121, 0x6CD5, 0x89E3, 0x6790]))
           | Some body \<Rightarrow>
               finalize_document (concat (map (docx_child_blocks (lib_int libs)) body))
                 [(lit ''source_mime'', JStr docx_mime)]))"

section \<open>PDF\<close>

definition BOLD_FLAG :: int where "BOLD_FLAG = push_bit 4 1"
definition HEADING_MAX_CHARS :: nat where "HEADING_MAX_CHARS = 80"
definition H1_RATIO :: rat where "H1_RATIO = 3 / 2"
definition H2_RATIO :: rat where "H2_RATIO = 5 / 4"
definition BOLD_RATIO :: rat where "BOLD_RATIO = 21 / 20"

definition span_text :: "pdf_span \<Rightarrow> ustr" where
  "span_text sp = (case sp_text sp of None \<Rightarrow> [] | Some t \<Rightarrow> t)"

definition span_size :: "pdf_span \<Rightarrow> rat" where
  "span_size sp = (case sp_size sp of None \<Rightarrow> 0 | Some x \<Rightarrow> x)"

definition span_bold :: "pdf_span \<Rightarrow> bool" where
  "span_bold sp \<longleftrightarrow> Bit_Operations.and (case sp_flags sp of None \<Rightarrow> 0 | Some f \<Rightarrow> f) BOLD_FLAG \<noteq> 0"

definition block_text_and_style :: "pdf_raw_block \<Rightarrow> ustr \<times> rat \<times> bool" where
  "block_text_and_style raw =
     (let spans = concat (pr_lines raw)
      in (concat (map (\<lambda>line. concat (map span_text line) @ [nl]) (pr_lines raw)),
          foldl (\<lambda>m sp. max m (span_size sp)) 0 spans,
          spans \<noteq> [] \<and> length (filter span_bold spans) = length spans))"

definition pdf_heading_level :: "rat \<Rightarrow> bool \<Rightarrow> rat \<Rightarrow> ustr \<Rightarrow> int option" where
  "pdf_heading_level sz bold body_size t =
     (if body_size \<le> 0 \<or> length t > HEADING_MAX_CHARS then None
      else (let ratio = sz / body_size
            in if ratio \<ge> H1_RATIO then Some 1
               else if ratio \<ge> H2_RATIO then Some 2
               else if bold \<and> ratio \<ge> BOLD_RATIO then Some 3
               else None))"

text \<open>\<^verbatim>\<open>round\<close> of a float: half to even.\<close>

definition py_round :: "rat \<Rightarrow> int" where
  "py_round x =
     (let f = \<lfloor>x\<rfloor>; d = x - of_int f
      in if d < 1 / 2 then f else if d > 1 / 2 then f + 1 else if even f then f else f + 1)"

text \<open>\<^verbatim>\<open>Counter\<close> as an association list in insertion order; \<^verbatim>\<open>most_common(1)\<close> is the first maximum.\<close>

fun counter_add :: "int \<Rightarrow> nat \<Rightarrow> (int \<times> nat) list \<Rightarrow> (int \<times> nat) list" where
  "counter_add k n [] = [(k, n)]"
| "counter_add k n ((k', m) # c) = (if k = k' then (k, m + n) # c else (k', m) # counter_add k n c)"

fun most_common :: "(int \<times> nat) list \<Rightarrow> int option" where
  "most_common [] = None"
| "most_common ((k, n) # c) = Some (fst (foldl (\<lambda>b x. if snd x > snd b then x else b) (k, n) c))"

type_synonym styled = "ustr \<times> rat \<times> bool \<times> int"

definition page_blocks :: "nat \<times> pdf_raw_block list \<Rightarrow> styled list" where
  "page_blocks ip =
     (case ip of (i, raws) \<Rightarrow>
        concat (map (\<lambda>raw.
          if pr_type raw \<noteq> Some 0 then []
          else (case block_text_and_style raw of (t, sz, bold) \<Rightarrow>
                  if py_strip t = [] then [] else [(t, sz, bold, int i + 1)])) raws))"

definition page_sizes :: "styled list \<Rightarrow> (int \<times> nat) list" where
  "page_sizes bs = foldl (\<lambda>c (t, sz, _, _). counter_add (py_round sz) (length t) c) [] bs"

definition pdf_block :: "rat \<Rightarrow> styled \<Rightarrow> block" where
  "pdf_block body_size b =
     (case b of (t, sz, bold, page) \<Rightarrow>
        (let level = pdf_heading_level sz bold body_size (py_strip t)
         in (text_block (if level \<noteq> None then Heading else Paragraph) t)
              \<lparr>b_level := level, b_page := Some page\<rparr>))"

definition pdf_blocks :: "pdf_raw_block list list \<Rightarrow> block list" where
  "pdf_blocks pages =
     (let styled = concat (map page_blocks (enumerate 0 pages));
          body_size = (case most_common (page_sizes styled) of None \<Rightarrow> 0 | Some k \<Rightarrow> of_int k)
      in map (pdf_block body_size) styled)"

definition parse_pdf :: "parser_libs \<Rightarrow> bytes \<Rightarrow> ustr \<Rightarrow> parse_error + normalized_document" where
  "parse_pdf libs data filename =
     (case lib_open_pdf libs data of
        None \<Rightarrow> Inl (ParseError (lit ''PDF '' @ [0x7121, 0x6CD5, 0x958B, 0x555F]))
      | Some f \<Rightarrow>
          if pf_needs_pass f
          then Inl (ParseError (lit ''PDF '' @
                 [0x5DF2, 0x52A0, 0x5BC6, 0x2C, 0x7121, 0x6CD5, 0x89E3, 0x6790]))
          else if pf_pages f = []
          then Inl (ParseError (lit ''PDF '' @
                 [0x6C92, 0x6709, 0x4EFB, 0x4F55, 0x9801, 0x9762]))
          else finalize_document (pdf_blocks (pf_pages f))
                 [(lit ''source_mime'', JStr (lit ''application/pdf'')),
                  (lit ''page_count'', JInt (int (length (pf_pages f))))])"

section \<open>HTML\<close>

text \<open>\<^verbatim>\<open>_table_rows\<close>: rows without cells are left out.\<close>

definition html_table_rows :: "html_element \<Rightarrow> ustr list list" where
  "html_table_rows el = filter (\<lambda>cells. cells \<noteq> []) (he_rows el)"

definition html_blocks :: "html_element \<Rightarrow> block list" where
  "html_blocks el =
     (if he_name el \<noteq> Tag_table \<and> he_in_table el then []
      else (case he_name el of
              Tag_table \<Rightarrow> [(text_block Table [])\<lparr>b_rows := Some (html_table_rows el)\<rparr>]
            | Tag_h n \<Rightarrow> [(text_block Heading (he_text el))\<lparr>b_level := Some (int n)\<rparr>]
            | Tag_li \<Rightarrow> [text_block List_item (he_text el)]
            | Tag_p \<Rightarrow> if he_in_li el then [] else [text_block Paragraph (he_text el)]))"

definition parse_html :: "parser_libs \<Rightarrow> bytes \<Rightarrow> ustr \<Rightarrow> parse_error + normalized_document" where
  "parse_html libs data filename =
     (case decode_text (lib_decode libs) data of
        Inl e \<Rightarrow> Inl e
      | Inr t \<Rightarrow>
          finalize_document (concat (map html_blocks (lib_soup libs t)))
            [(lit ''source_mime'', JStr (lit ''text/html''))])"

section \<open>Registry\<close>

datatype parser = PdfParser | DocxParser | HtmlParser | PlainTextParser | MarkdownParser

definition PARSERS :: "parser list" where
  "PARSERS = [PdfParser, DocxParser, HtmlParser, PlainTextParser, MarkdownParser]"

fun media_types :: "parser \<Rightarrow> ustr list" where
  "media_types PdfParser = [lit ''application/pdf'']"
| "media_types DocxParser = [docx_mime]"
| "media_types HtmlParser = [lit ''text/html'']"
| "media_types PlainTextParser = [lit ''text/plain'']"
| "media_types MarkdownParser = [lit ''text/markdown'']"

definition BY_MEDIA_TYPE :: "(ustr \<times> parser) list" where
  "BY_MEDIA_TYPE = concat (map (\<lambda>p. map (\<lambda>m. (m, p)) (media_types p)) PARSERS)"

definition get_parser :: "ustr \<Rightarrow> parse_error + parser" where
  "get_parser mime =
     (case map_of BY_MEDIA_TYPE mime of
        Some p \<Rightarrow> Inr p
      | None \<Rightarrow> Inl (ParseError ([0x6C92, 0x6709, 0x5C0D, 0x61C9, 0x20] @ mime @ lit '' parser'')))"

definition supported_media_types :: "ustr set" where
  "supported_media_types = set (map fst BY_MEDIA_TYPE)"

fun run_parser :: "parser_libs \<Rightarrow> parser \<Rightarrow> bytes \<Rightarrow> ustr \<Rightarrow> parse_error + normalized_document" where
  "run_parser libs PdfParser = parse_pdf libs"
| "run_parser libs DocxParser = parse_docx libs"
| "run_parser libs HtmlParser = parse_html libs"
| "run_parser libs PlainTextParser = parse_plain (lib_decode libs)"
| "run_parser libs MarkdownParser = parse_markdown (lib_decode libs)"

section \<open>Every registered parser meets the interface\<close>

lemma run_parser_finalized:
  assumes "run_parser libs p data name = Inr nd"
  shows "\<exists>bs meta. finalize_document bs meta = Inr nd"
  using assms
  by (cases p) (auto simp: parse_pdf_def parse_docx_def parse_html_def parse_plain_def
      parse_markdown_def split: option.splits sum.splits if_splits)

interpretation registered: document_parser "run_parser libs p" for libs p
  by unfold_locales (use run_parser_finalized finalize_document_normal in blast)+

text \<open>
  whatever parser the registry picks, a document it accepts has at most
  \<open>MAX_DOCUMENT_CHARS\<close> blocks, all of them in normal form, with at most that many characters.
\<close>

theorem parsed_document_bounds:
  assumes "get_parser mime = Inr p" and "run_parser libs p data name = Inr nd"
  shows "(\<forall>b \<in> set (nd_blocks nd). normal_block b)
    \<and> chars_of (nd_blocks nd) \<le> MAX_DOCUMENT_CHARS \<and> length (nd_blocks nd) \<le> MAX_DOCUMENT_CHARS"
  using assms(2) registered.parse_blocks registered.parse_size registered.block_count by blast

definition demo_libs :: parser_libs where
  "demo_libs =
     \<lparr>lib_decode = (\<lambda>e b. Some b), lib_zip_sizes = (\<lambda>_. Some []), lib_open_docx = (\<lambda>_. Some []),
      lib_int = (\<lambda>_. None), lib_open_pdf = (\<lambda>_. None), lib_soup = (\<lambda>_. [])\<rparr>"

theorem parsed_document_bounds_witness:
  "\<exists>nd. get_parser (lit ''text/html'') = Inr HtmlParser \<and> run_parser demo_libs HtmlParser [65] [] = Inr nd
     \<and> chars_of (nd_blocks nd) \<le> MAX_DOCUMENT_CHARS \<and> length (nd_blocks nd) \<le> MAX_DOCUMENT_CHARS"
proof -
  have p: "get_parser (lit ''text/html'') = Inr HtmlParser"
    by (simp add: get_parser_def BY_MEDIA_TYPE_def PARSERS_def docx_mime_def)
  let ?nd = "\<lparr>nd_blocks = [], nd_meta = [(lit ''source_mime'', JStr (lit ''text/html''))]\<rparr>"
  have r: "run_parser demo_libs HtmlParser [65] [] = Inr ?nd"
    by (simp add: parse_html_def demo_libs_def decode_text_def ENCODING_CHAIN_def finalize_document_def)
  show ?thesis
    using p r parsed_document_bounds [OF p r] by (intro exI [of _ ?nd]) simp
qed

section \<open>Heading heuristics\<close>

lemma pdf_heading_level_cases:
  "pdf_heading_level sz bold body_size t = Some l \<longleftrightarrow>
     0 < body_size \<and> length t \<le> 80 \<and>
     (l = 1 \<and> 3 / 2 * body_size \<le> sz
      \<or> l = 2 \<and> 5 / 4 * body_size \<le> sz \<and> sz < 3 / 2 * body_size
      \<or> l = 3 \<and> bold \<and> 21 / 20 * body_size \<le> sz \<and> sz < 5 / 4 * body_size)"
  by (auto simp: pdf_heading_level_def H1_RATIO_def H2_RATIO_def BOLD_RATIO_def
      HEADING_MAX_CHARS_def Let_def field_simps)

lemma page_blocks_page: "(t, sz, bold, page) \<in> set (page_blocks (i, raws)) \<Longrightarrow> page = int i + 1"
  by (auto simp: page_blocks_def split: if_splits)

text \<open>
  a PDF block becomes a heading only when its text is at most 80 characters long and its
  font is at least 5 percent larger than the body size, heading levels are 1 to 3, every other block is a
  paragraph, and page numbers lie between 1 and the number of pages.
\<close>

theorem pdf_blocks_headings:
  assumes "b \<in> set (pdf_blocks pages)"
  shows "(\<exists>page. b_page b = Some page \<and> 1 \<le> page \<and> page \<le> int (length pages))
    \<and> (b_type b = Paragraph \<and> b_level b = None
       \<or> b_type b = Heading \<and> length (py_strip (b_text b)) \<le> 80
         \<and> (\<exists>l. b_level b = Some l \<and> 1 \<le> l \<and> l \<le> 3))"
proof -
  from assms obtain body i raws t sz bold page where
    "(i, raws) \<in> set (enumerate 0 pages)" and p: "(t, sz, bold, page) \<in> set (page_blocks (i, raws))"
    and b: "b = pdf_block body (t, sz, bold, page)"
    by (auto simp: pdf_blocks_def Let_def)
  then have i: "i < length pages" by (auto simp: in_set_enumerate_eq)
  have "page = int i + 1" using page_blocks_page [OF p] .
  then have pg: "b_page b = Some (int i + 1)" using b by (simp add: pdf_block_def text_block_def Let_def)
  show ?thesis
  proof (cases "pdf_heading_level sz bold body (py_strip t)")
    case None
    with i b pg show ?thesis by (simp add: pdf_block_def text_block_def)
  next
    case (Some l)
    then have "length (py_strip t) \<le> 80 \<and> 1 \<le> l \<and> l \<le> 3"
      by (auto simp: pdf_heading_level_cases)
    with i b pg Some show ?thesis by (simp add: pdf_block_def text_block_def)
  qed
qed

theorem pdf_blocks_headings_witness:
  "let raw = \<lparr>pr_type = Some 0, pr_lines = [[\<lparr>sp_text = Some [65], sp_size = Some 12, sp_flags = Some 0\<rparr>]]\<rparr>;
       b = (text_block Paragraph [65, nl])\<lparr>b_page := Some 1\<rparr>
   in b \<in> set (pdf_blocks [[raw]]) \<and> (\<exists>page. b_page b = Some page \<and> 1 \<le> page \<and> page \<le> int (length [[raw]]))"
proof -
  let ?raw = "\<lparr>pr_type = Some 0, pr_lines = [[\<lparr>sp_text = Some [65], sp_size = Some 12, sp_flags = Some 0\<rparr>]]\<rparr>"
  let ?b = "(text_block Paragraph [65, nl])\<lparr>b_page := Some 1\<rparr>"
  have h: "?b \<in> set (pdf_blocks [[?raw]])"
    by (simp add: pdf_blocks_def page_blocks_def block_text_and_style_def span_text_def span_size_def
        span_bold_def py_strip_def strip_by_def py_space_def page_sizes_def py_round_def pdf_block_def
        pdf_heading_level_def text_block_def H1_RATIO_def H2_RATIO_def Let_def)
  show ?thesis unfolding Let_def using h pdf_blocks_headings [OF h] by blast
qed

end
