(* ===== verification/Chunking.thy ===== *)
theory Chunking
  imports Parsers
begin

text \<open>
  Chunking (\<^verbatim>\<open>infrastructure/parsing/chunking/\<close>): the token estimate (\<^verbatim>\<open>tokens.py\<close>), recursive
  splitting, overlap and the builder of \<^verbatim>\<open>default_recursive.py\<close>, table packing
  (\<^verbatim>\<open>table_row.py\<close>) and the strategy registry. The interface locale \<open>chunking_strategy\<close> is the
  port of \<^verbatim>\<open>domain/ports/chunking.py\<close>.
\<close>

section \<open>Token estimate\<close>

definition is_cjk :: "nat \<Rightarrow> bool" where
  "is_cjk c \<longleftrightarrow>
     (0x3000 \<le> c \<and> c \<le> 0x303F) \<or> (0x3040 \<le> c \<and> c \<le> 0x30FF) \<or> (0x3400 \<le> c \<and> c \<le> 0x4DBF)
     \<or> (0x4E00 \<le> c \<and> c \<le> 0x9FFF) \<or> (0xAC00 \<le> c \<and> c \<le> 0xD7AF) \<or> (0xF900 \<le> c \<and> c \<le> 0xFAFF)
     \<or> (0xFF00 \<le> c \<and> c \<le> 0xFFEF)"

definition estimate_tokens :: "ustr \<Rightarrow> nat" where
  "estimate_tokens t =
     (let cjk = length (filter is_cjk t) in cjk + (length t - cjk + 3) div 4)"

section \<open>Data\<close>

record chunking_config =
  target_tokens :: int
  overlap_tokens :: int

record chunk_draft =
  cd_seq :: nat
  cd_text :: ustr
  cd_tokens :: nat
  cd_meta :: dict

definition jopt_int :: "int option \<Rightarrow> json" where
  "jopt_int p = (case p of None \<Rightarrow> JNull | Some i \<Rightarrow> JInt i)"

section \<open>Splitting and overlap\<close>

definition split_char :: "nat \<Rightarrow> bool" where
  \<comment> \<open>the class \<^verbatim>\<open>[...!?...?;;\n]\<close> as it is spelt in the source\<close>
  "split_char c \<longleftrightarrow> c \<in> {0x3002, 33, 63, 0xFF01, 59, nl}"

definition split_at :: "ustr \<Rightarrow> nat \<Rightarrow> bool" where
  "split_at t p \<longleftrightarrow>
     0 < p \<and> (split_char (t ! (p - 1)) \<or> (2 \<le> p \<and> t ! (p - 2) = 46 \<and> py_space (t ! (p - 1))))"

definition candidates :: "ustr \<Rightarrow> nat list" where
  "candidates t = filter (split_at t) [1..<length t]"

definition distance :: "nat \<Rightarrow> nat \<Rightarrow> nat" where
  "distance a b = (a - b) + (b - a)"

definition cut_point :: "ustr \<Rightarrow> nat" where
  "cut_point t =
     (let middle = length t div 2
      in case candidates t of
           [] \<Rightarrow> middle
         | p # ps \<Rightarrow> foldl (\<lambda>b x. if distance x middle < distance b middle then x else b) p ps)"

lemma cut_point_cases: "candidates t \<noteq> [] \<Longrightarrow> cut_point t \<in> set (candidates t)"
proof -
  have "foldl (\<lambda>b x. if distance x m < distance b m then x else b) p ps \<in> set (p # ps)" for m p ps
  proof (induction ps arbitrary: p)
    case (Cons a ps)
    from Cons.IH [of "if distance a m < distance p m then a else p"] show ?case
      by (auto split: if_splits)
  qed simp
  then show "candidates t \<noteq> [] \<Longrightarrow> ?thesis"
    by (cases "candidates t") (auto simp: cut_point_def Let_def)
qed

lemma cut_point_bounds:
  assumes "1 < length t"
  shows "0 < cut_point t" and "cut_point t < length t"
proof -
  have "0 < cut_point t \<and> cut_point t < length t"
  proof (cases "candidates t = []")
    case True
    with assms show ?thesis by (simp add: cut_point_def Let_def)
  next
    case False
    from cut_point_cases [OF this] show ?thesis by (auto simp: candidates_def)
  qed
  then show "0 < cut_point t" and "cut_point t < length t" by auto
qed

function split_to_limit :: "ustr \<Rightarrow> int \<Rightarrow> ustr list" where
  "split_to_limit t target =
     (if int (estimate_tokens t) \<le> target \<or> length t \<le> 1 then [t]
      else split_to_limit (take (cut_point t) t) target @ split_to_limit (drop (cut_point t) t) target)"
  by pat_completeness auto
termination
proof (relation "measure (\<lambda>(t, target). length t)")
  fix t :: ustr and target :: int
  assume "\<not> (int (estimate_tokens t) \<le> target \<or> length t \<le> 1)"
  then have "1 < length t" by simp
  from cut_point_bounds [OF this]
  show "((take (cut_point t) t, target), (t, target)) \<in> measure (\<lambda>(t, target). length t)"
    and "((drop (cut_point t) t, target), (t, target)) \<in> measure (\<lambda>(t, target). length t)"
    by auto
qed simp

declare split_to_limit.simps [simp del]

text \<open>\<^verbatim>\<open>_SPLIT_POINTS.split(text)\<close>: cut after every split point; a trailing cut gives a last \<^verbatim>\<open>''\<close>.\<close>

fun split_pieces :: "nat option \<Rightarrow> ustr \<Rightarrow> ustr list" where
  "split_pieces prev [] = [[]]"
| "split_pieces prev (c # s) =
     (if split_char c \<or> (prev = Some 46 \<and> py_space c)
      then [c] # split_pieces (Some c) s
      else (case split_pieces (Some c) s of [] \<Rightarrow> [[c]] | p # ps \<Rightarrow> (c # p) # ps))"

fun tail_loop :: "ustr list \<Rightarrow> ustr list \<Rightarrow> nat \<Rightarrow> int \<Rightarrow> ustr list" where
  "tail_loop [] tail tokens budget = tail"
| "tail_loop (p # ps) tail tokens budget =
     (if int (tokens + estimate_tokens p) > budget then tail
      else tail_loop ps (p # tail) (tokens + estimate_tokens p) budget)"

definition tail_within :: "ustr \<Rightarrow> int \<Rightarrow> ustr" where
  "tail_within t budget =
     (if budget \<le> 0 then []
      else (let pieces = filter (\<lambda>p. p \<noteq> [] \<and> py_strip p \<noteq> []) (split_pieces None t)
            in py_strip (concat (tail_loop (rev pieces) [] 0 budget))))"

section \<open>Tables\<close>

definition CELL_SEPARATOR :: ustr where "CELL_SEPARATOR = [0xFF5C]"

definition serialize_row :: "ustr list \<Rightarrow> ustr list \<Rightarrow> ustr" where
  "serialize_row header row =
     str_join CELL_SEPARATOR
       (filter (\<lambda>cell. cell \<noteq> [])
         (map (\<lambda>(i, v). if i < length header \<and> header ! i \<noteq> [] then header ! i @ lit '': '' @ v else v)
           (enumerate 0 row)))"

fun pack_loop :: "ustr list \<Rightarrow> int \<Rightarrow> ustr list \<Rightarrow> ustr list \<Rightarrow> nat \<Rightarrow> ustr list" where
  "pack_loop [] target packed buffer buffer_tokens =
     (if buffer \<noteq> [] then packed @ [str_join [nl] buffer] else packed)"
| "pack_loop (line # ls) target packed buffer buffer_tokens =
     (if line = [] then pack_loop ls target packed buffer buffer_tokens
      else (let n = estimate_tokens line
            in if buffer \<noteq> [] \<and> int (buffer_tokens + n) > target
               then pack_loop ls target (packed @ [str_join [nl] buffer]) [line] n
               else pack_loop ls target packed (buffer @ [line]) (buffer_tokens + n)))"

definition pack_table :: "block \<Rightarrow> chunking_config \<Rightarrow> ustr list" where
  "pack_table b cfg =
     (case b_rows b of
        None \<Rightarrow> []
      | Some [] \<Rightarrow> []
      | Some [header] \<Rightarrow> [str_join CELL_SEPARATOR (filter (\<lambda>cell. cell \<noteq> []) header)]
      | Some (header # body) \<Rightarrow>
          pack_loop (map (serialize_row header) body) (target_tokens cfg) [] [] 0)"

definition table_row_chunk :: "normalized_document \<Rightarrow> chunking_config \<Rightarrow> chunk_draft list" where
  "table_row_chunk doc cfg =
     foldl (\<lambda>drafts (b, t). drafts @
         [\<lparr>cd_seq = length drafts, cd_text = t, cd_tokens = estimate_tokens t,
           cd_meta = [(lit ''block_type'', JStr (lit ''table'')), (lit ''kind'', JStr (lit ''document'')),
                      (lit ''page'', jopt_int (b_page b))]\<rparr>])
       [] (concat (map (\<lambda>b. if b_type b \<noteq> Table then [] else map (Pair b) (pack_table b cfg))
            (nd_blocks doc)))"

section \<open>The builder of default_recursive\<close>

record builder =
  bd_drafts :: "chunk_draft list"
  bd_headings :: "(int \<times> ustr) list"
  bd_pending :: "ustr list"
  bd_pending_tokens :: nat
  bd_pending_page :: "int option"
  bd_prefix :: "ustr option"
  bd_overlap :: ustr

definition new_builder :: builder where
  "new_builder =
     \<lparr>bd_drafts = [], bd_headings = [], bd_pending = [], bd_pending_tokens = 0,
      bd_pending_page = None, bd_prefix = None, bd_overlap = []\<rparr>"

definition emit :: "ustr \<Rightarrow> ustr \<Rightarrow> int option \<Rightarrow> builder \<Rightarrow> builder" where
  "emit t block_type page s =
     s\<lparr>bd_drafts := bd_drafts s @
        [\<lparr>cd_seq = length (bd_drafts s), cd_text = t, cd_tokens = estimate_tokens t,
          cd_meta = [(lit ''page'', jopt_int page),
                     (lit ''heading_path'', JList (map (JStr \<circ> snd) (bd_headings s))),
                     (lit ''block_type'', JStr block_type),
                     (lit ''kind'', JStr (lit ''document''))]\<rparr>]\<rparr>"

definition flush_parts :: "builder \<Rightarrow> ustr list" where
  "flush_parts s =
     filter (\<lambda>part. part \<noteq> [])
       [bd_overlap s, case bd_prefix s of None \<Rightarrow> [] | Some p \<Rightarrow> p, str_join [nl] (bd_pending s)]"

definition flush :: "chunking_config \<Rightarrow> builder \<Rightarrow> builder" where
  "flush cfg s =
     (if bd_pending s = [] then s
      else (emit (str_join [nl] (flush_parts s)) (lit ''text'') (bd_pending_page s) s)
        \<lparr>bd_prefix := None,
         bd_overlap := tail_within (str_join [nl] (bd_pending s)) (overlap_tokens cfg),
         bd_pending := [], bd_pending_tokens := 0, bd_pending_page := None\<rparr>)"

definition block_level :: "block \<Rightarrow> int" where
  "block_level b = (case b_level b of None \<Rightarrow> 1 | Some l \<Rightarrow> if l = 0 then 1 else l)"

definition pop_headings :: "int \<Rightarrow> (int \<times> ustr) list \<Rightarrow> (int \<times> ustr) list" where
  "pop_headings level hs = rev (dropWhile (\<lambda>h. fst h \<ge> level) (rev hs))"

definition start_section :: "chunking_config \<Rightarrow> block \<Rightarrow> builder \<Rightarrow> builder" where
  "start_section cfg b s =
     (let s = flush cfg s
      in s\<lparr>bd_headings := pop_headings (block_level b) (bd_headings s) @ [(block_level b, b_text b)],
           bd_prefix := Some (b_text b), bd_overlap := []\<rparr>)"

definition add_piece :: "chunking_config \<Rightarrow> int option \<Rightarrow> builder \<Rightarrow> ustr \<Rightarrow> builder" where
  "add_piece cfg page s piece =
     (let n = estimate_tokens piece;
          s = (if bd_pending s \<noteq> [] \<and> int (bd_pending_tokens s + n) > target_tokens cfg
               then flush cfg s else s);
          s = (if bd_pending s = [] then s\<lparr>bd_pending_page := page\<rparr> else s)
      in s\<lparr>bd_pending := bd_pending s @ [piece], bd_pending_tokens := bd_pending_tokens s + n\<rparr>)"

definition add_text :: "chunking_config \<Rightarrow> block \<Rightarrow> builder \<Rightarrow> builder" where
  "add_text cfg b s = foldl (add_piece cfg (b_page b)) s (split_to_limit (b_text b) (target_tokens cfg))"

definition add_table :: "chunking_config \<Rightarrow> block \<Rightarrow> builder \<Rightarrow> builder" where
  "add_table cfg b s =
     (foldl (\<lambda>s t. emit t (lit ''table'') (b_page b) s) (flush cfg s) (pack_table b cfg))
       \<lparr>bd_overlap := []\<rparr>"

definition build_block :: "chunking_config \<Rightarrow> builder \<Rightarrow> block \<Rightarrow> builder" where
  "build_block cfg s b =
     (case b_type b of
        Heading \<Rightarrow> start_section cfg b s
      | Table \<Rightarrow> add_table cfg b s
      | Paragraph \<Rightarrow> add_text cfg b s
      | List_item \<Rightarrow> add_text cfg b s
      | Code \<Rightarrow> add_text cfg b s)"

definition default_recursive_chunk :: "normalized_document \<Rightarrow> chunking_config \<Rightarrow> chunk_draft list" where
  "default_recursive_chunk doc cfg =
     bd_drafts (flush cfg (foldl (build_block cfg) new_builder (nd_blocks doc)))"

section \<open>Registry\<close>

datatype strategy = DefaultRecursiveChunking | TableRowChunking

definition STRATEGIES :: "(ustr \<times> strategy) list" where
  "STRATEGIES = [(lit ''default_recursive'', DefaultRecursiveChunking),
                 (lit ''table_row'', TableRowChunking)]"

definition get_strategy :: "ustr \<Rightarrow> strategy option" where
  \<comment> \<open>\<open>None\<close> is the \<^verbatim>\<open>KeyError\<close>\<close>
  "get_strategy name = map_of STRATEGIES name"

definition strategy_for_source_type :: "ustr \<Rightarrow> strategy option" where
  "strategy_for_source_type source_type = get_strategy (lit ''default_recursive'')"

fun run_strategy :: "strategy \<Rightarrow> normalized_document \<Rightarrow> chunking_config \<Rightarrow> chunk_draft list" where
  "run_strategy DefaultRecursiveChunking = default_recursive_chunk"
| "run_strategy TableRowChunking = table_row_chunk"

section \<open>Facts about the estimate\<close>

lemma estimate_append_le: "estimate_tokens (a @ b) \<le> estimate_tokens a + estimate_tokens b"
proof -
  define x where "x = length a - length (filter is_cjk a)"
  define y where "y = length b - length (filter is_cjk b)"
  have "(x + y + 3) div 4 \<le> (x + 3) div 4 + (y + 3) div 4" by linarith
  moreover have "length (a @ b) - length (filter is_cjk (a @ b)) = x + y"
    by (simp add: x_def y_def)
  ultimately show ?thesis by (simp add: estimate_tokens_def Let_def x_def y_def)
qed

lemma estimate_le_length: "estimate_tokens t \<le> length t"
proof -
  have "length (filter is_cjk t) \<le> length t" by simp
  then show ?thesis unfolding estimate_tokens_def Let_def by linarith
qed

lemma estimate_pos: "t \<noteq> [] \<Longrightarrow> 1 \<le> estimate_tokens t"
  by (cases t) (auto simp: estimate_tokens_def Let_def)

lemma estimate_nil [simp]: "estimate_tokens [] = 0"
  by (simp add: estimate_tokens_def)

lemma estimate_mono_parts:
  "length (filter is_cjk a) \<le> length (filter is_cjk b) \<Longrightarrow>
   length (filter (\<lambda>c. \<not> is_cjk c) a) \<le> length (filter (\<lambda>c. \<not> is_cjk c) b) \<Longrightarrow>
   estimate_tokens a \<le> estimate_tokens b"
proof -
  have split: "length t - length (filter is_cjk t) = length (filter (\<lambda>c. \<not> is_cjk c) t)" for t
    using sum_length_filter_compl [of is_cjk t] by linarith
  assume "length (filter is_cjk a) \<le> length (filter is_cjk b)"
    and "length (filter (\<lambda>c. \<not> is_cjk c) a) \<le> length (filter (\<lambda>c. \<not> is_cjk c) b)"
  then show ?thesis by (simp add: estimate_tokens_def split add_mono div_le_mono)
qed

lemma estimate_subseq: "subseq a b \<Longrightarrow> estimate_tokens a \<le> estimate_tokens b"
  by (rule estimate_mono_parts) (auto intro: list_emb_length subseq_filter)

section \<open>Splitting\<close>

lemma split_to_limit_concat: "concat (split_to_limit t target) = t"
proof (induction t target rule: split_to_limit.induct)
  case (1 t target)
  then show ?case by (auto simp: split_to_limit.simps [of t])
qed

lemma split_to_limit_pieces:
  "1 \<le> target \<Longrightarrow> p \<in> set (split_to_limit t target) \<Longrightarrow>
    int (estimate_tokens p) \<le> target \<and> (t \<noteq> [] \<longrightarrow> p \<noteq> [])"
proof (induction t target rule: split_to_limit.induct)
  case (1 t target)
  show ?case
  proof (cases "int (estimate_tokens t) \<le> target \<or> length t \<le> 1")
    case True
    with "1.prems"(2) have "p = t" by (simp add: split_to_limit.simps [of t])
    moreover have "int (estimate_tokens t) \<le> target"
      using True estimate_le_length [of t] "1.prems"(1) by (elim disjE, simp) arith
    ultimately show ?thesis by simp
  next
    case False
    then have "1 < length t" by simp
    from cut_point_bounds [OF this]
    have "take (cut_point t) t \<noteq> []" "drop (cut_point t) t \<noteq> []" by auto
    with False "1" show ?thesis by (auto simp: split_to_limit.simps [of t])
  qed
qed

text \<open>
  C36: splitting an over-long block loses nothing (the pieces concatenate to the text), every piece
  is within the token target, and no piece of a non-empty text is empty.
\<close>

theorem split_to_limit_correct:
  assumes "1 \<le> target"
  shows "concat (split_to_limit t target) = t
    \<and> (\<forall>p \<in> set (split_to_limit t target). int (estimate_tokens p) \<le> target \<and> (t \<noteq> [] \<longrightarrow> p \<noteq> []))"
  using split_to_limit_concat split_to_limit_pieces [OF assms] by blast

theorem split_to_limit_correct_witness:
  "split_to_limit [0x4E00, 0x3002, 0x4E8C] 2 = [[0x4E00, 0x3002], [0x4E8C]]
   \<and> concat (split_to_limit [0x4E00, 0x3002, 0x4E8C] 2) = [0x4E00, 0x3002, 0x4E8C]"
proof -
  have "split_to_limit [0x4E00, 0x3002, 0x4E8C] 2 = [[0x4E00, 0x3002], [0x4E8C]]"
    by (simp add: split_to_limit.simps [of "[0x4E00, 0x3002, 0x4E8C]"]
        split_to_limit.simps [of "[0x4E00, 0x3002]"] split_to_limit.simps [of "[0x4E8C]"]
        estimate_tokens_def is_cjk_def cut_point_def candidates_def split_at_def split_char_def
        distance_def upt_rec Let_def numeral_2_eq_2)
  moreover have "(1::int) \<le> 2" by simp
  ultimately show ?thesis using split_to_limit_correct [of 2 "[0x4E00, 0x3002, 0x4E8C]"] by simp
qed

section \<open>Overlap\<close>

lemma split_pieces_concat: "concat (split_pieces prev t) = t"
  by (induction prev t rule: split_pieces.induct) (auto split: list.splits)

lemma tail_loop_bound:
  "int tokens \<le> budget \<Longrightarrow> estimate_tokens (concat tail) \<le> tokens \<Longrightarrow>
     int (estimate_tokens (concat (tail_loop ps tail tokens budget))) \<le> budget"
proof (induction ps tail tokens budget rule: tail_loop.induct)
  case (2 p ps tail tokens budget)
  have "estimate_tokens (concat (p # tail)) \<le> tokens + estimate_tokens p"
    using "2.prems"(2) estimate_append_le [of p "concat tail"] by simp
  with 2 show ?case by (cases "int (tokens + estimate_tokens p) > budget") auto
qed auto

lemma tail_loop_suffix: "\<exists>n. tail_loop ps tail tokens budget = rev (take n ps) @ tail"
proof (induction ps tail tokens budget rule: tail_loop.induct)
  case (2 p ps tail tokens budget)
  show ?case
  proof (cases "int (tokens + estimate_tokens p) > budget")
    case True
    then show ?thesis by (intro exI [of _ 0]) simp
  next
    case False
    with "2.IH" obtain n where
      "tail_loop ps (p # tail) (tokens + estimate_tokens p) budget = rev (take n ps) @ p # tail" by blast
    with False show ?thesis by (intro exI [of _ "Suc n"]) simp
  qed
qed auto

lemma tail_within_tokens: "int (estimate_tokens (tail_within t budget)) \<le> max 0 budget"
proof (cases "budget \<le> 0")
  case False
  let ?ps = "rev (filter (\<lambda>p. p \<noteq> [] \<and> py_strip p \<noteq> []) (split_pieces None t))"
  have "estimate_tokens (tail_within t budget) \<le> estimate_tokens (concat (tail_loop ?ps [] 0 budget))"
    using False by (simp add: tail_within_def py_strip_def estimate_subseq subseq_strip_by)
  moreover have "int (estimate_tokens (concat (tail_loop ?ps [] 0 budget))) \<le> budget"
    using False by (intro tail_loop_bound) auto
  ultimately show ?thesis by linarith
qed (simp add: tail_within_def)

lemma subseq_concat: "subseq xs ys \<Longrightarrow> subseq (concat xs) (concat ys)"
  by (induction rule: list_emb.induct) (auto intro: list_emb_append_mono subseq_order.order_trans)

lemma tail_within_subseq: "subseq (tail_within t budget) t"
proof (cases "budget \<le> 0")
  case False
  let ?qs = "filter (\<lambda>p. p \<noteq> [] \<and> py_strip p \<noteq> []) (split_pieces None t)"
  obtain n where n: "tail_loop (rev ?qs) [] 0 budget = rev (take n (rev ?qs))"
    using tail_loop_suffix [of "rev ?qs" "[]" 0 budget] by auto
  have "subseq (rev (take n (rev ?qs))) ?qs" by (simp add: rev_take suffix_imp_subseq suffix_drop)
  then have "subseq (rev (take n (rev ?qs))) (split_pieces None t)"
    by (rule subseq_order.order_trans) (rule subseq_filter_left)
  from subseq_concat [OF this] have "subseq (concat (tail_loop (rev ?qs) [] 0 budget)) t"
    by (simp add: n split_pieces_concat)
  with False show ?thesis
    unfolding tail_within_def Let_def py_strip_def
    by (simp add: subseq_order.order_trans [OF subseq_strip_by])
qed (simp add: tail_within_def)

text \<open>
  the overlap carried into the next chunk never exceeds the overlap budget (it is empty when
  the budget is zero or negative) and consists of characters of the previous chunk in their order.
\<close>

theorem overlap_within_budget:
  "int (estimate_tokens (tail_within t budget)) \<le> max 0 budget \<and> subseq (tail_within t budget) t"
  using tail_within_tokens tail_within_subseq by blast

end
