(* ===== verification/Chunking_Correct.thy ===== *)
theory Chunking_Correct
  imports Chunking
begin

text \<open>
  What the chunking strategies promise: numbering and token counts (the interface
  \<open>chunking_strategy\<close>, interpreted on both registered strategies), nothing lost, chunk sizes,
  the heading stack, and isolation of sections.
\<close>

section \<open>The strategy interface\<close>

definition numbered :: "chunk_draft list \<Rightarrow> bool" where
  "numbered ds \<longleftrightarrow>
     map cd_seq ds = [0..<length ds] \<and> (\<forall>d \<in> set ds. cd_tokens d = estimate_tokens (cd_text d))"

lemma numbered_Nil [simp]: "numbered []"
  by (simp add: numbered_def)

lemma numbered_snoc:
  "numbered ds \<Longrightarrow>
   numbered (ds @ [\<lparr>cd_seq = length ds, cd_text = t, cd_tokens = estimate_tokens t, cd_meta = m\<rparr>])"
  by (auto simp: numbered_def)

locale chunking_strategy =
  fixes chunk :: "normalized_document \<Rightarrow> chunking_config \<Rightarrow> chunk_draft list"
  assumes chunk_numbered: "numbered (chunk doc cfg)"
begin

lemma seqs_distinct: "distinct (map cd_seq (chunk doc cfg))"
  using chunk_numbered [of doc cfg] by (simp add: numbered_def)

lemma seq_nth: "i < length (chunk doc cfg) \<Longrightarrow> cd_seq (chunk doc cfg ! i) = i"
  using chunk_numbered [of doc cfg] unfolding numbered_def
  by (metis add_0 length_map nth_map nth_upt)

lemma tokens_estimated:
  "i < length (chunk doc cfg) \<Longrightarrow>
   cd_tokens (chunk doc cfg ! i) = estimate_tokens (cd_text (chunk doc cfg ! i))"
  using chunk_numbered [of doc cfg] by (simp add: numbered_def)

end

lemma emit_numbered: "numbered (bd_drafts s) \<Longrightarrow> numbered (bd_drafts (emit t ty page s))"
  by (simp add: emit_def numbered_snoc)

lemma flush_numbered: "numbered (bd_drafts s) \<Longrightarrow> numbered (bd_drafts (flush cfg s))"
  by (simp add: flush_def emit_numbered)

lemma foldl_preserves:
  "P s \<Longrightarrow> (\<And>s x. x \<in> set xs \<Longrightarrow> P s \<Longrightarrow> P (f s x)) \<Longrightarrow> P (foldl f s xs)"
  by (induction xs arbitrary: s) auto

lemma add_piece_numbered: "numbered (bd_drafts s) \<Longrightarrow> numbered (bd_drafts (add_piece cfg page s p))"
  by (simp add: add_piece_def Let_def flush_numbered)

lemma build_block_numbered: "numbered (bd_drafts s) \<Longrightarrow> numbered (bd_drafts (build_block cfg s b))"
  by (cases "b_type b")
    (auto simp: build_block_def start_section_def add_text_def add_table_def Let_def flush_numbered
      emit_numbered add_piece_numbered intro!: foldl_preserves [where P = "\<lambda>s. numbered (bd_drafts s)"])

interpretation default_recursive: chunking_strategy default_recursive_chunk
proof
  fix doc cfg
  show "numbered (default_recursive_chunk doc cfg)"
    unfolding default_recursive_chunk_def
    by (rule flush_numbered, rule foldl_preserves)
      (simp_all add: new_builder_def build_block_numbered)
qed

interpretation table_row: chunking_strategy table_row_chunk
  by unfold_locales (auto simp: table_row_chunk_def split: prod.split
      intro!: foldl_preserves [where P = numbered] numbered_snoc)

text \<open>
  whichever strategy the registry runs, the drafts are numbered 0, 1, 2, ... in order, so
  the unique index on (document, seq) can always be satisfied, and every draft carries
  the token estimate of its own text.
\<close>

theorem strategies_number_chunks:
  "distinct (map cd_seq (run_strategy st doc cfg)) \<and>
   (\<forall>i < length (run_strategy st doc cfg).
      cd_seq (run_strategy st doc cfg ! i) = i
      \<and> cd_tokens (run_strategy st doc cfg ! i) = estimate_tokens (cd_text (run_strategy st doc cfg ! i)))"
  by (cases st) (simp_all add: default_recursive.seqs_distinct default_recursive.seq_nth
      default_recursive.tokens_estimated table_row.seqs_distinct table_row.seq_nth
      table_row.tokens_estimated)

theorem strategies_number_chunks_witness:
  "cd_seq (run_strategy DefaultRecursiveChunking
       \<lparr>nd_blocks = [text_block Paragraph [65]], nd_meta = []\<rparr> \<lparr>target_tokens = 4, overlap_tokens = 0\<rparr> ! 0) = 0"
proof -
  have "0 < length (run_strategy DefaultRecursiveChunking
       \<lparr>nd_blocks = [text_block Paragraph [65]], nd_meta = []\<rparr> \<lparr>target_tokens = 4, overlap_tokens = 0\<rparr>)"
    by (simp add: default_recursive_chunk_def build_block_def text_block_def add_text_def
        split_to_limit.simps [of "[65]"] add_piece_def new_builder_def flush_def emit_def Let_def)
  then show ?thesis using strategies_number_chunks by blast
qed

section \<open>The heading stack\<close>

abbreviation increasing :: "(int \<times> ustr) list \<Rightarrow> bool" where
  "increasing hs \<equiv> sorted_wrt (<) (map fst hs)"

lemma pop_headings_filter:
  "increasing hs \<Longrightarrow> pop_headings level hs = filter (\<lambda>h. fst h < level) hs"
proof (induction hs rule: rev_induct)
  case (snoc h hs)
  then have inc: "increasing hs" "\<forall>g \<in> set hs. fst g < fst h"
    by (auto simp: sorted_wrt_append)
  show ?case
  proof (cases "fst h \<ge> level")
    case True
    with snoc.IH [OF inc(1)] show ?thesis by (simp add: pop_headings_def)
  next
    case False
    with inc(2) have "\<forall>g \<in> set hs. fst g < level" by fastforce
    with False show ?thesis by (simp add: pop_headings_def)
  qed
qed (simp add: pop_headings_def)

lemma push_heading_increasing:
  "increasing hs \<Longrightarrow> increasing (pop_headings level hs @ [(level, t)])"
  by (simp add: pop_headings_filter sorted_wrt_append sorted_wrt_map sorted_wrt_filter)

lemma flush_headings [simp]: "bd_headings (flush cfg s) = bd_headings s"
  by (simp add: flush_def emit_def)

lemma add_piece_headings [simp]: "bd_headings (add_piece cfg page s p) = bd_headings s"
  by (simp add: add_piece_def Let_def)

lemma foldl_headings:
  "(\<And>s x. bd_headings (f s x) = bd_headings s) \<Longrightarrow> bd_headings (foldl f s xs) = bd_headings s"
  by (induction xs arbitrary: s) auto

lemma build_block_headings:
  "bd_headings (build_block cfg s b) =
     (if b_type b = Heading
      then pop_headings (block_level b) (bd_headings s) @ [(block_level b, b_text b)]
      else bd_headings s)"
  by (cases "b_type b")
    (simp_all add: build_block_def start_section_def add_text_def add_table_def Let_def
      foldl_headings emit_def)

text \<open>The headings open after a list of blocks, said without a stack.\<close>

fun open_headings :: "block list \<Rightarrow> (int \<times> ustr) list" where
  "open_headings [] = []"
| "open_headings (b # bs) =
     (if b_type b = Heading \<and> (\<forall>c \<in> set bs. b_type c = Heading \<longrightarrow> block_level b < block_level c)
      then (block_level b, b_text b) # open_headings bs else open_headings bs)"

lemma open_headings_snoc:
  "open_headings (bs @ [b]) =
     (if b_type b = Heading
      then filter (\<lambda>h. fst h < block_level b) (open_headings bs) @ [(block_level b, b_text b)]
      else open_headings bs)"
  by (induction bs) auto

lemma open_headings_increasing: "increasing (open_headings bs)"
proof -
  have "\<exists>b \<in> set bs. b_type b = Heading \<and> fst h = block_level b" if "h \<in> set (open_headings bs)" for h bs
    using that by (induction bs) (auto split: if_splits)
  then show ?thesis by (induction bs) (auto, metis)
qed

lemma headings_open:
  "bd_headings (foldl (build_block cfg) new_builder bs) = open_headings bs
   \<and> sorted_wrt (<) (map fst (bd_headings (foldl (build_block cfg) new_builder bs)))"
proof -
  have "bd_headings (foldl (build_block cfg) new_builder bs) = open_headings bs"
  proof (induction bs rule: rev_induct)
    case (snoc b bs)
    then show ?case
      by (simp add: build_block_headings open_headings_snoc pop_headings_filter
          open_headings_increasing)
  qed (simp add: new_builder_def)
  then show ?thesis by (simp add: open_headings_increasing)
qed

text \<open>
  after any blocks, the builder's heading stack is the list of open sections: a heading is
  open exactly when no later heading has the same or a higher rank (a level not larger), so the
  \<^verbatim>\<open>heading_path\<close> of a chunk is the path of the section it lies in; levels increase strictly.
\<close>

theorem heading_stack_is_open_sections:
  "bd_headings (foldl (build_block cfg) new_builder bs) = open_headings bs
   \<and> sorted_wrt (<) (map fst (bd_headings (foldl (build_block cfg) new_builder bs)))"
  by (rule headings_open)

section \<open>Nothing is lost\<close>

definition covered :: "ustr \<Rightarrow> builder \<Rightarrow> bool" where
  "covered p s \<longleftrightarrow> (\<exists>d \<in> set (bd_drafts s). sublist p (cd_text d)) \<or> p \<in> set (bd_pending s)"

lemma emit_covered: "covered p s \<Longrightarrow> covered p (emit t ty page s)"
  by (auto simp: covered_def emit_def)

lemma flush_parts_body:
  "p \<in> set (bd_pending s) \<Longrightarrow> sublist p (str_join [nl] (flush_parts s))"
proof -
  assume "p \<in> set (bd_pending s)"
  then have p: "sublist p (str_join [nl] (bd_pending s))" by (rule str_join_part)
  show ?thesis
  proof (cases "str_join [nl] (bd_pending s) = []")
    case True
    with p show ?thesis by simp
  next
    case False
    then have "str_join [nl] (bd_pending s) \<in> set (flush_parts s)" by (simp add: flush_parts_def)
    from str_join_part [OF this] p show ?thesis by (rule sublist_order.order_trans [rotated])
  qed
qed

lemma flush_covered:
  "covered p s \<Longrightarrow> \<exists>d \<in> set (bd_drafts (flush cfg s)). sublist p (cd_text d)"
  using flush_parts_body [of p s] by (auto simp: covered_def flush_def emit_def)

lemma flush_keeps_covered: "covered p s \<Longrightarrow> covered p (flush cfg s)"
  using flush_covered by (auto simp: covered_def)

lemma add_piece_covered: "covered p s \<or> p = q \<Longrightarrow> covered p (add_piece cfg page s q)"
  using flush_covered [of p s cfg] by (auto simp: add_piece_def covered_def Let_def)

lemma add_pieces_covered:
  "covered p s \<or> p \<in> set qs \<Longrightarrow> covered p (foldl (add_piece cfg page) s qs)"
proof (induction qs arbitrary: s)
  case (Cons q qs)
  then show ?case using add_piece_covered [of p s q] by auto
qed simp

lemma emits_drafts:
  "\<exists>e. bd_drafts (foldl (\<lambda>s t. emit t ty page s) s ts) = bd_drafts s @ e \<and> map cd_text e = ts"
proof (induction ts arbitrary: s)
  case (Cons t ts)
  obtain e where "bd_drafts (foldl (\<lambda>s t. emit t ty page s) (emit t ty page s) ts)
      = bd_drafts (emit t ty page s) @ e" "map cd_text e = ts" using Cons by blast
  moreover obtain d where "bd_drafts (emit t ty page s) = bd_drafts s @ [d]" "cd_text d = t"
    by (simp add: emit_def)
  ultimately show ?case by (intro exI [of _ "d # e"]) simp
qed simp

lemma add_table_covered:
  assumes "covered p s \<or> p \<in> set (pack_table b cfg)"
  shows "covered p (add_table cfg b s)"
proof -
  obtain e where e: "bd_drafts (add_table cfg b s) = bd_drafts (flush cfg s) @ e"
    and t: "map cd_text e = pack_table b cfg"
    using emits_drafts [of "lit ''table''" "b_page b" "flush cfg s" "pack_table b cfg"]
    by (auto simp: add_table_def)
  from assms show ?thesis
  proof
    assume "covered p s"
    from flush_covered [OF this] e show ?thesis by (auto simp: covered_def)
  next
    assume "p \<in> set (pack_table b cfg)"
    then have "p \<in> cd_text ` set e" using t by (metis list.set_map)
    with e show ?thesis by (auto simp: covered_def)
  qed
qed

definition block_parts :: "chunking_config \<Rightarrow> block \<Rightarrow> ustr list" where
  "block_parts cfg b =
     (case b_type b of
        Heading \<Rightarrow> []
      | Table \<Rightarrow> pack_table b cfg
      | _ \<Rightarrow> split_to_limit (b_text b) (target_tokens cfg))"

lemma build_block_covered:
  "covered p s \<or> p \<in> set (block_parts cfg b) \<Longrightarrow> covered p (build_block cfg s b)"
proof (cases "b_type b")
  case Heading
  moreover assume "covered p s \<or> p \<in> set (block_parts cfg b)"
  ultimately have "covered p (flush cfg s)" by (simp add: block_parts_def flush_keeps_covered)
  with Heading show ?thesis by (simp add: build_block_def start_section_def covered_def Let_def)
qed (simp_all add: build_block_def block_parts_def add_text_def add_pieces_covered add_table_covered)

lemma build_blocks_covered:
  "covered p s \<or> (\<exists>b \<in> set bs. p \<in> set (block_parts cfg b)) \<Longrightarrow> covered p (foldl (build_block cfg) s bs)"
proof (induction bs arbitrary: s)
  case (Cons b bs)
  then show ?case using build_block_covered [of p s cfg b] by auto
qed simp

text \<open>
  C35: no content is lost: every piece of every text block, and every packed part of every table,
  occurs contiguously in some chunk.
\<close>

theorem chunks_cover_blocks:
  assumes "b \<in> set (nd_blocks doc)" and "p \<in> set (block_parts cfg b)"
  shows "\<exists>d \<in> set (default_recursive_chunk doc cfg). sublist p (cd_text d)"
  unfolding default_recursive_chunk_def
  by (rule flush_covered, rule build_blocks_covered) (use assms in blast)

theorem chunks_cover_blocks_witness:
  "\<exists>d \<in> set (default_recursive_chunk \<lparr>nd_blocks = [text_block Paragraph [65]], nd_meta = []\<rparr>
       \<lparr>target_tokens = 4, overlap_tokens = 0\<rparr>). sublist [65] (cd_text d)"
proof -
  have "[65] \<in> set (block_parts \<lparr>target_tokens = 4, overlap_tokens = 0\<rparr> (text_block Paragraph [65]))"
    by (simp add: block_parts_def text_block_def split_to_limit.simps [of "[65]"])
  then show ?thesis
    using chunks_cover_blocks [of "text_block Paragraph [65]"
        "\<lparr>nd_blocks = [text_block Paragraph [65]], nd_meta = []\<rparr>" "[65]"
        "\<lparr>target_tokens = 4, overlap_tokens = 0\<rparr>"] by simp
qed

section \<open>Chunk sizes\<close>

lemma estimate_nl [simp]: "estimate_tokens [nl] = 1"
  by (simp add: estimate_tokens_def is_cjk_def)

lemma estimate_join:
  "ps \<noteq> [] \<Longrightarrow> Suc (estimate_tokens (str_join [nl] ps)) \<le> sum_list (map estimate_tokens ps) + length ps"
proof (induction "[nl]" ps rule: str_join.induct)
  case (3 x y r)
  have "estimate_tokens (x @ [nl] @ str_join [nl] (y # r))
      \<le> estimate_tokens x + (1 + estimate_tokens (str_join [nl] (y # r)))"
    using estimate_append_le [of x "[nl] @ str_join [nl] (y # r)"]
      estimate_append_le [of "[nl]" "str_join [nl] (y # r)"] by simp
  with 3 show ?case by simp
qed simp_all

lemma length_le_tokens: "\<forall>p \<in> set ps. p \<noteq> [] \<Longrightarrow> length ps \<le> sum_list (map estimate_tokens ps)"
  by (induction ps) (auto intro: add_mono dest!: estimate_pos simp: Suc_le_eq)

definition text_draft :: "chunk_draft \<Rightarrow> bool" where
  "text_draft d \<longleftrightarrow> dict_get (cd_meta d) (lit ''block_type'') = Some (JStr (lit ''text''))"

definition size_bound :: "int \<Rightarrow> chunking_config \<Rightarrow> int" where
  "size_bound H cfg = max 0 (overlap_tokens cfg) + H + 2 * target_tokens cfg + 1"

definition sized :: "int \<Rightarrow> chunking_config \<Rightarrow> builder \<Rightarrow> bool" where
  "sized H cfg s \<longleftrightarrow>
     bd_pending_tokens s = sum_list (map estimate_tokens (bd_pending s))
     \<and> (\<forall>p \<in> set (bd_pending s). p \<noteq> [])
     \<and> int (bd_pending_tokens s) \<le> target_tokens cfg
     \<and> int (estimate_tokens (bd_overlap s)) \<le> max 0 (overlap_tokens cfg)
     \<and> int (estimate_tokens (case bd_prefix s of None \<Rightarrow> [] | Some p \<Rightarrow> p)) \<le> H
     \<and> (\<forall>d \<in> set (bd_drafts s). text_draft d \<longrightarrow> int (cd_tokens d) \<le> size_bound H cfg)"

lemma flush_parts_tokens:
  assumes "sized H cfg s" and "bd_pending s \<noteq> []"
  shows "int (estimate_tokens (str_join [nl] (flush_parts s))) \<le> size_bound H cfg"
proof -
  let ?all = "[bd_overlap s, case bd_prefix s of None \<Rightarrow> [] | Some p \<Rightarrow> p, str_join [nl] (bd_pending s)]"
  have drop_empty: "sum_list (map estimate_tokens (filter (\<lambda>part. part \<noteq> []) ps))
      = sum_list (map estimate_tokens ps)" for ps
    by (induction ps) auto
  have "estimate_tokens (str_join [nl] (flush_parts s))
      \<le> sum_list (map estimate_tokens ?all) + 2"
  proof (cases "flush_parts s = []")
    case False
    from estimate_join [OF this] have "estimate_tokens (str_join [nl] (flush_parts s)) + 1
        \<le> sum_list (map estimate_tokens (flush_parts s)) + length (flush_parts s)" by simp
    moreover have "length (flush_parts s) \<le> length ?all"
      unfolding flush_parts_def by (rule length_filter_le)
    ultimately show ?thesis using drop_empty [of ?all] by (simp add: flush_parts_def)
  qed simp
  moreover have "Suc (estimate_tokens (str_join [nl] (bd_pending s))) \<le> 2 * bd_pending_tokens s"
    using estimate_join [OF assms(2)] length_le_tokens [of "bd_pending s"] assms(1)
    by (simp add: sized_def)
  ultimately show ?thesis using assms(1) by (simp add: sized_def size_bound_def)
qed

lemma emit_text_sized:
  "int (estimate_tokens t) \<le> size_bound H cfg \<Longrightarrow> sized H cfg s \<Longrightarrow> sized H cfg (emit t ty page s)"
  by (auto simp: sized_def emit_def)

lemma emit_table_sized: "sized H cfg s \<Longrightarrow> sized H cfg (emit t (lit ''table'') page s)"
  by (auto simp: sized_def emit_def text_draft_def dict_get_def)

lemma flush_sized: "0 \<le> H \<Longrightarrow> 1 \<le> target_tokens cfg \<Longrightarrow> sized H cfg s \<Longrightarrow> sized H cfg (flush cfg s)"
  using emit_text_sized [OF flush_parts_tokens, of H cfg s] tail_within_tokens
  by (auto simp: flush_def sized_def)

lemma flush_pending [simp]: "bd_pending (flush cfg s) = []"
  by (simp add: flush_def)

lemma add_piece_sized:
  assumes "0 \<le> H" "1 \<le> target_tokens cfg" "sized H cfg s"
    and "p \<noteq> []" "int (estimate_tokens p) \<le> target_tokens cfg"
  shows "sized H cfg (add_piece cfg page s p)"
proof (cases "bd_pending s \<noteq> [] \<and> int (bd_pending_tokens s + estimate_tokens p) > target_tokens cfg")
  case True
  have f: "sized H cfg (flush cfg s)" using assms by (intro flush_sized)
  then have "bd_pending_tokens (flush cfg s) = 0" by (simp add: sized_def)
  with True f assms(4,5) show ?thesis by (auto simp: add_piece_def sized_def Let_def)
next
  case False
  then have "int (bd_pending_tokens s + estimate_tokens p) \<le> target_tokens cfg"
    using assms(3,5) by (auto simp: sized_def)
  with False assms(3,4) show ?thesis by (auto simp: add_piece_def sized_def Let_def)
qed

definition small_block :: "int \<Rightarrow> block \<Rightarrow> bool" where
  "small_block H b \<longleftrightarrow>
     (b_type b = Heading \<longrightarrow> int (estimate_tokens (b_text b)) \<le> H)
     \<and> (b_type b \<noteq> Heading \<and> b_type b \<noteq> Table \<longrightarrow> b_text b \<noteq> [])"

lemma build_block_sized:
  assumes "0 \<le> H" "1 \<le> target_tokens cfg" "small_block H b" "sized H cfg s"
  shows "sized H cfg (build_block cfg s b)"
proof (cases "b_type b = Heading \<or> b_type b = Table")
  case True
  have f: "sized H cfg (flush cfg s)" using assms by (intro flush_sized)
  have t: "sized H cfg (foldl (\<lambda>s t. emit t (lit ''table'') pg s) (flush cfg s) ts)" for pg ts
    by (rule foldl_preserves [where P = "sized H cfg", OF f]) (rule emit_table_sized)
  from True show ?thesis
  proof
    assume "b_type b = Heading"
    with f assms(1,3) show ?thesis
      by (auto simp: build_block_def start_section_def sized_def small_block_def Let_def)
  next
    assume "b_type b = Table"
    with t [of "b_page b" "pack_table b cfg"] show ?thesis
      by (auto simp: build_block_def add_table_def sized_def)
  qed
next
  case False
  with assms(3) have "b_text b \<noteq> []" by (simp add: small_block_def)
  then have "\<forall>p \<in> set (split_to_limit (b_text b) (target_tokens cfg)).
      p \<noteq> [] \<and> int (estimate_tokens p) \<le> target_tokens cfg"
    using split_to_limit_pieces assms(2) by blast
  then have "sized H cfg (add_text cfg b s)"
    unfolding add_text_def
    using add_piece_sized assms(1,2)
    by (intro foldl_preserves [where P = "sized H cfg", OF assms(4)]) blast
  with False show ?thesis by (cases "b_type b") (auto simp: build_block_def)
qed

text \<open>
  with a positive token target, a text chunk holds at most twice the target plus the overlap
  budget plus the longest heading of the document plus one token (the newlines that join its parts are counted too).
\<close>

theorem text_chunk_size:
  assumes "0 \<le> H" and "1 \<le> target_tokens cfg" and "\<forall>b \<in> set (nd_blocks doc). small_block H b"
    and "d \<in> set (default_recursive_chunk doc cfg)" and "text_draft d"
  shows "int (cd_tokens d) \<le> max 0 (overlap_tokens cfg) + H + 2 * target_tokens cfg + 1"
proof -
  have "sized H cfg new_builder" using assms(1,2) by (simp add: sized_def new_builder_def)
  then have "sized H cfg (foldl (build_block cfg) new_builder (nd_blocks doc))"
    by (rule foldl_preserves [where P = "sized H cfg"]) (use assms(1-3) build_block_sized in blast)
  then have "sized H cfg (flush cfg (foldl (build_block cfg) new_builder (nd_blocks doc)))"
    using assms(1,2) by (intro flush_sized)
  with assms(4,5) show ?thesis
    by (auto simp: sized_def default_recursive_chunk_def size_bound_def)
qed

theorem text_chunk_size_witness:
  "let doc = \<lparr>nd_blocks = [text_block Paragraph [65]], nd_meta = []\<rparr>;
       cfg = \<lparr>target_tokens = 4, overlap_tokens = 0\<rparr>;
       d = hd (default_recursive_chunk doc cfg)
   in d \<in> set (default_recursive_chunk doc cfg) \<and> text_draft d \<and> int (cd_tokens d) \<le> 9"
proof -
  let ?doc = "\<lparr>nd_blocks = [text_block Paragraph [65]], nd_meta = []\<rparr>"
  let ?cfg = "\<lparr>target_tokens = 4, overlap_tokens = 0\<rparr>"
  let ?d = "hd (default_recursive_chunk ?doc ?cfg)"
  have "default_recursive_chunk ?doc ?cfg \<noteq> []" and t: "text_draft ?d"
    by (simp_all add: default_recursive_chunk_def build_block_def text_block_def add_text_def
        split_to_limit.simps [of "[65]"] add_piece_def new_builder_def flush_def emit_def Let_def
        text_draft_def dict_get_def)
  then have d: "?d \<in> set (default_recursive_chunk ?doc ?cfg)" by simp
  have "\<forall>b \<in> set (nd_blocks ?doc). small_block 0 b" by (simp add: small_block_def text_block_def)
  from text_chunk_size [OF _ _ this d t] d t show ?thesis by (simp add: Let_def)
qed

section \<open>Sections are isolated\<close>

definition extends :: "builder \<Rightarrow> builder \<Rightarrow> bool" where
  "extends s s' \<longleftrightarrow> (\<exists>e. bd_drafts s' = bd_drafts s @ e)"

lemma extends_refl [simp]: "extends s s" by (simp add: extends_def)

lemma extends_trans: "extends a b \<Longrightarrow> extends b c \<Longrightarrow> extends a c"
  by (auto simp: extends_def)

lemma foldl_extends:
  "(\<And>s x. extends s (f s x)) \<Longrightarrow> extends s (foldl f s xs)"
  by (induction xs arbitrary: s) (auto intro: extends_trans)

lemma flush_extends: "extends s (flush cfg s)"
  by (simp add: extends_def flush_def emit_def)

lemma add_piece_extends: "extends s (add_piece cfg page s p)"
  using flush_extends [of s cfg] by (auto simp: extends_def add_piece_def Let_def)

lemma add_table_extends: "extends s (add_table cfg b s)"
  using flush_extends [of s cfg]
    emits_drafts [of "lit ''table''" "b_page b" "flush cfg s" "pack_table b cfg"]
  by (auto simp: extends_def add_table_def)

lemma build_block_extends: "extends s (build_block cfg s b)"
  using flush_extends [of s cfg] foldl_extends [OF add_piece_extends] add_table_extends
  by (cases "b_type b") (auto simp: build_block_def start_section_def add_text_def extends_def Let_def)

text \<open>Two builders that differ in their first \<open>n\<close> finished drafts only.\<close>

definition alike :: "nat \<Rightarrow> builder \<Rightarrow> builder \<Rightarrow> bool" where
  "alike n s1 s2 \<longleftrightarrow>
     bd_headings s2 = bd_headings s1 \<and> bd_pending s2 = bd_pending s1
     \<and> bd_pending_tokens s2 = bd_pending_tokens s1 \<and> bd_pending_page s2 = bd_pending_page s1
     \<and> bd_prefix s2 = bd_prefix s1 \<and> bd_overlap s2 = bd_overlap s1
     \<and> length (bd_drafts s2) = length (bd_drafts s1) \<and> n \<le> length (bd_drafts s1)
     \<and> drop n (bd_drafts s2) = drop n (bd_drafts s1)"

lemma emit_alike: "alike n s1 s2 \<Longrightarrow> alike n (emit t ty page s1) (emit t ty page s2)"
  by (auto simp: alike_def emit_def)

lemma flush_alike: "alike n s1 s2 \<Longrightarrow> alike n (flush cfg s1) (flush cfg s2)"
proof -
  assume a: "alike n s1 s2"
  then have "bd_pending s2 = bd_pending s1" "flush_parts s2 = flush_parts s1"
    "bd_pending_page s2 = bd_pending_page s1"
    by (auto simp: alike_def flush_parts_def)
  with emit_alike [OF a, of "str_join [nl] (flush_parts s1)" "lit ''text''" "bd_pending_page s1"] a
  show ?thesis by (auto simp: alike_def flush_def)
qed

lemma add_piece_alike: "alike n s1 s2 \<Longrightarrow> alike n (add_piece cfg page s1 p) (add_piece cfg page s2 p)"
proof -
  assume a: "alike n s1 s2"
  then have "bd_pending s2 = bd_pending s1" "bd_pending_tokens s2 = bd_pending_tokens s1"
    by (auto simp: alike_def)
  with flush_alike [OF a, of cfg] a show ?thesis by (auto simp: add_piece_def alike_def Let_def)
qed

lemma foldl_alike:
  "(\<And>s1 s2 x. alike n s1 s2 \<Longrightarrow> alike n (f s1 x) (f s2 x)) \<Longrightarrow> alike n s1 s2
     \<Longrightarrow> alike n (foldl f s1 xs) (foldl f s2 xs)"
  by (induction xs arbitrary: s1 s2) auto

lemma build_block_alike: "alike n s1 s2 \<Longrightarrow> alike n (build_block cfg s1 b) (build_block cfg s2 b)"
proof (cases "b_type b")
  case Heading
  moreover assume "alike n s1 s2"
  from flush_alike [OF this, of cfg] have "alike n (start_section cfg b s1) (start_section cfg b s2)"
    by (auto simp: start_section_def alike_def Let_def)
  ultimately show ?thesis by (simp add: build_block_def)
next
  case Table
  moreover assume "alike n s1 s2"
  from foldl_alike [of n "\<lambda>s t. emit t (lit ''table'') (b_page b) s", OF emit_alike flush_alike [OF this]]
  have "alike n (add_table cfg b s1) (add_table cfg b s2)"
    by (auto simp: add_table_def alike_def)
  ultimately show ?thesis by (simp add: build_block_def)
qed (auto simp: build_block_def add_text_def intro!: foldl_alike [OF add_piece_alike])

definition idle_clear :: "builder \<Rightarrow> bool" where
  "idle_clear s \<longleftrightarrow> (bd_pending s = [] \<longrightarrow> bd_pending_tokens s = 0 \<and> bd_pending_page s = None)"

lemma flush_idle: "idle_clear s \<Longrightarrow> bd_pending_tokens (flush cfg s) = 0 \<and> bd_pending_page (flush cfg s) = None"
  by (auto simp: idle_clear_def flush_def)

lemma add_pieces_idle: "idle_clear s \<Longrightarrow> idle_clear (foldl (add_piece cfg page) s ps)"
  by (rule foldl_preserves) (auto simp: idle_clear_def add_piece_def Let_def)

lemma build_block_idle: "idle_clear s \<Longrightarrow> idle_clear (build_block cfg s b)"
proof (cases "b_type b")
  case Table
  moreover assume "idle_clear s"
  then have "idle_clear (flush cfg s)" using flush_idle by (simp add: idle_clear_def)
  then have "idle_clear (foldl (\<lambda>s t. emit t (lit ''table'') (b_page b) s) (flush cfg s) (pack_table b cfg))"
    by (rule foldl_preserves) (auto simp: idle_clear_def emit_def)
  ultimately show ?thesis by (simp add: build_block_def add_table_def idle_clear_def)
qed (simp_all add: build_block_def start_section_def add_text_def add_pieces_idle Let_def,
     simp add: idle_clear_def flush_idle)

lemma build_blocks_idle: "idle_clear (foldl (build_block cfg) new_builder bs)"
  by (rule foldl_preserves) (auto simp: build_block_idle, simp add: idle_clear_def new_builder_def)

lemma start_section_alike:
  assumes "idle_clear s1" "idle_clear s2" "bd_headings s1 = bd_headings s2"
    and "n = length (bd_drafts (flush cfg s1))" "n = length (bd_drafts (flush cfg s2))"
  shows "alike n (start_section cfg h s1) (start_section cfg h s2)"
proof -
  show ?thesis
    using assms(3-5) flush_idle [OF assms(1), of cfg] flush_idle [OF assms(2), of cfg]
    by (simp add: alike_def start_section_def Let_def)
qed

text \<open>
  a heading separates: the chunks of what precedes a heading do not depend on what follows it,
  and the chunks that follow depend on what precedes only through the open sections and the
  running number, so no text and no overlap crosses a section boundary.
\<close>

theorem sections_isolated:
  assumes "b_type h = Heading"
    and "open_headings bs1 = open_headings bs2"
    and "length (default_recursive_chunk \<lparr>nd_blocks = bs1, nd_meta = m\<rparr> cfg)
       = length (default_recursive_chunk \<lparr>nd_blocks = bs2, nd_meta = m\<rparr> cfg)"
  shows "\<exists>rest.
    default_recursive_chunk \<lparr>nd_blocks = bs1 @ h # bs, nd_meta = m\<rparr> cfg
      = default_recursive_chunk \<lparr>nd_blocks = bs1, nd_meta = m\<rparr> cfg @ rest
    \<and> default_recursive_chunk \<lparr>nd_blocks = bs2 @ h # bs, nd_meta = m\<rparr> cfg
      = default_recursive_chunk \<lparr>nd_blocks = bs2, nd_meta = m\<rparr> cfg @ rest"
proof -
  let ?run = "foldl (build_block cfg)"
  let ?s = "\<lambda>bs. ?run new_builder bs"
  let ?full = "\<lambda>xs. flush cfg (?run (start_section cfg h (?s xs)) bs)"
  have chunk: "default_recursive_chunk \<lparr>nd_blocks = xs @ h # bs, nd_meta = m\<rparr> cfg = bd_drafts (?full xs)"
    for xs using assms(1) by (simp add: default_recursive_chunk_def build_block_def)
  have pre: "\<exists>e. bd_drafts (?full xs) = bd_drafts (flush cfg (?s xs)) @ e" for xs
  proof -
    have "extends (start_section cfg h (?s xs)) (?full xs)"
      by (rule extends_trans [OF foldl_extends [OF build_block_extends] flush_extends])
    then show ?thesis by (simp add: extends_def start_section_def Let_def)
  qed
  define n where "n = length (bd_drafts (flush cfg (?s bs1)))"
  have n2: "n = length (bd_drafts (flush cfg (?s bs2)))"
    using assms(3) by (simp add: n_def default_recursive_chunk_def)
  have "bd_headings (?s bs1) = bd_headings (?s bs2)"
    using headings_open assms(2) by metis
  from start_section_alike [OF build_blocks_idle build_blocks_idle this n_def n2]
  have "alike n (start_section cfg h (?s bs1)) (start_section cfg h (?s bs2))" .
  then have "alike n (?full bs1) (?full bs2)"
    by (intro flush_alike foldl_alike [OF build_block_alike])
  then have "drop n (bd_drafts (?full bs1)) = drop n (bd_drafts (?full bs2))"
    by (auto simp: alike_def)
  with pre [of bs1] pre [of bs2] n2 obtain e where
    "bd_drafts (?full bs1) = bd_drafts (flush cfg (?s bs1)) @ e"
    "bd_drafts (?full bs2) = bd_drafts (flush cfg (?s bs2)) @ e"
    by (auto simp: n_def)
  then show ?thesis
    unfolding chunk by (intro exI [of _ e]) (simp add: default_recursive_chunk_def)
qed

theorem sections_isolated_witness:
  "\<exists>rest. default_recursive_chunk \<lparr>nd_blocks = [] @ text_block Heading [65] # [text_block Paragraph [66]],
      nd_meta = []\<rparr> \<lparr>target_tokens = 4, overlap_tokens = 0\<rparr>
    = default_recursive_chunk \<lparr>nd_blocks = [], nd_meta = []\<rparr> \<lparr>target_tokens = 4, overlap_tokens = 0\<rparr> @ rest"
  using sections_isolated [of "text_block Heading [65]" "[]" "[]" "[]"
      "\<lparr>target_tokens = 4, overlap_tokens = 0\<rparr>" "[text_block Paragraph [66]]"]
  by (auto simp: text_block_def)

section \<open>Tables\<close>

lemma pack_loop_groups:
  assumes "\<forall>g \<in> set groups. g \<noteq> [] \<and>
      (int (sum_list (map estimate_tokens g)) \<le> target \<or> length g = 1)"
    and "packed = map (str_join [nl]) groups" and "n = sum_list (map estimate_tokens buffer)"
    and "buffer = [] \<or> int n \<le> target \<or> length buffer = 1"
  shows "\<exists>gs. pack_loop ls target packed buffer n = map (str_join [nl]) gs
    \<and> concat gs = concat groups @ buffer @ filter (\<lambda>l. l \<noteq> []) ls
    \<and> (\<forall>g \<in> set gs. g \<noteq> [] \<and> (int (sum_list (map estimate_tokens g)) \<le> target \<or> length g = 1))"
  using assms
proof (induction ls target packed buffer n arbitrary: groups rule: pack_loop.induct)
  case (1 target packed buffer n)
  show ?case
  proof (cases "buffer = []")
    case True
    with "1.prems" show ?thesis by (intro exI [of _ groups]) auto
  next
    case False
    with "1.prems" show ?thesis by (intro exI [of _ "groups @ [buffer]"]) auto
  qed
next
  case (2 line ls target packed buffer n)
  consider (empty) "line = []"
    | (full) "line \<noteq> []" "buffer \<noteq> [] \<and> int (n + estimate_tokens line) > target"
    | (room) "line \<noteq> []" "\<not> (buffer \<noteq> [] \<and> int (n + estimate_tokens line) > target)"
    by blast
  then show ?case
  proof cases
    case empty
    with "2.IH"(1) [OF empty "2.prems"] show ?thesis by simp
  next
    case full
    from "2.prems" full have "\<forall>g \<in> set (groups @ [buffer]). g \<noteq> [] \<and>
        (int (sum_list (map estimate_tokens g)) \<le> target \<or> length g = 1)" by auto
    from "2.IH"(2) [OF full(1) refl full(2) this] full "2.prems" show ?thesis by auto
  next
    case room
    with "2.prems"(3,4) have "int (n + estimate_tokens line) \<le> target \<or> length (buffer @ [line]) = 1" by auto
    with "2.IH"(3) [OF room(1) refl room(2) "2.prems"(1,2)] room "2.prems"(3) show ?thesis by auto
  qed
qed

text \<open>
  packing a table keeps its rows whole, in order and complete: the packed texts are the lines of
  consecutive groups of the non-empty serialized body rows, and a group stays within the token
  target unless it is a single row.
\<close>

theorem pack_table_rows:
  assumes "b_rows b = Some (header # body)" and "body \<noteq> []"
  shows "\<exists>gs. pack_table b cfg = map (str_join [nl]) gs
    \<and> concat gs = filter (\<lambda>l. l \<noteq> []) (map (serialize_row header) body)
    \<and> (\<forall>g \<in> set gs. g \<noteq> [] \<and>
          (int (sum_list (map estimate_tokens g)) \<le> target_tokens cfg \<or> length g = 1))"
proof -
  from assms have "pack_table b cfg = pack_loop (map (serialize_row header) body) (target_tokens cfg) [] [] 0"
    by (cases body) (auto simp: pack_table_def)
  then show ?thesis
    using pack_loop_groups [of "[]" "target_tokens cfg" "[]" 0 "[]" "map (serialize_row header) body"] by simp
qed

theorem pack_table_rows_witness:
  "let b = (text_block Table [])\<lparr>b_rows := Some [[lit ''k''], [lit ''v''], [lit ''w'']]\<rparr>
   in pack_table b \<lparr>target_tokens = 1, overlap_tokens = 0\<rparr> = [lit ''k: v'', lit ''k: w'']
     \<and> (\<exists>gs. pack_table b \<lparr>target_tokens = 1, overlap_tokens = 0\<rparr> = map (str_join [nl]) gs)"
proof -
  let ?b = "(text_block Table [])\<lparr>b_rows := Some [[lit ''k''], [lit ''v''], [lit ''w'']]\<rparr>"
  have "pack_table ?b \<lparr>target_tokens = 1, overlap_tokens = 0\<rparr> = [lit ''k: v'', lit ''k: w'']"
    by (simp add: pack_table_def serialize_row_def estimate_tokens_def is_cjk_def Let_def)
  moreover have "b_rows ?b = Some ([lit ''k''] # [[lit ''v''], [lit ''w'']])" by simp
  ultimately show ?thesis using pack_table_rows [of ?b] unfolding Let_def by blast
qed

section \<open>Sentence ends\<close>

text \<open>
  The full-width question mark U+FF1F and semicolon U+FF1B are not split points (the class of the
  source spells both in ASCII, twice), unlike the full-width exclamation mark U+FF01.
\<close>

lemma fullwidth_question_mark_no_split:
  "\<not> split_char 0xFF1F" "\<not> split_char 0xFF1B" "split_char 0xFF01"
  by (simp_all add: split_char_def)

end
