(* ===== verification/Ingestion.thy ===== *)
theory Ingestion
  imports Effects Chunking_Correct
begin

text \<open>
  The ingestion pipeline: \<^verbatim>\<open>application/ingestion_service.py\<close> (the stages parse, chunk and embed with
  their claim, success and failure transitions) and the task shell of \<^verbatim>\<open>workers/tasks/ingest.py\<close>
  (retries, backoff, soft time limit). One run of a task gets a \<open>run_env\<close>: the exception the outside
  world raises at each point, the times and ids it hands out and the answers of the embedding
  provider. Pydantic's JSON dump and load, jieba and the codecs are the parameters in \<open>ingest_cfg\<close>.
  \<open>chunk_replace_for_document\<close> is the remaining statement of \<^verbatim>\<open>repositories/chunks.py\<close>.
\<close>

section \<open>Parameters of a run\<close>

datatype point =
    At_claim | At_read | At_parse | At_write | At_store | At_succeed | At_fail | At_enqueue | At_retry
  | At_list nat | At_embed nat | At_commit nat

record run_env =
  e_fault :: "point \<Rightarrow> exn option"
  e_now :: "point \<Rightarrow> time"
  e_job_id :: "point \<Rightarrow> uuid"
  e_chunk_id :: "nat \<Rightarrow> uuid"
  e_embed :: "nat \<Rightarrow> ustr list \<Rightarrow> (provider_error_code \<times> ustr) + vec list"

record ingest_cfg =
  cfg_root :: path
  cfg_libs :: parser_libs
  cfg_dump :: "normalized_document \<Rightarrow> bytes"
  cfg_load :: "bytes \<Rightarrow> ustr + normalized_document"
  cfg_target :: int
  cfg_overlap :: int
  cfg_batch_size :: nat
  cfg_version :: ustr
  cfg_cut :: "ustr \<Rightarrow> ustr list"
  cfg_task_max_retries :: nat

definition reach :: "run_env \<Rightarrow> point \<Rightarrow> (sys, unit) eff" where
  "reach env p = guard_fault (e_fault env p)"

definition RETRYABLE_EMBEDDING_CODES :: "provider_error_code set" where
  "RETRYABLE_EMBEDDING_CODES = {Rate_limited, Transient}"

section \<open>Writing the chunks\<close>

definition index_tokens :: "(ustr \<Rightarrow> ustr list) \<Rightarrow> ustr \<Rightarrow> ustr" where
  "index_tokens cutter t = str_join (lit '' '') (filter (\<lambda>tok. tok \<noteq> []) (map py_strip (cutter t)))"

definition chunk_row :: "(ustr \<Rightarrow> ustr list) \<Rightarrow> uuid \<Rightarrow> uuid \<Rightarrow> chunk_draft \<Rightarrow> document_chunk" where
  "chunk_row cutter i fresh draft =
     \<lparr>ck_id = fresh, ck_document_id = i, ck_seq = cd_seq draft, ck_text = cd_text draft,
      ck_tokens = cd_tokens draft, ck_meta = cd_meta draft, ck_embedding = None,
      ck_embedding_version = None, ck_tsv = index_tokens cutter (cd_text draft)\<rparr>"

definition chunk_rows ::
  "(ustr \<Rightarrow> ustr list) \<Rightarrow> (nat \<Rightarrow> uuid) \<Rightarrow> uuid \<Rightarrow> chunk_draft list \<Rightarrow> document_chunk list" where
  "chunk_rows cutter fresh i drafts =
     map (\<lambda>(k, draft). chunk_row cutter i (fresh k) draft) (enumerate 0 drafts)"

definition chunk_replace_for_document ::
  "(ustr \<Rightarrow> ustr list) \<Rightarrow> (nat \<Rightarrow> uuid) \<Rightarrow> uuid \<Rightarrow> chunk_draft list \<Rightarrow> db \<Rightarrow> db option" where
  \<comment> \<open>delete, then one insert: primary key, \<^verbatim>\<open>ux_chunks_doc_seq\<close> and the foreign key can refuse it\<close>
  "chunk_replace_for_document cutter fresh i drafts s =
     (let kept = filter (\<lambda>c. ck_document_id c \<noteq> i) (document_chunks s);
          rows = chunk_rows cutter fresh i drafts
      in if drafts = [] then Some (s\<lparr>document_chunks := kept\<rparr>)
         else if \<not> distinct (map ck_id (kept @ rows)) \<or> \<not> distinct (map cd_seq drafts)
            \<or> doc_by_id s i = None then None
         else Some (s\<lparr>document_chunks := kept @ rows\<rparr>))"

section \<open>Claim, success, failure\<close>

definition claim ::
  "run_env \<Rightarrow> uuid \<Rightarrow> doc_status list \<Rightarrow> doc_status \<Rightarrow> stage \<Rightarrow> (sys, document option) eff" where
  "claim env i allowed_from to st =
     bnd (reach env At_claim) (\<lambda>_.
     bnd (query (\<lambda>d. snd (doc_claim i allowed_from to (e_now env At_claim) d))) (\<lambda>claimed.
     bnd (stmt (\<lambda>d. fst (doc_claim i allowed_from to (e_now env At_claim) d))) (\<lambda>_.
     if \<not> claimed then bnd rollback (\<lambda>_. ret None)
     else
       bnd (stmt_opt (job_mark_running i st (e_job_id env At_claim) (e_now env At_claim))) (\<lambda>_.
       bnd commit (\<lambda>_.
       query (\<lambda>s. doc_by_id s i))))))"

definition succeed :: "run_env \<Rightarrow> uuid \<Rightarrow> stage \<Rightarrow> doc_status \<Rightarrow> (sys, unit) eff" where
  "succeed env i st next_status =
     bnd (reach env At_succeed) (\<lambda>_.
     bnd (stmt_opt (job_mark_finished i st J_succeeded None (e_job_id env At_succeed) (e_now env At_succeed))) (\<lambda>_.
     bnd (stmt (doc_set_status i next_status (e_now env At_succeed))) (\<lambda>_.
     commit)))"

definition fail :: "run_env \<Rightarrow> uuid \<Rightarrow> stage \<Rightarrow> ustr \<Rightarrow> (sys, unit) eff" where
  "fail env i st error =
     bnd (reach env At_fail) (\<lambda>_.
     bnd (stmt_opt (job_mark_finished i st J_failed (Some error) (e_job_id env At_fail) (e_now env At_fail))) (\<lambda>_.
     bnd (stmt (doc_set_failed i error (e_now env At_fail))) (\<lambda>_.
     commit)))"

definition mark_stage_failed :: "run_env \<Rightarrow> uuid \<Rightarrow> stage \<Rightarrow> ustr \<Rightarrow> (sys, unit) eff" where
  "mark_stage_failed env i st error = in_session (fail env i st error)"

definition read_failed :: "ustr \<Rightarrow> exn" where
  "read_failed m = TransientStageError ([0x8B80, 0x53D6, 0x5132, 0x5B58, 0x5931, 0x6557, 0x3A] @ m)"

definition write_failed :: "ustr \<Rightarrow> exn" where
  "write_failed m = TransientStageError ([0x5BEB, 0x5165, 0x5132, 0x5B58, 0x5931, 0x6557, 0x3A] @ m)"

definition read_key :: "ingest_cfg \<Rightarrow> run_env \<Rightarrow> ustr \<Rightarrow> (sys, bytes) eff" where
  "read_key cfg env key =
     try_with (bnd (reach env At_read) (\<lambda>_. fs_get (cfg_root cfg) key))
       (\<lambda>e. case e of OSError m \<Rightarrow> throw (read_failed m) | _ \<Rightarrow> throw e)"

definition write_key :: "ingest_cfg \<Rightarrow> run_env \<Rightarrow> ustr \<Rightarrow> bytes \<Rightarrow> (sys, unit) eff" where
  "write_key cfg env key data =
     try_with (bnd (reach env At_write) (\<lambda>_. fs_put (cfg_root cfg) key data))
       (\<lambda>e. case e of OSError m \<Rightarrow> throw (write_failed m)
                    | FileNotFoundError \<Rightarrow> throw (write_failed []) | _ \<Rightarrow> throw e)"

section \<open>Stage parse\<close>

definition original_missing :: ustr where
  "original_missing = [0x627E, 0x4E0D, 0x5230, 0x539F, 0x59CB, 0x6A94, 0x6848]"

definition parse_body :: "ingest_cfg \<Rightarrow> run_env \<Rightarrow> uuid \<Rightarrow> document \<Rightarrow> (sys, bool) eff" where
  \<comment> \<open>the session block after the claim; \<open>False\<close> is the early \<^verbatim>\<open>return\<close>\<close>
  "parse_body cfg env i doc =
     bnd (try_with (bnd (read_key cfg env (d_storage_key doc)) (\<lambda>d. ret (Some d)))
            (\<lambda>e. case e of FileNotFoundError \<Rightarrow> ret None | _ \<Rightarrow> throw e)) (\<lambda>found.
     case found of
       None \<Rightarrow> bnd (fail env i Parse original_missing) (\<lambda>_. ret False)
     | Some data \<Rightarrow>
         bnd (reach env At_parse) (\<lambda>_.
         case (case get_parser (d_mime doc) of
                 Inl e \<Rightarrow> Inl e
               | Inr p \<Rightarrow> run_parser (cfg_libs cfg) p data (d_filename doc)) of
           Inl (ParseError m) \<Rightarrow> bnd (fail env i Parse m) (\<lambda>_. ret False)
         | Inr nd \<Rightarrow>
             bnd (write_key cfg env (normalized_key i) (cfg_dump cfg nd)) (\<lambda>_.
             bnd (succeed env i Parse St_chunking) (\<lambda>_. ret True))))"

definition parse_stage :: "ingest_cfg \<Rightarrow> run_env \<Rightarrow> uuid \<Rightarrow> (sys, unit) eff" where
  "parse_stage cfg env i =
     bnd (in_session
            (bnd (claim env i [St_pending, St_failed] St_parsing Parse) (\<lambda>doc.
             case doc of None \<Rightarrow> ret False | Some d \<Rightarrow> parse_body cfg env i d))) (\<lambda>go_on.
     if go_on then bnd (reach env At_enqueue) (\<lambda>_. enqueue (Stage_call Chunk i) 0 0) else ret ())"

section \<open>Stage chunk\<close>

definition normalized_missing :: ustr where
  "normalized_missing = [0x627E, 0x4E0D, 0x5230, 0x89E3, 0x6790, 0x7D50, 0x679C, 0x2C, 0x8ACB, 0x522A, 0x9664, 0x5F8C, 0x91CD, 0x65B0, 0x4E0A, 0x50B3]"

definition normalized_invalid :: "ustr \<Rightarrow> ustr" where
  "normalized_invalid m = [0x89E3, 0x6790, 0x7D50, 0x679C, 0x683C, 0x5F0F, 0x932F, 0x8AA4, 0x3A] @ m"

definition build_chunks :: "ingest_cfg \<Rightarrow> normalized_document \<Rightarrow> ustr \<Rightarrow> exn + chunk_draft list" where
  "build_chunks cfg nd source_type =
     (let c = \<lparr>target_tokens = cfg_target cfg, overlap_tokens = cfg_overlap cfg\<rparr>
      in case strategy_for_source_type source_type of
           None \<Rightarrow> Inl (PyError (lit ''KeyError'') [])
         | Some strategy \<Rightarrow> Inr (run_strategy strategy nd c))"

definition chunk_body :: "ingest_cfg \<Rightarrow> run_env \<Rightarrow> uuid \<Rightarrow> document \<Rightarrow> (sys, bool) eff" where
  "chunk_body cfg env i doc =
     bnd (try_with (bnd (read_key cfg env (normalized_key i)) (\<lambda>d. ret (Some d)))
            (\<lambda>e. case e of FileNotFoundError \<Rightarrow> ret None | _ \<Rightarrow> throw e)) (\<lambda>found.
     case found of
       None \<Rightarrow> bnd (fail env i Chunk normalized_missing) (\<lambda>_. ret False)
     | Some raw \<Rightarrow>
         (case cfg_load cfg raw of
            Inl m \<Rightarrow> bnd (fail env i Chunk (normalized_invalid m)) (\<lambda>_. ret False)
          | Inr nd \<Rightarrow>
              bnd (query (\<lambda>s. source_get s (d_source_id doc))) (\<lambda>source.
              case build_chunks cfg nd
                     (case source of None \<Rightarrow> lit ''upload'' | Some k \<Rightarrow> ks_type k) of
                Inl e \<Rightarrow> throw e
              | Inr drafts \<Rightarrow>
                  bnd (reach env At_store) (\<lambda>_.
                  bnd (stmt_opt (chunk_replace_for_document (cfg_cut cfg) (e_chunk_id env) i drafts)) (\<lambda>_.
                  bnd (succeed env i Chunk St_embedding) (\<lambda>_. ret True))))))"

definition chunk_stage :: "ingest_cfg \<Rightarrow> run_env \<Rightarrow> uuid \<Rightarrow> (sys, unit) eff" where
  "chunk_stage cfg env i =
     bnd (in_session
            (bnd (claim env i [St_chunking, St_failed] St_chunking Chunk) (\<lambda>doc.
             case doc of None \<Rightarrow> ret False | Some d \<Rightarrow> chunk_body cfg env i d))) (\<lambda>go_on.
     if go_on then bnd (reach env At_enqueue) (\<lambda>_. enqueue (Stage_call Embed i) 0 0) else ret ())"

section \<open>Stage embed\<close>

definition embed_batch :: "ingest_cfg \<Rightarrow> run_env \<Rightarrow> uuid \<Rightarrow> nat \<Rightarrow> document_chunk list \<Rightarrow> (sys, bool) eff" where
  \<comment> \<open>the body of the loop; \<open>False\<close> is the early \<^verbatim>\<open>return\<close>\<close>
  "embed_batch cfg env i k batch =
     bnd (reach env (At_embed k)) (\<lambda>_.
     case e_embed env k (map ck_text batch) of
       Inl (code, m) \<Rightarrow>
         if code \<in> RETRYABLE_EMBEDDING_CODES then throw (TransientStageError m)
         else bnd (fail env i Embed m) (\<lambda>_. ret False)
     | Inr vectors \<Rightarrow>
         if length vectors \<noteq> length batch then throw (PyError (lit ''ValueError'') [])
         else
           bnd (stmt (chunk_set_embeddings (zip (map ck_id batch) vectors) (cfg_version cfg))) (\<lambda>_.
           bnd (reach env (At_commit k)) (\<lambda>_.
           bnd commit (\<lambda>_. ret True))))"

lemma embed_batch_progress:
  assumes "embed_batch cfg env i k batch s = (Inr True, s')"
  shows "\<exists>vectors. e_embed env k (map ck_text batch) = Inr vectors \<and> length vectors = length batch
     \<and> s' = s\<lparr>pending := chunk_set_embeddings (zip (map ck_id batch) vectors) (cfg_version cfg) (pending s),
             committed := chunk_set_embeddings (zip (map ck_id batch) vectors) (cfg_version cfg) (pending s)\<rparr>"
  using assms
  by (auto simp: embed_batch_def reach_def guard_fault_def bnd_def ret_def throw_def stmt_def change_def
      commit_def fail_def split: option.splits sum.splits prod.splits if_splits)

text \<open>Every turn of the loop embeds at least one chunk.\<close>

lemma embed_batch_decreases:
  assumes "batch = chunk_list_unembedded (pending s) i n" and "batch \<noteq> []"
    and "embed_batch cfg env i k batch s = (Inr True, s')"
  shows "chunk_count_unembedded (pending s') i < chunk_count_unembedded (pending s) i"
proof -
  from embed_batch_progress [OF assms(3)] obtain vectors where v: "length vectors = length batch"
    "pending s' = chunk_set_embeddings (zip (map ck_id batch) vectors) (cfg_version cfg) (pending s)"
    by auto
  have "fst ` set (zip (map ck_id batch) vectors) = set (map ck_id batch)"
    using v(1) by (metis length_map list.set_map map_fst_zip)
  then show ?thesis
    unfolding v(2) using assms(1,2) list_unembedded_set [of "pending s" i n]
    by (intro count_unembedded_set [where ids = "map ck_id batch" and batch = batch]) auto
qed

function embed_loop :: "ingest_cfg \<Rightarrow> run_env \<Rightarrow> uuid \<Rightarrow> nat \<Rightarrow> sys \<Rightarrow> (exn + bool) \<times> sys" where
  "embed_loop cfg env i k s =
     (case e_fault env (At_list k) of
        Some e \<Rightarrow> (Inl e, s)
      | None \<Rightarrow>
          (let batch = chunk_list_unembedded (pending s) i (cfg_batch_size cfg)
           in if batch = [] then (Inr True, s)
              else (case embed_batch cfg env i k batch s of
                      (Inr True, s') \<Rightarrow> embed_loop cfg env i (Suc k) s'
                    | (Inr False, s') \<Rightarrow> (Inr False, s')
                    | (Inl e, s') \<Rightarrow> (Inl e, s'))))"
  by pat_completeness auto

termination
proof (relation "measure (\<lambda>(cfg, env, i, k, s). chunk_count_unembedded (pending s) i)", goal_cases)
  case (2 cfg env i k s batch r s' b)
  from embed_batch_decreases [of batch s i "cfg_batch_size cfg"] 2 show ?case by simp
qed simp

declare embed_loop.simps [simp del]

definition embed_stage :: "ingest_cfg \<Rightarrow> run_env \<Rightarrow> uuid \<Rightarrow> (sys, unit) eff" where
  "embed_stage cfg env i =
     in_session
       (bnd (claim env i [St_embedding, St_failed] St_embedding Embed) (\<lambda>doc.
        case doc of
          None \<Rightarrow> ret ()
        | Some _ \<Rightarrow>
            bnd (embed_loop cfg env i 0) (\<lambda>finished.
            if finished then succeed env i Embed St_ready else ret ())))"

section \<open>The task shell\<close>

definition stage_name :: "stage \<Rightarrow> ustr" where
  "stage_name st = (case st of Parse \<Rightarrow> lit ''parse'' | Chunk \<Rightarrow> lit ''chunk'' | Embed \<Rightarrow> lit ''embed'')"

definition max_retries :: "stage \<Rightarrow> nat" where
  "max_retries st = (case st of Parse \<Rightarrow> 3 | Chunk \<Rightarrow> 3 | Embed \<Rightarrow> 5)"

definition MAX_BACKOFF_S :: nat where "MAX_BACKOFF_S = 60"

fun retryable :: "exn \<Rightarrow> bool" where
  "retryable (TransientStageError _) = True"
| "retryable (OSError _) = True"
| "retryable FileNotFoundError = True"
| "retryable (SQLAlchemyError _) = True"
| "retryable IntegrityError = True"
| "retryable _ = False"

fun exn_str :: "exn \<Rightarrow> ustr" where
  "exn_str (TransientStageError m) = m"
| "exn_str (OSError m) = m"
| "exn_str (SQLAlchemyError m) = m"
| "exn_str (EmbeddingError _ m) = m"
| "exn_str (App e) = app_message e"
| "exn_str (PyError _ m) = m"
| "exn_str _ = []"

fun exn_name :: "exn \<Rightarrow> ustr" where
  "exn_name (EmbeddingError _ _) = lit ''EmbeddingError''"
| "exn_name (PyError n _) = n"
| "exn_name (App _) = lit ''AppError''"
| "exn_name _ = []"

definition stage_fn :: "stage \<Rightarrow> ingest_cfg \<Rightarrow> run_env \<Rightarrow> uuid \<Rightarrow> (sys, unit) eff" where
  "stage_fn st = (case st of Parse \<Rightarrow> parse_stage | Chunk \<Rightarrow> chunk_stage | Embed \<Rightarrow> embed_stage)"

definition shell_fail :: "run_env \<Rightarrow> uuid \<Rightarrow> stage \<Rightarrow> ustr \<Rightarrow> (sys, unit) eff" where
  \<comment> \<open>\<^verbatim>\<open>_fail\<close> of the shell: when marking fails too, the error is only logged\<close>
  "shell_fail env i st error = try_with (mark_stage_failed env i st error) (\<lambda>_. ret ())"

text \<open>
  \<^verbatim>\<open>task.retry(...)\<close> publishes the next attempt while the task's own \<^verbatim>\<open>max_retries\<close> allows it and raises the given exception
  after that. When publishing fails, Celery raises \<^verbatim>\<open>Reject\<close> without requeueing: the message is gone. The stage tasks do not set it, so it is Celery's default (\<open>cfg_task_max_retries\<close>, documented as 3).
\<close>

definition task_retry :: "ingest_cfg \<Rightarrow> run_env \<Rightarrow> call \<Rightarrow> nat \<Rightarrow> exn \<Rightarrow> (sys, unit) eff" where
  "task_retry cfg env c retries e =
     (if Suc retries > cfg_task_max_retries cfg then throw e
      else if e_fault env At_retry \<noteq> None then throw (PyError (lit ''Reject'') [])
      else enqueue c (Suc retries) (min (2 ^ retries) MAX_BACKOFF_S))"

definition run_stage ::
  "ingest_cfg \<Rightarrow> run_env \<Rightarrow> run_env \<Rightarrow> stage \<Rightarrow> uuid \<Rightarrow> nat \<Rightarrow> (sys, unit) eff" where
  \<comment> \<open>\<open>env'\<close> is the environment of the service the shell builds for marking the failure\<close>
  "run_stage cfg env env' st i retries =
     try_with (stage_fn st cfg env i) (\<lambda>e.
       if e = SoftTimeLimitExceeded then shell_fail env' i st (stage_name st @ [0x20, 0x968E, 0x6BB5, 0x57F7, 0x884C, 0x903E, 0x6642])
       else if retryable e then
         (if retries \<ge> max_retries st
          then shell_fail env' i st (stage_name st @ [0x20, 0x968E, 0x6BB5, 0x91CD, 0x8A66, 0x8017, 0x76E1, 0x3A] @ exn_str e)
          else task_retry cfg env (Stage_call st i) retries e)
       else shell_fail env' i st (stage_name st @ [0x20, 0x968E, 0x6BB5, 0x767C, 0x751F, 0x975E, 0x9810, 0x671F, 0x932F, 0x8AA4, 0x3A] @ exn_name e))"

text \<open>\<^verbatim>\<open>autoretry_for=(OSError,)\<close> of \<^verbatim>\<open>purge_document\<close>; the jittered backoff is \<open>countdown\<close>.\<close>

definition purge_document :: "ingest_cfg \<Rightarrow> run_env \<Rightarrow> ustr \<Rightarrow> nat \<Rightarrow> nat \<Rightarrow> (sys, unit) eff" where
  "purge_document cfg env pre retries countdown =
     try_with (bnd (reach env At_write) (\<lambda>_. fs_delete_prefix (cfg_root cfg) pre)) (\<lambda>e.
       case e of
         OSError m \<Rightarrow> if retries < 3 then enqueue (Purge_call pre) (Suc retries) countdown else throw (OSError m)
       | _ \<Rightarrow> throw e)"

end
