(* ===== verification/Ingestion_Correct.thy ===== *)
theory Ingestion_Correct
  imports Ingestion
begin

text \<open>
  What the pipeline promises: a run of a task touches its own document only, skips a document that
  is not in an entry state of its stage, moves the status along the documented transitions, keeps
  embedding progress, and (chunk and embed) never leaves a document behind without a message
  that can pick it up again. The parse stage breaks the last promise after a transient
  error (theory \<open>Pipeline\<close>).
\<close>

section \<open>What a run may change\<close>

definition doc_core :: "document \<Rightarrow> document" where
  "doc_core d = d\<lparr>d_status := St_pending, d_error := None, d_updated_at := 0\<rparr>"

definition others_same :: "uuid \<Rightarrow> db \<Rightarrow> db \<Rightarrow> bool" where
  "others_same i s t \<longleftrightarrow>
     map (\<lambda>d. if d_id d = i then doc_core d else d) (documents t)
       = map (\<lambda>d. if d_id d = i then doc_core d else d) (documents s)
     \<and> filter (\<lambda>j. j_document_id j \<noteq> i) (ingestion_jobs t) = filter (\<lambda>j. j_document_id j \<noteq> i) (ingestion_jobs s)
     \<and> filter (\<lambda>c. ck_document_id c \<noteq> i) (document_chunks t) = filter (\<lambda>c. ck_document_id c \<noteq> i) (document_chunks s)
     \<and> users t = users s \<and> refresh_tokens t = refresh_tokens s \<and> conversations t = conversations s
     \<and> messages t = messages s \<and> usage_logs t = usage_logs s \<and> knowledge_sources t = knowledge_sources s
     \<and> message_citations t = message_citations s"

definition status_of :: "db \<Rightarrow> uuid \<Rightarrow> doc_status option" where
  "status_of s i = map_option d_status (doc_by_id s i)"

lemma others_same_refl [simp]: "others_same i s s"
  by (simp add: others_same_def)

lemma others_same_trans: "others_same i s t \<Longrightarrow> others_same i t u \<Longrightarrow> others_same i s u"
  by (simp add: others_same_def)

lemma doc_core_id [simp]: "d_id (doc_core d) = d_id d"
  by (simp add: doc_core_def)

lemma others_same_ids: "others_same i s t \<Longrightarrow> map d_id (documents t) = map d_id (documents s)"
proof -
  assume "others_same i s t"
  then have "map d_id (map (\<lambda>d. if d_id d = i then doc_core d else d) (documents t))
      = map d_id (map (\<lambda>d. if d_id d = i then doc_core d else d) (documents s))"
    by (simp only: others_same_def)
  moreover have "d_id \<circ> (\<lambda>d. if d_id d = i then doc_core d else d) = d_id" by auto
  ultimately show ?thesis by (simp del: comp_apply)
qed

lemma others_same_keyed: "others_same i s t \<Longrightarrow> docs_keyed t = docs_keyed s"
  using others_same_ids by (simp add: docs_keyed_def)

lemma doc_by_id_core:
  assumes "others_same i s t"
  shows "map_option (\<lambda>d. if d_id d = i then doc_core d else d) (doc_by_id t k)
    = map_option (\<lambda>d. if d_id d = i then doc_core d else d) (doc_by_id s k)"
proof -
  have "find (\<lambda>d. d_id d = k) (map (\<lambda>d. if d_id d = i then doc_core d else d) xs)
      = map_option (\<lambda>d. if d_id d = i then doc_core d else d) (find (\<lambda>d. d_id d = k) xs)" for xs
    by (induction xs) auto
  note find_map = this
  from assms have "map (\<lambda>d. if d_id d = i then doc_core d else d) (documents t)
      = map (\<lambda>d. if d_id d = i then doc_core d else d) (documents s)"
    by (simp only: others_same_def)
  then show ?thesis unfolding doc_by_id_def find_map [symmetric] by (rule arg_cong)
qed

lemma doc_by_id_idD: "doc_by_id s k = Some d \<Longrightarrow> d_id d = k"
  by (auto simp: doc_by_id_def dest: find_SomeD)

lemma others_same_other_doc:
  assumes "others_same i s t" and "k \<noteq> i"
  shows "doc_by_id t k = doc_by_id s k"
proof -
  have *: "map_option (\<lambda>d. if d_id d = i then doc_core d else d) (doc_by_id u k) = doc_by_id u k" for u
    using assms(2) by (cases "doc_by_id u k") (auto dest: doc_by_id_idD)
  show ?thesis using doc_by_id_core [OF assms(1), of k] unfolding * .
qed

lemma others_same_exists: "others_same i s t \<Longrightarrow> doc_by_id t k = None \<longleftrightarrow> doc_by_id s k = None"
  using arg_cong [OF doc_by_id_core [of i s t k], of "\<lambda>x. x = None"] by simp

lemma others_same_core:
  assumes "others_same i s t" and t: "doc_by_id t i = Some d'"
  shows "\<exists>d. doc_by_id s i = Some d \<and> doc_core d' = doc_core d"
proof -
  from others_same_exists [OF assms(1), of i] t obtain d where d: "doc_by_id s i = Some d"
    by (cases "doc_by_id s i") auto
  with doc_by_id_core [OF assms(1), of i] t have "doc_core d' = doc_core d"
    by (simp add: doc_by_id_idD [OF t] doc_by_id_idD [OF d])
  with d show ?thesis by blast
qed

lemma others_same_map:
  assumes "\<And>d. d_id (f d) = d_id d" and "\<And>d. doc_core (f d) = doc_core d"
  shows "map (\<lambda>d. if d_id d = i then doc_core d else d) (update_where (\<lambda>d. d_id d = i \<and> p d) f ds)
     = map (\<lambda>d. if d_id d = i then doc_core d else d) ds"
  using assms by (simp add: update_where_def)

lemma claim_others: "others_same i s (fst (doc_claim i A to now s))"
  using others_same_map [of "\<lambda>d. d\<lparr>d_status := to, d_error := None, d_updated_at := now\<rparr>" i "\<lambda>d. d_status d \<in> set A"]
  by (simp add: others_same_def doc_claim_def doc_core_def)

lemma set_status_others: "others_same i s (doc_set_status i st now s)"
  using others_same_map [of "\<lambda>d. d\<lparr>d_status := st, d_updated_at := now\<rparr>" i "\<lambda>_. True"]
  by (simp add: others_same_def doc_set_status_def doc_update_def doc_core_def)

lemma set_failed_others: "others_same i s (doc_set_failed i err now s)"
  using others_same_map [of "\<lambda>d. d\<lparr>d_status := St_failed, d_error := Some err, d_updated_at := now\<rparr>" i "\<lambda>_. True"]
  by (simp add: others_same_def doc_set_failed_def doc_update_def doc_core_def)

lemma filter_update_jobs:
  assumes "\<And>j. j_document_id (f j) = j_document_id j"
  shows "filter (\<lambda>j. j_document_id j \<noteq> i) (update_where (\<lambda>j. j_document_id j = i \<and> q j) f rows)
    = filter (\<lambda>j. j_document_id j \<noteq> i) rows"
  using assms by (induction rows) (auto simp: update_where_def)

lemma job_running_others:
  "job_mark_running i st fresh now s = Some t \<Longrightarrow> others_same i s t \<and> documents t = documents s
     \<and> document_chunks t = document_chunks s"
  by (auto simp only: job_mark_running_def others_same_def split: if_splits) (simp_all add: filter_update_jobs)

lemma job_finished_others:
  "job_mark_finished i st status err fresh now s = Some t \<Longrightarrow> others_same i s t \<and> documents t = documents s
     \<and> document_chunks t = document_chunks s"
  by (auto simp only: job_mark_finished_def others_same_def split: if_splits) (simp_all add: filter_update_jobs)

lemma status_of_cong: "documents t = documents s \<Longrightarrow> status_of t i = status_of s i"
  by (simp add: status_of_def doc_by_id_def)

lemma status_set_status: "doc_by_id s i \<noteq> None \<Longrightarrow> status_of (doc_set_status i st now s) i = Some st"
  by (auto simp: status_of_def)

lemma status_set_failed: "doc_by_id s i \<noteq> None \<Longrightarrow> status_of (doc_set_failed i err now s) i = Some St_failed"
  by (auto simp: status_of_def)

lemma status_claim:
  "docs_keyed s \<Longrightarrow> snd (doc_claim i A to now s) \<Longrightarrow> status_of (fst (doc_claim i A to now s)) i = Some to"
  by (auto simp: doc_claim_flag doc_claim_by_id status_of_def)

lemma claim_flag_status:
  "docs_keyed s \<Longrightarrow> snd (doc_claim i A to now s) \<longleftrightarrow> (\<exists>x \<in> set A. status_of s i = Some x)"
  by (auto simp: doc_claim_flag status_of_def)

section \<open>Rules for claim, success and failure\<close>

text \<open>The state between two commits of a run on document \<open>i\<close> that started in \<open>s\<close>.\<close>

definition synced :: "uuid \<Rightarrow> sys \<Rightarrow> sys \<Rightarrow> bool" where
  "synced i s t \<longleftrightarrow>
     pending t = committed t \<and> others_same i (committed s) (committed t)
     \<and> docs_keyed (committed t) \<and> distinct (map ck_id (document_chunks (committed t)))"

lemma wp_claim:
  assumes s: "pending s = committed s" and key: "docs_keyed (committed s)"
    and fault: "\<And>e. e_fault env At_claim = Some e \<Longrightarrow> E e s"
    and skip: "\<forall>x \<in> set A. status_of (committed s) i \<noteq> Some x \<Longrightarrow> e_fault env At_claim = None \<Longrightarrow> Q None s"
    and go_on: "\<And>d db. others_same i (committed s) db \<Longrightarrow> status_of db i = Some to \<Longrightarrow> doc_by_id db i = Some d
       \<Longrightarrow> document_chunks db = document_chunks (committed s)
       \<Longrightarrow> \<exists>x \<in> set A. status_of (committed s) i = Some x
       \<Longrightarrow> Q (Some d) (s\<lparr>pending := db, committed := db\<rparr>)"
  shows "wp (claim env i A to st) Q E s"
proof -
  let ?now = "e_now env At_claim" and ?c = "committed s"
  let ?d = "fst (doc_claim i A to ?now ?c)"
  show ?thesis
  proof (cases "e_fault env At_claim")
    case (Some e)
    with fault show ?thesis by (simp add: claim_def reach_def wp_simps)
  next
    case None
    show ?thesis
    proof (cases "snd (doc_claim i A to ?now ?c)")
      case False
      with claim_flag_status [OF key, of i A to ?now] have "\<forall>x \<in> set A. status_of ?c i \<noteq> Some x" by blast
      with skip None have q: "Q None s" by blast
      have "s\<lparr>pending := committed s\<rparr> = s" using s by (cases s) simp
      with q have "Q None (s\<lparr>pending := committed s\<rparr>)" by (simp only:)
      with None False s show ?thesis by (simp add: claim_def reach_def wp_simps)
    next
      case True
      then have st: "status_of ?d i = Some to" using status_claim [OF key] by blast
      then have ex: "doc_by_id ?d i \<noteq> None" by (auto simp: status_of_def)
      then obtain db where db: "job_mark_running i st (e_job_id env At_claim) ?now ?d = Some db"
        using job_ops_defined by blast
      note o = job_running_others [OF db]
      from o ex obtain d where d: "doc_by_id db i = Some d" by (auto simp: doc_by_id_def)
      have "others_same i ?c db" using o claim_others others_same_trans by blast
      moreover have "status_of db i = Some to" using o st status_of_cong by metis
      moreover have "document_chunks db = document_chunks ?c" using o by (simp add: doc_claim_def)
      ultimately have "Q (Some d) (s\<lparr>pending := db, committed := db\<rparr>)"
        using go_on d True claim_flag_status [OF key] by blast
      with None True s db d show ?thesis by (simp add: claim_def reach_def wp_simps)
    qed
  qed
qed

lemma wp_succeed:
  assumes ex: "doc_by_id (pending s) i \<noteq> None"
    and fault: "\<And>e. e_fault env At_succeed = Some e \<Longrightarrow> E e s"
    and done_: "\<And>db. others_same i (pending s) db \<Longrightarrow> status_of db i = Some next_status
       \<Longrightarrow> document_chunks db = document_chunks (pending s) \<Longrightarrow> Q () (s\<lparr>pending := db, committed := db\<rparr>)"
  shows "wp (succeed env i st next_status) Q E s"
proof (cases "e_fault env At_succeed")
  case None
  let ?now = "e_now env At_succeed"
  from ex obtain d where d: "job_mark_finished i st J_succeeded None (e_job_id env At_succeed) ?now (pending s) = Some d"
    using job_ops_defined by blast
  note o = job_finished_others [OF d]
  let ?db = "doc_set_status i next_status ?now d"
  have "doc_by_id d i \<noteq> None" using o ex by (simp add: doc_by_id_def)
  then have "status_of ?db i = Some next_status" by (rule status_set_status)
  moreover have "others_same i (pending s) ?db" using o set_status_others others_same_trans by blast
  moreover have "document_chunks ?db = document_chunks (pending s)"
    using o by (simp add: doc_set_status_def doc_update_def)
  ultimately show ?thesis using None d done_ by (simp add: succeed_def reach_def wp_simps)
qed (use fault in \<open>simp add: succeed_def reach_def wp_simps\<close>)

lemma wp_fail:
  assumes ex: "doc_by_id (pending s) i \<noteq> None"
    and fault: "\<And>e. e_fault env At_fail = Some e \<Longrightarrow> E e s"
    and done_: "\<And>db. others_same i (pending s) db \<Longrightarrow> status_of db i = Some St_failed
       \<Longrightarrow> document_chunks db = document_chunks (pending s) \<Longrightarrow> Q () (s\<lparr>pending := db, committed := db\<rparr>)"
  shows "wp (fail env i st err) Q E s"
proof (cases "e_fault env At_fail")
  case None
  let ?now = "e_now env At_fail"
  from ex obtain d where d: "job_mark_finished i st J_failed (Some err) (e_job_id env At_fail) ?now (pending s) = Some d"
    using job_ops_defined by blast
  note o = job_finished_others [OF d]
  let ?db = "doc_set_failed i err ?now d"
  have "doc_by_id d i \<noteq> None" using o ex by (simp add: doc_by_id_def)
  then have "status_of ?db i = Some St_failed" by (rule status_set_failed)
  moreover have "others_same i (pending s) ?db" using o set_failed_others others_same_trans by blast
  moreover have "document_chunks ?db = document_chunks (pending s)"
    using o by (simp add: doc_set_failed_def doc_update_def)
  ultimately show ?thesis using None d done_ by (simp add: fail_def reach_def wp_simps)
qed (use fault in \<open>simp add: fail_def reach_def wp_simps\<close>)

section \<open>Outcomes of a stage\<close>

definition entry_statuses :: "stage \<Rightarrow> doc_status list" where
  "entry_statuses st = (case st of Parse \<Rightarrow> [St_pending, St_failed] | Chunk \<Rightarrow> [St_chunking, St_failed]
      | Embed \<Rightarrow> [St_embedding, St_failed])"

definition running_status :: "stage \<Rightarrow> doc_status" where
  "running_status st = (case st of Parse \<Rightarrow> St_parsing | Chunk \<Rightarrow> St_chunking | Embed \<Rightarrow> St_embedding)"

definition next_status :: "stage \<Rightarrow> doc_status" where
  "next_status st = (case st of Parse \<Rightarrow> St_chunking | Chunk \<Rightarrow> St_embedding | Embed \<Rightarrow> St_ready)"

definition next_messages :: "stage \<Rightarrow> uuid \<Rightarrow> task_message list" where
  "next_messages st i = (case st of
      Parse \<Rightarrow> [\<lparr>tm_call = Stage_call Chunk i, tm_retries = 0, tm_countdown = 0\<rparr>]
    | Chunk \<Rightarrow> [\<lparr>tm_call = Stage_call Embed i, tm_retries = 0, tm_countdown = 0\<rparr>]
    | Embed \<Rightarrow> [])"

definition enters :: "stage \<Rightarrow> uuid \<Rightarrow> db \<Rightarrow> bool" where
  "enters st i s \<longleftrightarrow> (\<exists>x \<in> set (entry_statuses st). status_of s i = Some x)"

definition stage_done :: "stage \<Rightarrow> uuid \<Rightarrow> sys \<Rightarrow> sys \<Rightarrow> bool" where
  "stage_done st i s t \<longleftrightarrow>
     synced i s t \<and>
     (\<not> enters st i (committed s) \<and> t = s
      \<or> enters st i (committed s) \<and> status_of (committed t) i = Some St_failed \<and> broker t = broker s
      \<or> enters st i (committed s) \<and> status_of (committed t) i = Some (next_status st)
         \<and> broker t = broker s @ next_messages st i)"

definition stage_raised :: "run_env \<Rightarrow> stage \<Rightarrow> uuid \<Rightarrow> sys \<Rightarrow> exn \<Rightarrow> sys \<Rightarrow> bool" where
  "stage_raised env st i s e t \<longleftrightarrow>
     synced i s t \<and> broker t = broker s \<and>
     (t = s \<and> e_fault env At_claim = Some e
      \<or> enters st i (committed s) \<and> status_of (committed t) i = Some (running_status st)
      \<or> enters st i (committed s) \<and> status_of (committed t) i = Some (next_status st)
         \<and> st \<noteq> Embed \<and> e_fault env At_enqueue = Some e)"

text \<open>The claimed document in the middle of a run: at a point where an exception may escape.\<close>

definition midway :: "stage \<Rightarrow> uuid \<Rightarrow> sys \<Rightarrow> sys \<Rightarrow> bool" where
  "midway st i s t \<longleftrightarrow>
     synced i s t \<and> broker t = broker s \<and> status_of (committed t) i = Some (running_status st)"

lemma status_exists: "status_of s i = Some x \<Longrightarrow> doc_by_id s i \<noteq> None"
  by (auto simp: status_of_def)

lemma synced_step:
  assumes "synced i s t" and "others_same i (committed t) db" and "document_chunks db = document_chunks (committed t)"
  shows "synced i s (t\<lparr>pending := db, committed := db\<rparr>)"
  using assms others_same_keyed [OF assms(2)] others_same_trans by (auto simp: synced_def)

lemma synced_fields:
  "synced i s t \<Longrightarrow> committed u = committed t \<Longrightarrow> pending u = committed u \<Longrightarrow> synced i s u"
  by (simp add: synced_def)

lemma wp_claim_stage:
  assumes s: "synced i s s"
    and fault: "\<And>e. e_fault env At_claim = Some e \<Longrightarrow> E e s"
    and skip: "\<not> enters st i (committed s) \<Longrightarrow> Q None s"
    and go_on: "\<And>d t. enters st i (committed s) \<Longrightarrow> midway st i s t \<Longrightarrow> doc_by_id (committed t) i = Some d
      \<Longrightarrow> document_chunks (committed t) = document_chunks (committed s) \<Longrightarrow> files t = files s \<Longrightarrow> Q (Some d) t"
  shows "wp (claim env i (entry_statuses st) (running_status st) st) Q E s"
proof (rule wp_claim)
  fix d db
  assume db: "others_same i (committed s) db" "status_of db i = Some (running_status st)"
    "doc_by_id db i = Some d" "document_chunks db = document_chunks (committed s)"
    "\<exists>x \<in> set (entry_statuses st). status_of (committed s) i = Some x"
  then show "Q (Some d) (s\<lparr>pending := db, committed := db\<rparr>)"
    using synced_step [OF s db(1,4)] by (intro go_on) (auto simp: enters_def midway_def)
qed (use s fault skip in \<open>auto simp: synced_def enters_def\<close>)

lemma midway_exists: "midway st i s t \<Longrightarrow> doc_by_id (pending t) i \<noteq> None"
  by (auto simp: midway_def synced_def dest: status_exists)

lemma wp_fail_stage:
  assumes m: "midway st i s t"
    and fault: "\<And>e. E e t"
    and done_: "\<And>u. synced i s u \<Longrightarrow> broker u = broker s \<Longrightarrow> status_of (committed u) i = Some St_failed
       \<Longrightarrow> document_chunks (committed u) = document_chunks (committed t) \<Longrightarrow> files u = files t \<Longrightarrow> Q () u"
  shows "wp (fail env i st' err) Q E t"
proof (rule wp_fail)
  show "doc_by_id (pending t) i \<noteq> None" using m by (rule midway_exists)
  show "E e t" for e by (rule fault)
next
  fix db
  assume db: "others_same i (pending t) db" "status_of db i = Some St_failed"
    "document_chunks db = document_chunks (pending t)"
  with m have "synced i s (t\<lparr>pending := db, committed := db\<rparr>)"
    by (intro synced_step) (auto simp: midway_def synced_def)
  with m db show "Q () (t\<lparr>pending := db, committed := db\<rparr>)"
    by (intro done_) (auto simp: midway_def synced_def)
qed

section \<open>Parse and chunk\<close>

definition block_done :: "stage \<Rightarrow> uuid \<Rightarrow> sys \<Rightarrow> bool \<Rightarrow> sys \<Rightarrow> bool" where
  \<comment> \<open>the session block of a stage: to go on, or to return early\<close>
  "block_done st i s go_on t \<longleftrightarrow>
     synced i s t \<and> broker t = broker s \<and>
     (if go_on then enters st i (committed s) \<and> status_of (committed t) i = Some (next_status st)
      else \<not> enters st i (committed s) \<and> t = s
         \<or> enters st i (committed s) \<and> status_of (committed t) i = Some St_failed)"

definition block_raised :: "run_env \<Rightarrow> stage \<Rightarrow> uuid \<Rightarrow> sys \<Rightarrow> exn \<Rightarrow> sys \<Rightarrow> bool" where
  "block_raised env st i s e t \<longleftrightarrow>
     others_same i (committed s) (committed t) \<and> docs_keyed (committed t)
     \<and> distinct (map ck_id (document_chunks (committed t))) \<and> broker t = broker s \<and>
     (t = s \<and> e_fault env At_claim = Some e
      \<or> enters st i (committed s) \<and> status_of (committed t) i = Some (running_status st))"

lemma midway_raised: "midway st i s t \<Longrightarrow> enters st i (committed s) \<Longrightarrow> block_raised env st i s e t"
  by (simp add: midway_def synced_def block_raised_def)

lemma wp_bnd_reach:
  "wp (bnd (reach env p) f) Q E s = (case e_fault env p of None \<Rightarrow> wp (f ()) Q E s | Some e \<Rightarrow> E e s)"
  by (simp add: reach_def wp_simps)

lemma wp_read_key:
  "(\<And>d. Q d t) \<Longrightarrow> (\<And>e. E e t) \<Longrightarrow> wp (read_key cfg env key) Q E t"
  by (auto simp: read_key_def reach_def wp_simps split: option.split sum.split exn.split)

lemma wp_write_key:
  "(\<And>f. Q () (t\<lparr>files := f\<rparr>)) \<Longrightarrow> (\<And>e. E e t) \<Longrightarrow> wp (write_key cfg env key d) Q E t"
  by (auto simp: write_key_def reach_def wp_simps split: option.split sum.split exn.split)

lemma wp_read_optional:
  assumes "\<And>d. Q (Some d) t" and "Q None t" and "\<And>e. E e t"
  shows "wp (try_with (bnd (read_key cfg env key) (\<lambda>d. ret (Some d)))
            (\<lambda>e. case e of FileNotFoundError \<Rightarrow> ret None | _ \<Rightarrow> throw e)) Q E t"
  unfolding wp_simps
  by (rule wp_read_key) (use assms in \<open>auto simp: wp_simps split: exn.split\<close>)

lemma midway_files: "midway st i s t \<Longrightarrow> midway st i s (t\<lparr>files := f\<rparr>)"
  by (simp add: midway_def synced_def)

lemma wp_fail_block:
  assumes "midway st i s t" and "enters st i (committed s)"
  shows "wp (bnd (fail env i st' err) (\<lambda>_. ret False)) (block_done st i s) (block_raised env' st i s) t"
  unfolding wp_simps using midway_raised [OF assms]
  by (intro wp_fail_stage [OF assms(1)]) (auto simp: block_done_def assms(2))

lemma wp_succeed_block:
  assumes c: "others_same i (committed s) (committed t)" "docs_keyed (committed t)"
      "distinct (map ck_id (document_chunks (committed t)))"
      "broker t = broker s" "status_of (committed t) i = Some (running_status st)"
    and e: "enters st i (committed s)"
    and p: "others_same i (committed t) (pending t)" "distinct (map ck_id (document_chunks (pending t)))"
      "doc_by_id (pending t) i \<noteq> None"
    and x: "x = next_status st"
  shows "wp (bnd (succeed env i st' x) (\<lambda>_. ret True)) (block_done st i s) (block_raised env' st i s) t"
  unfolding wp_simps
proof (rule wp_succeed [OF p(3)])
  show "block_raised env' st i s e' t" for e' using c e by (simp add: block_raised_def)
next
  fix db
  assume db: "others_same i (pending t) db" "status_of db i = Some x" "document_chunks db = document_chunks (pending t)"
  have "others_same i (committed s) db"
    using others_same_trans [OF c(1) others_same_trans [OF p(1) db(1)]] .
  moreover have "docs_keyed db" using c(2) others_same_keyed [OF db(1)] others_same_keyed [OF p(1)] by simp
  ultimately show "block_done st i s True (t\<lparr>pending := db, committed := db\<rparr>)"
    using c e p x db by (simp add: block_done_def synced_def)
qed

lemma parse_block:
  assumes "midway Parse i s t" and "enters Parse i (committed s)"
  shows "wp (parse_body cfg env i d) (block_done Parse i s) (block_raised env Parse i s) t"
  unfolding parse_body_def wp_bnd [of "try_with _ _"]
proof (rule wp_read_optional; (simp only: option.case)?)
  show "wp (bnd (fail env i Parse original_missing) (\<lambda>_. ret False)) (block_done Parse i s) (block_raised env Parse i s) t"
    by (rule wp_fail_block [OF assms])
next
  fix data
  show "wp (bnd (reach env At_parse) (\<lambda>_.
         case (case get_parser (d_mime d) of
                 Inl e \<Rightarrow> Inl e
               | Inr p \<Rightarrow> run_parser (cfg_libs cfg) p data (d_filename d)) of
           Inl (ParseError m) \<Rightarrow> bnd (fail env i Parse m) (\<lambda>_. ret False)
         | Inr nd \<Rightarrow>
             bnd (write_key cfg env (normalized_key i) (cfg_dump cfg nd)) (\<lambda>_.
             bnd (succeed env i Parse St_chunking) (\<lambda>_. ret True))))
     (block_done Parse i s) (block_raised env Parse i s) t"
  proof (cases "e_fault env At_parse")
    case None
    let ?r = "case get_parser (d_mime d) of Inl e \<Rightarrow> Inl e | Inr p \<Rightarrow> run_parser (cfg_libs cfg) p data (d_filename d)"
    show ?thesis
    proof (cases ?r)
      case (Inl e)
      then show ?thesis using None wp_fail_block [OF assms]
        by (cases e) (simp add: wp_bnd_reach)
    next
      case (Inr nd)
      have "wp (bnd (write_key cfg env (normalized_key i) (cfg_dump cfg nd)) (\<lambda>_.
             bnd (succeed env i Parse St_chunking) (\<lambda>_. ret True)))
         (block_done Parse i s) (block_raised env Parse i s) t"
        unfolding wp_bnd [of "write_key _ _ _ _"]
      proof (rule wp_write_key)
        fix f
        show "wp (bnd (succeed env i Parse St_chunking) (\<lambda>_. ret True)) (block_done Parse i s)
          (block_raised env Parse i s) (t\<lparr>files := f\<rparr>)"
          using assms midway_exists [OF assms(1)]
          by (intro wp_succeed_block) (auto simp: midway_def synced_def next_status_def)
      qed (rule midway_raised [OF assms])
      with None Inr show ?thesis by (simp add: wp_bnd_reach)
    qed
  qed (use midway_raised [OF assms] in \<open>simp add: wp_bnd_reach\<close>)
qed (rule midway_raised [OF assms])

lemma in_session_outcome:
  assumes s: "synced i s s"
    and "wp m (block_done st i s) (block_raised env st i s) s"
  shows "wp (in_session m) (block_done st i s)
     (\<lambda>e t. block_raised env st i s e t \<and> pending t = committed t) s"
proof -
  have "s\<lparr>pending := committed s\<rparr> = s" using s by (cases s) (simp add: synced_def)
  moreover have "t\<lparr>pending := committed t\<rparr> = t" if "block_done st i s g t" for g t
    using that by (cases t) (simp add: block_done_def synced_def)
  then have "block_done st i s g t \<Longrightarrow> block_done st i s g (t\<lparr>pending := committed t\<rparr>)" for g t by metis
  moreover have "block_raised env st i s e t \<Longrightarrow> block_raised env st i s e (t\<lparr>pending := committed t\<rparr>)" for e t
    using s by (cases "t = s") (auto simp: block_raised_def synced_def)
  ultimately show ?thesis
    using assms(2) by (auto simp: wp_in_session intro: wp_mono)
qed

lemma wp_stage_tail:
  assumes s: "synced i s s"
    and "wp m (block_done st i s) (block_raised env st i s) s"
    and "st \<noteq> Embed" and "next_messages st i = [\<lparr>tm_call = c, tm_retries = 0, tm_countdown = 0\<rparr>]"
  shows "wp (bnd (in_session m) (\<lambda>go_on. if go_on then bnd (reach env At_enqueue) (\<lambda>_. enqueue c 0 0) else ret ()))
     (\<lambda>_. stage_done st i s) (stage_raised env st i s) s"
  unfolding wp_bnd [of "in_session m"]
proof (rule wp_mono [OF in_session_outcome [OF assms(1,2)]])
  fix go_on t
  assume "block_done st i s go_on t"
  with assms(3,4) show "wp (if go_on then bnd (reach env At_enqueue) (\<lambda>_. enqueue c 0 0) else ret ())
     (\<lambda>_. stage_done st i s) (stage_raised env st i s) t"
    by (auto simp: wp_bnd_reach wp_enqueue wp_ret wp_if block_done_def stage_done_def stage_raised_def synced_def
        split: option.split)
next
  fix e t
  assume "block_raised env st i s e t \<and> pending t = committed t"
  then show "stage_raised env st i s e t"
    by (auto simp: block_raised_def stage_raised_def synced_def)
qed

lemma parse_outcome:
  assumes s: "synced i s s"
  shows "wp (parse_stage cfg env i) (\<lambda>_. stage_done Parse i s) (stage_raised env Parse i s) s"
  unfolding parse_stage_def
proof (rule wp_stage_tail [OF s])
  have "wp (claim env i (entry_statuses Parse) (running_status Parse) Parse)
     (\<lambda>doc. wp (case doc of None \<Rightarrow> ret False | Some d \<Rightarrow> parse_body cfg env i d)
        (block_done Parse i s) (block_raised env Parse i s)) (block_raised env Parse i s) s"
    by (rule wp_claim_stage [OF s])
      (use s in \<open>auto simp: wp_ret block_done_def block_raised_def synced_def intro: parse_block\<close>)
  then show "wp (bnd (claim env i [St_pending, St_failed] St_parsing Parse) (\<lambda>doc.
         case doc of None \<Rightarrow> ret False | Some d \<Rightarrow> parse_body cfg env i d))
     (block_done Parse i s) (block_raised env Parse i s) s"
    by (simp add: wp_bnd entry_statuses_def running_status_def)
qed (simp_all add: next_messages_def)

lemma replace_others:
  assumes "chunk_replace_for_document cutter fresh i drafts s = Some t"
  shows "others_same i s t" and "documents t = documents s"
    and "distinct (map ck_id (document_chunks s)) \<Longrightarrow> distinct (map ck_id (document_chunks t))"
proof -
  have rows: "filter (\<lambda>c. ck_document_id c \<noteq> i) (chunk_rows cutter fresh i drafts) = []"
    by (auto simp: chunk_rows_def chunk_row_def filter_empty_conv)
  show "others_same i s t" "documents t = documents s"
    using assms rows by (auto simp: chunk_replace_for_document_def Let_def others_same_def split: if_splits)
  show "distinct (map ck_id (document_chunks s)) \<Longrightarrow> distinct (map ck_id (document_chunks t))"
    using assms by (auto simp: chunk_replace_for_document_def Let_def distinct_map_filter split: if_splits)
qed

lemma chunk_block:
  assumes m: "midway Chunk i s t" and e: "enters Chunk i (committed s)"
  shows "wp (chunk_body cfg env i d) (block_done Chunk i s) (block_raised env Chunk i s) t"
  unfolding chunk_body_def wp_bnd [of "try_with _ _"]
proof (rule wp_read_optional; (simp only: option.case)?)
  show "wp (bnd (fail env i Chunk normalized_missing) (\<lambda>_. ret False)) (block_done Chunk i s) (block_raised env Chunk i s) t"
    by (rule wp_fail_block [OF assms])
next
  fix raw
  let ?store = "\<lambda>drafts. bnd (reach env At_store) (\<lambda>_.
      bnd (stmt_opt (chunk_replace_for_document (cfg_cut cfg) (e_chunk_id env) i drafts)) (\<lambda>_.
      bnd (succeed env i Chunk St_embedding) (\<lambda>_. ret True)))"
  have store: "wp (?store drafts) (block_done Chunk i s) (block_raised env Chunk i s) t" for drafts
  proof (cases "chunk_replace_for_document (cfg_cut cfg) (e_chunk_id env) i drafts (pending t)")
    case None
    then show ?thesis using midway_raised [OF assms]
      by (auto simp: wp_bnd_reach wp_bnd [of "stmt_opt _"] wp_stmt_opt split: option.split)
  next
    case (Some db)
    note r = replace_others [OF Some]
    have "wp (bnd (succeed env i Chunk St_embedding) (\<lambda>_. ret True)) (block_done Chunk i s)
       (block_raised env Chunk i s) (t\<lparr>pending := db\<rparr>)"
      using m e r midway_exists [OF m] others_same_exists [OF r(1)]
      by (intro wp_succeed_block) (auto simp: midway_def synced_def next_status_def)
    with Some show ?thesis using midway_raised [OF assms]
      by (auto simp: wp_bnd_reach wp_bnd [of "stmt_opt _"] wp_stmt_opt split: option.split)
  qed
  show "wp (case cfg_load cfg raw of
            Inl m \<Rightarrow> bnd (fail env i Chunk (normalized_invalid m)) (\<lambda>_. ret False)
          | Inr nd \<Rightarrow>
              bnd (query (\<lambda>s. source_get s (d_source_id d))) (\<lambda>source.
              case build_chunks cfg nd (case source of None \<Rightarrow> lit ''upload'' | Some k \<Rightarrow> ks_type k) of
                Inl e \<Rightarrow> throw e | Inr drafts \<Rightarrow> ?store drafts))
     (block_done Chunk i s) (block_raised env Chunk i s) t"
    using store wp_fail_block [OF assms] midway_raised [OF assms]
    by (auto simp: wp_bnd [of "query _"] wp_query wp_throw split: sum.split)
qed (rule midway_raised [OF assms])

lemma chunk_outcome:
  assumes s: "synced i s s"
  shows "wp (chunk_stage cfg env i) (\<lambda>_. stage_done Chunk i s) (stage_raised env Chunk i s) s"
  unfolding chunk_stage_def
proof (rule wp_stage_tail [OF s])
  have "wp (claim env i (entry_statuses Chunk) (running_status Chunk) Chunk)
     (\<lambda>doc. wp (case doc of None \<Rightarrow> ret False | Some d \<Rightarrow> chunk_body cfg env i d)
        (block_done Chunk i s) (block_raised env Chunk i s)) (block_raised env Chunk i s) s"
    by (rule wp_claim_stage [OF s])
      (use s in \<open>auto simp: wp_ret block_done_def block_raised_def synced_def intro: chunk_block\<close>)
  then show "wp (bnd (claim env i [St_chunking, St_failed] St_chunking Chunk) (\<lambda>doc.
         case doc of None \<Rightarrow> ret False | Some d \<Rightarrow> chunk_body cfg env i d))
     (block_done Chunk i s) (block_raised env Chunk i s) s"
    by (simp add: wp_bnd entry_statuses_def running_status_def)
qed (simp_all add: next_messages_def)

section \<open>Embed\<close>

lemma set_embeddings_others:
  assumes "distinct (map ck_id (document_chunks s))" and "fst ` set vs \<subseteq> ck_id ` set batch"
    and "set batch \<subseteq> {c \<in> set (document_chunks s). ck_document_id c = i \<and> ck_embedding c = None}"
  shows "others_same i s (chunk_set_embeddings vs v s)"
proof -
  have "with_vectors vs v c = c" if c: "c \<in> set (document_chunks s)" "ck_document_id c \<noteq> i" for c
  proof (rule with_vectors_other)
    show "ck_id c \<notin> fst ` set vs"
    proof
      assume "ck_id c \<in> fst ` set vs"
      with assms(2) obtain b where "b \<in> set batch" "ck_id b = ck_id c" by auto
      with assms(1,3) c(1) have "b = c" by (auto simp: distinct_map inj_on_def)
      with \<open>b \<in> set batch\<close> assms(3) c(2) show False by auto
    qed
  qed
  then have "filter (\<lambda>c. ck_document_id c \<noteq> i) (map (with_vectors vs v) cs) = filter (\<lambda>c. ck_document_id c \<noteq> i) cs"
    if "set cs \<subseteq> set (document_chunks s)" for cs
    using that by (induction cs) auto
  then show ?thesis by (simp add: others_same_def chunk_set_embeddings_eq)
qed

lemma set_embeddings_ids: "map ck_id (document_chunks (chunk_set_embeddings vs v s)) = map ck_id (document_chunks s)"
  by (simp add: chunk_set_embeddings_eq)

lemma fst_set_zip: "length ys = length xs \<Longrightarrow> fst ` set (zip xs ys) = set xs"
  by (metis list.set_map map_fst_zip)

definition embed_post :: "uuid \<Rightarrow> sys \<Rightarrow> bool \<Rightarrow> sys \<Rightarrow> bool" where
  "embed_post i s ok u \<longleftrightarrow> (if ok then midway Embed i s u else block_done Embed i s False u)"

lemma embed_batch_outcome:
  assumes m: "midway Embed i s t" and e: "enters Embed i (committed s)"
    and b: "set batch \<subseteq> {c \<in> set (document_chunks (pending t)). ck_document_id c = i \<and> ck_embedding c = None}"
  shows "wp (embed_batch cfg env i k batch)
     (embed_post i s) (block_raised env Embed i s) t"
proof -
  have raised: "block_raised env Embed i s x t" for x using m e by (rule midway_raised)
  have failed: "wp (bnd (fail env i Embed err) (\<lambda>_. ret False))
     (embed_post i s) (block_raised env Embed i s) t" for err
    unfolding wp_simps
    by (rule wp_fail_stage [OF m]) (use raised e in \<open>auto simp: block_done_def embed_post_def\<close>)
  have stored: "midway Embed i s (t\<lparr>pending := db, committed := db\<rparr>)"
    and raised': "block_raised env Embed i s x (t\<lparr>pending := db\<rparr>)"
    if "length vs = length batch" "db = chunk_set_embeddings (zip (map ck_id batch) vs) v (pending t)" for vs v db x
  proof -
    have "others_same i (pending t) db"
      unfolding that(2) by (rule set_embeddings_others [OF _ _ b])
        (use m that(1) in \<open>auto simp: midway_def synced_def fst_set_zip\<close>)
    moreover have "status_of db i = status_of (pending t) i"
      unfolding that(2) by (rule status_of_cong) (simp add: chunk_set_embeddings_eq)
    moreover have "distinct (map ck_id (document_chunks db)) = distinct (map ck_id (document_chunks (pending t)))"
      unfolding that(2) by (simp only: set_embeddings_ids)
    ultimately show "midway Embed i s (t\<lparr>pending := db, committed := db\<rparr>)"
      using m others_same_keyed others_same_trans by (auto simp: midway_def synced_def)
    show "block_raised env Embed i s x (t\<lparr>pending := db\<rparr>)"
      using m e by (simp add: block_raised_def midway_def synced_def)
  qed
  have go_on: "midway Embed i s u \<Longrightarrow> embed_post i s True u" for u by (simp add: embed_post_def)
  show ?thesis
    unfolding embed_batch_def wp_bnd_reach
    using raised failed stored [THEN go_on] raised'
    by (auto simp: wp_bnd_reach wp_bnd [of "stmt _"] wp_stmt wp_bnd [of commit] wp_commit wp_ret wp_throw
        split: option.split sum.split)
qed

lemma embed_loop_outcome:
  assumes "midway Embed i s t" and "enters Embed i (committed s)"
  shows "wp (embed_loop cfg env i k)
     (\<lambda>fin u. if fin then midway Embed i s u \<and> (0 < cfg_batch_size cfg \<longrightarrow> chunk_count_unembedded (pending u) i = 0)
        else block_done Embed i s False u) (block_raised env Embed i s) t"
  using assms
proof (induction cfg env i k t rule: embed_loop.induct)
  case (1 cfg env i k t)
  let ?b = "chunk_list_unembedded (pending t) i (cfg_batch_size cfg)"
  note batch = embed_batch_outcome [OF 1(2,3) list_unembedded_set, of cfg env k "cfg_batch_size cfg"]
  show ?case
  proof (cases "e_fault env (At_list k) = None \<and> ?b \<noteq> []")
    case False
    then show ?thesis using 1(2) midway_raised [OF 1(2,3)] list_unembedded_Nil [of "cfg_batch_size cfg" "pending t" i]
      by (auto simp: wp_def embed_loop.simps [of cfg env i k t] Let_def split: option.split)
  next
    case True
    show ?thesis
    proof (cases "embed_batch cfg env i k ?b t")
      case (Pair r u)
      show ?thesis
      proof (cases "r = Inr True")
        case ok: True
        with batch Pair have u: "midway Embed i s u" by (simp add: wp_def embed_post_def)
        have "embed_loop cfg env i k t = embed_loop cfg env i (Suc k) u"
          using True Pair ok by (simp add: embed_loop.simps [of cfg env i k t] Let_def)
        with 1(1) [OF _ refl _ _ _ _ u 1(3)] True Pair ok show ?thesis by (auto simp: wp_def)
      next
        case False
        then have "embed_loop cfg env i k t = (r, u)"
          using True Pair
          by (cases r) (auto simp: embed_loop.simps [of cfg env i k t] Let_def)
        with batch Pair False show ?thesis by (auto simp: wp_def embed_post_def split: sum.splits)
      qed
    qed
  qed
qed

end
