(* ===== verification/Pagination.thy ===== *)
theory Pagination
  imports Tables Storage Http
begin

text \<open>
  Keyset pagination (\<^verbatim>\<open>core/pagination.py\<close>): the opaque cursor, which is the urlsafe base64 of
  \<^verbatim>\<open>"{iso}|{uuid}"\<close>, the comparison \<^verbatim>\<open>keyset_before\<close> and \<^verbatim>\<open>paginate\<close>. Base64 is modelled as CPython
  computes it (decoding skips foreign characters and stops at the padding). The texts of a
  \<^verbatim>\<open>datetime\<close> and of a \<^verbatim>\<open>UUID\<close> and their parsers are the parameters of \<open>cursor_codec\<close>.

  The locale \<open>keyset_table\<close> is what the services rely on: a repository whose \<^verbatim>\<open>list_page\<close> returns the
  first \<open>limit + 1\<close> rows before a key. Inside it, following the cursors is shown to enumerate the rows.
\<close>

section \<open>Base64\<close>

definition b64_char :: "nat \<Rightarrow> nat" where
  "b64_char v = (if v < 26 then v + 65 else if v < 52 then v + 71 else if v < 62 then v - 4
     else if v = 62 then 45 else 95)"

definition b64_value :: "nat \<Rightarrow> nat option" where
  \<comment> \<open>after the translation of \<^verbatim>\<open>-_\<close> to \<^verbatim>\<open>+/\<close>\<close>
  "b64_value c = (if 65 \<le> c \<and> c \<le> 90 then Some (c - 65) else if 97 \<le> c \<and> c \<le> 122 then Some (c - 71)
     else if 48 \<le> c \<and> c \<le> 57 then Some (c + 4) else if c = 45 \<or> c = 43 then Some 62
     else if c = 95 \<or> c = 47 then Some 63 else None)"

fun b64_encode :: "bytes \<Rightarrow> ustr" where
  "b64_encode [] = []"
| "b64_encode [a] = [b64_char (a div 4), b64_char (a mod 4 * 16), 61, 61]"
| "b64_encode [a, b] = [b64_char (a div 4), b64_char (a mod 4 * 16 + b div 16), b64_char (b mod 16 * 4), 61]"
| "b64_encode (a # b # c # r) =
     [b64_char (a div 4), b64_char (a mod 4 * 16 + b div 16), b64_char (b mod 16 * 4 + c div 64), b64_char (c mod 64)]
     @ b64_encode r"

text \<open>\<open>quad\<close> is the position in the group of four, \<open>left\<close> the bits left over, \<open>pads\<close> the pads seen.\<close>

fun a2b :: "nat \<Rightarrow> nat \<Rightarrow> nat \<Rightarrow> ustr \<Rightarrow> bytes option" where
  "a2b quad left pads [] = (if quad = 0 then Some [] else None)"
| "a2b quad left pads (ch # s) =
     (if ch = 61 then
        (if quad \<ge> 2 \<and> quad + Suc pads \<ge> 4 then Some []
         else a2b quad left (if quad \<ge> 2 then Suc pads else pads) s)
      else case b64_value ch of
        None \<Rightarrow> a2b quad left pads s
      | Some v \<Rightarrow>
          if quad = 0 then a2b 1 v 0 s
          else if quad = 1 then map_option (Cons ((left * 4 + v div 16) mod 256)) (a2b 2 (v mod 16) 0 s)
          else if quad = 2 then map_option (Cons ((left * 16 + v div 4) mod 256)) (a2b 3 (v mod 4) 0 s)
          else map_option (Cons ((left * 64 + v) mod 256)) (a2b 0 0 0 s))"

definition b64_decode :: "ustr \<Rightarrow> bytes option" where
  "b64_decode s = a2b 0 0 0 s"

lemma b64_value_char: "v < 64 \<Longrightarrow> b64_value (b64_char v) = Some v"
  by (auto simp: b64_value_def b64_char_def)

lemma b64_char_ok: "v < 64 \<Longrightarrow> b64_char v \<noteq> 61 \<and> b64_char v < 128"
  by (auto simp: b64_char_def)

lemma a2b_char:
  "v < 64 \<Longrightarrow> a2b quad left pads (b64_char v # s) =
     (if quad = 0 then a2b 1 v 0 s
      else if quad = 1 then map_option (Cons ((left * 4 + v div 16) mod 256)) (a2b 2 (v mod 16) 0 s)
      else if quad = 2 then map_option (Cons ((left * 16 + v div 4) mod 256)) (a2b 3 (v mod 4) 0 s)
      else map_option (Cons ((left * 64 + v) mod 256)) (a2b 0 0 0 s))"
  by (simp add: b64_value_char b64_char_ok)

declare a2b.simps(2) [simp del]

lemma a2b_pad: "quad \<ge> 2 \<Longrightarrow> a2b quad left pads (61 # s) =
   (if quad + Suc pads \<ge> 4 then Some [] else a2b quad left (Suc pads) s)"
  by (simp add: a2b.simps(2))

lemma bits:
  fixes a b c :: nat
  assumes "a < 256" "b < 256" "c < 256"
  shows "a div 4 < 64" "a mod 4 * 16 < 64" "a mod 4 * 16 + b div 16 < 64" "b mod 16 * 4 < 64"
    "b mod 16 * 4 + c div 64 < 64" "c mod 64 < 64"
    "a div 4 * 4 + (a mod 4 * 16) div 16 = a" "a div 4 * 4 + (a mod 4 * 16 + b div 16) div 16 = a"
    "(a mod 4 * 16 + b div 16) mod 16 * 16 + (b mod 16 * 4) div 4 = b"
    "(a mod 4 * 16 + b div 16) mod 16 * 16 + (b mod 16 * 4 + c div 64) div 4 = b"
    "(b mod 16 * 4 + c div 64) mod 4 * 64 + c mod 64 = c"
proof -
  have q: "b div 16 < 16" "c div 64 < 4" using assms by (simp_all add: less_mult_imp_div_less)
  have m: "(x * 16 + b div 16) div 16 = x" "(x * 16 + b div 16) mod 16 = b div 16" for x
    using q(1) by simp_all
  have n: "(x * 4 + c div 64) div 4 = x" "(x * 4 + c div 64) mod 4 = c div 64" for x
    using q(2) by simp_all
  show "a div 4 < 64" using assms(1) by (simp add: less_mult_imp_div_less)
  show "a mod 4 * 16 < 64" "b mod 16 * 4 < 64" "c mod 64 < 64" by simp_all
  show "a mod 4 * 16 + b div 16 < 64" using q(1) mod_less_divisor [of 4 a] by linarith
  show "b mod 16 * 4 + c div 64 < 64" using q(2) mod_less_divisor [of 16 b] by linarith
  show "a div 4 * 4 + (a mod 4 * 16) div 16 = a" by simp
  show "a div 4 * 4 + (a mod 4 * 16 + b div 16) div 16 = a" by (simp only: m div_mult_mod_eq)
  show "(a mod 4 * 16 + b div 16) mod 16 * 16 + (b mod 16 * 4) div 4 = b"
    unfolding m by simp
  show "(a mod 4 * 16 + b div 16) mod 16 * 16 + (b mod 16 * 4 + c div 64) div 4 = b"
    by (simp only: m n div_mult_mod_eq)
  show "(b mod 16 * 4 + c div 64) mod 4 * 64 + c mod 64 = c" by (simp only: n div_mult_mod_eq)
qed

lemma b64_decode_encode: "\<forall>b \<in> set bs. b < 256 \<Longrightarrow> b64_decode (b64_encode bs) = Some bs"
  unfolding b64_decode_def
proof (induction bs rule: b64_encode.induct)
  case (2 a)
  then have a: "a < 256" by simp
  show ?case using a by (simp add: a2b_char a2b_pad bits [OF a a a])
next
  case (3 a b)
  then have a: "a < 256" "b < 256" by simp_all
  show ?case using a by (simp add: a2b_char a2b_pad bits [OF a a(2)])
next
  case (4 a b c r)
  then have a: "a < 256" "b < 256" "c < 256" by simp_all
  show ?case using 4 a by (simp add: a2b_char bits [OF a])
qed simp

lemma b64_encode_ascii: "\<forall>b \<in> set bs. b < 256 \<Longrightarrow> \<forall>c \<in> set (b64_encode bs). c < 128"
proof (induction bs rule: b64_encode.induct)
  case (2 a)
  then have a: "a < 256" by simp
  show ?case by (simp add: b64_char_ok bits [OF a a a])
next
  case (3 a b)
  then have a: "a < 256" "b < 256" by simp_all
  show ?case by (simp add: b64_char_ok bits [OF a a(2)])
next
  case (4 a b c r)
  then have a: "a < 256" "b < 256" "c < 256" by simp_all
  show ?case using 4 a by (simp add: b64_char_ok bits [OF a])
qed simp

section \<open>Cursors\<close>

type_synonym keyset = "time \<times> uuid"

record cursor_codec =
  iso :: "time \<Rightarrow> ustr"
  of_iso :: "ustr \<Rightarrow> time option"
  of_uuid :: "ustr \<Rightarrow> uuid option"
  of_utf8 :: "bytes \<Rightarrow> ustr option"

definition encode_cursor :: "cursor_codec \<Rightarrow> time \<Rightarrow> uuid \<Rightarrow> ustr" where
  "encode_cursor cc ts i = b64_encode (iso cc ts @ lit ''|'' @ uuid_str i)"

definition decode_cursor :: "cursor_codec \<Rightarrow> ustr \<Rightarrow> app_error + keyset" where
  "decode_cursor cc cursor =
     (if \<exists>c \<in> set cursor. c \<ge> 128 then Inl InvalidCursor
      else case b64_decode cursor of
        None \<Rightarrow> Inl InvalidCursor
      | Some bs \<Rightarrow>
          (case of_utf8 cc bs of
             None \<Rightarrow> Inl InvalidCursor
           | Some raw \<Rightarrow>
               (if 124 \<notin> set raw then Inl InvalidCursor
                else case (of_iso cc (takeWhile (\<lambda>c. c \<noteq> 124) raw),
                           of_uuid cc (drop 1 (dropWhile (\<lambda>c. c \<noteq> 124) raw))) of
                  (Some ts, Some i) \<Rightarrow> Inr (ts, i)
                | _ \<Rightarrow> Inl InvalidCursor)))"

definition codec_ok :: "cursor_codec \<Rightarrow> bool" where
  "codec_ok cc \<longleftrightarrow>
     (\<forall>t. of_iso cc (iso cc t) = Some t \<and> (\<forall>c \<in> set (iso cc t). c < 128 \<and> c \<noteq> 124))
     \<and> (\<forall>i < 2 ^ 128. of_uuid cc (uuid_str i) = Some i)
     \<and> (\<forall>bs. (\<forall>b \<in> set bs. b < 128) \<longrightarrow> of_utf8 cc bs = Some bs)"

lemma uuid_str_ascii: "\<forall>c \<in> set (uuid_str i). c < 128 \<and> c \<noteq> 124"
proof -
  have "\<forall>c \<in> set (hex_digits 32 i). c < 128 \<and> c \<noteq> 124"
    by (auto simp: hex_digits_def hex_digit_def)
  then show ?thesis
    by (auto simp: uuid_str_def Let_def dest!: in_set_takeD in_set_dropD)
qed

lemma decode_encode_cursor:
  assumes "codec_ok cc" and "i < 2 ^ 128"
  shows "decode_cursor cc (encode_cursor cc ts i) = Inr (ts, i)"
proof -
  let ?raw = "iso cc ts @ lit ''|'' @ uuid_str i"
  have iso: "\<forall>c \<in> set (iso cc ts). c < 128 \<and> c \<noteq> 124" and bar: "lit ''|'' = [124]"
    using assms(1) by (simp_all add: codec_ok_def)
  then have raw: "\<forall>b \<in> set ?raw. b < 128" using uuid_str_ascii by auto
  then have raw': "\<forall>b \<in> set ?raw. b < 256" by fastforce
  have "takeWhile (\<lambda>c. c \<noteq> 124) ?raw = iso cc ts" "drop 1 (dropWhile (\<lambda>c. c \<noteq> 124) ?raw) = uuid_str i"
    using iso bar by (simp_all add: takeWhile_append2 dropWhile_append2)
  moreover have "of_utf8 cc ?raw = Some ?raw" using assms(1) raw by (simp only: codec_ok_def)
  moreover have "\<not> (\<exists>c \<in> set (encode_cursor cc ts i). c \<ge> 128)"
    using b64_encode_ascii [OF raw'] by (auto simp: encode_cursor_def not_le)
  moreover have "b64_decode (encode_cursor cc ts i) = Some ?raw"
    unfolding encode_cursor_def by (rule b64_decode_encode [OF raw'])
  moreover have "124 \<in> set ?raw" by simp
  ultimately show ?thesis
    using assms by (simp add: decode_cursor_def codec_ok_def del: lit_simps)
qed

section \<open>Pages\<close>

definition keyset_before :: "time \<Rightarrow> uuid \<Rightarrow> keyset \<Rightarrow> bool" where
  "keyset_before t i c \<longleftrightarrow> t < fst c \<or> (t = fst c \<and> i < snd c)"

definition paginate :: "cursor_codec \<Rightarrow> 'r list \<Rightarrow> nat \<Rightarrow> ('r \<Rightarrow> keyset) \<Rightarrow> 'r list \<times> ustr option" where
  "paginate cc rows limit key =
     (let items = take limit rows
      in (items, if length rows > limit \<and> items \<noteq> [] then Some (encode_cursor cc (fst (key (last items))) (snd (key (last items))))
                 else None))"

text \<open>\<^verbatim>\<open>where keyset_before ... order_by (ts desc, id desc) limit (limit + 1)\<close>\<close>

definition select_page :: "('r \<Rightarrow> keyset) \<Rightarrow> nat \<Rightarrow> keyset option \<Rightarrow> 'r list \<Rightarrow> 'r list" where
  "select_page key limit cursor rows =
     take (limit + 1) (rev (sort_key key
       (filter (\<lambda>r. case cursor of None \<Rightarrow> True | Some c \<Rightarrow> keyset_before (fst (key r)) (snd (key r)) c) rows)))"

lemma keyset_before_less: "keyset_before (fst k) (snd k) c \<longleftrightarrow> k < c"
  by (cases k; cases c) (auto simp: keyset_before_def)

section \<open>Following the cursors\<close>

text \<open>A client that asks for page after page until there is no next cursor; \<open>n\<close> bounds the requests.\<close>

fun walk :: "cursor_codec \<Rightarrow> (nat \<Rightarrow> keyset option \<Rightarrow> 'r list) \<Rightarrow> ('r \<Rightarrow> keyset) \<Rightarrow> nat \<Rightarrow> nat \<Rightarrow> ustr option
    \<Rightarrow> 'r list list option" where
  "walk cc q key limit 0 cursor = None"
| "walk cc q key limit (Suc n) cursor =
     (case (case cursor of None \<Rightarrow> Inr None
              | Some t \<Rightarrow> (case decode_cursor cc t of Inl e \<Rightarrow> Inl e | Inr k \<Rightarrow> Inr (Some k))) of
        Inl e \<Rightarrow> None
      | Inr k \<Rightarrow>
          (let (items, next_cursor) = paginate cc (q limit k) limit key
           in case next_cursor of
                None \<Rightarrow> Some [items]
              | Some t \<Rightarrow> map_option (Cons items) (walk cc q key limit n (Some t))))"

definition newest_first :: "('r \<Rightarrow> keyset) \<Rightarrow> 'r list \<Rightarrow> 'r list" where
  "newest_first key rows = rev (sort_key key rows)"

lemma select_page_newest:
  "select_page key limit c rows =
     take (limit + 1) (filter (\<lambda>r. case c of None \<Rightarrow> True | Some k \<Rightarrow> key r < k) (newest_first key rows))"
  by (simp add: select_page_def newest_first_def keyset_before_less filter_sort rev_filter [symmetric]
      split: option.split)

lemma newest_first_strict:
  assumes "distinct (map key rows)"
  shows "sorted_wrt (\<lambda>x y. key y < key x) (newest_first key rows)"
proof -
  have "sorted (map key (sort_key key rows))" by simp
  moreover have "distinct (map key (sort_key key rows))"
    using assms by (metis distinct_map distinct_sort set_sort)
  ultimately have "sorted_wrt (<) (map key (sort_key key rows))"
    by (simp add: strict_sorted_iff)
  then show ?thesis by (simp add: newest_first_def sorted_wrt_rev sorted_wrt_map)
qed

lemma filter_after:
  assumes "sorted_wrt (\<lambda>x y. key y < (key x :: keyset)) (A @ B)" and "A \<noteq> []"
  shows "filter (\<lambda>r. key r < key (last A)) (A @ B) = B"
proof -
  have "\<not> key a < key (last A)" if a: "a \<in> set A" for a
  proof (cases "a = last A")
    case False
    have "sorted_wrt (\<lambda>x y. key y < key x) (butlast A @ [last A])"
      using assms by (simp add: sorted_wrt_append)
    moreover have "a \<in> set (butlast A)"
      using a False assms(2) by (metis append_butlast_last_id rotate1.simps(2) set_ConsD set_rotate1)
    ultimately show ?thesis by (auto simp: sorted_wrt_append)
  qed simp
  then have "filter (\<lambda>r. key r < key (last A)) A = []" by (simp add: filter_empty_conv)
  moreover have "filter (\<lambda>r. key r < key (last A)) B = B"
    using assms by (auto simp: filter_id_conv sorted_wrt_append)
  ultimately show ?thesis by simp
qed

lemma walk_remaining:
  assumes cc: "codec_ok cc" and limit: "1 \<le> limit"
    and D: "sorted_wrt (\<lambda>x y. key y < key x) (A @ B)" and ids: "\<forall>r \<in> set (A @ B). snd (key r) < 2 ^ 128"
    and q: "\<And>c. q limit c = take (limit + 1) (filter (\<lambda>r. case c of None \<Rightarrow> True | Some k \<Rightarrow> key r < k) (A @ B))"
    and c: "if A = [] then cursor = None else cursor = Some (encode_cursor cc (fst (key (last A))) (snd (key (last A))))"
    and n: "length B < n"
  shows "\<exists>pages. walk cc q key limit n cursor = Some pages \<and> concat pages = B \<and> (\<forall>p \<in> set pages. length p \<le> limit)"
  using D ids q c n
proof (induction n arbitrary: A B cursor)
  case (Suc n)
  have k: "\<exists>k. (case cursor of None \<Rightarrow> Inr None
              | Some t \<Rightarrow> (case decode_cursor cc t of Inl e \<Rightarrow> Inl e | Inr k \<Rightarrow> Inr (Some k))) = Inr k
      \<and> q limit k = take (limit + 1) B"
  proof (cases "A = []")
    case True
    with Suc.prems(3) [of None] Suc.prems(4) show ?thesis by simp
  next
    case False
    have "decode_cursor cc (encode_cursor cc (fst (key (last A))) (snd (key (last A)))) = Inr (key (last A))"
      using decode_encode_cursor [OF cc] Suc.prems(2) False by simp
    with Suc.prems(3) [of "Some (key (last A))"] Suc.prems(4) filter_after [OF Suc.prems(1) False] False
    show ?thesis by (simp del: filter_append take_append)
  qed
  then obtain k where k: "(case cursor of None \<Rightarrow> Inr None
              | Some t \<Rightarrow> (case decode_cursor cc t of Inl e \<Rightarrow> Inl e | Inr k \<Rightarrow> Inr (Some k))) = Inr k"
    "q limit k = take (limit + 1) B" by blast
  show ?case
  proof (cases "length B \<le> limit")
    case True
    then have "paginate cc (q limit k) limit key = (B, None)" by (simp add: k(2) paginate_def Let_def)
    with True show ?thesis by (simp add: k(1))
  next
    case False
    let ?items = "take limit B" and ?rest = "drop limit B"
    let ?t = "encode_cursor cc (fst (key (last ?items))) (snd (key (last ?items)))"
    have ne: "?items \<noteq> []" using False limit by auto
    have AB: "(A @ ?items) @ ?rest = A @ B" by simp
    have page: "paginate cc (q limit k) limit key = (?items, Some ?t)"
      using False ne by (simp add: k(2) paginate_def Let_def min_def)
    have "\<exists>pages. walk cc q key limit n (Some ?t) = Some pages \<and> concat pages = ?rest \<and> (\<forall>p \<in> set pages. length p \<le> limit)"
    proof (rule Suc.IH [where A = "A @ ?items"])
      show "length ?rest < n" using Suc.prems(5) False limit by simp
    qed (use Suc.prems ne in \<open>simp_all only: AB, simp_all\<close>)
    then obtain pages where "walk cc q key limit n (Some ?t) = Some pages" "concat pages = ?rest"
      "\<forall>p \<in> set pages. length p \<le> limit" by blast
    then show ?thesis
      by (intro exI [of _ "?items # pages"]) (simp add: k(1) page)
  qed
qed simp

locale keyset_table =
  fixes list_page :: "'s \<Rightarrow> nat \<Rightarrow> keyset option \<Rightarrow> 'r list"
    and key :: "'r \<Rightarrow> keyset" and rows :: "'s \<Rightarrow> 'r list" and good :: "'s \<Rightarrow> bool"
  assumes list_page: "list_page s limit c = select_page key limit c (rows s)"
    and unique: "good s \<Longrightarrow> distinct (map key (rows s))"
    and id_range: "good s \<Longrightarrow> r \<in> set (rows s) \<Longrightarrow> snd (key r) < 2 ^ 128"
begin

lemma pages_enumerate:
  assumes "codec_ok cc" "1 \<le> limit" "good s" "length (rows s) < n"
  shows "\<exists>pages. walk cc (list_page s) key limit n None = Some pages
     \<and> concat pages = newest_first key (rows s) \<and> (\<forall>p \<in> set pages. length p \<le> limit)"
proof (rule walk_remaining [where A = "[]", OF assms(1,2)])
  show "sorted_wrt (\<lambda>x y. key y < key x) ([] @ newest_first key (rows s))"
    using newest_first_strict [OF unique [OF assms(3)]] by simp
  show "\<forall>r \<in> set ([] @ newest_first key (rows s)). snd (key r) < 2 ^ 128"
    using id_range [OF assms(3)] by (simp add: newest_first_def)
qed (use assms(4) in \<open>simp_all add: list_page select_page_newest newest_first_def\<close>)

lemma page_bounded: "length (list_page s limit c) \<le> limit + 1"
  by (simp add: list_page select_page_def)

lemma page_rows: "set (list_page s limit c) \<subseteq> set (rows s)"
  by (auto simp: list_page select_page_def dest: in_set_takeD)

end

section \<open>A concrete codec\<close>

definition parse_uuid :: "ustr \<Rightarrow> uuid" where
  "parse_uuid s = foldl (\<lambda>a c. a * 16 + (if c < 58 then c - 48 else c - 87)) 0 (filter (\<lambda>c. c \<noteq> 45) s)"

definition demo_codec :: cursor_codec where
  "demo_codec =
     \<lparr>iso = (\<lambda>t. (if t < 0 then 45 else 43) # replicate (nat \<bar>t\<bar>) 49),
      of_iso = (\<lambda>s. Some (if s \<noteq> [] \<and> hd s = 45 then - int (length s - 1) else int (length s - 1))),
      of_uuid = (\<lambda>s. Some (parse_uuid s)), of_utf8 = Some\<rparr>"

lemma hex_fold:
  "foldl (\<lambda>a c. a * 16 + (if c < 58 then c - 48 else c - 87)) a (hex_digits k n) = a * 16 ^ k + n mod 16 ^ k"
proof (induction k arbitrary: a)
  case (Suc k)
  have d: "(if hex_digit x < 58 then hex_digit x - 48 else hex_digit x - 87) = x" if "x < 16" for x
    using that by (auto simp: hex_digit_def)
  have "n mod 16 ^ Suc k = n div 16 ^ k mod 16 * 16 ^ k + n mod 16 ^ k"
    using mod_mult2_eq [of n "16 ^ k" 16] by (simp add: mult.commute)
  then show ?case using Suc.IH d [of "n div 16 ^ k mod 16"] by (simp add: hex_digits_Suc algebra_simps)
qed (simp add: hex_digits_def)

lemma uuid_digits: "filter (\<lambda>c. c \<noteq> 45) (uuid_str n) = hex_digits 32 n"
proof -
  let ?h = "hex_digits 32 n"
  have h: "c \<noteq> 45" if "c \<in> set ?h" for c using that by (auto simp: hex_digits_def hex_digit_def)
  then have f: "filter (\<lambda>c. c \<noteq> 45) xs = xs" if "set xs \<subseteq> set ?h" for xs
    using that by (auto simp: filter_id_conv)
  have s: "set (take m ?h) \<subseteq> set ?h" "set (take m (drop k ?h)) \<subseteq> set ?h" "set (drop k ?h) \<subseteq> set ?h" for m k
    using set_take_subset set_drop_subset by (metis order_trans)+
  have t: "take m (drop k ?h) @ drop (k + m) ?h = drop k ?h" for m k
    by (metis add.commute append_take_drop_id drop_drop)
  have "filter (\<lambda>c. c \<noteq> 45) (uuid_str n)
      = take 8 ?h @ take 4 (drop 8 ?h) @ take 4 (drop 12 ?h) @ take 4 (drop 16 ?h) @ drop 20 ?h"
    by (simp add: uuid_str_def Let_def f [OF s(1)] f [OF s(2)] f [OF s(3)])
  then show ?thesis using t [of 4 16] t [of 4 12] t [of 4 8] by simp
qed

lemma demo_codec_ok: "codec_ok demo_codec"
  unfolding codec_ok_def
proof (intro conjI allI impI)
  fix i :: nat assume "i < 2 ^ 128"
  then show "of_uuid demo_codec (uuid_str i) = Some i"
    using hex_fold [of 0 32 i] by (simp add: demo_codec_def parse_uuid_def uuid_digits)
qed (auto simp: demo_codec_def)

text \<open>
  a cursor survives the round trip: what the client sends back decodes to the sort key the page ended with.
\<close>

theorem cursor_roundtrip:
  assumes "codec_ok cc" and "i < 2 ^ 128"
  shows "decode_cursor cc (encode_cursor cc ts i) = Inr (ts, i)"
  by (rule decode_encode_cursor [OF assms])

theorem cursor_roundtrip_witness: "decode_cursor demo_codec (encode_cursor demo_codec (- 3) 11) = Inr (- 3, 11)"
  by (rule cursor_roundtrip [OF demo_codec_ok]) simp

end
