(* ===== verification/Document_Service.thy ===== *)
theory Document_Service
  imports Ingestion_Correct Pagination
begin

text \<open>
  \<^verbatim>\<open>application/document_service.py\<close> (upload with deduplication, retry, delete, list) and the read limit of
  \<^verbatim>\<open>api/routers/documents.py\<close>. A request runs in one session; \<open>doc_env\<close> is what the outside
  provides to it: clock, new ids, the failures of storage and broker, and what concurrent requests
  commit just before the two inserts that can collide (\<open>u_race_source\<close>, \<open>u_race_doc\<close>).
  \<^verbatim>\<open>str.lower\<close> and \<^verbatim>\<open>sha256\<close> are the parameters in \<open>doc_cfg\<close>.
\<close>

section \<open>Names and media types\<close>

text \<open>\<^verbatim>\<open>PurePosixPath(s).name\<close> and \<^verbatim>\<open>.suffix\<close>\<close>

definition posix_name :: "ustr \<Rightarrow> ustr" where
  "posix_name s = (case rev (filter (\<lambda>p. p \<noteq> [] \<and> p \<noteq> [46]) (split_on 47 s)) of [] \<Rightarrow> [] | p # _ \<Rightarrow> p)"

definition rfind :: "nat \<Rightarrow> ustr \<Rightarrow> nat option" where
  "rfind c s = (if c \<in> set s then Some (length s - 1 - length (takeWhile (\<lambda>x. x \<noteq> c) (rev s))) else None)"

definition posix_suffix :: "ustr \<Rightarrow> ustr" where
  "posix_suffix s =
     (let name = posix_name s in
      case rfind 46 name of
        None \<Rightarrow> []
      | Some i \<Rightarrow> if 0 < i \<and> i < length name - 1 then drop i name else [])"

definition EXT_TO_MIME :: "(ustr \<times> ustr) list" where
  "EXT_TO_MIME =
     [(lit ''.pdf'', lit ''application/pdf''),
      (lit ''.docx'', docx_mime),
      (lit ''.txt'', lit ''text/plain''),
      (lit ''.md'', lit ''text/markdown''),
      (lit ''.html'', lit ''text/html''),
      (lit ''.htm'', lit ''text/html'')]"

definition ACCEPTED_CONTENT_TYPES :: "(ustr \<times> ustr list) list" where
  "ACCEPTED_CONTENT_TYPES =
     [(lit ''application/pdf'', [lit ''application/pdf'']),
      (docx_mime, [docx_mime, lit ''application/zip'']),
      (lit ''text/plain'', [lit ''text/plain'']),
      (lit ''text/markdown'', [lit ''text/markdown'', lit ''text/x-markdown'', lit ''text/plain'']),
      (lit ''text/html'', [lit ''text/html'', lit ''text/plain''])]"

definition ALWAYS_ACCEPTED :: "ustr list" where
  "ALWAYS_ACCEPTED = [[], lit ''application/octet-stream'']"

definition canonical_mime :: "(ustr \<Rightarrow> ustr) \<Rightarrow> ustr \<Rightarrow> ustr option \<Rightarrow> app_error + ustr" where
  "canonical_mime lower filename content_type =
     (case map_of EXT_TO_MIME (lower (posix_suffix filename)) of
        None \<Rightarrow> Inl UnsupportedMediaType
      | Some mime \<Rightarrow>
          (let declared = lower (py_strip (hd (split_on 59 (case content_type of None \<Rightarrow> [] | Some t \<Rightarrow> t))))
           in if declared \<in> set ALWAYS_ACCEPTED then Inr mime
              else if declared \<notin> set (case map_of ACCEPTED_CONTENT_TYPES mime of None \<Rightarrow> [] | Some ts \<Rightarrow> ts)
              then Inl UnsupportedMediaType
              else Inr mime))"

definition PDF_MAGIC :: bytes where "PDF_MAGIC = lit ''%PDF''"

definition check_magic :: "ustr \<Rightarrow> bytes \<Rightarrow> app_error option" where
  "check_magic mime data =
     (if mime = lit ''application/pdf'' \<and> \<not> py_prefix PDF_MAGIC data then Some UnsupportedMediaType else None)"

section \<open>Requests\<close>

record auth_context =
  ctx_user_id :: uuid
  ctx_role :: user_role
  ctx_trace_id :: ustr

record doc_cfg =
  dc_root :: path
  dc_lower :: "ustr \<Rightarrow> ustr"
  dc_sha256 :: "bytes \<Rightarrow> ustr"

record doc_env =
  u_now :: time
  u_doc_id :: uuid
  u_source_id :: uuid
  u_put_fault :: "exn option"
  u_cleanup_fault :: "exn option"
  u_enqueue_fault :: "exn option"
  u_race_source :: "db \<Rightarrow> db"
  u_race_doc :: "db \<Rightarrow> db"

text \<open>Another request's commit, which the statements that follow see (read committed).\<close>

definition race :: "(db \<Rightarrow> db) \<Rightarrow> (sys, unit) eff" where
  "race g = change (\<lambda>s. s\<lparr>committed := g (committed s), pending := g (pending s)\<rparr>)"

definition STAGE_ENTRY_STATUS :: "stage \<Rightarrow> doc_status" where
  "STAGE_ENTRY_STATUS st = (case st of Parse \<Rightarrow> St_pending | Chunk \<Rightarrow> St_chunking | Embed \<Rightarrow> St_embedding)"

definition enqueue_failed_error :: ustr where
  "enqueue_failed_error = [0x89E3, 0x6790, 0x4EFB, 0x52D9, 0x5165, 0x5217, 0x5931, 0x6557, 0x2C, 0x8ACB, 0x91CD, 0x8A66]"

definition reload :: "document \<Rightarrow> (sys, document) eff" where
  "reload d = query (\<lambda>s. case doc_by_id s (d_id d) of None \<Rightarrow> d | Some d' \<Rightarrow> d')"

section \<open>Starting a stage\<close>

definition enqueue_stage :: "doc_env \<Rightarrow> document \<Rightarrow> stage \<Rightarrow> (sys, unit) eff" where
  "enqueue_stage env doc st =
     try_with (bnd (guard_fault (u_enqueue_fault env)) (\<lambda>_. enqueue (Stage_call st (d_id doc)) 0 0))
       (\<lambda>_. bnd (stmt (doc_update (d_id doc) (\<lambda>d. d\<lparr>d_status := St_failed,
                 d_error := Some enqueue_failed_error, d_updated_at := u_now env\<rparr>))) (\<lambda>_.
            commit))"

definition restart_from_failed_stage :: "doc_env \<Rightarrow> document \<Rightarrow> (sys, unit) eff" where
  "restart_from_failed_stage env doc =
     bnd (query (\<lambda>s. job_first_failed_stage s (d_id doc))) (\<lambda>failed.
     let st = (case failed of None \<Rightarrow> Parse | Some st \<Rightarrow> st) in
     bnd (stmt (doc_update (d_id doc) (\<lambda>d. d\<lparr>d_status := STAGE_ENTRY_STATUS st, d_error := None,
            d_updated_at := u_now env\<rparr>))) (\<lambda>_.
     bnd commit (\<lambda>_.
     enqueue_stage env doc st)))"

definition reset_if_failed :: "doc_env \<Rightarrow> document \<Rightarrow> (sys, unit) eff" where
  "reset_if_failed env doc =
     (if d_status doc \<noteq> St_failed then ret () else restart_from_failed_stage env doc)"

section \<open>Upload\<close>

definition resolve_source_id :: "doc_env \<Rightarrow> auth_context \<Rightarrow> uuid option \<Rightarrow> (sys, uuid) eff" where
  "resolve_source_id env ctx source_id =
     (case source_id of
        Some sid \<Rightarrow>
          bnd (query (\<lambda>s. source_get_owned s (ctx_user_id ctx) sid)) (\<lambda>source.
          case source of None \<Rightarrow> throw (App SourceNotFound) | Some k \<Rightarrow> ret (ks_id k))
      | None \<Rightarrow>
          bnd (query (\<lambda>s. source_get_default s (ctx_user_id ctx))) (\<lambda>existing.
          case existing of
            Some k \<Rightarrow> ret (ks_id k)
          | None \<Rightarrow>
              bnd (race (u_race_source env)) (\<lambda>_.
              try_with
                (bnd (stmt_opt (source_create_default (u_source_id env) (ctx_user_id ctx) (u_now env))) (\<lambda>_.
                 bnd commit (\<lambda>_. ret (u_source_id env))))
                (\<lambda>e. if e = IntegrityError then
                   bnd rollback (\<lambda>_.
                   bnd (query (\<lambda>s. source_get_default s (ctx_user_id ctx))) (\<lambda>fallback.
                   case fallback of None \<Rightarrow> throw e | Some k \<Rightarrow> ret (ks_id k)))
                 else throw e))))"

definition new_document :: "doc_cfg \<Rightarrow> doc_env \<Rightarrow> auth_context \<Rightarrow> uuid \<Rightarrow> ustr \<Rightarrow> ustr \<Rightarrow> bytes \<Rightarrow> document" where
  "new_document cfg env ctx sid safe_name mime data =
     \<lparr>d_id = u_doc_id env, d_source_id = sid, d_uploaded_by = ctx_user_id ctx, d_filename = safe_name,
      d_mime = mime, d_size_bytes = int (length data),
      d_storage_key = storage_prefix (u_doc_id env) @ lit ''original'' @ dc_lower cfg (posix_suffix safe_name),
      d_checksum = dc_sha256 cfg data, d_status = St_pending, d_error = None, d_meta = [],
      d_created_at = u_now env, d_updated_at = u_now env\<rparr>"

definition store_new :: "doc_cfg \<Rightarrow> doc_env \<Rightarrow> auth_context \<Rightarrow> document \<Rightarrow> bytes \<Rightarrow> (sys, document \<times> bool) eff" where
  \<comment> \<open>from \<^verbatim>\<open>storage.put\<close> to the end of \<^verbatim>\<open>upload\<close>\<close>
  "store_new cfg env ctx doc data =
     bnd (guard_fault (u_put_fault env)) (\<lambda>_.
     bnd (fs_put (dc_root cfg) (d_storage_key doc) data) (\<lambda>_.
     bnd (race (u_race_doc env)) (\<lambda>_.
     bnd (try_with (bnd (stmt_opt (doc_create doc)) (\<lambda>_. bnd commit (\<lambda>_. ret None)))
            (\<lambda>e. if e = IntegrityError then
               bnd rollback (\<lambda>_.
               bnd (guard_fault (u_cleanup_fault env)) (\<lambda>_.
               bnd (fs_delete_prefix (dc_root cfg) (storage_prefix (d_id doc))) (\<lambda>_.
               bnd (query (\<lambda>s. doc_get_by_checksum s (ctx_user_id ctx) (d_checksum doc))) (\<lambda>duplicate.
               case duplicate of
                 None \<Rightarrow> throw e
               | Some d \<Rightarrow> bnd (reset_if_failed env d) (\<lambda>_. bnd (reload d) (\<lambda>d. ret (Some d)))))))
             else throw e)) (\<lambda>duplicate.
     case duplicate of
       Some d \<Rightarrow> ret (d, True)
     | None \<Rightarrow>
         bnd (enqueue_stage env doc Parse) (\<lambda>_.
         bnd (reload doc) (\<lambda>d. ret (d, False)))))))"

definition upload :: "doc_cfg \<Rightarrow> doc_env \<Rightarrow> auth_context \<Rightarrow> ustr \<Rightarrow> ustr option \<Rightarrow> bytes \<Rightarrow> uuid option
    \<Rightarrow> (sys, document \<times> bool) eff" where
  "upload cfg env ctx filename content_type data source_id =
     (let safe_name = take 255 (posix_name (replace1 92 [47] filename)) in
      case canonical_mime (dc_lower cfg) safe_name content_type of
        Inl e \<Rightarrow> throw (App e)
      | Inr mime \<Rightarrow>
          (case check_magic mime data of
             Some e \<Rightarrow> throw (App e)
           | None \<Rightarrow>
               bnd (query (\<lambda>s. doc_get_by_checksum s (ctx_user_id ctx) (dc_sha256 cfg data))) (\<lambda>existing.
               case existing of
                 Some d \<Rightarrow> bnd (reset_if_failed env d) (\<lambda>_. bnd (reload d) (\<lambda>d. ret (d, True)))
               | None \<Rightarrow>
                   bnd (resolve_source_id env ctx source_id) (\<lambda>sid.
                   store_new cfg env ctx (new_document cfg env ctx sid safe_name mime data) data))))"

section \<open>Reading, retrying, deleting\<close>

definition get_document :: "auth_context \<Rightarrow> uuid \<Rightarrow> (sys, document) eff" where
  "get_document ctx i =
     bnd (query (\<lambda>s. doc_get_owned s (ctx_user_id ctx) i)) (\<lambda>doc.
     case doc of None \<Rightarrow> throw (App DocumentNotFound) | Some d \<Rightarrow> ret d)"

definition retry_document :: "doc_env \<Rightarrow> auth_context \<Rightarrow> uuid \<Rightarrow> (sys, document) eff" where
  "retry_document env ctx i =
     bnd (get_document ctx i) (\<lambda>doc.
     if d_status doc \<noteq> St_failed then throw (App DocumentNotRetryable)
     else bnd (restart_from_failed_stage env doc) (\<lambda>_. reload doc))"

definition delete_document :: "doc_env \<Rightarrow> auth_context \<Rightarrow> uuid \<Rightarrow> (sys, unit) eff" where
  "delete_document env ctx i =
     bnd (get_document ctx i) (\<lambda>doc.
     bnd (stmt (doc_delete (d_id doc))) (\<lambda>_.
     bnd commit (\<lambda>_.
     try_with (bnd (guard_fault (u_enqueue_fault env)) (\<lambda>_.
               enqueue (Purge_call (storage_prefix (d_id doc))) 0 0))
       (\<lambda>_. ret ()))))"

definition doc_key_of :: "document \<Rightarrow> keyset" where
  "doc_key_of d = (d_created_at d, d_id d)"

definition user_documents :: "db \<Rightarrow> uuid \<Rightarrow> doc_status option \<Rightarrow> document list" where
  "user_documents s user_id status =
     filter (\<lambda>d. d_uploaded_by d = user_id \<and> (case status of None \<Rightarrow> True | Some x \<Rightarrow> d_status d = x)) (documents s)"

definition doc_list_page :: "db \<Rightarrow> uuid \<Rightarrow> nat \<Rightarrow> keyset option \<Rightarrow> doc_status option \<Rightarrow> document list" where
  "doc_list_page s user_id limit cursor status =
     select_page doc_key_of limit cursor (user_documents s user_id status)"

definition list_documents :: "cursor_codec \<Rightarrow> auth_context \<Rightarrow> nat \<Rightarrow> ustr option \<Rightarrow> doc_status option
    \<Rightarrow> (sys, document list \<times> ustr option) eff" where
  "list_documents cc ctx limit cursor status =
     (case (case cursor of None \<Rightarrow> Inr None
              | Some c \<Rightarrow> if c = [] then Inr None
                          else (case decode_cursor cc c of Inl e \<Rightarrow> Inl e | Inr k \<Rightarrow> Inr (Some k))) of
        Inl e \<Rightarrow> throw (App e)
      | Inr keyset \<Rightarrow>
          bnd (query (\<lambda>s. doc_list_page s (ctx_user_id ctx) limit keyset status)) (\<lambda>rows.
          ret (paginate cc rows limit doc_key_of)))"

section \<open>The router's read limit\<close>

definition READ_CHUNK_BYTES :: nat where "READ_CHUNK_BYTES = 1024 * 1024"

function read_loop :: "nat \<Rightarrow> bytes \<Rightarrow> bytes \<Rightarrow> app_error + bytes" where
  "read_loop max_bytes buffer spool =
     (let chunk = take READ_CHUNK_BYTES spool
      in if chunk = [] then Inr buffer
         else if length (buffer @ chunk) > max_bytes then Inl FileTooLarge
         else read_loop max_bytes (buffer @ chunk) (drop READ_CHUNK_BYTES spool))"
  by pat_completeness auto

termination
  by (relation "measure (\<lambda>(_, _, spool). length spool)") (auto simp: READ_CHUNK_BYTES_def)

declare read_loop.simps [simp del]

definition read_within_limit :: "bytes \<Rightarrow> nat \<Rightarrow> app_error + bytes" where
  "read_within_limit file_data max_bytes = read_loop max_bytes [] file_data"

definition upload_document :: "doc_cfg \<Rightarrow> doc_env \<Rightarrow> nat \<Rightarrow> auth_context \<Rightarrow> ustr option \<Rightarrow> ustr option \<Rightarrow> bytes
    \<Rightarrow> uuid option \<Rightarrow> (sys, nat \<times> document \<times> bool) eff" where
  \<comment> \<open>the endpoint: status code, document and \<^verbatim>\<open>deduplicated\<close>\<close>
  "upload_document cfg env max_upload_mb ctx filename content_type file_data source_id =
     (case read_within_limit file_data (max_upload_mb * 1024 * 1024) of
        Inl e \<Rightarrow> throw (App e)
      | Inr data \<Rightarrow>
          in_session (bnd (upload cfg env ctx
              (case filename of None \<Rightarrow> lit ''unnamed'' | Some n \<Rightarrow> if n = [] then lit ''unnamed'' else n)
              content_type data source_id) (\<lambda>(d, deduplicated).
            ret (if deduplicated then 200 else 202, d, deduplicated))))"

end
