(* ===== verification/Pipeline.thy ===== *)
theory Pipeline
  imports Ingestion_Correct
begin

text \<open>
  The properties of the ingestion pipeline as a whole, on top of the stage outcomes of
  \<open>Ingestion_Correct\<close>: what the task shell leaves behind, progress, idempotence, the happy path, and
  the parse retry that is lost.
\<close>

section \<open>The task shell\<close>

definition embed_done :: "ingest_cfg \<Rightarrow> uuid \<Rightarrow> sys \<Rightarrow> sys \<Rightarrow> bool" where
  "embed_done cfg i s t \<longleftrightarrow>
     stage_done Embed i s t
     \<and> (0 < cfg_batch_size cfg \<and> enters Embed i (committed s) \<and> status_of (committed t) i = Some St_ready
         \<longrightarrow> chunk_count_unembedded (committed t) i = 0)"

lemma embed_tail_outcome:
  assumes t: "midway Embed i s t" and e: "enters Embed i (committed s)"
  shows "wp (bnd (embed_loop cfg env i 0) (\<lambda>finished. if finished then succeed env i Embed St_ready else ret ()))
      (\<lambda>_. embed_done cfg i s) (block_raised env Embed i s) t"
  unfolding wp_bnd [of "embed_loop _ _ _ _"]
proof (rule wp_mono [OF embed_loop_outcome [OF t e]])
  fix fin u
  assume u: "if fin then midway Embed i s u \<and> (0 < cfg_batch_size cfg \<longrightarrow> chunk_count_unembedded (pending u) i = 0)
      else block_done Embed i s False u"
  show "wp (if fin then succeed env i Embed St_ready else ret ()) (\<lambda>_. embed_done cfg i s) (block_raised env Embed i s) u"
  proof (cases fin)
    case True
    with u have m: "midway Embed i s u" by simp
    have "wp (succeed env i Embed St_ready) (\<lambda>_. embed_done cfg i s) (block_raised env Embed i s) u"
    proof (rule wp_succeed [OF midway_exists [OF m]])
      fix db
      assume db: "others_same i (pending u) db" "status_of db i = Some St_ready"
        "document_chunks db = document_chunks (pending u)"
      with m have "synced i s (u\<lparr>pending := db, committed := db\<rparr>)"
        by (intro synced_step) (auto simp: midway_def synced_def)
      with m u True db e show "embed_done cfg i s (u\<lparr>pending := db, committed := db\<rparr>)"
        by (simp add: embed_done_def stage_done_def midway_def next_status_def next_messages_def
            chunk_count_unembedded_def)
    qed (use midway_raised [OF m e] in blast)
    with True show ?thesis by simp
  next
    case False
    with u e show ?thesis
      by (auto simp: wp_ret embed_done_def stage_done_def block_done_def next_messages_def)
  qed
qed

lemma embed_outcome:
  assumes s: "synced i s s"
  shows "wp (embed_stage cfg env i) (\<lambda>_. embed_done cfg i s) (stage_raised env Embed i s) s"
proof -
  let ?tail = "\<lambda>doc. case doc of None \<Rightarrow> ret () | Some _ \<Rightarrow>
      bnd (embed_loop cfg env i 0) (\<lambda>finished. if finished then succeed env i Embed St_ready else ret ())"
  let ?D = "\<lambda>_. embed_done cfg i s" and ?R = "block_raised env Embed i s"
  have s_id: "s\<lparr>pending := committed s\<rparr> = s" using s by (cases s) (simp add: synced_def)
  have "wp (claim env i (entry_statuses Embed) (running_status Embed) Embed) (\<lambda>doc. wp (?tail doc) ?D ?R) ?R s"
    by (rule wp_claim_stage [OF s])
      (use s embed_tail_outcome in \<open>auto simp: wp_ret embed_done_def stage_done_def block_raised_def synced_def\<close>)
  then have body: "wp (bnd (claim env i [St_embedding, St_failed] St_embedding Embed) ?tail) ?D ?R s"
    by (simp add: wp_bnd entry_statuses_def running_status_def)
  show ?thesis
    unfolding embed_stage_def wp_in_session s_id
  proof (rule wp_mono [OF body])
    fix t assume t: "embed_done cfg i s t"
    then have "t\<lparr>pending := committed t\<rparr> = t" by (cases t) (simp add: embed_done_def stage_done_def synced_def)
    with t show "embed_done cfg i s (t\<lparr>pending := committed t\<rparr>)" by simp
  next
    fix e t assume t: "?R e t"
    then show "stage_raised env Embed i s e (t\<lparr>pending := committed t\<rparr>)"
      using s_id by (cases "t = s") (use s in \<open>auto simp: block_raised_def stage_raised_def synced_def\<close>)
  qed
qed

lemma stage_outcome:
  assumes "synced i s s"
  shows "wp (stage_fn st cfg env i) (\<lambda>_. stage_done st i s) (stage_raised env st i s) s"
  using assms parse_outcome chunk_outcome wp_mono [OF embed_outcome]
  by (cases st) (simp_all add: stage_fn_def embed_done_def)

lemma wp_shell_fail:
  assumes s: "synced i s t"
    and lost: "e_fault env At_fail \<noteq> None \<or> doc_by_id (committed t) i = None \<Longrightarrow> Q () t"
    and done_: "\<And>u. synced i s u \<Longrightarrow> broker u = broker t \<Longrightarrow> status_of (committed u) i = Some St_failed
       \<Longrightarrow> document_chunks (committed u) = document_chunks (committed t) \<Longrightarrow> files u = files t \<Longrightarrow> Q () u"
  shows "wp (shell_fail env i st err) Q E t"
proof -
  have t_id: "t\<lparr>pending := committed t\<rparr> = t" using s by (cases t) (simp add: synced_def)
  have pc: "pending t = committed t" using s by (simp add: synced_def)
  have "wp (fail env i st err) (\<lambda>a u. Q a (u\<lparr>pending := committed u\<rparr>)) (\<lambda>e u. Q () (u\<lparr>pending := committed u\<rparr>)) t"
  proof (cases "doc_by_id (committed t) i = None")
    case True
    then have "job_mark_finished i st J_failed (Some err) (e_job_id env At_fail) (e_now env At_fail) (pending t) = None"
      by (simp add: job_mark_finished_def pc)
    with lost [OF disjI2 [OF True]] show ?thesis
      by (auto simp: fail_def reach_def wp_simps t_id split: option.split)
  next
    case False
    show ?thesis
    proof (rule wp_fail)
      fix db
      assume db: "others_same i (pending t) db" "status_of db i = Some St_failed"
        "document_chunks db = document_chunks (pending t)"
      with s pc have "synced i s (t\<lparr>pending := db, committed := db\<rparr>)" by (intro synced_step) auto
      then have "Q () (t\<lparr>pending := db, committed := db\<rparr>)"
        using db pc by (intro done_) auto
      moreover have "(t\<lparr>pending := db, committed := db\<rparr>)\<lparr>pending := committed (t\<lparr>pending := db, committed := db\<rparr>)\<rparr>
          = t\<lparr>pending := db, committed := db\<rparr>" by (cases t) simp
      ultimately show "Q () ((t\<lparr>pending := db, committed := db\<rparr>)
          \<lparr>pending := committed (t\<lparr>pending := db, committed := db\<rparr>)\<rparr>)"
        by (simp only:)
    qed (use False pc lost in \<open>auto simp: t_id [unfolded pc]\<close>)
  qed
  then show ?thesis
    by (simp add: shell_fail_def mark_stage_failed_def wp_try wp_in_session wp_ret t_id)
qed


section \<open>No document is left behind by chunk and embed\<close>

definition picked_up :: "db \<Rightarrow> uuid \<Rightarrow> task_message \<Rightarrow> bool" where
  "picked_up s i m \<longleftrightarrow> (\<exists>st. tm_call m = Stage_call st i \<and> enters st i s)"

definition alive :: "sys \<Rightarrow> uuid \<Rightarrow> bool" where
  "alive s i \<longleftrightarrow>
     doc_by_id (committed s) i = None \<or> status_of (committed s) i \<in> {Some St_ready, Some St_failed}
     \<or> (\<exists>m \<in> set (broker s). picked_up (committed s) i m)"

lemma failed_alive: "status_of (committed s) i = Some St_failed \<Longrightarrow> alive s i"
  by (simp add: alive_def)

lemma queued_alive:
  assumes "m \<in> set (broker s)" "tm_call m = Stage_call st i" "enters st i (committed s)"
  shows "alive s i"
proof -
  have "picked_up (committed s) i m" using assms(2,3) by (auto simp: picked_up_def)
  with assms(1) show ?thesis unfolding alive_def by blast
qed

lemma enters_next:
  "status_of s i = Some (next_status Parse) \<Longrightarrow> enters Chunk i s"
  "status_of s i = Some (next_status Chunk) \<Longrightarrow> enters Embed i s"
  by (auto simp: enters_def entry_statuses_def next_status_def)

lemma next_alive:
  assumes "status_of (committed s) i = Some (next_status st)" "set (next_messages st i) \<subseteq> set (broker s)"
  shows "alive s i"
proof (cases st)
  case Parse
  with assms show ?thesis
    by (intro queued_alive [OF _ _ enters_next(1)]) (auto simp: next_messages_def)
next
  case Chunk
  with assms show ?thesis
    by (intro queued_alive [OF _ _ enters_next(2)]) (auto simp: next_messages_def)
next
  case Embed
  with assms show ?thesis by (simp add: alive_def next_status_def)
qed

lemma running_requeued:
  assumes "status_of (committed s) i = Some (running_status st)" "st \<noteq> Parse"
    and "m \<in> set (broker s)" "tm_call m = Stage_call st i"
  shows "alive s i"
proof (rule queued_alive [OF assms(3,4)])
  show "enters st i (committed s)"
    using assms(1,2) by (cases st) (auto simp: enters_def running_status_def entry_statuses_def)
qed

lemma storage_get_errors: "storage_get base key f = Inl e \<Longrightarrow> e = NotFound \<or> (\<exists>m. e = ValueError m)"
  by (auto simp: storage_get_def storage_resolve_def Let_def split: if_splits option.splits)

lemma storage_put_errors: "storage_put base key d f = Inl e \<Longrightarrow> \<exists>m. e = ValueError m"
  by (auto simp: storage_put_def storage_resolve_def Let_def split: if_splits)

definition quiet :: "run_env \<Rightarrow> bool" where
  "quiet env \<longleftrightarrow> (\<forall>p e. e_fault env p = Some e \<longrightarrow> \<not> retryable e)"

lemma quietD: "quiet env \<Longrightarrow> e_fault env p = Some e \<Longrightarrow> \<not> retryable e"
  by (simp add: quiet_def)

lemma wp_read_quiet:
  assumes "quiet env" "\<And>d. Q (Some d) t" "Q None t" "\<And>e. \<not> retryable e \<Longrightarrow> E e t"
  shows "wp (try_with (bnd (read_key cfg env key) (\<lambda>d. ret (Some d)))
            (\<lambda>e. case e of FileNotFoundError \<Rightarrow> ret None | _ \<Rightarrow> throw e)) Q E t"
  using assms quietD [OF assms(1), of At_read]
  by (fastforce simp: read_key_def reach_def wp_simps storage_exn_def dest: storage_get_errors
      split: option.split sum.split exn.split)

lemma wp_write_quiet:
  assumes "quiet env" "\<And>f. Q () (t\<lparr>files := f\<rparr>)" "\<And>e. \<not> retryable e \<Longrightarrow> E e t"
  shows "wp (write_key cfg env key d) Q E t"
  using assms quietD [OF assms(1), of At_write]
  by (fastforce simp: write_key_def reach_def wp_simps storage_exn_def dest: storage_put_errors
      split: option.split sum.split exn.split)

lemma parse_raises_quietly:
  assumes s: "synced i s s" and q: "quiet env"
  shows "wp (parse_stage cfg env i) (\<lambda>_ _. True) (\<lambda>e _. \<not> retryable e) s"
proof -
  let ?T = "\<lambda>_ _. True" and ?E = "\<lambda>e _. \<not> retryable e"
  have s_id: "s\<lparr>pending := committed s\<rparr> = s" using s by (cases s) (simp add: synced_def)
  have failed: "wp (bnd (fail env i Parse m) (\<lambda>_. ret False)) ?T ?E t" if "midway Parse i s t" for t m
    unfolding wp_simps by (rule wp_fail [OF midway_exists [OF that]]) (use quietD [OF q] in auto)
  have stored: "wp (bnd (write_key cfg env key d) (\<lambda>_. bnd (succeed env i Parse St_chunking) (\<lambda>_. ret True))) ?T ?E t"
    if "midway Parse i s t" for t key d
    unfolding wp_simps
    by (rule wp_write_quiet [OF q], rule wp_succeed) (use quietD [OF q] midway_exists [OF that] in auto)
  have body: "wp (parse_body cfg env i d) ?T ?E t" if "midway Parse i s t" for t d
    unfolding parse_body_def wp_bnd [of "try_with _ _"]
    by (rule wp_read_quiet [OF q])
      (use failed [OF that] stored [OF that] quietD [OF q] in
        \<open>auto simp: wp_bnd_reach split: option.split sum.split parse_error.split\<close>)
  have "wp (claim env i (entry_statuses Parse) (running_status Parse) Parse)
     (\<lambda>doc. wp (case doc of None \<Rightarrow> ret False | Some d \<Rightarrow> parse_body cfg env i d) ?T ?E) ?E s"
    by (rule wp_claim_stage [OF s]) (use body quietD [OF q] in \<open>auto simp: wp_ret\<close>)
  then have "wp (bnd (claim env i [St_pending, St_failed] St_parsing Parse) (\<lambda>doc.
         case doc of None \<Rightarrow> ret False | Some d \<Rightarrow> parse_body cfg env i d)) ?T ?E s"
    by (simp add: wp_bnd entry_statuses_def running_status_def)
  then show ?thesis
    unfolding parse_stage_def wp_bnd [of "in_session _"] wp_in_session s_id
    by (rule wp_mono) (use quietD [OF q] in \<open>auto simp: wp_bnd_reach wp_enqueue wp_ret split: option.split\<close>)
qed

lemma shell_alive:
  assumes "synced i s t" and "e_fault env' At_fail = None"
  shows "wp (shell_fail env' i st err) (\<lambda>_ t. alive t i) (\<lambda>_ t. alive t i) t"
  by (rule wp_shell_fail [OF assms(1)]) (use assms(2) in \<open>auto simp: failed_alive alive_def\<close>)

lemma requeued_alive:
  assumes r: "stage_raised env st i s e t" and before: "enters st i (committed s) \<or> alive s i"
    and enq: "e_fault env At_enqueue = Some e \<Longrightarrow> \<not> retryable e"
    and e: "retryable e" "st \<noteq> Parse" and m: "tm_call m = Stage_call st i"
  shows "alive (t\<lparr>broker := broker t @ [m]\<rparr>) i"
proof (cases "status_of (committed t) i = Some (running_status st)")
  case True
  then show ?thesis using e(2) m by (intro running_requeued [where st = st and m = m]) auto
next
  case False
  with r enq e have "t = s" by (auto simp: stage_raised_def)
  have old: "alive s i \<Longrightarrow> ?thesis" using \<open>t = s\<close> by (auto simp: alive_def)
  have "enters st i (committed s) \<Longrightarrow> ?thesis"
    using \<open>t = s\<close> m by (intro queued_alive [where st = st and m = m]) auto
  with old before show ?thesis by blast
qed

text \<open>An attempt that the shell wants to repeat and Celery does not.\<close>

definition gives_up :: "ingest_cfg \<Rightarrow> stage \<Rightarrow> nat \<Rightarrow> bool" where
  "gives_up cfg st retries \<longleftrightarrow> cfg_task_max_retries cfg \<le> retries \<and> retries < max_retries st"

lemma run_alive:
  assumes s: "synced i s s" and parse: "st = Parse \<Longrightarrow> quiet env"
    and before: "enters st i (committed s) \<or> alive s i"
    and env: "e_fault env' At_fail = None" "\<And>e. e_fault env At_enqueue = Some e \<Longrightarrow> \<not> retryable e" "e_fault env At_retry = None"
    and last: "gives_up cfg st retries \<Longrightarrow> wp (stage_fn st cfg env i) (\<lambda>_ _. True) (\<lambda>e _. \<not> retryable e) s"
  shows "alive (snd (run_stage cfg env env' st i retries s)) i"
proof -
  let ?A = "\<lambda>t. alive t i"
  have "wp (stage_fn st cfg env i) (\<lambda>_ _. True) (\<lambda>e _. st = Parse \<longrightarrow> \<not> retryable e) s"
  proof (cases "st = Parse")
    case True
    with parse_raises_quietly [OF s parse] show ?thesis by (simp add: stage_fn_def)
  qed (simp add: wp_def split: prod.split sum.split)
  moreover have "wp (stage_fn st cfg env i) (\<lambda>_ _. True) (\<lambda>e _. gives_up cfg st retries \<longrightarrow> \<not> retryable e) s"
    using last by (cases "gives_up cfg st retries") (auto simp: wp_def split: prod.split sum.split)
  ultimately have "wp (stage_fn st cfg env i) (\<lambda>_ _. True)
      (\<lambda>e _. (st = Parse \<longrightarrow> \<not> retryable e) \<and> (gives_up cfg st retries \<longrightarrow> \<not> retryable e)) s"
    by (rule wp_mono [OF wp_conj]) simp_all
  note outcome = wp_conj [OF stage_outcome [OF s] this]
  have "wp (run_stage cfg env env' st i retries) (\<lambda>_. ?A) (\<lambda>_. ?A) s"
    unfolding run_stage_def wp_try
  proof (rule wp_mono [OF outcome])
    fix a t assume "stage_done st i s t \<and> True"
    then show "?A t" using before by (auto simp: stage_done_def failed_alive intro: next_alive)
  next
    fix e t
    assume r: "stage_raised env st i s e t \<and> (st = Parse \<longrightarrow> \<not> retryable e) \<and> (gives_up cfg st retries \<longrightarrow> \<not> retryable e)"
    then have "synced i s t" by (simp add: stage_raised_def)
    note shell = shell_alive [OF this env(1)]
    from r before env(2,3) show "wp (if e = SoftTimeLimitExceeded
         then shell_fail env' i st (stage_name st @ [0x20, 0x968E, 0x6BB5, 0x57F7, 0x884C, 0x903E, 0x6642])
         else if retryable e then
           (if retries \<ge> max_retries st
            then shell_fail env' i st (stage_name st @ [0x20, 0x968E, 0x6BB5, 0x91CD, 0x8A66, 0x8017, 0x76E1, 0x3A] @ exn_str e)
            else task_retry cfg env (Stage_call st i) retries e)
         else shell_fail env' i st (stage_name st @ [0x20, 0x968E, 0x6BB5, 0x767C, 0x751F, 0x975E, 0x9810, 0x671F, 0x932F, 0x8AA4, 0x3A] @ exn_name e)) (\<lambda>_. ?A) (\<lambda>_. ?A) t"
      using shell by (auto simp: wp_enqueue task_retry_def gives_up_def intro: requeued_alive)
  qed
  then show ?thesis by (simp add: wp_ends)
qed

text \<open>
  C9: a run of a stage does not leave its document behind, outside five known faults. The document has a status that the stage accepts, or has not been left behind
  so far. Then, however often the task was retried, and whatever else
  the storage, the database, the time limit and the embedding provider do to it, afterwards the document is ready, or
  failed (so that the user can retry), or there is a message in the queue whose stage accepts its status. The faults that are excluded:
  the final marking fails (\<open>env'\<close>); publishing the next stage raises a retryable I/O error (kombu raises its own
  \<^verbatim>\<open>OperationalError\<close>); the retry cannot be published; a retryable error in the parse stage; a retryable error in
  an attempt after which Celery gives up although the stage has retries left. The last two do lose the document, see below.
\<close>

theorem never_left_behind:
  assumes "synced i s s" and "st = Parse \<Longrightarrow> quiet env" and "enters st i (committed s) \<or> alive s i"
    and "e_fault env' At_fail = None" and "\<And>e. e_fault env At_enqueue = Some e \<Longrightarrow> \<not> retryable e" and "e_fault env At_retry = None"
    and "gives_up cfg st retries \<Longrightarrow> wp (stage_fn st cfg env i) (\<lambda>_ _. True) (\<lambda>e _. \<not> retryable e) s"
  shows "alive (snd (run_stage cfg env env' st i retries s)) i"
  using assms by (rule run_alive)

section \<open>Stale messages and the lost parse retry\<close>

lemma wp_claim_skip:
  assumes "synced i s s" "\<not> enters st i (committed s)" "e_fault env At_claim = None" "Q None s"
  shows "wp (claim env i (entry_statuses st) (running_status st) st) Q E s"
  by (rule wp_claim_stage) (use assms in auto)

text \<open>
  a message whose document is gone or is not in an entry status of the stage (because another
  delivery already did the work) is dropped: the run returns and nothing in the system changes.
\<close>

theorem stale_message_skipped:
  assumes s: "synced i s s" and "\<not> enters st i (committed s)" and "e_fault env At_claim = None"
  shows "run_stage cfg env env' st i retries s = (Inr (), s)"
proof -
  have s_id: "s\<lparr>pending := committed s\<rparr> = s" using s by (cases s) (simp add: synced_def)
  note skip = wp_claim_skip [OF assms, where E = "\<lambda>_ _. False"]
  have "wp (stage_fn st cfg env i) (\<lambda>_ t. t = s) (\<lambda>_ _. False) s"
    using skip s_id
    by (cases st) (simp_all add: stage_fn_def parse_stage_def chunk_stage_def embed_stage_def wp_bnd wp_in_session
        wp_ret entry_statuses_def running_status_def)
  then show ?thesis
    by (auto simp: run_stage_def try_with_def wp_def split: prod.splits sum.splits)
qed

text \<open>
  C24: the parse stage does not keep the promise that a document is never stuck. After a transient read
  error the document is left in status parsing and the message is re-queued, but the claim of
  the retry accepts only pending and failed: the retry is dropped as stale, the queue is empty, and the document stays in
  status parsing, from which the retry endpoint (which wants failed) cannot free it.
\<close>

theorem parse_retry_is_lost:
  assumes s: "synced i s s" and e: "enters Parse i (committed s)" and b: "broker s = []"
    and env: "e_fault env At_claim = None" "e_fault env At_read = Some (OSError m)" "e_fault env At_retry = None"
    and r: "retries < max_retries Parse" "retries < cfg_task_max_retries cfg" and env2: "e_fault env2 At_claim = None"
    and t: "t = snd (run_stage cfg env env' Parse i retries s)"
    and u: "u = snd (run_stage cfg env2 env2' Parse i (Suc retries) (t\<lparr>broker := []\<rparr>))"
  shows "broker t = [\<lparr>tm_call = Stage_call Parse i, tm_retries = Suc retries,
           tm_countdown = min (2 ^ retries) MAX_BACKOFF_S\<rparr>]
     \<and> u = t\<lparr>broker := []\<rparr> \<and> status_of (committed u) i = Some St_parsing \<and> \<not> alive u i"
proof -
  have s_id: "s\<lparr>pending := committed s\<rparr> = s" using s by (cases s) (simp add: synced_def)
  have claimed: "wp (claim env i (entry_statuses Parse) (running_status Parse) Parse)
      (\<lambda>doc. wp (case doc of None \<Rightarrow> ret False | Some d \<Rightarrow> parse_body cfg env i d)
         (\<lambda>_ _. False) (\<lambda>x v. x = read_failed m \<and> midway Parse i s v))
      (\<lambda>x v. x = read_failed m \<and> midway Parse i s v) s"
    by (rule wp_claim_stage [OF s])
      (use e env in \<open>auto simp: parse_body_def read_key_def reach_def wp_simps read_failed_def\<close>)
  have "wp (parse_stage cfg env i) (\<lambda>_ _. False) (\<lambda>x v. x = read_failed m \<and> midway Parse i s v) s"
    unfolding parse_stage_def wp_bnd [of "in_session _"] wp_in_session s_id
    by (rule wp_mono [OF claimed [folded wp_bnd, unfolded entry_statuses_def running_status_def, simplified]])
      (auto simp: midway_def synced_def)
  then have "wp (run_stage cfg env env' Parse i retries) (\<lambda>_ v. \<exists>w. midway Parse i s w \<and>
      v = w\<lparr>broker := [\<lparr>tm_call = Stage_call Parse i, tm_retries = Suc retries,
           tm_countdown = min (2 ^ retries) MAX_BACKOFF_S\<rparr>]\<rparr>) (\<lambda>_ _. False) s"
    unfolding run_stage_def wp_try stage_fn_def stage.case
    by (rule wp_mono) (use r b env(3) in \<open>auto simp: read_failed_def wp_enqueue task_retry_def midway_def\<close>)
  then obtain w where w: "midway Parse i s w" and tw: "t = w\<lparr>broker := [\<lparr>tm_call = Stage_call Parse i,
      tm_retries = Suc retries, tm_countdown = min (2 ^ retries) MAX_BACKOFF_S\<rparr>]\<rparr>"
    unfolding t by (auto simp: wp_def split: prod.splits sum.splits)
  let ?v = "t\<lparr>broker := []\<rparr>"
  have v: "synced i ?v ?v" "status_of (committed ?v) i = Some St_parsing"
    using w tw by (auto simp: midway_def synced_def running_status_def)
  then have "\<not> enters Parse i (committed ?v)" by (simp add: enters_def entry_statuses_def)
  with u stale_message_skipped [OF v(1) _ env2] have u': "u = ?v" by simp
  moreover have "\<not> alive u i" using v(2) by (auto simp: u' alive_def dest: status_exists)
  ultimately show ?thesis using tw v(2) by simp
qed

text \<open>
  C14: the embed stage loses its fourth retry. The shell allows five, but the task does not tell Celery, whose own limit is three: when a
  retryable error (a busy embedding service, a lost connection) meets the attempt after the third retry, \<^verbatim>\<open>task.retry\<close> raises the
  error itself; nothing is queued, nothing is marked, and the document stays in status embedding for ever.
\<close>

theorem embed_retry_is_lost:
  assumes s: "synced i s s" and e: "enters Embed i (committed s)" and b: "broker s = []"
    and g: "cfg_task_max_retries cfg \<le> retries" "retries < max_retries Embed"
    and raised: "embed_stage cfg env i s = (Inl x, v)" "retryable x" "e_fault env At_claim = None"
  shows "\<exists>t. run_stage cfg env env' Embed i retries s = (Inl x, t)
     \<and> status_of (committed t) i = Some St_embedding \<and> broker t = [] \<and> \<not> alive t i"
proof -
  have "stage_raised env Embed i s x v"
    using stage_outcome [OF s, of Embed cfg env] raised(1) by (simp add: stage_fn_def wp_def)
  then have v: "status_of (committed v) i = Some St_embedding" "broker v = []"
    using raised(3) b by (auto simp: stage_raised_def running_status_def)
  have "x \<noteq> SoftTimeLimitExceeded" using raised(2) by auto
  then have "run_stage cfg env env' Embed i retries s = (Inl x, v)"
    using raised g by (simp add: run_stage_def try_with_def stage_fn_def task_retry_def throw_def)
  moreover have "\<not> alive v i" using v by (auto simp: alive_def dest: status_exists)
  ultimately show ?thesis using v by blast
qed

section \<open>What every run keeps\<close>

text \<open>The statement of a run's effect that the other properties build on: the stage outcome, then the shell.\<close>

definition run_effect :: "ingest_cfg \<Rightarrow> stage \<Rightarrow> uuid \<Rightarrow> sys \<Rightarrow> sys \<Rightarrow> bool" where
  "run_effect cfg st i s t \<longleftrightarrow>
     synced i s t \<and> (\<exists>ms. broker t = broker s @ ms \<and> (\<forall>m \<in> set ms. \<exists>st'. tm_call m = Stage_call st' i))
     \<and> (committed t = committed s
        \<or> status_of (committed t) i = Some St_failed
        \<or> enters st i (committed s) \<and> status_of (committed t) i = Some (running_status st)
        \<or> enters st i (committed s) \<and> status_of (committed t) i = Some (next_status st)
           \<and> (st = Embed \<and> 0 < cfg_batch_size cfg \<longrightarrow> chunk_count_unembedded (committed t) i = 0))"

lemma stage_effect:
  assumes s: "synced i s s"
  shows "wp (stage_fn st cfg env i) (\<lambda>_. run_effect cfg st i s)
     (\<lambda>e t. run_effect cfg st i s t \<and> broker t = broker s) s"
proof (cases "st = Embed")
  case True
  show ?thesis
    unfolding True stage_fn_def stage.case
    by (rule wp_mono [OF embed_outcome [OF s]])
      (auto simp: embed_done_def stage_done_def stage_raised_def run_effect_def next_messages_def next_status_def)
next
  case False
  show ?thesis
    by (rule wp_mono [OF stage_outcome [OF s]])
      (use False in \<open>auto simp: stage_done_def stage_raised_def run_effect_def next_messages_def split: stage.splits\<close>)
qed

lemma run_stage_effect:
  assumes s: "synced i s s"
  shows "run_effect cfg st i s (snd (run_stage cfg env env' st i retries s))"
proof -
  have shell: "wp (shell_fail env' i st err) (\<lambda>_. run_effect cfg st i s) (\<lambda>_. run_effect cfg st i s) t"
    if "run_effect cfg st i s t" for t err
  proof (rule wp_shell_fail)
    show "synced i s t" using that by (simp add: run_effect_def)
  qed (use that in \<open>auto simp: run_effect_def\<close>)
  have "wp (run_stage cfg env env' st i retries) (\<lambda>_. run_effect cfg st i s) (\<lambda>_. run_effect cfg st i s) s"
    unfolding run_stage_def wp_try
    by (rule wp_mono [OF stage_effect [OF s]])
      (use shell in \<open>auto simp: wp_enqueue wp_throw task_retry_def run_effect_def synced_def\<close>)
  then show ?thesis by (simp only: wp_ends)
qed

text \<open>
  a task run touches its own document only. Every other document, its chunks and its jobs, and all other
  tables are as before; the run's session is closed (nothing uncommitted remains) and it adds to the queue
  only messages for its document. The immutable fields of its own document are kept.
\<close>

theorem run_touches_own_document:
  assumes s: "synced i s s" and t: "t = snd (run_stage cfg env env' st i retries s)"
  shows "others_same i (committed s) (committed t) \<and> pending t = committed t
     \<and> (k \<noteq> i \<longrightarrow> doc_by_id (committed t) k = doc_by_id (committed s) k)
     \<and> (\<exists>ms. broker t = broker s @ ms \<and> (\<forall>m \<in> set ms. \<exists>st'. tm_call m = Stage_call st' i))
     \<and> map_option doc_core (doc_by_id (committed t) i) = map_option doc_core (doc_by_id (committed s) i)"
proof -
  have r: "run_effect cfg st i s t" unfolding t by (rule run_stage_effect [OF s])
  then have o: "others_same i (committed s) (committed t)" by (simp add: run_effect_def synced_def)
  have "map_option doc_core (doc_by_id (committed t) i) = map_option doc_core (doc_by_id (committed s) i)"
    using others_same_core [OF o] others_same_exists [OF o, of i]
    by (cases "doc_by_id (committed t) i") auto
  with r o others_same_other_doc [OF o] show ?thesis by (auto simp: run_effect_def synced_def)
qed

text \<open>
  the status of a document moves only along the documented machine: a run leaves it as it was, marks it
  failed, or, from an entry status of its stage, moves it to the stage's running or next status.
\<close>

theorem run_status_transition:
  assumes s: "synced i s s" and t: "t = snd (run_stage cfg env env' st i retries s)"
  shows "status_of (committed t) i = status_of (committed s) i
     \<or> status_of (committed t) i = Some St_failed
     \<or> enters st i (committed s)
        \<and> status_of (committed t) i \<in> {Some (running_status st), Some (next_status st)}"
  using run_stage_effect [OF s, of cfg st env env' retries] t by (auto simp: run_effect_def)

section \<open>A ready document is completely embedded\<close>

definition wf_sys :: "sys \<Rightarrow> bool" where
  "wf_sys s \<longleftrightarrow> pending s = committed s \<and> docs_keyed (committed s)
     \<and> distinct (map ck_id (document_chunks (committed s)))"

definition ready_embedded :: "sys \<Rightarrow> bool" where
  "ready_embedded s \<longleftrightarrow>
     (\<forall>i. status_of (committed s) i = Some St_ready \<longrightarrow> chunk_count_unembedded (committed s) i = 0)"

lemma synced_wf: "synced i s s \<longleftrightarrow> wf_sys s"
  by (auto simp: synced_def wf_sys_def)

lemma count_others:
  assumes "others_same i s t" and "k \<noteq> i"
  shows "chunk_count_unembedded t k = chunk_count_unembedded s k"
proof -
  let ?p = "\<lambda>c. ck_document_id c = k \<and> ck_embedding c = None"
  let ?q = "\<lambda>c. ck_document_id c \<noteq> i"
  have f: "length (filter ?p xs) = length (filter ?p (filter ?q xs))" for xs
    using assms(2) by (induction xs) auto
  from assms(1) have eq: "filter ?q (document_chunks t) = filter ?q (document_chunks s)"
    by (simp only: others_same_def)
  have "length (filter ?p (filter ?q (document_chunks t))) = length (filter ?p (filter ?q (document_chunks s)))"
    by (simp only: eq)
  then show ?thesis unfolding chunk_count_unembedded_def f [symmetric] .
qed

text \<open>
  whatever happens during a run of any stage, documents that are ready have no chunk without an
  embedding afterwards: the embed stage announces readiness only when its cursor is exhausted, and no
  stage rewrites the chunks of a ready document.
\<close>

theorem run_keeps_ready_embedded:
  assumes "wf_sys s" and "ready_embedded s" and "0 < cfg_batch_size cfg"
  shows "wf_sys (snd (run_stage cfg env env' st i retries s))
     \<and> ready_embedded (snd (run_stage cfg env env' st i retries s))"
proof -
  let ?t = "snd (run_stage cfg env env' st i retries s)"
  have s: "synced i s s" using assms(1) by (simp add: synced_wf)
  have r: "run_effect cfg st i s ?t" by (rule run_stage_effect [OF s])
  then have o: "others_same i (committed s) (committed ?t)" and w: "wf_sys ?t"
    by (auto simp: run_effect_def synced_def wf_sys_def)
  have "chunk_count_unembedded (committed ?t) k = 0" if k: "status_of (committed ?t) k = Some St_ready" for k
  proof (cases "k = i")
    case False
    then have "status_of (committed s) k = Some St_ready"
      using k others_same_other_doc [OF o] by (simp add: status_of_def)
    with assms(2) count_others [OF o False] show ?thesis by (simp add: ready_embedded_def)
  next
    case True
    with r k assms(2,3) show ?thesis
      by (cases st) (auto simp: run_effect_def ready_embedded_def running_status_def next_status_def)
  qed
  with w show ?thesis by (simp add: ready_embedded_def)
qed

section \<open>Embedding progress\<close>

definition embeds_more :: "ustr \<Rightarrow> db \<Rightarrow> db \<Rightarrow> bool" where
  "embeds_more v s t \<longleftrightarrow>
     list_all2 (\<lambda>c c'. c' = c \<or> ck_embedding c = None
          \<and> (\<exists>x. c' = c\<lparr>ck_embedding := Some x, ck_embedding_version := Some v\<rparr>))
       (document_chunks s) (document_chunks t)"

lemma embeds_more_same: "document_chunks t = document_chunks s \<Longrightarrow> embeds_more v s t"
  by (simp add: embeds_more_def list.rel_refl)

lemma embeds_more_trans: "embeds_more v s t \<Longrightarrow> embeds_more v t u \<Longrightarrow> embeds_more v s u"
  unfolding embeds_more_def by (erule (1) list_all2_trans [rotated]) auto

lemma set_embeddings_more:
  assumes "distinct (map ck_id (document_chunks s))" and "fst ` set vs \<subseteq> ck_id ` set batch"
    and "set batch \<subseteq> {c \<in> set (document_chunks s). ck_document_id c = i \<and> ck_embedding c = None}"
  shows "embeds_more v s (chunk_set_embeddings vs v s)"
proof -
  have "with_vectors vs v c = c \<or> ck_embedding c = None" if c: "c \<in> set (document_chunks s)" for c
  proof (cases "with_vectors vs v c = c")
    case False
    with with_vectors_other have "ck_id c \<in> fst ` set vs" by blast
    with assms(2) obtain b where "b \<in> set batch" "ck_id b = ck_id c" by auto
    with assms(1,3) c have "b = c" by (auto simp: distinct_map inj_on_def)
    with \<open>b \<in> set batch\<close> assms(3) show ?thesis by auto
  qed simp
  moreover have "with_vectors vs v c = c \<or> (\<exists>x. with_vectors vs v c = c\<lparr>ck_embedding := Some x, ck_embedding_version := Some v\<rparr>)"
    for c by (auto simp: with_vectors_def split: option.split)
  ultimately show ?thesis
    by (auto simp: embeds_more_def chunk_set_embeddings_eq list_all2_conv_all_nth) (metis nth_mem)+
qed

lemma embed_batch_more:
  assumes m: "midway Embed i s t"
    and b: "set batch \<subseteq> {c \<in> set (document_chunks (pending t)). ck_document_id c = i \<and> ck_embedding c = None}"
  shows "wp (embed_batch cfg env i k batch)
     (\<lambda>_ u. embeds_more (cfg_version cfg) (committed t) (committed u))
     (\<lambda>_ u. embeds_more (cfg_version cfg) (committed t) (committed u)) t"
proof -
  let ?M = "\<lambda>u. embeds_more (cfg_version cfg) (committed t) (committed u)"
  have failed: "wp (bnd (fail env i Embed err) (\<lambda>_. ret False)) (\<lambda>_. ?M) (\<lambda>_. ?M) t" for err
    unfolding wp_simps by (rule wp_fail_stage [OF m]) (auto intro: embeds_more_same)
  have "embeds_more (cfg_version cfg) (committed t)
      (chunk_set_embeddings (zip (map ck_id batch) vs) (cfg_version cfg) (pending t))"
    if "length vs = length batch" for vs
    using m b that set_embeddings_more [of "committed t" "zip (map ck_id batch) vs" batch i]
    by (auto simp: midway_def synced_def fst_set_zip)
  then show ?thesis
    unfolding embed_batch_def wp_bnd_reach
    using failed embeds_more_same [of "committed t" "committed t"]
    by (auto simp: wp_bnd_reach wp_bnd [of "stmt _"] wp_stmt wp_bnd [of commit] wp_commit wp_ret wp_throw
        split: option.split sum.split)
qed

lemma embed_loop_more:
  assumes "midway Embed i s t" and "enters Embed i (committed s)"
  shows "embeds_more (cfg_version cfg) (committed t) (committed (snd (embed_loop cfg env i k t)))"
  using assms
proof (induction cfg env i k t rule: embed_loop.induct)
  case (1 cfg env i k t)
  let ?b = "chunk_list_unembedded (pending t) i (cfg_batch_size cfg)"
  note batch = embed_batch_outcome [OF 1(2,3) list_unembedded_set, of cfg env k "cfg_batch_size cfg"]
  have more: "embeds_more (cfg_version cfg) (committed t) (committed (snd (embed_batch cfg env i k ?b t)))"
    using embed_batch_more [OF 1(2) list_unembedded_set] by (simp add: wp_ends)
  show ?case
  proof (cases "e_fault env (At_list k) = None \<and> ?b \<noteq> []")
    case False
    then show ?thesis
      by (auto simp: embed_loop.simps [of cfg env i k t] Let_def embeds_more_same split: option.split)
  next
    case True
    show ?thesis
    proof (cases "embed_batch cfg env i k ?b t")
      case (Pair r u)
      show ?thesis
      proof (cases "r = Inr True")
        case ok: True
        with batch Pair have u: "midway Embed i s u" by (simp add: wp_def embed_post_def)
        have "embed_loop cfg env i k t = embed_loop cfg env i (Suc k) u"
          using True Pair ok by (simp add: embed_loop.simps [of cfg env i k t] Let_def)
        with 1(1) [OF _ refl _ _ _ _ u 1(3)] True Pair ok more show ?thesis
          by (auto intro: embeds_more_trans)
      next
        case False
        then have "embed_loop cfg env i k t = (r, u)"
          using True Pair
          by (cases r) (auto simp: embed_loop.simps [of cfg env i k t] Let_def)
        with more Pair show ?thesis by simp
      qed
    qed
  qed
qed

lemma embed_stage_more:
  assumes s: "synced i s s"
  shows "wp (embed_stage cfg env i) (\<lambda>_ u. embeds_more (cfg_version cfg) (committed s) (committed u))
     (\<lambda>_ u. embeds_more (cfg_version cfg) (committed s) (committed u)) s"
proof -
  let ?M = "\<lambda>u. embeds_more (cfg_version cfg) (committed s) (committed u)"
  let ?tail = "\<lambda>doc. case doc of None \<Rightarrow> ret () | Some _ \<Rightarrow>
      bnd (embed_loop cfg env i 0) (\<lambda>finished. if finished then succeed env i Embed St_ready else ret ())"
  have s_id: "s\<lparr>pending := committed s\<rparr> = s" using s by (cases s) (simp add: synced_def)
  have loop: "wp (bnd (embed_loop cfg env i 0) (\<lambda>fin. if fin then succeed env i Embed St_ready else ret ()))
      (\<lambda>_. ?M) (\<lambda>_. ?M) t"
    if t: "midway Embed i s t" and e: "enters Embed i (committed s)"
      and c: "document_chunks (committed t) = document_chunks (committed s)" for t
    unfolding wp_bnd [of "embed_loop _ _ _ _"]
  proof (rule wp_mono [OF wp_conj [OF embed_loop_outcome [OF t e]]])
    show "wp (embed_loop cfg env i 0) (\<lambda>_. ?M) (\<lambda>_. ?M) t"
      unfolding wp_ends
      using embeds_more_trans [OF embeds_more_same [OF c] embed_loop_more [OF t e, of cfg env 0]] .
  next
    fix fin u
    assume u: "(if fin then midway Embed i s u \<and> (0 < cfg_batch_size cfg \<longrightarrow> chunk_count_unembedded (pending u) i = 0)
        else block_done Embed i s False u) \<and> ?M u"
    show "wp (if fin then succeed env i Embed St_ready else ret ()) (\<lambda>_. ?M) (\<lambda>_. ?M) u"
    proof (cases fin)
      case True
      with u have m: "midway Embed i s u" by simp
      have "wp (succeed env i Embed St_ready) (\<lambda>_. ?M) (\<lambda>_. ?M) u"
        by (rule wp_succeed [OF midway_exists [OF m]])
          (use u m embeds_more_trans embeds_more_same in \<open>auto simp: midway_def synced_def\<close>)
      with True show ?thesis by simp
    qed (use u in \<open>simp add: wp_ret\<close>)
  qed auto
  have "wp (claim env i (entry_statuses Embed) (running_status Embed) Embed)
      (\<lambda>doc. wp (?tail doc) (\<lambda>_. ?M) (\<lambda>_. ?M)) (\<lambda>_. ?M) s"
    by (rule wp_claim_stage [OF s]) (use loop in \<open>auto simp: wp_ret embeds_more_same\<close>)
  then have "wp (bnd (claim env i [St_embedding, St_failed] St_embedding Embed) ?tail) (\<lambda>_. ?M) (\<lambda>_. ?M) s"
    by (simp add: wp_bnd entry_statuses_def running_status_def)
  then show ?thesis
    unfolding embed_stage_def wp_in_session s_id by (rule wp_mono) auto
qed

text \<open>
  embedding progress is never lost and never redone. However an embed run ends (ready, failed, retried after
  an exception between batches), the chunk rows are the same rows in the same order, a row that had an
  embedding is untouched, and a row that gained one carries the provider's version.
\<close>

theorem embed_keeps_progress:
  assumes s: "synced i s s"
  shows "embeds_more (cfg_version cfg) (committed s)
     (committed (snd (run_stage cfg env env' Embed i retries s)))"
proof -
  let ?M = "\<lambda>u. embeds_more (cfg_version cfg) (committed s) (committed u)"
  have shell: "wp (shell_fail env' i Embed err) (\<lambda>_. ?M) (\<lambda>_. ?M) t"
    if "synced i s t" "?M t" for t err
    by (rule wp_shell_fail [OF that(1)])
      (use that(2) embeds_more_trans embeds_more_same in auto)
  have "wp (run_stage cfg env env' Embed i retries) (\<lambda>_. ?M) (\<lambda>_. ?M) s"
    unfolding run_stage_def wp_try stage_fn_def stage.case
    by (rule wp_mono [OF wp_conj [OF stage_effect [OF s, of Embed, unfolded stage_fn_def stage.case] embed_stage_more [OF s]]])
      (use shell in \<open>auto simp: wp_enqueue wp_throw task_retry_def run_effect_def\<close>)
  then show ?thesis by (simp only: wp_ends)
qed

end
