(* ===== verification/Document_Correct.thy ===== *)
theory Document_Correct
  imports Document_Service Pipeline
begin

text \<open>
  What the document service promises: only whitelisted types that some parser handles get in, uploads are
  deduplicated per user, a lost race leaves no orphan, foreign documents do not exist, a retry
  resumes at the failed stage, paging enumerates a user's documents once each, and the whole system of
  requests and workers keeps its invariants.
\<close>

section \<open>Media types and the read limit\<close>

text \<open>
  the upload whitelist and the parser registry agree: the canonical types are exactly the registered
  media types, and an upload is either refused as unsupported or gets a type that has a parser.
\<close>

theorem whitelist_matches_parsers:
  "snd ` set EXT_TO_MIME = supported_media_types
   \<and> (case canonical_mime lower name content_type of
        Inl e \<Rightarrow> e = UnsupportedMediaType
      | Inr mime \<Rightarrow> (\<exists>p. get_parser mime = Inr p))"
proof -
  have w: "snd ` set EXT_TO_MIME = supported_media_types"
    by (auto simp: EXT_TO_MIME_def supported_media_types_def BY_MEDIA_TYPE_def PARSERS_def docx_mime_def)
  have "\<exists>p. get_parser m = Inr p" if "m \<in> supported_media_types" for m
  proof -
    from that have "map_of BY_MEDIA_TYPE m \<noteq> None"
      by (auto simp: supported_media_types_def map_of_eq_None_iff)
    then show ?thesis by (auto simp: get_parser_def)
  qed
  moreover have "m \<in> snd ` set EXT_TO_MIME" if "map_of EXT_TO_MIME k = Some m" for k m
    using map_of_SomeD [OF that] by force
  ultimately show ?thesis
    using w by (auto simp: canonical_mime_def Let_def split: option.split)
qed

lemma read_loop_spec:
  "length buffer \<le> n \<Longrightarrow>
     read_loop n buffer spool = (if length (buffer @ spool) > n then Inl FileTooLarge else Inr (buffer @ spool))"
proof (induction n buffer spool rule: read_loop.induct)
  case (1 n buffer spool)
  let ?c = "take READ_CHUNK_BYTES spool"
  have pos: "0 < READ_CHUNK_BYTES" by (simp add: READ_CHUNK_BYTES_def)
  show ?case
  proof (cases "?c = [] \<or> length (buffer @ ?c) > n")
    case True
    then show ?thesis using pos 1(2) by (auto simp: read_loop.simps [of n buffer spool] Let_def min_def split: if_splits)
  next
    case False
    with 1(1) [OF refl] show ?thesis
      by (simp add: read_loop.simps [of n buffer spool] Let_def)
  qed
qed

text \<open>
  the router's chunked reading accepts a file exactly when it is within the limit, and then
  reads all of it; a larger file is refused with 413.
\<close>

theorem read_within_limit_spec:
  "read_within_limit file_data n = (if length file_data > n then Inl FileTooLarge else Inr file_data)"
  by (simp add: read_within_limit_def read_loop_spec)

section \<open>Ownership\<close>

text \<open>
  a document that the user does not own, or that does not exist, is the same 404 for reading, retrying and
  deleting, and nothing changes.
\<close>

theorem foreign_document_hidden:
  assumes "doc_get_owned (pending s) (ctx_user_id ctx) i = None"
  shows "get_document ctx i s = (Inl (App DocumentNotFound), s)
     \<and> retry_document env ctx i s = (Inl (App DocumentNotFound), s)
     \<and> delete_document env ctx i s = (Inl (App DocumentNotFound), s)"
  using assms
  by (simp add: get_document_def retry_document_def delete_document_def bnd_def query_def look_def throw_def)

section \<open>Restarting a stage\<close>

definition failed_db :: "doc_env \<Rightarrow> uuid \<Rightarrow> db \<Rightarrow> db" where
  "failed_db env i s = doc_update i (\<lambda>d. d\<lparr>d_status := St_failed,
                 d_error := Some enqueue_failed_error, d_updated_at := u_now env\<rparr>) s"

definition restarted_db :: "doc_env \<Rightarrow> uuid \<Rightarrow> stage \<Rightarrow> db \<Rightarrow> db" where
  "restarted_db env i st s = doc_update i (\<lambda>d. d\<lparr>d_status := STAGE_ENTRY_STATUS st, d_error := None,
            d_updated_at := u_now env\<rparr>) s"

definition start_message :: "stage \<Rightarrow> uuid \<Rightarrow> task_message" where
  "start_message st i = \<lparr>tm_call = Stage_call st i, tm_retries = 0, tm_countdown = 0\<rparr>"

lemma wp_reload_fun:
  "wp (reload d) Q E = (\<lambda>s. Q (case doc_by_id (pending s) (d_id d) of None \<Rightarrow> d | Some d' \<Rightarrow> d') s)"
  by (rule ext) (simp add: reload_def wp_query)

lemma wp_enqueue_stage:
  "wp (enqueue_stage env d st) Q E s =
     (if u_enqueue_fault env = None then Q () (s\<lparr>broker := broker s @ [start_message st (d_id d)]\<rparr>)
      else Q () (s\<lparr>pending := failed_db env (d_id d) (pending s), committed := failed_db env (d_id d) (pending s)\<rparr>))"
  by (auto simp: enqueue_stage_def wp_simps start_message_def failed_db_def split: option.split)

lemma doc_update_others:
  assumes "\<And>d. d_id (f d) = d_id d" "\<And>d. doc_core (f d) = doc_core d"
  shows "others_same i s (doc_update i f s)"
  using others_same_map [of f i "\<lambda>_. True"] assms by (simp add: others_same_def doc_update_def)

lemma failed_db_others: "others_same i s (failed_db env i s)"
  unfolding failed_db_def by (rule doc_update_others) (simp_all add: doc_core_def)

lemma restarted_db_others: "others_same i s (restarted_db env i st s)"
  unfolding restarted_db_def by (rule doc_update_others) (simp_all add: doc_core_def)

lemma db_updates_chunks [simp]:
  "document_chunks (failed_db env i s) = document_chunks s"
  "document_chunks (restarted_db env i st s) = document_chunks s"
  by (simp_all add: failed_db_def restarted_db_def doc_update_def)

lemma failed_db_status: "doc_by_id s i \<noteq> None \<Longrightarrow> status_of (failed_db env i s) i = Some St_failed"
  by (auto simp: failed_db_def status_of_def doc_by_id_update)

lemma restarted_db_status:
  "doc_by_id s i \<noteq> None \<Longrightarrow> status_of (restarted_db env i st s) i = Some (STAGE_ENTRY_STATUS st)"
  by (auto simp: restarted_db_def status_of_def doc_by_id_update)

lemma entry_status_enters: "status_of s i = Some (STAGE_ENTRY_STATUS st) \<Longrightarrow> enters st i s"
  by (cases st) (auto simp: enters_def STAGE_ENTRY_STATUS_def entry_statuses_def)

text \<open>The state a (re)start leaves: what the proofs about requests use of it.\<close>

definition started :: "doc_env \<Rightarrow> stage \<Rightarrow> uuid \<Rightarrow> sys \<Rightarrow> sys \<Rightarrow> bool" where
  "started env st i s t \<longleftrightarrow>
     synced i s t \<and> document_chunks (committed t) = document_chunks (committed s) \<and> files t = files s
     \<and> (if u_enqueue_fault env = None
        then status_of (committed t) i = Some (STAGE_ENTRY_STATUS st) \<and> broker t = broker s @ [start_message st i]
        else status_of (committed t) i = Some St_failed \<and> broker t = broker s)"

lemma started_alive: "started env st i s t \<Longrightarrow> alive t i"
  by (cases "u_enqueue_fault env = None")
    (auto simp: started_def failed_alive start_message_def
      intro!: queued_alive [where m = "start_message st i" and st = st] entry_status_enters)

lemma wp_enqueue_started:
  assumes t: "synced i s t" "document_chunks (committed t) = document_chunks (committed s)" "files t = files s"
      "broker t = broker s"
    and st: "status_of (committed t) i = Some (STAGE_ENTRY_STATUS st)" and d: "d_id d = i"
    and Q: "\<And>u. started env st i s u \<Longrightarrow> Q () u"
  shows "wp (enqueue_stage env d st) Q E t"
proof -
  have pc: "pending t = committed t" using t(1) by (simp add: synced_def)
  let ?f = "failed_db env i (committed t)"
  have "synced i s (t\<lparr>pending := ?f, committed := ?f\<rparr>)"
    by (rule synced_step [OF t(1) failed_db_others]) simp
  then have "u_enqueue_fault env \<noteq> None \<Longrightarrow> started env st i s (t\<lparr>pending := ?f, committed := ?f\<rparr>)"
    using t status_exists [OF st] by (simp add: started_def failed_db_status)
  moreover have "u_enqueue_fault env = None \<Longrightarrow> started env st i s (t\<lparr>broker := broker t @ [start_message st i]\<rparr>)"
    using t st by (simp add: started_def synced_def)
  ultimately show ?thesis using Q d pc by (simp add: wp_enqueue_stage)
qed

lemma wp_restart:
  assumes s: "synced i s s" and ex: "doc_by_id (committed s) i \<noteq> None" and d: "d_id d = i"
    and Q: "\<And>st u. st = (case job_first_failed_stage (committed s) i of None \<Rightarrow> Parse | Some st \<Rightarrow> st)
      \<Longrightarrow> started env st i s u \<Longrightarrow> Q () u"
  shows "wp (restart_from_failed_stage env d) Q E s"
proof -
  define st where "st = (case job_first_failed_stage (committed s) i of None \<Rightarrow> Parse | Some st \<Rightarrow> st)"
  let ?db = "restarted_db env i st (committed s)"
  let ?t = "s\<lparr>pending := ?db, committed := ?db\<rparr>"
  have pc: "pending s = committed s" using s by (simp add: synced_def)
  have "synced i s ?t" by (rule synced_step [OF s restarted_db_others]) simp
  then have "wp (enqueue_stage env d st) Q E ?t"
    by (rule wp_enqueue_started) (use d ex Q [OF st_def] in \<open>simp_all add: restarted_db_status\<close>)
  then show ?thesis
    using d pc
    by (simp add: restart_from_failed_stage_def wp_bnd wp_query Let_def wp_stmt wp_commit st_def restarted_db_def)
qed

lemma retry_started:
  assumes w: "wf_sys s" and d: "doc_get_owned (committed s) (ctx_user_id ctx) i = Some d" "d_status d = St_failed"
    and st: "st = (case job_first_failed_stage (committed s) i of None \<Rightarrow> Parse | Some x \<Rightarrow> x)"
    and t: "t = snd (in_session (retry_document env ctx i) s)"
  shows "started env st i s t \<and> alive t i"
proof -
  have s: "synced i s s" and s_id: "s\<lparr>pending := committed s\<rparr> = s" and pc: "pending s = committed s"
    using w by (cases s, simp_all add: synced_wf wf_sys_def)
  have di: "d_id d = i" "d \<in> set (documents (committed s))"
    using d(1) by (auto simp: doc_get_owned_def dest: find_SomeD)
  have ex: "doc_by_id (committed s) i \<noteq> None"
    using docs_keyed_by_id [OF _ di(2)] w di(1) by (simp add: wf_sys_def)
  have "wp (restart_from_failed_stage env d) (\<lambda>_ u. started env st i s u) (\<lambda>_ _. False) s"
    by (rule wp_restart [OF s ex di(1)]) (use st in auto)
  then have "wp (retry_document env ctx i) (\<lambda>_ u. started env st i s u) (\<lambda>_ _. False) s"
    using d pc by (simp add: retry_document_def get_document_def wp_simps wp_reload_fun)
  then have "wp (in_session (retry_document env ctx i)) (\<lambda>_ u. started env st i s u) (\<lambda>_ _. False) s"
    unfolding wp_in_session s_id by (rule wp_mono) (auto simp: started_def synced_def)
  then have "started env st i s t"
    unfolding t by (auto simp: wp_def split: prod.splits sum.splits)
  with started_alive show ?thesis by blast
qed

text \<open>
  C33: a retry resumes where the document failed: for a failed document of the user it resets the status to the entry
  status of the earliest failed stage (parse when no stage failed), keeps all chunks and files, clears nothing
  else, and queues exactly that stage's task; if the broker is down the document is failed again. In every
  case some message or the user can pick it up.
\<close>

theorem retry_resumes_failed_stage:
  assumes w: "wf_sys s" and d: "doc_get_owned (committed s) (ctx_user_id ctx) i = Some d" "d_status d = St_failed"
    and failed: "failed = {j_stage j | j. j \<in> set (ingestion_jobs (committed s)) \<and> j_document_id j = i \<and> j_status j = J_failed}"
    and t: "t = snd (in_session (retry_document env ctx i) s)"
  shows "started env (if failed = {} then Parse else Min failed) i s t \<and> alive t i"
proof -
  have "(if failed = {} then Parse else Min failed) = (case job_first_failed_stage (committed s) i of None \<Rightarrow> Parse | Some x \<Rightarrow> x)"
  proof (cases "job_first_failed_stage (committed s) i")
    case None
    then have "failed = {}" by (auto simp: failed no_failed_stage)
    with None show ?thesis by simp
  next
    case (Some st)
    have "finite failed" by (rule finite_subset [of _ "set STAGE_ORDER"]) (simp add: stage_order_sorted(2), rule finite_set)
    moreover have "st \<in> failed" "\<And>x. x \<in> failed \<Longrightarrow> st \<le> x"
      using first_failed_is_least [OF Some] by (auto simp: failed)
    ultimately have "Min failed = st" by (intro Min_eqI)
    with \<open>st \<in> failed\<close> Some show ?thesis by auto
  qed
  from retry_started [OF w d this t] show ?thesis .
qed

section \<open>Uploading\<close>

lemma wf_sync: "wf_sys s \<Longrightarrow> synced i s s \<and> s\<lparr>pending := committed s\<rparr> = s \<and> pending s = committed s"
  by (cases s) (simp add: synced_def wf_sys_def)

lemma wp_session_wf:
  assumes "wf_sys s" and "wp m Q E s"
    and "\<And>a t. Q a t \<Longrightarrow> pending t = committed t" "\<And>e t. E e t \<Longrightarrow> pending t = committed t"
  shows "wp (in_session m) Q E s"
proof -
  have id: "t\<lparr>pending := committed t\<rparr> = t" if "pending t = committed t" for t :: sys
    using that by (cases t) simp
  have "s\<lparr>pending := committed s\<rparr> = s" using wf_sync [OF assms(1)] by simp
  then show ?thesis
    unfolding wp_in_session using assms(2-4) by (auto intro!: wp_mono [OF assms(2)] simp: id)
qed

lemma checksum_doc:
  assumes "wf_sys s" "doc_get_by_checksum (committed s) u c = Some d"
  shows "doc_by_id (committed s) (d_id d) = Some d" "d_uploaded_by d = u" "d_checksum d = c"
  using assms docs_keyed_by_id [of "committed s" d]
  by (auto simp: doc_get_by_checksum_def wf_sys_def dest: find_SomeD)

text \<open>
  uploads are deduplicated per user. When the user already has a document with the same checksum, an acceptable upload
  stores nothing and returns that document; unless it had failed, nothing in the whole system changes,
  whatever the name, type and source of the second upload.
\<close>

theorem upload_deduplicates:
  assumes w: "wf_sys s"
    and "canonical_mime (dc_lower cfg) (take 255 (posix_name (replace1 92 [47] filename))) content_type = Inr mime"
    and "check_magic mime data = None"
    and d: "doc_get_by_checksum (committed s) (ctx_user_id ctx) (dc_sha256 cfg data) = Some d"
    and "d_status d \<noteq> St_failed"
  shows "in_session (upload cfg env ctx filename content_type data source_id) s = (Inr (d, True), s)"
proof -
  have id: "s\<lparr>pending := committed s\<rparr> = s" and pc: "pending s = committed s" using wf_sync [OF w] by simp_all
  have "upload cfg env ctx filename content_type data source_id s = (Inr (d, True), s)"
    using assms checksum_doc [OF w d]
    by (simp add: upload_def Let_def bnd_def query_def look_def reset_if_failed_def ret_def reload_def pc)
  then show ?thesis by (simp add: in_session_def id)
qed

text \<open>What is visible of a new document: \<open>created\<close> is the effect of an upload that was not a duplicate.\<close>

definition created :: "doc_cfg \<Rightarrow> doc_env \<Rightarrow> document \<Rightarrow> bytes \<Rightarrow> sys \<Rightarrow> sys \<Rightarrow> bool" where
  "created cfg env d data s t \<longleftrightarrow>
     pending t = committed t \<and> doc_by_id (committed s) (d_id d) = None
     \<and> (\<exists>d'. documents (committed t) = documents (committed s) @ [d'] \<and> doc_core d' = doc_core d \<and> d_id d' = d_id d
         \<and> (if u_enqueue_fault env = None
            then d_status d' = St_pending \<and> broker t = broker s @ [start_message Parse (d_id d)]
            else d_status d' = St_failed \<and> broker t = broker s))
     \<and> document_chunks (committed t) = document_chunks (committed s)
     \<and> ingestion_jobs (committed t) = ingestion_jobs (committed s)
     \<and> storage_get (dc_root cfg) (d_storage_key d) (files t) = Inr data"

definition stored_only :: "doc_cfg \<Rightarrow> sys \<Rightarrow> sys \<Rightarrow> bool" where
  \<comment> \<open>a refused request: at most the default source and an unreferenced file are new\<close>
  "stored_only cfg s t \<longleftrightarrow>
     pending t = committed t \<and> documents (committed t) = documents (committed s)
     \<and> document_chunks (committed t) = document_chunks (committed s)
     \<and> ingestion_jobs (committed t) = ingestion_jobs (committed s) \<and> broker t = broker s"

lemma update_last:
  assumes "\<forall>x \<in> set ds. d_id x \<noteq> d_id d"
  shows "update_where (\<lambda>x. d_id x = d_id d) f (ds @ [d]) = ds @ [f d]"
  using assms by (auto simp: update_where_def intro: map_idI)

lemma find_append_new:
  "find p (xs @ [x]) = (case find p xs of None \<Rightarrow> if p x then Some x else None | Some y \<Rightarrow> Some y)"
  by (induction xs) auto

lemma doc_by_id_None: "doc_by_id s i = None \<longleftrightarrow> (\<forall>d \<in> set (documents s). d_id d \<noteq> i)"
  by (auto simp: doc_by_id_def find_None_iff)

lemma stored_onlyI:
  "pending t = committed t \<Longrightarrow> committed t = committed s \<Longrightarrow> broker t = broker s \<Longrightarrow> stored_only cfg s t"
  by (simp add: stored_only_def)

lemma wp_enqueue_created:
  assumes t: "t = s\<lparr>files := f, pending := db, committed := db\<rparr>"
    and db: "db = (committed s)\<lparr>documents := documents (committed s) @ [doc]\<rparr>"
    and fresh: "doc_by_id (committed s) (d_id doc) = None" and st: "d_status doc = St_pending"
    and get: "storage_get (dc_root cfg) (d_storage_key doc) f = Inr data"
    and Q: "\<And>u. created cfg env doc data s u \<Longrightarrow> Q () u"
  shows "wp (enqueue_stage env doc Parse) Q E t"
proof -
  let ?f = "failed_db env (d_id doc) db"
  have "documents ?f = documents (committed s)
      @ [doc\<lparr>d_status := St_failed, d_error := Some enqueue_failed_error, d_updated_at := u_now env\<rparr>]"
    using fresh by (simp add: failed_db_def doc_update_def db update_last doc_by_id_None)
  then have "u_enqueue_fault env \<noteq> None \<Longrightarrow> created cfg env doc data s (t\<lparr>pending := ?f, committed := ?f\<rparr>)"
    using get fresh by (simp add: created_def t failed_db_def doc_update_def db doc_core_def)
  moreover have "u_enqueue_fault env = None
      \<Longrightarrow> created cfg env doc data s (t\<lparr>broker := broker t @ [start_message Parse (d_id doc)]\<rparr>)"
    using get fresh st by (simp add: created_def t db)
  ultimately show ?thesis using Q by (simp add: wp_enqueue_stage t)
qed

lemma wp_store_new:
  assumes pc: "pending s = committed s" and race: "u_race_doc env = (\<lambda>x. x)" and st: "d_status doc = St_pending"
    and none: "doc_get_by_checksum (committed s) (ctx_user_id ctx) (d_checksum doc) = None"
    and ok: "\<And>d t. created cfg env doc data s t \<Longrightarrow> Q (d, False) t"
    and err: "\<And>e t. stored_only cfg s t \<Longrightarrow> E e t"
  shows "wp (store_new cfg env ctx doc data) Q E s"
proof (cases "u_put_fault env = None \<and> (\<exists>f. storage_put (dc_root cfg) (d_storage_key doc) data (files s) = Inr f)")
  case False
  then show ?thesis using pc
    by (auto simp: store_new_def wp_simps intro!: err stored_onlyI split: option.split sum.split)
next
  case True
  then obtain f where f: "storage_put (dc_root cfg) (d_storage_key doc) data (files s) = Inr f" by blast
  have get: "storage_get (dc_root cfg) (d_storage_key doc) f = Inr data"
    using f by (auto simp: storage_put_def storage_get_def split: sum.splits)
  have s_f: "s\<lparr>files := f, committed := committed s, pending := committed s\<rparr> = s\<lparr>files := f\<rparr>"
    using pc by (cases s) simp
  show ?thesis
  proof (cases "doc_create doc (committed s)")
    case None
    with True f pc none race show ?thesis
      by (auto simp: store_new_def wp_simps race_def intro!: err stored_onlyI split: option.split sum.split)
  next
    case (Some db)
    have db: "db = (committed s)\<lparr>documents := documents (committed s) @ [doc]\<rparr>"
      and fresh: "doc_by_id (committed s) (d_id doc) = None"
      using Some by (auto simp: doc_create_def doc_by_id_None split: if_splits)
    have "wp (enqueue_stage env doc Parse) (\<lambda>_ u. wp (bnd (reload doc) (\<lambda>d. ret (d, False))) Q E u) E
        (s\<lparr>files := f, pending := db, committed := db\<rparr>)"
      by (rule wp_enqueue_created [OF refl db fresh st get])
        (auto simp: wp_simps wp_reload_fun wp_fun intro: ok)
    then show ?thesis
      using True f pc race Some
      by (simp add: store_new_def wp_simps race_def wp_reload_fun wp_fun)
  qed
qed

text \<open>Finding or lazily creating the default source leaves documents, chunks, jobs and messages alone.\<close>

lemma wp_resolve_source:
  assumes "pending s = committed s" and "u_race_source env = (\<lambda>x. x)"
    and "\<And>sid t. stored_only cfg s t \<Longrightarrow> files t = files s \<Longrightarrow> users (committed t) = users (committed s) \<Longrightarrow> Q sid t"
    and "\<And>e t. stored_only cfg s t \<Longrightarrow> E e t"
  shows "wp (resolve_source_id env ctx source_id) Q E s"
proof -
  have db: "stored_only cfg s (s\<lparr>pending := db, committed := db\<rparr>) \<and> users db = users (committed s)"
    if "source_create_default a b c (committed s) = Some db" for a b c db
    using that by (auto simp: source_create_default_def stored_only_def split: if_splits)
  have "stored_only cfg s s" "stored_only cfg s (s\<lparr>pending := committed s\<rparr>)"
    using assms(1) by (simp_all add: stored_onlyI)
  with db assms show ?thesis
    by (auto simp: resolve_source_id_def wp_simps wp_fun race_def split: option.split)
qed

lemma created_trans: "stored_only cfg s t \<Longrightarrow> created cfg env d data t u \<Longrightarrow> created cfg env d data s u"
  by (auto simp: stored_only_def created_def doc_by_id_def)

lemma stored_only_trans: "stored_only cfg s t \<Longrightarrow> stored_only cfg t u \<Longrightarrow> stored_only cfg s u"
  by (simp add: stored_only_def)

definition upload_effect :: "doc_cfg \<Rightarrow> doc_env \<Rightarrow> auth_context \<Rightarrow> bytes \<Rightarrow> sys \<Rightarrow> sys \<Rightarrow> bool" where
  "upload_effect cfg env ctx data s t \<longleftrightarrow>
     t = s \<or> stored_only cfg s t \<or> (\<exists>st i. started env st i s t \<and> doc_by_id (committed s) i \<noteq> None)
     \<or> (\<exists>sid name mime. created cfg env (new_document cfg env ctx sid name mime data) data s t)"

definition no_race :: "doc_env \<Rightarrow> bool" where
  "no_race env \<longleftrightarrow> u_race_source env = (\<lambda>x. x) \<and> u_race_doc env = (\<lambda>x. x)"

lemma wp_reset_if_failed:
  assumes s: "synced i s s" and d: "doc_by_id (committed s) i = Some d" "d_id d = i"
    and Q: "Q () s" "\<And>st u. started env st i s u \<Longrightarrow> Q () u"
  shows "wp (reset_if_failed env d) Q E s"
  using assms wp_restart [OF s _ d(2), where env = env and Q = Q and E = E] by (auto simp: reset_if_failed_def wp_ret)

lemma new_document_fields:
  "d_status (new_document cfg env ctx sid name mime data) = St_pending"
  "d_checksum (new_document cfg env ctx sid name mime data) = dc_sha256 cfg data"
  "d_id (new_document cfg env ctx sid name mime data) = u_doc_id env"
  by (simp_all add: new_document_def)

lemma upload_created:
  assumes w: "wf_sys s" and r: "no_race env"
    and m: "canonical_mime (dc_lower cfg) (take 255 (posix_name (replace1 92 [47] filename))) content_type = Inr mime"
      "check_magic mime data = None"
    and new: "doc_get_by_checksum (committed s) (ctx_user_id ctx) (dc_sha256 cfg data) = None"
  shows "case in_session (upload cfg env ctx filename content_type data source_id) s of
      (Inl e, t) \<Rightarrow> stored_only cfg s t
    | (Inr (d, dedup), t) \<Rightarrow> \<not> dedup \<and> (\<exists>sid. created cfg env
        (new_document cfg env ctx sid (take 255 (posix_name (replace1 92 [47] filename))) mime data) data s t)"
proof -
  let ?name = "take 255 (posix_name (replace1 92 [47] filename))"
  let ?Q = "\<lambda>(d, dedup) t. \<not> dedup \<and> (\<exists>sid. created cfg env (new_document cfg env ctx sid ?name mime data) data s t)"
  let ?E = "\<lambda>e t. stored_only cfg s t"
  have pc: "pending s = committed s" using wf_sync [OF w] by simp
  have store: "wp (store_new cfg env ctx (new_document cfg env ctx sid ?name mime data) data) ?Q ?E t"
    if t: "stored_only cfg s t" for sid t
  proof (rule wp_store_new)
    show "doc_get_by_checksum (committed t) (ctx_user_id ctx) (d_checksum (new_document cfg env ctx sid ?name mime data)) = None"
      using new t by (simp add: new_document_fields doc_get_by_checksum_def stored_only_def)
  next
    fix d u
    assume "created cfg env (new_document cfg env ctx sid ?name mime data) data t u"
    from created_trans [OF t this] show "?Q (d, False) u" by auto
  qed (use t r stored_only_trans [OF t] in \<open>auto simp: no_race_def new_document_fields stored_only_def\<close>)
  have "wp (upload cfg env ctx filename content_type data source_id) ?Q ?E s"
    unfolding upload_def Let_def m sum.case option.case wp_bnd wp_query pc new
    by (rule wp_resolve_source [OF pc]) (use r store in \<open>auto simp: no_race_def\<close>)
  then have "wp (in_session (upload cfg env ctx filename content_type data source_id)) ?Q ?E s"
    by (rule wp_session_wf [OF w]) (auto simp: created_def stored_only_def)
  then show ?thesis by (auto simp: wp_def split: prod.splits sum.splits)
qed

text \<open>The source of an upload: a chosen one of the user's, the default one, or a new default one.\<close>

definition usable_source :: "doc_env \<Rightarrow> auth_context \<Rightarrow> uuid option \<Rightarrow> db \<Rightarrow> uuid \<Rightarrow> bool" where
  "usable_source env ctx source_id db sid \<longleftrightarrow>
     (case source_id of
        Some i \<Rightarrow> source_get_owned db (ctx_user_id ctx) i \<noteq> None \<and> sid = i
      | None \<Rightarrow> (case source_get_default db (ctx_user_id ctx) of
                   Some k \<Rightarrow> sid = ks_id k
                 | None \<Rightarrow> sid = u_source_id env \<and> (\<forall>k \<in> set (knowledge_sources db). ks_id k \<noteq> sid)))"

lemma resolve_usable:
  assumes pc: "pending s = committed s" and race: "u_race_source env = (\<lambda>x. x)" and user: "\<exists>u \<in> set (users (committed s)). u_id u = ctx_user_id ctx"
    and sid: "usable_source env ctx source_id (committed s) sid"
  shows "\<exists>t. resolve_source_id env ctx source_id s = (Inr sid, t) \<and> stored_only cfg s t \<and> files t = files s
     \<and> users (committed t) = users (committed s) \<and> (\<exists>k \<in> set (knowledge_sources (committed t)). ks_id k = sid)"
proof (cases source_id)
  case (Some i)
  with sid obtain k where "source_get_owned (committed s) (ctx_user_id ctx) i = Some k" "sid = i" by (auto simp: usable_source_def)
  moreover from this have "ks_id k = i" "k \<in> set (knowledge_sources (committed s))" by (auto simp: source_get_owned_def dest: find_SomeD)
  ultimately show ?thesis
    using Some pc by (auto simp: resolve_source_id_def bnd_def query_def look_def ret_def intro: stored_onlyI)
next
  case none: None
  show ?thesis
  proof (cases "source_get_default (committed s) (ctx_user_id ctx)")
    case (Some k)
    then have "k \<in> set (knowledge_sources (committed s))" by (auto simp: source_get_default_def dest: find_SomeD)
    then show ?thesis
      using none Some sid pc
      by (auto simp: usable_source_def resolve_source_id_def bnd_def query_def look_def ret_def intro: stored_onlyI)
  next
    case None
    then have "\<forall>k \<in> set (knowledge_sources (committed s)). \<not> (ks_owner_id k = ctx_user_id ctx \<and> ks_type k = DEFAULT_SOURCE_TYPE)"
      by (auto simp: source_get_default_def find_None_iff)
    moreover have "sid = u_source_id env" "\<forall>k \<in> set (knowledge_sources (committed s)). ks_id k \<noteq> sid"
      using none None sid by (auto simp: usable_source_def)
    ultimately show ?thesis
      using none None user pc race
      by (auto simp: resolve_source_id_def bnd_def query_def look_def ret_def race_def change_def try_with_def stmt_opt_def
          source_create_default_def commit_def stored_only_def)
  qed
qed

lemma store_new_succeeds:
  assumes pc: "pending s = committed s" and race: "u_race_doc env = (\<lambda>x. x)" and put: "u_put_fault env = None"
    and f: "storage_put (dc_root cfg) (d_storage_key doc) data (files s) = Inr f"
    and create: "doc_create doc (committed s) = Some db"
  shows "\<exists>t. store_new cfg env ctx doc data s = (Inr (if u_enqueue_fault env = None then doc
         else doc\<lparr>d_status := St_failed, d_error := Some enqueue_failed_error, d_updated_at := u_now env\<rparr>, False), t)
     \<and> documents (committed t) = documents (committed s) @ [if u_enqueue_fault env = None then doc
         else doc\<lparr>d_status := St_failed, d_error := Some enqueue_failed_error, d_updated_at := u_now env\<rparr>]
     \<and> broker t = broker s @ (if u_enqueue_fault env = None then [start_message Parse (d_id doc)] else [])
     \<and> storage_get (dc_root cfg) (d_storage_key doc) (files t) = Inr data \<and> pending t = committed t
     \<and> document_chunks (committed t) = document_chunks (committed s) \<and> ingestion_jobs (committed t) = ingestion_jobs (committed s)"
proof -
  have db: "db = (committed s)\<lparr>documents := documents (committed s) @ [doc]\<rparr>" and fresh: "\<forall>d \<in> set (documents (committed s)). d_id d \<noteq> d_id doc"
    using create by (auto simp: doc_create_def split: if_splits)
  have get: "storage_get (dc_root cfg) (d_storage_key doc) f = Inr data"
    using f by (auto simp: storage_put_def storage_get_def split: sum.splits)
  let ?d = "if u_enqueue_fault env = None then doc
      else doc\<lparr>d_status := St_failed, d_error := Some enqueue_failed_error, d_updated_at := u_now env\<rparr>"
  let ?Q = "\<lambda>r t. r = (?d, False) \<and> documents (committed t) = documents (committed s) @ [?d]
     \<and> broker t = broker s @ (if u_enqueue_fault env = None then [start_message Parse (d_id doc)] else [])
     \<and> storage_get (dc_root cfg) (d_storage_key doc) (files t) = Inr data \<and> pending t = committed t
     \<and> document_chunks (committed t) = document_chunks (committed s) \<and> ingestion_jobs (committed t) = ingestion_jobs (committed s)"
  have "find (\<lambda>d. d_id d = d_id doc) (documents (committed s)) = None" using fresh by (simp add: find_None_iff)
  then have last: "find (\<lambda>d. d_id d = d_id doc) (documents (committed s) @ [x]) = Some x" if "d_id x = d_id doc" for x
    using that by (simp add: find_append_new)
  have upd: "documents (failed_db env (d_id doc) db) = documents (committed s)
      @ [doc\<lparr>d_status := St_failed, d_error := Some enqueue_failed_error, d_updated_at := u_now env\<rparr>]"
    "document_chunks (failed_db env (d_id doc) db) = document_chunks (committed s)"
    "ingestion_jobs (failed_db env (d_id doc) db) = ingestion_jobs (committed s)"
    using fresh by (simp_all add: failed_db_def doc_update_def db update_last)
  have "wp (enqueue_stage env doc Parse) (\<lambda>_ u. wp (bnd (reload doc) (\<lambda>d. ret (d, False))) ?Q (\<lambda>_ _. False) u) (\<lambda>_ _. False)
      (s\<lparr>files := f, pending := db, committed := db\<rparr>)"
    by (cases "u_enqueue_fault env")
      (simp_all add: wp_enqueue_stage wp_simps wp_reload_fun wp_fun doc_by_id_def upd last get, simp_all add: db last)
  then have "wp (store_new cfg env ctx doc data) ?Q (\<lambda>_ _. False) s"
    using put f pc race create by (simp add: store_new_def wp_simps race_def wp_reload_fun wp_fun)
  then show ?thesis by (auto simp: wp_def split: prod.splits sum.splits)
qed

lemma upload_run:
  assumes w: "wf_sys s" and r: "no_race env" "u_put_fault env = None"
    and m: "canonical_mime (dc_lower cfg) (take 255 (posix_name (replace1 92 [47] filename))) content_type = Inr mime"
      "check_magic mime data = None"
    and new: "doc_get_by_checksum (committed s) (ctx_user_id ctx) (dc_sha256 cfg data) = None" "doc_by_id (committed s) (u_doc_id env) = None"
    and user: "\<exists>u \<in> set (users (committed s)). u_id u = ctx_user_id ctx" and sid: "usable_source env ctx source_id (committed s) sid"
    and doc: "doc = new_document cfg env ctx sid (take 255 (posix_name (replace1 92 [47] filename))) mime data"
    and put: "storage_put (dc_root cfg) (d_storage_key doc) data (files s) = Inr f"
    and d: "d = (if u_enqueue_fault env = None then doc
         else doc\<lparr>d_status := St_failed, d_error := Some enqueue_failed_error, d_updated_at := u_now env\<rparr>)"
  shows "\<exists>t. in_session (upload cfg env ctx filename content_type data source_id) s = (Inr (d, False), t)
     \<and> documents (committed t) = documents (committed s) @ [d]
     \<and> broker t = broker s @ (if u_enqueue_fault env = None then [start_message Parse (d_id doc)] else [])
     \<and> storage_get (dc_root cfg) (d_storage_key doc) (files t) = Inr data
     \<and> document_chunks (committed t) = document_chunks (committed s) \<and> ingestion_jobs (committed t) = ingestion_jobs (committed s)"
proof -
  have pc: "pending s = committed s" and id: "s\<lparr>pending := committed s\<rparr> = s" using wf_sync [OF w] by simp_all
  obtain t where t: "resolve_source_id env ctx source_id s = (Inr sid, t)" "stored_only cfg s t" "files t = files s"
      "users (committed t) = users (committed s)" "\<exists>k \<in> set (knowledge_sources (committed t)). ks_id k = sid"
    using resolve_usable [OF pc _ user sid, of cfg] r by (auto simp: no_race_def)
  have docs: "documents (committed t) = documents (committed s)" "pending t = committed t" "broker t = broker s"
      "document_chunks (committed t) = document_chunks (committed s)" "ingestion_jobs (committed t) = ingestion_jobs (committed s)"
    using t(2) by (simp_all add: stored_only_def)
  have fields: "d_id doc = u_doc_id env" "d_uploaded_by doc = ctx_user_id ctx" "d_checksum doc = dc_sha256 cfg data" "d_source_id doc = sid"
    by (simp_all add: doc new_document_def)
  have "doc_create doc (committed t) = Some ((committed t)\<lparr>documents := documents (committed t) @ [doc]\<rparr>)"
    using new user t(4,5) by (auto simp: doc_create_def docs fields doc_by_id_None doc_get_by_checksum_def find_None_iff)
  from store_new_succeeds [OF docs(2) _ r(2) put [folded t(3)] this, of ctx] r docs
  obtain u where u: "store_new cfg env ctx doc data t = (Inr (d, False), u)" "documents (committed u) = documents (committed s) @ [d]"
      "broker u = broker s @ (if u_enqueue_fault env = None then [start_message Parse (d_id doc)] else [])"
      "storage_get (dc_root cfg) (d_storage_key doc) (files u) = Inr data"
      "document_chunks (committed u) = document_chunks (committed s)" "ingestion_jobs (committed u) = ingestion_jobs (committed s)"
    unfolding d by (auto simp: no_race_def)
  have "upload cfg env ctx filename content_type data source_id s = (Inr (d, False), u)"
    using m new(1) pc t(1) u(1) by (simp add: upload_def Let_def bnd_def query_def look_def ret_def doc)
  with u show ?thesis by (simp add: in_session_def id)
qed


text \<open>
  C32: losing the race leaves no orphan (\<open>dir\<close>: the new document's directory is not itself a plain file). When a concurrent upload of the same content commits between the
  duplicate check and the insert, the insert is refused by the unique index; the service then removes the file it had just
  stored, touches no other object, and answers with the winner's document.
\<close>

theorem lost_race_cleans_up:
  assumes pc: "pending s = committed s" and key: "docs_keyed (u_race_doc env (committed s))"
    and k: "d_storage_key doc = storage_prefix (d_id doc) @ name" "47 \<notin> set name" "name \<notin> {[], [46], [46, 46]}"
    and winner: "doc_get_by_checksum (u_race_doc env (committed s)) (ctx_user_id ctx) (d_checksum doc) = Some d"
      "d_status d \<noteq> St_failed" "d_uploaded_by doc = ctx_user_id ctx"
    and faults: "u_put_fault env = None" "u_cleanup_fault env = None"
    and dir: "files s (dc_root cfg @ [lit ''documents'', uuid_str (d_id doc)]) = None"
  shows "\<exists>t. store_new cfg env ctx doc data s = (Inr (d, True), t)
     \<and> committed t = u_race_doc env (committed s) \<and> broker t = broker s
     \<and> storage_get (dc_root cfg) (d_storage_key doc) (files t) = Inl NotFound
     \<and> (\<forall>key. doc_key key \<longrightarrow> \<not> under_prefix (storage_prefix (d_id doc)) key
          \<longrightarrow> storage_get (dc_root cfg) key (files t) = storage_get (dc_root cfg) key (files s))"
proof -
  let ?db = "u_race_doc env (committed s)"
  have dk: "doc_key (d_storage_key doc)" using k unfolding doc_key_def by blast
  obtain f where f: "storage_put (dc_root cfg) (d_storage_key doc) data (files s) = Inr f"
    using local_fs.put_total [OF dk] by blast
  obtain g where g: "storage_delete_prefix (dc_root cfg) (storage_prefix (d_id doc)) f = Inr g"
    by (simp add: storage_delete_prefix_def resolve_prefix)
  have d: "d \<in> set (documents ?db)" "d_uploaded_by d = ctx_user_id ctx" "d_checksum d = d_checksum doc"
    using winner(1) by (auto simp: doc_get_by_checksum_def dest: find_SomeD)
  then have refused: "doc_create doc ?db = None" using winner(3) by (auto simp: doc_create_def)
  have by_id: "doc_by_id ?db (d_id d) = Some d" by (rule docs_keyed_by_id [OF key d(1)])
  let ?t = "s\<lparr>files := g, committed := ?db, pending := ?db\<rparr>"
  have run: "store_new cfg env ctx doc data s = (Inr (d, True), ?t)"
    using faults f g pc refused winner(1,2) by_id
    by (simp add: store_new_def bnd_def try_with_def guard_fault_def ret_def throw_def fs_put_def fs_delete_prefix_def
        look_def change_def race_def stmt_opt_def rollback_def query_def reset_if_failed_def reload_def)
  have "f (dc_root cfg @ [lit ''documents'', uuid_str (d_id doc)]) = None"
    using f k(1) dir by (auto simp: storage_put_def resolve_key [OF k(2,3)] simp del: lit_simps)
  then have "storage_get (dc_root cfg) (d_storage_key doc) g = Inl NotFound"
    using g k resolve_key [OF k(2,3), of "dc_root cfg" "d_id doc"]
    by (auto simp: storage_delete_prefix_def resolve_prefix storage_get_def strict_prefix_def split: if_splits)
  moreover have "storage_get (dc_root cfg) key g = storage_get (dc_root cfg) key (files s)"
    if q: "doc_key key" "\<not> under_prefix (storage_prefix (d_id doc)) key" for key
  proof -
    have "key \<noteq> d_storage_key doc" using q(2) k(1) by (auto simp: under_prefix_def)
    then have "storage_get (dc_root cfg) key f = storage_get (dc_root cfg) key (files s)"
      using local_fs.get_put_other [OF dk q(1) _ f] by simp
    with local_fs.delete_other [OF q g] show ?thesis by simp
  qed
  ultimately show ?thesis using run by (intro exI [of _ ?t]) simp
qed

section \<open>Deleting and listing\<close>

text \<open>
  deleting removes the document with its chunks and jobs at once, in the database, queues the purge of its storage
  prefix (best effort), and leaves every other document, chunk and job and all files as they were.
\<close>

theorem delete_cascades:
  assumes w: "wf_sys s" and d: "doc_get_owned (committed s) (ctx_user_id ctx) i = Some d"
    and t: "t = snd (in_session (delete_document env ctx i) s)"
  shows "doc_by_id (committed t) i = None
     \<and> documents (committed t) = filter (\<lambda>d. d_id d \<noteq> i) (documents (committed s))
     \<and> document_chunks (committed t) = filter (\<lambda>c. ck_document_id c \<noteq> i) (document_chunks (committed s))
     \<and> ingestion_jobs (committed t) = filter (\<lambda>j. j_document_id j \<noteq> i) (ingestion_jobs (committed s))
     \<and> files t = files s
     \<and> broker t = broker s @ (if u_enqueue_fault env = None
          then [\<lparr>tm_call = Purge_call (storage_prefix i), tm_retries = 0, tm_countdown = 0\<rparr>] else [])"
proof -
  have pc: "pending s = committed s" and id: "s\<lparr>pending := committed s\<rparr> = s" using wf_sync [OF w] by simp_all
  have i: "d_id d = i" using d by (auto simp: doc_get_owned_def dest: find_SomeD)
  show ?thesis
    unfolding t using d i pc
    by (cases "u_enqueue_fault env")
      (simp_all add: in_session_def id delete_document_def get_document_def bnd_def query_def look_def ret_def stmt_def
        change_def commit_def try_with_def guard_fault_def enqueue_def throw_def doc_delete_def doc_by_id_None)
qed

definition id_range :: "db \<Rightarrow> bool" where
  "id_range s \<longleftrightarrow> (\<forall>d \<in> set (documents s). d_id d < 2 ^ 128)"

interpretation doc_pages: keyset_table
  "\<lambda>s limit c. doc_list_page s user limit c status" doc_key_of "\<lambda>s. user_documents s user status"
  "\<lambda>s. docs_keyed s \<and> id_range s" for user status
proof
  fix s :: db
  assume s: "docs_keyed s \<and> id_range s"
  then have "distinct (map d_id (user_documents s user status))"
    by (simp add: docs_keyed_def user_documents_def distinct_map_filter)
  then have "distinct (map snd (map doc_key_of (user_documents s user status)))"
    by (simp add: doc_key_of_def comp_def)
  then show "distinct (map doc_key_of (user_documents s user status))" using distinct_map by blast
  show "snd (doc_key_of r) < 2 ^ 128" if "r \<in> set (user_documents s user status)" for r
    using that s by (simp add: user_documents_def id_range_def doc_key_of_def)
qed (simp add: doc_list_page_def)

text \<open>
  following the cursors of the document list from the first page to the last, for any page size and status filter, visits
  every matching document of the user exactly once, newest first, and ends; no page is larger than asked for.
\<close>

theorem document_pages_enumerate:
  assumes "codec_ok cc" and "1 \<le> limit" and "docs_keyed s" and "id_range s"
    and "length (user_documents s user status) < n"
  shows "\<exists>pages. walk cc (\<lambda>limit c. doc_list_page s user limit c status) doc_key_of limit n None = Some pages
     \<and> concat pages = newest_first doc_key_of (user_documents s user status)
     \<and> (\<forall>p \<in> set pages. length p \<le> limit)"
  using doc_pages.pages_enumerate [OF assms(1,2) _ assms(5)] assms(3,4) by simp

end
