(* ===== verification/Pipeline_Complete.thy ===== *)
theory Pipeline_Complete
  imports Pipeline
begin

text \<open>
  The pipeline from end to end when nothing fails: what each stage computes, that a repeated chunk
  run replaces its rows, and that parse, chunk and embed in turn make an uploaded document ready. The
  witnesses of the pipeline properties run the model on a small system at the end.
\<close>

section \<open>Runs without faults\<close>

definition calm :: "run_env \<Rightarrow> bool" where
  "calm env \<longleftrightarrow> (\<forall>p. e_fault env p = None)"

lemma calmD: "calm env \<Longrightarrow> e_fault env p = None"
  by (simp add: calm_def)

lemma wp_reach_calm: "calm env \<Longrightarrow> wp (bnd (reach env p) f) Q E s = wp (f ()) Q E s"
  by (simp add: wp_bnd_reach calmD)

lemma wp_reach_calm': "calm env \<Longrightarrow> wp (reach env p) Q E s = Q () s"
  by (simp add: reach_def wp_guard_fault calmD)

lemma wp_read_calm:
  "calm env \<Longrightarrow> storage_get (cfg_root cfg) key (files t) = Inr d \<Longrightarrow> wp (read_key cfg env key) Q E t = Q d t"
  by (simp add: read_key_def wp_try wp_reach_calm wp_fs_get)

lemma wp_write_calm:
  "calm env \<Longrightarrow> storage_put (cfg_root cfg) key d (files t) = Inr f
     \<Longrightarrow> wp (write_key cfg env key d) Q E t = Q () (t\<lparr>files := f\<rparr>)"
  by (simp add: write_key_def wp_try wp_reach_calm wp_fs_put)

lemma wp_read_found:
  assumes "calm env" "storage_get (cfg_root cfg) key (files t) = Inr d" "wp (f (Some d)) Q E t"
  shows "wp (bnd (try_with (bnd (read_key cfg env key) (\<lambda>d. ret (Some d)))
            (\<lambda>e. case e of FileNotFoundError \<Rightarrow> ret None | _ \<Rightarrow> throw e)) f) Q E t"
  using assms by (simp add: wp_bnd wp_try wp_read_calm wp_ret)

lemma core_field:
  assumes "doc_core d' = doc_core d"
  shows "d_storage_key d' = d_storage_key d" "d_mime d' = d_mime d" "d_filename d' = d_filename d"
  using arg_cong [OF assms, of d_storage_key] arg_cong [OF assms, of d_mime] arg_cong [OF assms, of d_filename]
  by (simp_all add: doc_core_def)

lemma wp_session_synced:
  assumes s: "synced i s s" and m: "wp m Q' (\<lambda>_ _. False) s"
    and "\<And>a t. Q' a t \<Longrightarrow> pending t = committed t \<and> Q a t"
  shows "wp (in_session m) Q E s"
proof -
  have "s\<lparr>pending := committed s\<rparr> = s" using s by (cases s) (simp add: synced_def)
  moreover have "Q a (t\<lparr>pending := committed t\<rparr>)" if "Q' a t" for a t
  proof -
    have "t\<lparr>pending := committed t\<rparr> = t" using assms(3) [OF that] by (cases t) simp
    with assms(3) [OF that] show ?thesis by (simp only:)
  qed
  ultimately show ?thesis using m by (auto simp: wp_in_session intro: wp_mono)
qed

definition parsed :: "ingest_cfg \<Rightarrow> uuid \<Rightarrow> normalized_document \<Rightarrow> sys \<Rightarrow> sys \<Rightarrow> bool" where
  "parsed cfg i nd s t \<longleftrightarrow>
     synced i s t \<and> status_of (committed t) i = Some St_chunking
     \<and> document_chunks (committed t) = document_chunks (committed s)
     \<and> storage_get (cfg_root cfg) (normalized_key i) (files t) = Inr (cfg_dump cfg nd)"

lemma parse_calm:
  assumes s: "synced i s s" and e: "enters Parse i (committed s)" and c: "calm env"
    and d: "doc_by_id (committed s) i = Some d"
    and stored: "storage_get (cfg_root cfg) (d_storage_key d) (files s) = Inr data"
    and p: "get_parser (d_mime d) = Inr p" "run_parser (cfg_libs cfg) p data (d_filename d) = Inr nd"
  shows "wp (parse_stage cfg env i) (\<lambda>_ t. parsed cfg i nd s t
     \<and> broker t = broker s @ [\<lparr>tm_call = Stage_call Chunk i, tm_retries = 0, tm_countdown = 0\<rparr>]) (\<lambda>_ _. False) s"
proof -
  let ?Q = "\<lambda>go t. go \<and> parsed cfg i nd s t \<and> broker t = broker s"
  have body: "wp (parse_body cfg env i d') ?Q (\<lambda>_ _. False) t"
    if t: "midway Parse i s t" "doc_by_id (committed t) i = Some d'"
      "document_chunks (committed t) = document_chunks (committed s)" "files t = files s" for d' t
  proof -
    have "doc_core d' = doc_core d"
      using others_same_core [OF _ t(2), of "committed s"] t(1) d by (auto simp: midway_def synced_def)
    note f = core_field [OF this]
    obtain fs where fs: "storage_put (cfg_root cfg) (normalized_key i) (cfg_dump cfg nd) (files t) = Inr fs"
      using local_fs.put_total [OF normalized_key_doc_key] by blast
    have get: "storage_get (cfg_root cfg) (normalized_key i) fs = Inr (cfg_dump cfg nd)"
      by (rule local_fs.get_put [OF normalized_key_doc_key fs])
    have "wp (succeed env i Parse St_chunking) (\<lambda>_. wp (ret True) ?Q (\<lambda>_ _. False)) (\<lambda>_ _. False) (t\<lparr>files := fs\<rparr>)"
    proof (rule wp_succeed)
      fix db
      assume db: "others_same i (pending (t\<lparr>files := fs\<rparr>)) db" "status_of db i = Some St_chunking"
        "document_chunks db = document_chunks (pending (t\<lparr>files := fs\<rparr>))"
      have "synced i s (t\<lparr>pending := db, committed := db\<rparr>)"
        by (rule synced_step) (use db t(1) in \<open>auto simp: midway_def synced_def\<close>)
      with db t get show "wp (ret True) ?Q (\<lambda>_ _. False) ((t\<lparr>files := fs\<rparr>)\<lparr>pending := db, committed := db\<rparr>)"
        by (auto simp: wp_ret parsed_def midway_def synced_def)
    qed (use c midway_exists [OF t(1)] in \<open>auto simp: calm_def\<close>)
    then show ?thesis
      unfolding parse_body_def
      by (intro wp_read_found [OF c, where d = data])
        (use stored f t(4) p c fs in \<open>simp_all add: wp_reach_calm' wp_bnd wp_write_calm wp_ret\<close>)
  qed
  have "wp (claim env i (entry_statuses Parse) (running_status Parse) Parse)
     (\<lambda>doc. wp (case doc of None \<Rightarrow> ret False | Some d \<Rightarrow> parse_body cfg env i d) ?Q (\<lambda>_ _. False)) (\<lambda>_ _. False) s"
    by (rule wp_claim_stage [OF s]) (use e c body in \<open>auto simp: calm_def\<close>)
  then have "wp (bnd (claim env i [St_pending, St_failed] St_parsing Parse) (\<lambda>doc.
         case doc of None \<Rightarrow> ret False | Some d \<Rightarrow> parse_body cfg env i d)) ?Q (\<lambda>_ _. False) s"
    by (simp add: wp_bnd entry_statuses_def running_status_def)
  then show ?thesis
    unfolding parse_stage_def wp_bnd [of "in_session _"]
    by (rule wp_session_synced [OF s])
      (auto simp: parsed_def synced_def wp_reach_calm [OF c] wp_enqueue)
qed

section \<open>Chunking replaces\<close>

definition drafts_of :: "ingest_cfg \<Rightarrow> normalized_document \<Rightarrow> chunk_draft list" where
  "drafts_of cfg nd =
     default_recursive_chunk nd \<lparr>target_tokens = cfg_target cfg, overlap_tokens = cfg_overlap cfg\<rparr>"

lemma build_chunks_default: "build_chunks cfg nd source_type = Inr (drafts_of cfg nd)"
  by (simp add: build_chunks_def strategy_for_source_type_def get_strategy_def STRATEGIES_def drafts_of_def Let_def)

text \<open>Fresh row ids: what \<^verbatim>\<open>uuid7\<close> provides.\<close>

definition fresh_ids :: "(nat \<Rightarrow> uuid) \<Rightarrow> db \<Rightarrow> bool" where
  "fresh_ids f s \<longleftrightarrow> inj f \<and> (\<forall>c \<in> set (document_chunks s). ck_id c \<notin> range f)"

lemma rows_ids: "map ck_id (chunk_rows cutter f i drafts) = map f [0..<length drafts]"
proof -
  have "map ck_id (chunk_rows cutter f i drafts) = map f (map fst (enumerate 0 drafts))"
    by (simp add: chunk_rows_def chunk_row_def comp_def case_prod_beta del: map_fst_enumerate)
  then show ?thesis by simp
qed

lemma replace_defined:
  assumes "distinct (map ck_id (document_chunks s))" "fresh_ids f s" "distinct (map cd_seq drafts)"
    and "doc_by_id s i \<noteq> None"
  shows "chunk_replace_for_document cutter f i drafts s =
     Some (s\<lparr>document_chunks := filter (\<lambda>c. ck_document_id c \<noteq> i) (document_chunks s) @ chunk_rows cutter f i drafts\<rparr>)"
proof -
  have "distinct (map f [0..<length drafts])"
    using assms(2) by (auto simp: fresh_ids_def distinct_map intro: inj_on_subset)
  moreover have "set (map ck_id (filter (\<lambda>c. ck_document_id c \<noteq> i) (document_chunks s))) \<inter> set (map f [0..<length drafts]) = {}"
    using assms(2) by (auto simp: fresh_ids_def)
  moreover have "drafts = [] \<Longrightarrow> chunk_rows cutter f i drafts = []" by (simp add: chunk_rows_def)
  ultimately show ?thesis
    using assms by (auto simp: chunk_replace_for_document_def Let_def rows_ids distinct_map_filter simp del: map_map)
qed

definition chunked :: "ingest_cfg \<Rightarrow> run_env \<Rightarrow> uuid \<Rightarrow> normalized_document \<Rightarrow> sys \<Rightarrow> sys \<Rightarrow> bool" where
  "chunked cfg env i nd s t \<longleftrightarrow>
     synced i s t \<and> status_of (committed t) i = Some St_embedding
     \<and> document_chunks (committed t) = filter (\<lambda>c. ck_document_id c \<noteq> i) (document_chunks (committed s))
         @ chunk_rows (cfg_cut cfg) (e_chunk_id env) i (drafts_of cfg nd)
     \<and> files t = files s"

lemma chunked_broker [simp]: "chunked cfg env i nd s (t\<lparr>broker := b\<rparr>) = chunked cfg env i nd s t"
  by (simp add: chunked_def synced_def)

lemma chunked_sync: "chunked cfg env i nd s t \<Longrightarrow> pending t = committed t"
  by (simp add: chunked_def synced_def)

lemma drafts_distinct: "distinct (map cd_seq (drafts_of cfg nd))"
  using default_recursive.seqs_distinct unfolding drafts_of_def by blast

lemma chunk_calm:
  assumes s: "synced i s s" and e: "enters Chunk i (committed s)" and c: "calm env"
    and stored: "storage_get (cfg_root cfg) (normalized_key i) (files s) = Inr raw" and l: "cfg_load cfg raw = Inr nd"
    and f: "fresh_ids (e_chunk_id env) (committed s)"
  shows "wp (chunk_stage cfg env i) (\<lambda>_ t. chunked cfg env i nd s t
     \<and> broker t = broker s @ [\<lparr>tm_call = Stage_call Embed i, tm_retries = 0, tm_countdown = 0\<rparr>]) (\<lambda>_ _. False) s"
proof -
  let ?Q = "\<lambda>go t. go \<and> chunked cfg env i nd s t \<and> broker t = broker s"
  have body: "wp (chunk_body cfg env i d) ?Q (\<lambda>_ _. False) t"
    if t: "midway Chunk i s t" "document_chunks (committed t) = document_chunks (committed s)" "files t = files s" for d t
  proof -
    let ?rows = "filter (\<lambda>c. ck_document_id c \<noteq> i) (document_chunks (committed s))
         @ chunk_rows (cfg_cut cfg) (e_chunk_id env) i (drafts_of cfg nd)"
    let ?p = "(pending t)\<lparr>document_chunks := ?rows\<rparr>"
    have r: "chunk_replace_for_document (cfg_cut cfg) (e_chunk_id env) i (drafts_of cfg nd) (pending t) = Some ?p"
      using t f drafts_distinct midway_exists [OF t(1)]
      by (subst replace_defined) (auto simp: midway_def synced_def fresh_ids_def)
    note o = replace_others [OF r]
    have "wp (succeed env i Chunk St_embedding) (\<lambda>_. wp (ret True) ?Q (\<lambda>_ _. False)) (\<lambda>_ _. False) (t\<lparr>pending := ?p\<rparr>)"
    proof (rule wp_succeed)
      fix db
      assume db: "others_same i (pending (t\<lparr>pending := ?p\<rparr>)) db" "status_of db i = Some St_embedding"
        "document_chunks db = document_chunks (pending (t\<lparr>pending := ?p\<rparr>))"
      have "others_same i (committed s) db"
        using others_same_trans [OF _ others_same_trans [OF o(1)]] db(1) t(1) by (auto simp: midway_def synced_def)
      moreover have "docs_keyed db"
        using others_same_keyed [OF calculation] s by (simp add: synced_def)
      moreover have "distinct (map ck_id (document_chunks db))"
        using o(3) db(3) t(1) by (simp add: midway_def synced_def)
      ultimately show "wp (ret True) ?Q (\<lambda>_ _. False) ((t\<lparr>pending := ?p\<rparr>)\<lparr>pending := db, committed := db\<rparr>)"
        using db t by (simp add: wp_ret chunked_def midway_def synced_def)
    qed (use c midway_exists [OF t(1)] in \<open>auto simp: calm_def doc_by_id_def\<close>)
    then show ?thesis
      unfolding chunk_body_def
      by (intro wp_read_found [OF c, where d = raw])
        (use stored l t(3) c r in \<open>simp_all add: wp_reach_calm' wp_bnd wp_query build_chunks_default wp_stmt_opt wp_ret\<close>)
  qed
  have "wp (claim env i (entry_statuses Chunk) (running_status Chunk) Chunk)
     (\<lambda>doc. wp (case doc of None \<Rightarrow> ret False | Some d \<Rightarrow> chunk_body cfg env i d) ?Q (\<lambda>_ _. False)) (\<lambda>_ _. False) s"
    by (rule wp_claim_stage [OF s]) (use e c body in \<open>auto simp: calm_def\<close>)
  then have "wp (bnd (claim env i [St_chunking, St_failed] St_chunking Chunk) (\<lambda>doc.
         case doc of None \<Rightarrow> ret False | Some d \<Rightarrow> chunk_body cfg env i d)) ?Q (\<lambda>_ _. False) s"
    by (simp add: wp_bnd entry_statuses_def running_status_def)
  then show ?thesis
    unfolding chunk_stage_def wp_bnd [of "in_session _"]
    by (rule wp_session_synced [OF s])
      (auto simp: chunked_broker wp_reach_calm [OF c] wp_enqueue dest: chunked_sync)
qed

text \<open>
  a repeated chunk run replaces: from any state in which the document may be chunked, whatever chunks it
  already has, a run without faults leaves exactly one row per draft of the stored parse result, numbered by the
  drafts, without embeddings, next to the untouched rows of the other documents, and queues the embed task.
\<close>

theorem chunk_run_replaces:
  assumes "wf_sys s" and "enters Chunk i (committed s)" and "calm env"
    and "storage_get (cfg_root cfg) (normalized_key i) (files s) = Inr raw" and "cfg_load cfg raw = Inr nd"
    and "fresh_ids (e_chunk_id env) (committed s)"
    and t: "t = snd (run_stage cfg env env' Chunk i retries s)"
  shows "document_chunks (committed t) = filter (\<lambda>c. ck_document_id c \<noteq> i) (document_chunks (committed s))
         @ chunk_rows (cfg_cut cfg) (e_chunk_id env) i (drafts_of cfg nd)
     \<and> status_of (committed t) i = Some St_embedding
     \<and> broker t = broker s @ [\<lparr>tm_call = Stage_call Embed i, tm_retries = 0, tm_countdown = 0\<rparr>]"
proof -
  have s: "synced i s s" using assms(1) by (simp add: synced_wf)
  from chunk_calm [OF s assms(2-6)] show ?thesis
    unfolding t run_stage_def try_with_def stage_fn_def stage.case
    by (auto simp: wp_def chunked_def split: prod.splits sum.splits)
qed

section \<open>From upload to ready\<close>

definition provider_total :: "run_env \<Rightarrow> bool" where
  "provider_total env \<longleftrightarrow> (\<forall>k ts. \<exists>vs. e_embed env k ts = Inr vs \<and> length vs = length ts)"

lemma embed_batch_calm:
  assumes "calm env" "provider_total env"
  shows "wp (embed_batch cfg env i k batch) (\<lambda>ok _. ok) (\<lambda>_ _. False) t"
proof -
  from assms(2) obtain vs where "e_embed env k (map ck_text batch) = Inr vs" "length vs = length batch"
    unfolding provider_total_def by (metis length_map)
  with assms(1) show ?thesis
    by (simp add: embed_batch_def wp_simps wp_reach_calm')
qed

lemma embed_loop_calm:
  assumes "calm env" "provider_total env"
  shows "wp (embed_loop cfg env i k) (\<lambda>fin _. fin) (\<lambda>_ _. False) t"
  using assms
proof (induction cfg env i k t rule: embed_loop.induct)
  case (1 cfg env i k t)
  let ?b = "chunk_list_unembedded (pending t) i (cfg_batch_size cfg)"
  have none: "e_fault env (At_list k) = None" using 1(2) by (rule calmD)
  show ?case
  proof (cases "?b = []")
    case True
    with none show ?thesis by (simp add: wp_def embed_loop.simps [of cfg env i k t])
  next
    case False
    from embed_batch_calm [OF 1(2,3), of cfg i k ?b t] obtain u where u: "embed_batch cfg env i k ?b t = (Inr True, u)"
      by (auto simp: wp_def split: prod.splits sum.splits)
    with none False have "embed_loop cfg env i k t = embed_loop cfg env i (Suc k) u"
      by (simp add: embed_loop.simps [of cfg env i k t])
    with 1(1) [OF none refl False u [symmetric] refl _ 1(2,3)] show ?thesis by (simp add: wp_def)
  qed
qed

lemma embed_calm:
  assumes s: "synced i s s" and e: "enters Embed i (committed s)" and c: "calm env" "provider_total env"
    and n: "0 < cfg_batch_size cfg"
  shows "wp (embed_stage cfg env i) (\<lambda>_ t. synced i s t \<and> status_of (committed t) i = Some St_ready
     \<and> chunk_count_unembedded (committed t) i = 0) (\<lambda>_ _. False) s"
proof -
  let ?tail = "\<lambda>doc. case doc of None \<Rightarrow> ret () | Some _ \<Rightarrow>
      bnd (embed_loop cfg env i 0) (\<lambda>finished. if finished then succeed env i Embed St_ready else ret ())"
  let ?Q = "\<lambda>_ t. synced i s t \<and> status_of (committed t) i = Some St_ready
     \<and> chunk_count_unembedded (committed t) i = 0"
  have loop: "wp (bnd (embed_loop cfg env i 0) (\<lambda>fin. if fin then succeed env i Embed St_ready else ret ()))
      ?Q (\<lambda>_ _. False) t" if t: "midway Embed i s t" for t
    unfolding wp_bnd [of "embed_loop _ _ _ _"]
  proof (rule wp_mono [OF wp_conj [OF embed_loop_outcome [OF t e] embed_loop_calm [OF c]]])
    fix fin u
    assume "(if fin then midway Embed i s u \<and> (0 < cfg_batch_size cfg \<longrightarrow> chunk_count_unembedded (pending u) i = 0)
        else block_done Embed i s False u) \<and> fin"
    with n have fin: fin and m: "midway Embed i s u" and z: "chunk_count_unembedded (pending u) i = 0" by auto
    have "wp (succeed env i Embed St_ready) ?Q (\<lambda>_ _. False) u"
    proof (rule wp_succeed [OF midway_exists [OF m]])
      fix db
      assume db: "others_same i (pending u) db" "status_of db i = Some St_ready"
        "document_chunks db = document_chunks (pending u)"
      have "synced i s (u\<lparr>pending := db, committed := db\<rparr>)"
        by (rule synced_step) (use db m in \<open>auto simp: midway_def synced_def\<close>)
      with db z show "?Q () (u\<lparr>pending := db, committed := db\<rparr>)" by (simp add: chunk_count_unembedded_def)
    qed (use c in \<open>simp add: calm_def\<close>)
    with fin show "wp (if fin then succeed env i Embed St_ready else ret ()) ?Q (\<lambda>_ _. False) u" by simp
  qed auto
  have "wp (claim env i (entry_statuses Embed) (running_status Embed) Embed)
      (\<lambda>doc. wp (?tail doc) ?Q (\<lambda>_ _. False)) (\<lambda>_ _. False) s"
    by (rule wp_claim_stage [OF s]) (use loop e c in \<open>auto simp: calm_def\<close>)
  then have "wp (bnd (claim env i [St_embedding, St_failed] St_embedding Embed) ?tail) ?Q (\<lambda>_ _. False) s"
    by (simp add: wp_bnd entry_statuses_def running_status_def)
  then show ?thesis
    unfolding embed_stage_def by (rule wp_session_synced [OF s]) (auto simp: synced_def)
qed

lemma run_stage_return:
  assumes "wp (stage_fn st cfg env i) (\<lambda>_. Q) (\<lambda>_ _. False) s"
  shows "Q (snd (run_stage cfg env env' st i retries s))"
  using assms by (auto simp: run_stage_def try_with_def wp_def split: prod.splits sum.splits)

lemma embedded_rows:
  assumes more: "embeds_more v s t" and s: "document_chunks s = kept @ chunk_rows cutter f i drafts"
    and kept: "\<forall>c \<in> set kept. ck_document_id c \<noteq> i" and zero: "chunk_count_unembedded t i = 0"
  shows "list_all2 (\<lambda>draft c. ck_seq c = cd_seq draft \<and> ck_text c = cd_text draft \<and> ck_tokens c = cd_tokens draft
      \<and> ck_meta c = cd_meta draft \<and> ck_embedding c \<noteq> None \<and> ck_embedding_version c = Some v)
    drafts (filter (\<lambda>c. ck_document_id c = i) (document_chunks t))"
proof -
  let ?R = "\<lambda>c c'. c' = c \<or> ck_embedding c = None
          \<and> (\<exists>x. c' = c\<lparr>ck_embedding := Some x, ck_embedding_version := Some v\<rparr>)"
  from more s obtain as bs where t: "document_chunks t = as @ bs" and a: "list_all2 ?R kept as"
    and b: "list_all2 ?R (chunk_rows cutter f i drafts) bs"
    unfolding embeds_more_def by (auto simp: list_all2_append1)
  have same: "?R c c' \<Longrightarrow> ck_document_id c' = ck_document_id c" for c c' by auto
  have "filter (\<lambda>c. ck_document_id c = i) as = []"
    using a kept by (induction rule: list_all2_induct) auto
  moreover have row: "j < length drafts \<Longrightarrow> chunk_rows cutter f i drafts ! j = chunk_row cutter i (f j) (drafts ! j)" for j
    by (simp add: chunk_rows_def nth_enumerate_eq)
  have len: "length bs = length drafts" using list_all2_lengthD [OF b] by (simp add: chunk_rows_def)
  have bj: "?R (chunk_row cutter i (f j) (drafts ! j)) (bs ! j)" if "j < length drafts" for j
    using list_all2_nthD [OF b, of j] row that by (simp add: chunk_rows_def)
  have doc: "ck_document_id (bs ! j) = i" if "j < length drafts" for j
    using same [OF bj [OF that]] by (simp add: chunk_row_def)
  then have "filter (\<lambda>c. ck_document_id c = i) bs = bs"
    using len by (auto simp: filter_id_conv in_set_conv_nth)
  ultimately have bs: "filter (\<lambda>c. ck_document_id c = i) (document_chunks t) = bs" by (simp add: t)
  have "\<forall>x \<in> set bs. ck_document_id x = i \<longrightarrow> ck_embedding x \<noteq> None"
    using zero by (auto simp: chunk_count_unembedded_def t filter_empty_conv)
  then have "ck_embedding (bs ! j) \<noteq> None" if "j < length drafts" for j
    using doc [OF that] that len by simp
  then show ?thesis
    unfolding bs using bj len by (force simp: list_all2_conv_all_nth chunk_row_def)
qed

text \<open>
  C12: the pipeline does its job. For a pending document whose original is stored and parses, with storage,
  database and embedding provider working and the JSON of the parse result loading back, the three tasks that the
  queue hands out in turn make the document ready, its chunks are exactly the drafts of the
  chunking strategy, in order, and every one has an embedding of the configured version.
\<close>

theorem pipeline_happy_path:
  assumes w: "wf_sys s" and d: "doc_by_id (committed s) i = Some d" "d_status d = St_pending"
    and stored: "storage_get (cfg_root cfg) (d_storage_key d) (files s) = Inr data"
    and p: "get_parser (d_mime d) = Inr p" "run_parser (cfg_libs cfg) p data (d_filename d) = Inr nd"
    and json: "cfg_load cfg (cfg_dump cfg nd) = Inr nd"
    and calm: "calm env1" "calm env2" "calm env3"
    and fresh: "fresh_ids (e_chunk_id env2) (committed s)"
    and embed: "provider_total env3" "0 < cfg_batch_size cfg"
    and s1: "s1 = snd (run_stage cfg env1 env1' Parse i 0 s)"
    and s2: "s2 = snd (run_stage cfg env2 env2' Chunk i 0 s1)"
    and s3: "s3 = snd (run_stage cfg env3 env3' Embed i 0 s2)"
  shows "status_of (committed s3) i = Some St_ready
     \<and> list_all2 (\<lambda>draft c. ck_seq c = cd_seq draft \<and> ck_text c = cd_text draft \<and> ck_tokens c = cd_tokens draft
          \<and> ck_meta c = cd_meta draft \<and> ck_embedding c \<noteq> None \<and> ck_embedding_version c = Some (cfg_version cfg))
        (drafts_of cfg nd) (filter (\<lambda>c. ck_document_id c = i) (document_chunks (committed s3)))"
proof -
  have s: "synced i s s" using w by (simp add: synced_wf)
  have e0: "enters Parse i (committed s)" using d by (simp add: enters_def entry_statuses_def status_of_def)
  have p1: "parsed cfg i nd s s1"
    unfolding s1
    by (rule run_stage_return, unfold stage_fn_def stage.case, rule wp_mono [OF parse_calm [OF s e0 calm(1) d(1) stored p]]) auto
  then have y1: "synced i s1 s1" and e1: "enters Chunk i (committed s1)"
    by (auto simp: parsed_def synced_def enters_def entry_statuses_def)
  have "fresh_ids (e_chunk_id env2) (committed s1)" using fresh p1 by (simp add: fresh_ids_def parsed_def)
  moreover have "storage_get (cfg_root cfg) (normalized_key i) (files s1) = Inr (cfg_dump cfg nd)"
    using p1 by (simp add: parsed_def)
  ultimately have "wp (stage_fn Chunk cfg env2 i) (\<lambda>_. chunked cfg env2 i nd s1) (\<lambda>_ _. False) s1"
    unfolding stage_fn_def stage.case
    by (intro wp_mono [OF chunk_calm [OF y1 e1 calm(2) _ json]]) auto
  then have p2: "chunked cfg env2 i nd s1 s2" unfolding s2 by (rule run_stage_return)
  then have y2: "synced i s2 s2" and e2: "enters Embed i (committed s2)"
    by (auto simp only: chunked_def synced_def others_same_refl enters_def entry_statuses_def stage.case) simp
  have "synced i s2 s3 \<and> status_of (committed s3) i = Some St_ready \<and> chunk_count_unembedded (committed s3) i = 0"
    unfolding s3
    by (rule run_stage_return, unfold stage_fn_def stage.case, rule embed_calm [OF y2 e2 calm(3) embed])
  moreover have "embeds_more (cfg_version cfg) (committed s2) (committed s3)"
    unfolding s3 by (rule embed_keeps_progress [OF y2])
  ultimately show ?thesis
    using embedded_rows [of "cfg_version cfg" "committed s2" "committed s3"] p2
    by (auto simp: chunked_def)
qed

section \<open>A small system\<close>

definition demo_doc :: "doc_status \<Rightarrow> document" where
  "demo_doc st = \<lparr>d_id = 7, d_source_id = 2, d_uploaded_by = 1, d_filename = lit ''a.txt'', d_mime = lit ''text/plain'',
     d_size_bytes = 1, d_storage_key = storage_prefix 7 @ lit ''original.txt'', d_checksum = [99], d_status = st,
     d_error = None, d_meta = [], d_created_at = 0, d_updated_at = 0\<rparr>"

definition demo_sys :: "doc_status \<Rightarrow> sys" where
  "demo_sys st =
     (let d = empty_db\<lparr>documents := [demo_doc st]\<rparr>
      in \<lparr>committed = d, pending = d,
          files = Map.empty([lit ''documents'', uuid_str 7, lit ''original.txt''] \<mapsto> [65]), broker = []\<rparr>)"

definition demo_nd :: normalized_document where
  "demo_nd = \<lparr>nd_blocks = [text_block Paragraph [65]],
     nd_meta = [(lit ''source_mime'', JStr (lit ''text/plain''))]\<rparr>"

definition demo_cfg :: ingest_cfg where
  "demo_cfg = \<lparr>cfg_root = [], cfg_libs = demo_libs, cfg_dump = (\<lambda>_. [1]), cfg_load = (\<lambda>_. Inr demo_nd),
     cfg_target = 450, cfg_overlap = 80, cfg_batch_size = 32, cfg_version = [118], cfg_cut = (\<lambda>t. [t]), cfg_task_max_retries = 3\<rparr>"

definition demo_env :: "(point \<Rightarrow> exn option) \<Rightarrow> run_env" where
  "demo_env faults = \<lparr>e_fault = faults, e_now = (\<lambda>_. 0), e_job_id = (\<lambda>_. 50), e_chunk_id = (\<lambda>k. 100 + k),
     e_embed = (\<lambda>_ ts. Inr (map (\<lambda>_. [1]) ts))\<rparr>"

lemma demo_parse:
  "get_parser (lit ''text/plain'') = Inr PlainTextParser"
  "run_parser demo_libs PlainTextParser [65] (lit ''a.txt'') = Inr demo_nd"
proof -
  show "get_parser (lit ''text/plain'') = Inr PlainTextParser"
    by (simp add: get_parser_def BY_MEDIA_TYPE_def PARSERS_def docx_mime_def)
  have n: "normalize_text [65] = [65]"
    by (simp add: normalize_text_def SPACE_EQUIVALENTS_def newlines_def replace1_def py_strip_def strip_by_def py_space_def)
  have "prepare_block (text_block Paragraph [65]) = Some (text_block Paragraph [65], None)"
    by (simp add: prepare_block_def text_block_def n MAX_BLOCK_CHARS_def)
  moreover have "split_paragraphs [65] = [[65]]"
    by (simp add: split_paragraphs.simps [of "[65]"] split_paragraphs.simps [of "[]"] match_separator_def)
  ultimately show "run_parser demo_libs PlainTextParser [65] (lit ''a.txt'') = Inr demo_nd"
    by (simp add: parse_plain_def demo_libs_def decode_text_def ENCODING_CHAIN_def paragraph_blocks_def
        finalize_document_def block_chars_def text_block_def MAX_DOCUMENT_CHARS_def demo_nd_def)
qed

lemma demo_drafts: "length (drafts_of demo_cfg demo_nd) = 1"
  by (simp add: drafts_of_def demo_cfg_def demo_nd_def default_recursive_chunk_def build_block_def
      text_block_def add_text_def split_to_limit.simps [of "[65]"] estimate_tokens_def is_cjk_def
      add_piece_def new_builder_def flush_def emit_def Let_def)

abbreviation calm_env :: run_env where "calm_env \<equiv> demo_env (\<lambda>_. None)"

abbreviation read_fault_env :: run_env where
  "read_fault_env \<equiv> demo_env (\<lambda>p. if p = At_read then Some (OSError [109]) else None)"

lemma demo_wf: "wf_sys (demo_sys st)"
  by (simp add: wf_sys_def demo_sys_def Let_def docs_keyed_def empty_db_def)

lemma demo_synced: "synced 7 (demo_sys st) (demo_sys st)"
  using demo_wf by (simp add: synced_wf)

lemma demo_lookup: "doc_by_id (committed (demo_sys st)) 7 = Some (demo_doc st)"
  by (simp add: demo_sys_def Let_def doc_by_id_def demo_doc_def)

lemma demo_status: "status_of (committed (demo_sys st)) k = (if k = 7 then Some st else None)"
  by (auto simp: status_of_def demo_sys_def Let_def doc_by_id_def demo_doc_def empty_db_def)

lemma demo_enters:
  "enters Parse 7 (committed (demo_sys St_pending))" "enters Chunk 7 (committed (demo_sys St_chunking))"
  "\<not> enters Parse 7 (committed (demo_sys St_ready))" "enters Embed 7 (committed (demo_sys St_embedding))"
  by (simp_all add: enters_def entry_statuses_def demo_status)

lemma demo_chunks: "document_chunks (committed (demo_sys st)) = []" "broker (demo_sys st) = []"
  by (simp_all add: demo_sys_def Let_def empty_db_def)

lemma demo_fresh: "fresh_ids (e_chunk_id calm_env) (committed (demo_sys st))"
  by (simp add: fresh_ids_def demo_env_def demo_chunks inj_def)

lemma demo_calm: "calm calm_env" "provider_total calm_env"
  by (auto simp: calm_def demo_env_def provider_total_def)

lemma demo_ready: "ready_embedded (demo_sys st)"
  by (simp add: ready_embedded_def chunk_count_unembedded_def demo_chunks)

lemma demo_stored:
  "storage_get (cfg_root demo_cfg) (d_storage_key (demo_doc st)) (files (demo_sys st)) = Inr [65]"
proof -
  have "storage_resolve [] (storage_prefix 7 @ lit ''original.txt'')
      = Inr [lit ''documents'', uuid_str 7, lit ''original.txt'']"
    using resolve_key [of "lit ''original.txt''" "[]" 7] by simp
  then show ?thesis
    by (simp add: storage_get_def demo_cfg_def demo_doc_def demo_sys_def Let_def del: lit_simps)
qed

theorem never_left_behind_witness:
  "alive (snd (run_stage demo_cfg read_fault_env calm_env Chunk 7 3 (demo_sys St_chunking))) 7"
  by (rule never_left_behind [OF demo_synced]) (auto simp: demo_enters demo_env_def gives_up_def max_retries_def)

theorem stale_message_skipped_witness:
  "run_stage demo_cfg calm_env calm_env Parse 7 0 (demo_sys St_ready) = (Inr (), demo_sys St_ready)"
  by (rule stale_message_skipped [OF demo_synced demo_enters(3)]) (simp add: demo_env_def)

theorem parse_retry_is_lost_witness:
  "let t = snd (run_stage demo_cfg read_fault_env calm_env Parse 7 0 (demo_sys St_pending));
       u = snd (run_stage demo_cfg calm_env calm_env Parse 7 1 (t\<lparr>broker := []\<rparr>))
   in length (broker t) = 1 \<and> status_of (committed u) 7 = Some St_parsing \<and> \<not> alive u 7"
proof -
  have f: "e_fault read_fault_env At_claim = None" "e_fault read_fault_env At_read = Some (OSError [109])"
    "e_fault calm_env At_claim = None" "e_fault read_fault_env At_retry = None" and r: "0 < max_retries Parse" "0 < cfg_task_max_retries demo_cfg"
    by (simp_all add: demo_env_def max_retries_def demo_cfg_def)
  from parse_retry_is_lost [where cfg = demo_cfg and env' = calm_env and env2' = calm_env,
      OF demo_synced demo_enters(1) demo_chunks(2) f(1,2,4) r f(3) refl refl]
  show ?thesis unfolding Let_def One_nat_def
    by (elim conjE) (intro conjI; (assumption | simp only: list.size add_0))
qed

theorem embed_retry_is_lost_witness:
  "\<exists>t. run_stage demo_cfg (demo_env (\<lambda>p. if p = At_list 0 then Some (SQLAlchemyError []) else None)) calm_env Embed 7 3 (demo_sys St_embedding)
       = (Inl (SQLAlchemyError []), t) \<and> status_of (committed t) 7 = Some St_embedding \<and> \<not> alive t 7"
proof -
  let ?env = "demo_env (\<lambda>p. if p = At_list 0 then Some (SQLAlchemyError []) else None)"
  have claim: "e_fault ?env At_claim = None" and lost: "e_fault ?env (At_list 0) = Some (SQLAlchemyError [])"
    by (simp_all add: demo_env_def)
  have g: "cfg_task_max_retries demo_cfg \<le> 3" "3 < max_retries Embed" by (simp_all add: demo_cfg_def max_retries_def)
  have e: "enters Embed 7 (committed (demo_sys St_embedding))" by (simp add: enters_def entry_statuses_def demo_status)
  have "wp (embed_stage demo_cfg ?env 7) (\<lambda>_ _. False) (\<lambda>x _. x = SQLAlchemyError []) (demo_sys St_embedding)"
  proof -
    have s_id: "demo_sys St_embedding\<lparr>pending := committed (demo_sys St_embedding)\<rparr> = demo_sys St_embedding"
      using demo_wf [of St_embedding] by (cases "demo_sys St_embedding") (simp add: wf_sys_def)
    have loop: "embed_loop demo_cfg ?env 7 0 t = (Inl (SQLAlchemyError []), t)" for t
      by (subst embed_loop.simps) (simp add: lost)
    show ?thesis
      unfolding embed_stage_def wp_in_session s_id wp_bnd [of "claim _ _ _ _ _"]
      by (rule wp_claim_stage [where st = Embed, OF demo_synced, unfolded entry_statuses_def running_status_def, simplified])
        (use e claim in \<open>auto simp: wp_def bnd_def loop [simplified]\<close>)
  qed
  then obtain v where "embed_stage demo_cfg ?env 7 (demo_sys St_embedding) = (Inl (SQLAlchemyError []), v)"
    by (auto simp: wp_def split: prod.splits sum.splits)
  from embed_retry_is_lost [OF demo_synced e demo_chunks(2) g this _ claim] show ?thesis by fastforce
qed

theorem run_touches_own_document_witness:
  "others_same 7 (committed (demo_sys St_pending))
     (committed (snd (run_stage demo_cfg read_fault_env calm_env Parse 7 0 (demo_sys St_pending))))"
  using run_touches_own_document [OF demo_synced refl] by blast

theorem run_status_transition_witness:
  "status_of (committed (snd (run_stage demo_cfg read_fault_env calm_env Parse 7 0 (demo_sys St_pending)))) 7
     \<in> {Some St_pending, Some St_failed, Some St_parsing, Some St_chunking}"
  using run_status_transition [OF demo_synced [of St_pending] refl, of demo_cfg read_fault_env calm_env Parse 0]
  by (auto simp: demo_status running_status_def next_status_def)

theorem run_keeps_ready_embedded_witness:
  "ready_embedded (snd (run_stage demo_cfg calm_env calm_env Embed 7 0 (demo_sys St_embedding)))"
  using run_keeps_ready_embedded [OF demo_wf demo_ready, of demo_cfg] by (simp add: demo_cfg_def)

theorem embed_keeps_progress_witness:
  "embeds_more (cfg_version demo_cfg) (committed (demo_sys St_embedding))
     (committed (snd (run_stage demo_cfg calm_env calm_env Embed 7 0 (demo_sys St_embedding))))"
  by (rule embed_keeps_progress [OF demo_synced])

theorem chunk_run_replaces_witness:
  "let s = (demo_sys St_chunking)\<lparr>files := Map.empty([lit ''documents'', uuid_str 7, lit ''normalized.json''] \<mapsto> [1])\<rparr>;
       t = snd (run_stage demo_cfg calm_env calm_env Chunk 7 0 s)
   in length (document_chunks (committed t)) = 1 \<and> status_of (committed t) 7 = Some St_embedding"
proof -
  let ?s = "(demo_sys St_chunking)\<lparr>files := Map.empty([lit ''documents'', uuid_str 7, lit ''normalized.json''] \<mapsto> [1])\<rparr>"
  have "normalized_key 7 = storage_prefix 7 @ lit ''normalized.json''"
    by (simp add: normalized_key_def storage_prefix_def)
  then have "storage_resolve [] (normalized_key 7) = Inr [lit ''documents'', uuid_str 7, lit ''normalized.json'']"
    using resolve_key [of "lit ''normalized.json''" "[]" 7] by simp
  then have g: "storage_get (cfg_root demo_cfg) (normalized_key 7) (files ?s) = Inr [1]"
    by (simp add: storage_get_def demo_cfg_def del: lit_simps)
  have w: "wf_sys ?s" and e: "enters Chunk 7 (committed ?s)" and f: "fresh_ids (e_chunk_id calm_env) (committed ?s)"
    using demo_wf [of St_chunking] demo_enters(2) demo_fresh by (simp_all add: wf_sys_def)
  have l: "cfg_load demo_cfg [1] = Inr demo_nd" by (simp add: demo_cfg_def)
  from chunk_run_replaces [OF w e demo_calm(1) g l f refl] show ?thesis
    by (simp add: Let_def demo_chunks chunk_rows_def demo_drafts)
qed

theorem pipeline_happy_path_witness:
  "let s1 = snd (run_stage demo_cfg calm_env calm_env Parse 7 0 (demo_sys St_pending));
       s2 = snd (run_stage demo_cfg calm_env calm_env Chunk 7 0 s1);
       s3 = snd (run_stage demo_cfg calm_env calm_env Embed 7 0 s2)
   in status_of (committed s3) 7 = Some St_ready
      \<and> length (filter (\<lambda>c. ck_document_id c = 7) (document_chunks (committed s3))) = 1"
proof -
  have d: "d_status (demo_doc St_pending) = St_pending" and m: "get_parser (d_mime (demo_doc St_pending)) = Inr PlainTextParser"
    and r: "run_parser (cfg_libs demo_cfg) PlainTextParser [65] (d_filename (demo_doc St_pending)) = Inr demo_nd"
    and l: "cfg_load demo_cfg (cfg_dump demo_cfg demo_nd) = Inr demo_nd" and n: "0 < cfg_batch_size demo_cfg"
    using demo_parse by (simp_all add: demo_doc_def demo_cfg_def)
  from pipeline_happy_path [where env1' = calm_env and env2' = calm_env and env3' = calm_env,
      OF demo_wf demo_lookup d demo_stored m r l demo_calm(1) demo_calm(1) demo_calm(1)
      demo_fresh demo_calm(2) n refl refl refl]
  show ?thesis
    by (simp add: Let_def demo_drafts list_all2_conv_all_nth)
qed

end
