(* ===== verification/System.thy ===== *)
theory System
  imports Document_Correct Pipeline_Complete
begin

text \<open>
  Requests and workers together: the system as a transition relation whose steps are whole
  document requests and whole task runs, interleaved in any order, with messages delivered in any
  order. The invariant of its reachable states: rows are well formed, a ready document is completely
  embedded, and no document is left behind.
\<close>

section \<open>Steps\<close>

text \<open>
  The faults of a run that keep the promise to its document: marking a failure works, publishing a message raises nothing that
  would itself be retried, a retry can be published, the parse stage meets no retryable error, and none falls in an attempt after which
  Celery gives up although the shell does not. Every other run \<^emph>\<open>hits\<close> its document.
\<close>

definition harmless :: "ingest_cfg \<Rightarrow> run_env \<Rightarrow> run_env \<Rightarrow> stage \<Rightarrow> uuid \<Rightarrow> nat \<Rightarrow> sys \<Rightarrow> bool" where
  "harmless cfg env env' st i retries s \<longleftrightarrow>
     e_fault env' At_fail = None \<and> (\<forall>e. e_fault env At_enqueue = Some e \<longrightarrow> \<not> retryable e) \<and> e_fault env At_retry = None
     \<and> (st = Parse \<longrightarrow> quiet env)
     \<and> (gives_up cfg st retries \<longrightarrow> wp (stage_fn st cfg env i) (\<lambda>_ _. True) (\<lambda>e _. \<not> retryable e) s)"

text \<open>A step from \<open>s\<close> to \<open>t\<close> and the documents it hits; the runs have any faults at all.\<close>

inductive sys_step :: "ingest_cfg \<Rightarrow> doc_cfg \<Rightarrow> sys \<Rightarrow> uuid set \<Rightarrow> sys \<Rightarrow> bool" for cfg dc where
  Work: "broker s = xs @ m # ys \<Longrightarrow> tm_call m = Stage_call st i
    \<Longrightarrow> hit = (if harmless cfg env env' st i (tm_retries m) (s\<lparr>broker := xs @ ys\<rparr>) then {} else {i})
    \<Longrightarrow> sys_step cfg dc s hit (snd (run_stage cfg env env' st i (tm_retries m) (s\<lparr>broker := xs @ ys\<rparr>)))"
| Purge: "broker s = xs @ m # ys \<Longrightarrow> tm_call m = Purge_call pre
    \<Longrightarrow> sys_step cfg dc s {} (snd (purge_document cfg env pre (tm_retries m) n (s\<lparr>broker := xs @ ys\<rparr>)))"
| Upload: "no_race env
    \<Longrightarrow> sys_step cfg dc s {} (snd (upload_document dc env mb ctx filename content_type file_data source_id s))"
| Retry: "sys_step cfg dc s {} (snd (in_session (retry_document env ctx i) s))"
| Delete: "sys_step cfg dc s {} (snd (in_session (delete_document env ctx i) s))"

text \<open>The reachable states, with all the documents that were hit on the way.\<close>

inductive reachable :: "ingest_cfg \<Rightarrow> doc_cfg \<Rightarrow> uuid set \<Rightarrow> sys \<Rightarrow> bool" for cfg dc where
  Start: "pending s = committed s \<Longrightarrow> documents (committed s) = [] \<Longrightarrow> document_chunks (committed s) = []
    \<Longrightarrow> reachable cfg dc {} s"
| Step: "reachable cfg dc H s \<Longrightarrow> sys_step cfg dc s hit t \<Longrightarrow> reachable cfg dc (H \<union> hit) t"

inductive_cases sys_stepE: "sys_step cfg dc s hit t"

definition sys_inv :: "uuid set \<Rightarrow> sys \<Rightarrow> bool" where
  "sys_inv H s \<longleftrightarrow> wf_sys s \<and> ready_embedded s \<and> (\<forall>i. i \<notin> H \<longrightarrow> alive s i)"

lemma sys_invI [intro]: "wf_sys s \<Longrightarrow> ready_embedded s \<Longrightarrow> (\<And>i. i \<notin> H \<Longrightarrow> alive s i) \<Longrightarrow> sys_inv H s"
  by (simp add: sys_inv_def)

section \<open>Preservation\<close>

lemma alive_transfer:
  assumes "doc_by_id (committed t) k = doc_by_id (committed s) k"
    and "\<And>m st. m \<in> set (broker s) \<Longrightarrow> tm_call m = Stage_call st k \<Longrightarrow> m \<in> set (broker t)"
    and "alive s k"
  shows "alive t k"
proof -
  have st: "status_of (committed t) k = status_of (committed s) k" using assms(1) by (simp add: status_of_def)
  consider "doc_by_id (committed s) k = None \<or> status_of (committed s) k \<in> {Some St_ready, Some St_failed}"
    | m x where "m \<in> set (broker s)" "tm_call m = Stage_call x k" "enters x k (committed s)"
    using assms(3) by (auto simp: alive_def picked_up_def)
  then show ?thesis
  proof cases
    case 1
    with assms(1) st show ?thesis by (auto simp: alive_def)
  next
    case 2
    with assms(2) st show ?thesis by (intro queued_alive [of m t x k]) (auto simp: enters_def)
  qed
qed

lemma sys_inv_same:
  assumes "sys_inv H s" "pending t = committed t" "documents (committed t) = documents (committed s)"
    "document_chunks (committed t) = document_chunks (committed s)"
    "\<And>m st i. m \<in> set (broker s) \<Longrightarrow> tm_call m = Stage_call st i \<Longrightarrow> m \<in> set (broker t)"
  shows "sys_inv H t"
proof
  have d: "doc_by_id (committed t) k = doc_by_id (committed s) k" for k
    using assms(3) by (simp add: doc_by_id_def)
  show "wf_sys t" using assms by (simp add: sys_inv_def wf_sys_def docs_keyed_def)
  show "ready_embedded t"
    using assms(1,4) d by (simp add: sys_inv_def ready_embedded_def status_of_def chunk_count_unembedded_def)
  show "alive t i" if "i \<notin> H" for i
    using assms(1,5) d that by (intro alive_transfer [of t i s]) (auto simp: sys_inv_def)
qed

lemma stored_only_inv: "sys_inv H s \<Longrightarrow> stored_only cfg s t \<Longrightarrow> sys_inv H t"
  by (rule sys_inv_same) (auto simp: stored_only_def)

lemma started_inv:
  assumes inv: "sys_inv H s" and t: "started env st i s t"
  shows "sys_inv H t"
proof
  have o: "others_same i (committed s) (committed t)" using t by (simp add: started_def synced_def)
  show "wf_sys t" using t unfolding started_def synced_def wf_sys_def by blast
  have "chunk_count_unembedded (committed t) k = 0" if "status_of (committed t) k = Some St_ready" for k
  proof (cases "k = i")
    case True
    with that t show ?thesis by (cases st) (auto simp: started_def STAGE_ENTRY_STATUS_def split: if_splits)
  next
    case False
    with that others_same_other_doc [OF o] have "status_of (committed s) k = Some St_ready"
      by (simp add: status_of_def)
    with inv count_others [OF o False] show ?thesis by (simp add: sys_inv_def ready_embedded_def)
  qed
  then show "ready_embedded t" by (simp add: ready_embedded_def)
  have "set (broker s) \<subseteq> set (broker t)" using t by (auto simp: started_def split: if_splits)
  then show "alive t k" if "k \<notin> H" for k
    using that inv started_alive [OF t] others_same_other_doc [OF o]
    by (cases "k = i") (auto simp: sys_inv_def intro: alive_transfer [of t k s])
qed

lemma created_inv:
  assumes inv: "sys_inv H s" and t: "created cfg env d data s t"
  shows "sys_inv H t"
proof
  let ?i = "d_id d"
  from t obtain d' where d': "documents (committed t) = documents (committed s) @ [d']" "d_id d' = ?i"
    and fresh: "doc_by_id (committed s) ?i = None"
    and st: "if u_enqueue_fault env = None
      then d_status d' = St_pending \<and> broker t = broker s @ [start_message Parse ?i]
      else d_status d' = St_failed \<and> broker t = broker s"
    by (auto simp: created_def)
  have old: "doc_by_id (committed t) k = doc_by_id (committed s) k" if "k \<noteq> ?i" for k
    using that d' by (simp add: doc_by_id_def find_append_new split: option.split)
  have new: "doc_by_id (committed t) ?i = Some d'"
    using fresh d' by (simp add: doc_by_id_def find_append_new)
  show "wf_sys t"
    using inv t d' fresh by (auto simp: sys_inv_def wf_sys_def docs_keyed_def created_def doc_by_id_None)
  show "ready_embedded t"
    unfolding ready_embedded_def
  proof (intro allI impI)
    fix k assume k: "status_of (committed t) k = Some St_ready"
    with new st have "k \<noteq> ?i" by (auto simp: status_of_def split: if_splits)
    with k old have "status_of (committed s) k = Some St_ready" by (simp add: status_of_def)
    with inv t show "chunk_count_unembedded (committed t) k = 0"
      by (simp add: sys_inv_def ready_embedded_def chunk_count_unembedded_def created_def)
  qed
  have sub: "set (broker s) \<subseteq> set (broker t)" using st by (auto split: if_splits)
  have "alive t ?i"
  proof (cases "u_enqueue_fault env = None")
    case True
    with st new have "enters Parse ?i (committed t)" by (simp add: enters_def entry_statuses_def status_of_def)
    with True st show ?thesis
      by (intro queued_alive [of "start_message Parse ?i" t Parse ?i]) (auto simp: start_message_def)
  qed (use st new in \<open>simp add: alive_def status_of_def\<close>)
  with inv old sub show "alive t k" if "k \<notin> H" for k
    using that by (cases "k = ?i") (auto simp: sys_inv_def intro: alive_transfer [of t k s])
qed

lemma run_inv:
  assumes b: "broker s = xs @ m # ys" and m: "tm_call m = Stage_call st i" and inv: "sys_inv H s" and n: "0 < cfg_batch_size cfg"
    and hit: "hit = (if harmless cfg env env' st i (tm_retries m) (s\<lparr>broker := xs @ ys\<rparr>) then {} else {i})"
  shows "sys_inv (H \<union> hit) (snd (run_stage cfg env env' st i (tm_retries m) (s\<lparr>broker := xs @ ys\<rparr>)))" (is "sys_inv _ ?t")
proof
  let ?s = "s\<lparr>broker := xs @ ys\<rparr>"
  have w: "wf_sys ?s" and r: "ready_embedded ?s" using inv by (simp_all add: sys_inv_def wf_sys_def ready_embedded_def)
  then have s: "synced i ?s ?s" by (simp add: synced_wf)
  show "wf_sys ?t" "ready_embedded ?t" using run_keeps_ready_embedded [OF w r n] by blast+
  have own: "alive ?t i" if "i \<notin> H \<union> hit"
  proof -
    have "alive s i" using that inv by (simp add: sys_inv_def)
    then have "enters st i (committed ?s) \<or> alive ?s i" using b m by (fastforce simp: alive_def picked_up_def)
    then show ?thesis
      using that hit by (intro run_alive [OF s]) (auto simp: harmless_def split: if_splits)
  qed
  have eff: "run_effect cfg st i ?s ?t" by (rule run_stage_effect [OF s])
  then have sub: "set (xs @ ys) \<subseteq> set (broker ?t)" by (auto simp: run_effect_def)
  have doc: "doc_by_id (committed ?t) k = doc_by_id (committed s) k" if "k \<noteq> i" for k
    using eff others_same_other_doc [OF _ that] by (auto simp: run_effect_def synced_def)
  have "alive ?t k" if "k \<noteq> i" "k \<notin> H \<union> hit" for k
  proof (rule alive_transfer [OF doc [OF that(1)]])
    show "alive s k" using inv that(2) by (simp add: sys_inv_def)
    show "m' \<in> set (broker ?t)" if "m' \<in> set (broker s)" "tm_call m' = Stage_call st' k" for m' st'
      using that \<open>k \<noteq> i\<close> b m sub by auto
  qed
  with own show "alive ?t k" if "k \<notin> H \<union> hit" for k using that by (cases "k = i") auto
qed

lemma purge_inv:
  assumes b: "broker s = xs @ m # ys" and m: "tm_call m = Purge_call pre" and inv: "sys_inv H s"
  shows "sys_inv H (snd (purge_document cfg env pre r n (s\<lparr>broker := xs @ ys\<rparr>)))" (is "sys_inv H ?t")
proof -
  have pc: "pending s = committed s" using inv by (simp add: sys_inv_def wf_sys_def)
  have "committed ?t = committed s \<and> pending ?t = pending s \<and> set (xs @ ys) \<subseteq> set (broker ?t)"
    by (auto simp: purge_document_def try_with_def bnd_def reach_def guard_fault_def fs_delete_prefix_def look_def
        throw_def ret_def change_def enqueue_def split: option.splits sum.splits exn.splits)
  with pc b m show ?thesis by (intro sys_inv_same [OF inv]) auto
qed

lemma delete_inv:
  assumes inv: "sys_inv H s"
  shows "sys_inv H (snd (in_session (delete_document env ctx i) s))"
proof (cases "doc_get_owned (committed s) (ctx_user_id ctx) i")
  case None
  have pc: "pending s = committed s" and id: "s\<lparr>pending := committed s\<rparr> = s"
    using inv wf_sync by (auto simp: sys_inv_def)
  have "delete_document env ctx i s = (Inl (App DocumentNotFound), s)"
    using foreign_document_hidden [of s ctx i env] None pc by simp
  then show ?thesis using inv by (simp add: in_session_def id)
next
  case (Some d)
  let ?t = "snd (in_session (delete_document env ctx i) s)"
  have w: "wf_sys s" using inv by (simp add: sys_inv_def)
  note del = delete_cascades [OF w Some refl, of env]
  have sess: "pending ?t = committed ?t" by (simp add: in_session_def split: prod.split)
  have doc: "doc_by_id (committed ?t) k = (if k = i then None else doc_by_id (committed s) k)" for k
  proof (cases "k = i")
    case False
    have "find (\<lambda>d. d_id d = k) (filter (\<lambda>d. d_id d \<noteq> i) ds) = find (\<lambda>d. d_id d = k) ds" for ds
      using False by (induction ds) auto
    with False del show ?thesis by (simp add: doc_by_id_def)
  qed (use del in simp)
  show ?thesis
  proof
    show "wf_sys ?t" using w del sess by (simp add: wf_sys_def docs_keyed_def distinct_map_filter)
    show "ready_embedded ?t"
      using inv doc del
      by (auto simp: ready_embedded_def status_of_def sys_inv_def chunk_count_unembedded_def filter_empty_conv
          split: if_splits)
    show "alive ?t k" if "k \<notin> H" for k
    proof (cases "k = i")
      case False
      then show ?thesis using inv doc del that by (intro alive_transfer [of ?t k s]) (auto simp: sys_inv_def)
    qed (simp add: alive_def doc)
  qed
qed

lemma retry_inv:
  assumes inv: "sys_inv H s"
  shows "sys_inv H (snd (in_session (retry_document env ctx i) s))"
proof -
  have w: "wf_sys s" using inv by (simp add: sys_inv_def)
  have pc: "pending s = committed s" and id: "s\<lparr>pending := committed s\<rparr> = s" using wf_sync [OF w] by simp_all
  consider "doc_get_owned (committed s) (ctx_user_id ctx) i = None"
    | d where "doc_get_owned (committed s) (ctx_user_id ctx) i = Some d" "d_status d \<noteq> St_failed"
    | d where "doc_get_owned (committed s) (ctx_user_id ctx) i = Some d" "d_status d = St_failed" by blast
  then show ?thesis
  proof cases
    case 1
    have "retry_document env ctx i s = (Inl (App DocumentNotFound), s)"
      using foreign_document_hidden [of s ctx i env] 1 pc by simp
    then show ?thesis using inv by (simp add: in_session_def id)
  next
    case 2
    then have "retry_document env ctx i s = (Inl (App DocumentNotRetryable), s)"
      by (simp add: retry_document_def get_document_def bnd_def query_def look_def ret_def throw_def pc)
    then show ?thesis using inv by (simp add: in_session_def id)
  next
    case 3
    from retry_started [OF w 3 refl refl] show ?thesis by (blast intro: started_inv [OF inv])
  qed
qed

lemma upload_inv:
  assumes inv: "sys_inv H s" and r: "no_race env"
  shows "sys_inv H (snd (upload_document dc env mb ctx filename content_type file_data source_id s))"
proof -
  have w: "wf_sys s" using inv by (simp add: sys_inv_def)
  have pc: "pending s = committed s" and id: "s\<lparr>pending := committed s\<rparr> = s" using wf_sync [OF w] by simp_all
  let ?I = "\<lambda>_ t. sys_inv H (t\<lparr>pending := committed t\<rparr>)"
  have I: "sys_inv H t \<Longrightarrow> ?I () t" for t by (rule sys_inv_same) auto
  have "wp (upload dc env ctx name content_type data source_id) ?I ?I s" for name data
  proof (cases "canonical_mime (dc_lower dc) (take 255 (posix_name (replace1 92 [47] name))) content_type")
    case (Inl e)
    then show ?thesis using inv by (simp add: upload_def Let_def wp_simps id)
  next
    case (Inr mime)
    show ?thesis
    proof (cases "check_magic mime data")
      case (Some e)
      with Inr inv show ?thesis by (simp add: upload_def Let_def wp_simps id)
    next
      case None
      show ?thesis
      proof (cases "doc_get_by_checksum (committed s) (ctx_user_id ctx) (dc_sha256 dc data)")
        case new: None
        have "wp (in_session (upload dc env ctx name content_type data source_id))
            (\<lambda>_. sys_inv H) (\<lambda>_. sys_inv H) s"
          using upload_created [OF w r Inr None new, of source_id]
          by (auto simp: wp_def intro: stored_only_inv [OF inv] created_inv [OF inv] split: prod.splits sum.splits)
        then show ?thesis by (simp add: wp_in_session id)
      next
        case (Some d)
        have "wp (reset_if_failed env d) ?I ?I s"
          by (rule wp_reset_if_failed [of "d_id d"])
            (use wf_sync [OF w] checksum_doc [OF w Some] inv I started_inv [OF inv] in auto)
        with Inr None Some pc show ?thesis
          by (simp add: upload_def Let_def wp_simps wp_reload_fun wp_fun)
      qed
    qed
  qed
  then have "wp (in_session (bnd (upload dc env ctx name content_type data source_id) (\<lambda>(d, dedup).
      ret (if dedup then 200 else 202 :: nat, d, dedup)))) (\<lambda>_. sys_inv H) (\<lambda>_. sys_inv H) s" for name data
    by (simp add: wp_simps id split_beta wp_fun)
  then show ?thesis
    using inv by (auto simp: upload_document_def wp_ends throw_def split: sum.split)
qed

section \<open>The invariant\<close>

lemma step_inv: "sys_step cfg dc s hit t \<Longrightarrow> 0 < cfg_batch_size cfg \<Longrightarrow> sys_inv H s \<Longrightarrow> sys_inv (H \<union> hit) t"
  by (induction rule: sys_step.induct)
    (simp_all only: Un_empty_right run_inv purge_inv upload_inv retry_inv delete_inv)


section \<open>Witnesses\<close>

definition demo_ctx :: auth_context where
  "demo_ctx = \<lparr>ctx_user_id = 1, ctx_role = R_user, ctx_trace_id = []\<rparr>"

definition demo_dc :: doc_cfg where
  "demo_dc = \<lparr>dc_root = [], dc_lower = (\<lambda>s. s), dc_sha256 = (\<lambda>_. [99])\<rparr>"

definition demo_denv :: "(db \<Rightarrow> db) \<Rightarrow> doc_env" where
  "demo_denv g = \<lparr>u_now = 0, u_doc_id = 8, u_source_id = 3, u_put_fault = None, u_cleanup_fault = None,
     u_enqueue_fault = None, u_race_source = (\<lambda>x. x), u_race_doc = g\<rparr>"

definition empty_sys :: sys where
  "empty_sys =
     (let d = empty_db\<lparr>users := [\<lparr>u_id = 1, u_email = [97], u_password_hash = [], u_role = R_user, u_is_active = True,
        u_created_at = 0, u_updated_at = 0\<rparr>]\<rparr>
      in \<lparr>committed = d, pending = d, files = Map.empty, broker = []\<rparr>)"

abbreviation demo_name :: ustr where "demo_name \<equiv> lit ''a.txt''"

lemma demo_owned: "doc_get_owned (committed (demo_sys st)) (ctx_user_id demo_ctx) 7 = Some (demo_doc st)"
  by (simp add: doc_get_owned_def demo_sys_def Let_def demo_doc_def demo_ctx_def)

lemma demo_fields [simp]: "d_status (demo_doc st) = st" "d_checksum (demo_doc st) = [99]" "d_uploaded_by (demo_doc st) = 1"
  "ctx_user_id demo_ctx = 1"
  by (simp_all add: demo_doc_def demo_ctx_def)

lemma demo_mime:
  "canonical_mime (dc_lower demo_dc) (take 255 (posix_name (replace1 92 [47] demo_name))) None = Inr (lit ''text/plain'')"
  "check_magic (lit ''text/plain'') [65] = None"
  by code_simp+

lemma empty_sys_simps [simp]: "pending empty_sys = committed empty_sys" "documents (committed empty_sys) = []"
  "document_chunks (committed empty_sys) = []" "broker empty_sys = []" "files empty_sys = Map.empty"
  by (simp_all add: empty_sys_def empty_db_def Let_def)

lemma empty_wf: "wf_sys empty_sys"
  by (simp add: wf_sys_def docs_keyed_def)

theorem foreign_document_hidden_witness:
  "get_document demo_ctx 7 empty_sys = (Inl (App DocumentNotFound), empty_sys)"
proof -
  have "doc_get_owned (pending empty_sys) (ctx_user_id demo_ctx) 7 = None"
    by (simp add: doc_get_owned_def)
  then show ?thesis by (rule foreign_document_hidden [THEN conjunct1])
qed

theorem retry_resumes_failed_stage_witness:
  "alive (snd (in_session (retry_document (demo_denv (\<lambda>x. x)) demo_ctx 7) (demo_sys St_failed))) 7"
  by (rule retry_resumes_failed_stage [OF demo_wf demo_owned _ refl refl, THEN conjunct2]) simp

theorem upload_deduplicates_witness:
  "in_session (upload demo_dc (demo_denv (\<lambda>x. x)) demo_ctx demo_name None [65] None) (demo_sys St_ready)
     = (Inr (demo_doc St_ready, True), demo_sys St_ready)"
proof -
  have "doc_get_by_checksum (committed (demo_sys St_ready)) (ctx_user_id demo_ctx) (dc_sha256 demo_dc [65])
      = Some (demo_doc St_ready)"
    by (simp add: doc_get_by_checksum_def demo_sys_def Let_def demo_dc_def)
  then show ?thesis by (rule upload_deduplicates [OF demo_wf demo_mime]) simp
qed

abbreviation demo_new :: document where
  "demo_new \<equiv> new_document demo_dc (demo_denv (\<lambda>x. x)) demo_ctx 3 (take 255 (posix_name (replace1 92 [47] demo_name))) (lit ''text/plain'') [65]"

lemma demo_new_doc: "u_enqueue_fault (demo_denv g) = None" "d_id demo_new = 8" "d_status demo_new = St_pending" "doc_key (d_storage_key demo_new)"
proof -
  have suffix: "posix_suffix (take 255 (posix_name (replace1 92 [47] demo_name))) = lit ''.txt''" by code_simp
  have "doc_key (storage_prefix 8 @ lit ''original.txt'')"
    unfolding doc_key_def by (intro exI [of _ 8] exI [of _ "lit ''original.txt''"]) simp
  then show "doc_key (d_storage_key demo_new)" by (simp add: new_document_def suffix [simplified] demo_dc_def demo_denv_def)
qed (simp_all add: new_document_def demo_denv_def)

lemma demo_upload_ok: "no_race (demo_denv (\<lambda>x. x))" "u_put_fault (demo_denv (\<lambda>x. x)) = None"
  "doc_get_by_checksum (committed empty_sys) (ctx_user_id demo_ctx) (dc_sha256 demo_dc [65]) = None"
  "doc_by_id (committed empty_sys) (u_doc_id (demo_denv (\<lambda>x. x))) = None"
  "\<exists>u \<in> set (users (committed empty_sys)). u_id u = ctx_user_id demo_ctx"
  "usable_source (demo_denv (\<lambda>x. x)) demo_ctx None (committed empty_sys) 3"
  by (simp_all add: no_race_def demo_denv_def doc_get_by_checksum_def doc_by_id_def usable_source_def source_get_default_def empty_sys_def
      empty_db_def Let_def)


theorem lost_race_cleans_up_witness:
  "let g = (\<lambda>s. s\<lparr>documents := [demo_doc St_ready]\<rparr>); d = new_document demo_dc (demo_denv g) demo_ctx 2 demo_name (lit ''text/plain'') [65]
   in fst (store_new demo_dc (demo_denv g) demo_ctx d [65] empty_sys) = Inr (demo_doc St_ready, True)"
proof -
  let ?g = "\<lambda>s. s\<lparr>documents := [demo_doc St_ready]\<rparr>"
  let ?d = "new_document demo_dc (demo_denv ?g) demo_ctx 2 demo_name (lit ''text/plain'') [65]"
  have suffix: "posix_suffix demo_name = lit ''.txt''" by code_simp
  have "\<exists>t. store_new demo_dc (demo_denv ?g) demo_ctx ?d [65] empty_sys = (Inr (demo_doc St_ready, True), t)
     \<and> committed t = u_race_doc (demo_denv ?g) (committed empty_sys) \<and> broker t = broker empty_sys
     \<and> storage_get (dc_root demo_dc) (d_storage_key ?d) (files t) = Inl NotFound
     \<and> (\<forall>key. doc_key key \<longrightarrow> \<not> under_prefix (storage_prefix (d_id ?d)) key
          \<longrightarrow> storage_get (dc_root demo_dc) key (files t) = storage_get (dc_root demo_dc) key (files empty_sys))"
    by (rule lost_race_cleans_up [where name = "lit ''original.txt''"])
      (simp_all add: demo_denv_def docs_keyed_def new_document_def suffix [simplified] demo_dc_def
        doc_get_by_checksum_def)
  then show ?thesis by (auto simp: Let_def)
qed

theorem delete_cascades_witness:
  "let t = snd (in_session (delete_document (demo_denv (\<lambda>x. x)) demo_ctx 7) (demo_sys St_ready))
   in doc_by_id (committed t) 7 = None \<and> files t = files (demo_sys St_ready)"
  using delete_cascades [OF demo_wf demo_owned refl, of "demo_denv (\<lambda>x. x)"] by (simp add: Let_def)

lemma demo_uploaded:
  "\<exists>t. upload_document demo_dc (demo_denv (\<lambda>x. x)) 1 demo_ctx (Some demo_name) None [65] None empty_sys = (Inr (202, demo_new, False), t)
     \<and> broker t = [start_message Parse 8]"
proof -
  obtain f where f: "storage_put (dc_root demo_dc) (d_storage_key demo_new) [65] (files empty_sys) = Inr f"
    using local_fs.put_total [OF demo_new_doc(4)] by blast
  from upload_run [OF empty_wf demo_upload_ok(1,2) demo_mime demo_upload_ok(3-6) refl f refl] obtain t where
    t: "in_session (upload demo_dc (demo_denv (\<lambda>x. x)) demo_ctx demo_name None [65] None) empty_sys = (Inr (demo_new, False), t)"
      "broker t = [start_message Parse 8]"
    using demo_new_doc by auto
  have extend: "in_session (bnd m (\<lambda>(d, dedup). ret (g dedup, d, dedup))) s = (Inr (g b, d, b), u)"
    if "in_session m s = (Inr (d, b), u)" for m :: "(sys, document \<times> bool) eff" and g :: "bool \<Rightarrow> nat" and d b s u
    using that by (auto simp: in_session_def bnd_def ret_def split: prod.splits sum.splits)
  have "read_within_limit [65] (1 * 1024 * 1024) = Inr [65]" by (simp add: read_within_limit_spec)
  then have "upload_document demo_dc (demo_denv (\<lambda>x. x)) 1 demo_ctx (Some demo_name) None [65] None
      = in_session (bnd (upload demo_dc (demo_denv (\<lambda>x. x)) demo_ctx demo_name None [65] None)
          (\<lambda>(d, dedup). ret (if dedup then 200 else 202, d, dedup)))"
    by (simp add: upload_document_def)
  with extend [OF t(1), of "\<lambda>dedup. if dedup then 200 else 202"] t(2) show ?thesis by simp
qed


theorem document_pages_enumerate_witness:
  "\<exists>pages. walk demo_codec (\<lambda>limit c. doc_list_page (committed (demo_sys St_ready)) 1 limit c None) doc_key_of 5 2 None
       = Some pages
     \<and> concat pages = newest_first doc_key_of (user_documents (committed (demo_sys St_ready)) 1 None)"
proof -
  have d: "documents (committed (demo_sys St_ready)) = [demo_doc St_ready]" by (simp add: demo_sys_def Let_def)
  then have "id_range (committed (demo_sys St_ready))" "docs_keyed (committed (demo_sys St_ready))"
    by (simp_all add: id_range_def docs_keyed_def demo_doc_def)
  from document_pages_enumerate [OF demo_codec_ok _ this(2,1), of 5 1 None 2] d show ?thesis
    by (auto simp: user_documents_def)
qed

end
