(* ===== verification/Auth.thy ===== *)
theory Auth
  imports Document_Service
begin

text \<open>
  Accounts: \<^verbatim>\<open>application/auth_service.py\<close>, \<^verbatim>\<open>core/security.py\<close>, the user and refresh token repositories,
  the endpoints of \<^verbatim>\<open>api/routers/auth.py\<close> and \<^verbatim>\<open>me.py\<close> and the dependency \<^verbatim>\<open>get_auth\<close>. Argon2, JWT, SHA-256
  and \<^verbatim>\<open>str.lower\<close> are parameters in \<open>auth_cfg\<close>; \<open>auth_env\<close> has what a request draws from outside: clocks,
  new ids, random tokens, and another request's commit between reading a token and rotating it.
\<close>

section \<open>Primitives\<close>

record jwt_claims =
  cl_sub :: ustr
  cl_role :: user_role
  cl_iat :: time
  cl_exp :: time
  cl_jti :: uuid

record auth_cfg =
  ac_lower :: "ustr \<Rightarrow> ustr"
  ac_pw_hash :: "nat \<Rightarrow> ustr \<Rightarrow> ustr" \<comment> \<open>salt and password\<close>
  ac_pw_verify :: "ustr \<Rightarrow> ustr \<Rightarrow> bool"
  ac_needs_rehash :: "ustr \<Rightarrow> bool"
  ac_sha256 :: "ustr \<Rightarrow> ustr"
  ac_jwt_encode :: "ustr \<Rightarrow> jwt_claims \<Rightarrow> ustr"
  ac_jwt_decode :: "ustr \<Rightarrow> int \<Rightarrow> time \<Rightarrow> ustr \<Rightarrow> jwt_claims option" \<comment> \<open>secret, leeway, clock, token\<close>
  ac_of_uuid :: "ustr \<Rightarrow> uuid option"
  ac_jwt_secret :: ustr
  ac_access_ttl_min :: int
  ac_refresh_ttl_days :: int
  ac_cookie_secure :: bool

record auth_env =
  au_now :: time
  au_jwt_now :: time
  au_user_id :: uuid
  au_family_id :: uuid
  au_token_id :: uuid
  au_jti :: uuid
  au_plain :: ustr
  au_salt :: nat
  au_race :: "db \<Rightarrow> db"

definition seconds :: "int \<Rightarrow> time" where "seconds n = n * 1000000"
definition minutes :: "int \<Rightarrow> time" where "minutes n = seconds (n * 60)"
definition days :: "int \<Rightarrow> time" where "days n = seconds (n * 86400)"

definition JWT_LEEWAY_S :: int where "JWT_LEEWAY_S = 10"

definition verify_password :: "auth_cfg \<Rightarrow> nat \<Rightarrow> ustr \<Rightarrow> ustr \<Rightarrow> bool \<times> ustr option" where
  "verify_password cfg salt password_hash password =
     (if \<not> ac_pw_verify cfg password_hash password then (False, None)
      else if ac_needs_rehash cfg password_hash then (True, Some (ac_pw_hash cfg salt password))
      else (True, None))"

definition create_access_token :: "auth_cfg \<Rightarrow> auth_env \<Rightarrow> ustr \<Rightarrow> user_role \<Rightarrow> ustr" where
  "create_access_token cfg env user_id role =
     ac_jwt_encode cfg (ac_jwt_secret cfg)
       \<lparr>cl_sub = user_id, cl_role = role, cl_iat = au_jwt_now env,
        cl_exp = au_jwt_now env + minutes (ac_access_ttl_min cfg), cl_jti = au_jti env\<rparr>"

definition decode_access_token :: "auth_cfg \<Rightarrow> time \<Rightarrow> ustr \<Rightarrow> app_error + jwt_claims" where
  "decode_access_token cfg now token =
     (case ac_jwt_decode cfg (ac_jwt_secret cfg) JWT_LEEWAY_S now token of
        None \<Rightarrow> Inl InvalidToken
      | Some payload \<Rightarrow> Inr payload)"

section \<open>UserRepository and RefreshTokenRepository\<close>

definition data_error :: exn where
  \<comment> \<open>a value longer than its \<^verbatim>\<open>varchar\<close> column\<close>
  "data_error = SQLAlchemyError (lit ''DataError'')"

definition user_get_by_email :: "db \<Rightarrow> ustr \<Rightarrow> user option" where
  "user_get_by_email s email = find (\<lambda>u. u_email u = email) (users s)"

definition user_by_id :: "db \<Rightarrow> uuid \<Rightarrow> user option" where
  "user_by_id s i = find (\<lambda>u. u_id u = i) (users s)"

definition new_user :: "uuid \<Rightarrow> ustr \<Rightarrow> ustr \<Rightarrow> time \<Rightarrow> user" where
  \<comment> \<open>the server defaults: role \<^verbatim>\<open>user\<close>, active\<close>
  "new_user i email password_hash now =
     \<lparr>u_id = i, u_email = email, u_password_hash = password_hash, u_role = R_user, u_is_active = True,
      u_created_at = now, u_updated_at = now\<rparr>"

definition user_create :: "user \<Rightarrow> db \<Rightarrow> exn + db" where
  "user_create u s =
     (if length (u_email u) > 255 \<or> length (u_password_hash u) > 255 then Inl data_error
      else if \<exists>v \<in> set (users s). u_id v = u_id u \<or> u_email v = u_email u then Inl IntegrityError
      else Inr (s\<lparr>users := users s @ [u]\<rparr>))"

definition user_set_hash :: "uuid \<Rightarrow> ustr \<Rightarrow> time \<Rightarrow> db \<Rightarrow> exn + db" where
  "user_set_hash i h now s =
     (if length h > 255 then Inl data_error
      else Inr (s\<lparr>users := update_where (\<lambda>u. u_id u = i) (\<lambda>u. u\<lparr>u_password_hash := h, u_updated_at := now\<rparr>)
             (users s)\<rparr>))"

definition token_create :: "refresh_token \<Rightarrow> db \<Rightarrow> exn + db" where
  "token_create t s =
     (if length (rt_token_hash t) > 64 \<or> (case rt_user_agent t of None \<Rightarrow> False | Some a \<Rightarrow> length a > 255)
      then Inl data_error
      else if (\<exists>r \<in> set (refresh_tokens s). rt_id r = rt_id t \<or> rt_token_hash r = rt_token_hash t)
         \<or> \<not> (\<exists>u \<in> set (users s). u_id u = rt_user_id t)
      then Inl IntegrityError
      else Inr (s\<lparr>refresh_tokens := refresh_tokens s @ [t]\<rparr>))"

definition token_get_by_hash :: "db \<Rightarrow> ustr \<Rightarrow> refresh_token option" where
  "token_get_by_hash s h = find (\<lambda>t. rt_token_hash t = h) (refresh_tokens s)"

definition revoke_family :: "uuid \<Rightarrow> time \<Rightarrow> db \<Rightarrow> db" where
  "revoke_family family now s =
     s\<lparr>refresh_tokens := update_where (\<lambda>t. rt_family_id t = family \<and> rt_revoked_at t = None)
         (\<lambda>t. t\<lparr>rt_revoked_at := Some now\<rparr>) (refresh_tokens s)\<rparr>"

definition rotate_out :: "uuid \<Rightarrow> uuid \<Rightarrow> time \<Rightarrow> db \<Rightarrow> db" where
  \<comment> \<open>\<^verbatim>\<open>row.revoked_at = now; row.replaced_by = new_row_id\<close>\<close>
  "rotate_out i new_row_id now s =
     s\<lparr>refresh_tokens := update_where (\<lambda>t. rt_id t = i)
         (\<lambda>t. t\<lparr>rt_revoked_at := Some now, rt_replaced_by := Some new_row_id\<rparr>) (refresh_tokens s)\<rparr>"

section \<open>AuthService\<close>

definition ROTATION_GRACE :: time where "ROTATION_GRACE = seconds 60"

record issued_tokens =
  is_user :: user
  is_access_token :: ustr
  is_refresh_token :: ustr
  is_expires_in :: int

definition normalize_email :: "auth_cfg \<Rightarrow> ustr \<Rightarrow> ustr" where
  "normalize_email cfg email = ac_lower cfg (py_strip email)"

definition register :: "auth_cfg \<Rightarrow> auth_env \<Rightarrow> ustr \<Rightarrow> ustr \<Rightarrow> (sys, user) eff" where
  "register cfg env email password =
     (let email = normalize_email cfg email;
          user = new_user (au_user_id env) email (ac_pw_hash cfg (au_salt env) password) (au_now env)
      in bnd (query (\<lambda>s. user_get_by_email s email)) (\<lambda>existing.
         if existing \<noteq> None then throw (App EmailAlreadyRegistered)
         else bnd (race (au_race env)) (\<lambda>_.
              try_with
                (bnd (stmt_exn (user_create user)) (\<lambda>_. bnd commit (\<lambda>_. ret user)))
                (\<lambda>e. if e = IntegrityError then bnd rollback (\<lambda>_. throw (App EmailAlreadyRegistered))
                     else throw e))))"

definition new_token :: "auth_cfg \<Rightarrow> auth_env \<Rightarrow> user \<Rightarrow> uuid \<Rightarrow> ustr option \<Rightarrow> refresh_token" where
  "new_token cfg env user family_id user_agent =
     \<lparr>rt_id = au_token_id env, rt_user_id = u_id user, rt_family_id = family_id,
      rt_token_hash = ac_sha256 cfg (au_plain env),
      rt_expires_at = au_now env + days (ac_refresh_ttl_days cfg), rt_revoked_at = None,
      rt_replaced_by = None, rt_user_agent = user_agent, rt_created_at = au_now env\<rparr>"

definition issue :: "auth_cfg \<Rightarrow> auth_env \<Rightarrow> user \<Rightarrow> uuid \<Rightarrow> ustr option \<Rightarrow> (sys, issued_tokens \<times> uuid) eff" where
  "issue cfg env user family_id user_agent =
     bnd (stmt_exn (token_create (new_token cfg env user family_id user_agent))) (\<lambda>_.
     ret (\<lparr>is_user = user,
           is_access_token = create_access_token cfg env (uuid_str (u_id user)) (u_role user),
           is_refresh_token = au_plain env,
           is_expires_in = ac_access_ttl_min cfg * 60\<rparr>, au_token_id env))"

definition login :: "auth_cfg \<Rightarrow> auth_env \<Rightarrow> ustr \<Rightarrow> ustr \<Rightarrow> ustr option \<Rightarrow> (sys, issued_tokens) eff" where
  "login cfg env email password user_agent =
     bnd (query (\<lambda>s. user_get_by_email s (normalize_email cfg email))) (\<lambda>found.
     case found of
       None \<Rightarrow> throw (App InvalidCredentials)
     | Some user \<Rightarrow>
         (let (ok, new_hash) = verify_password cfg (au_salt env) (u_password_hash user) password
          in if \<not> ok then throw (App InvalidCredentials)
             else if \<not> u_is_active user then throw (App UserInactive)
             else bnd (case new_hash of
                    None \<Rightarrow> ret user
                  | Some h \<Rightarrow> bnd (stmt_exn (user_set_hash (u_id user) h (au_now env))) (\<lambda>_.
                              ret (user\<lparr>u_password_hash := h\<rparr>))) (\<lambda>user.
                  bnd (issue cfg env user (au_family_id env) user_agent) (\<lambda>(issued, _).
                  bnd commit (\<lambda>_. ret issued)))))"

definition refresh :: "auth_cfg \<Rightarrow> auth_env \<Rightarrow> ustr \<Rightarrow> ustr option \<Rightarrow> (sys, issued_tokens) eff" where
  "refresh cfg env token user_agent =
     bnd (query (\<lambda>s. token_get_by_hash s (ac_sha256 cfg token))) (\<lambda>found.
     case found of
       None \<Rightarrow> throw (App InvalidRefreshToken)
     | Some row \<Rightarrow>
         if rt_expires_at row < au_now env then throw (App InvalidRefreshToken)
         else
           (case rt_revoked_at row of
              Some revoked_at \<Rightarrow>
                if rt_replaced_by row \<noteq> None \<and> au_now env - revoked_at \<le> ROTATION_GRACE
                then throw (App InvalidRefreshToken)
                else bnd (stmt (revoke_family (rt_family_id row) (au_now env))) (\<lambda>_.
                     bnd commit (\<lambda>_. throw (App InvalidRefreshToken)))
            | None \<Rightarrow>
                bnd (query (\<lambda>s. user_by_id s (rt_user_id row))) (\<lambda>found_user.
                case found_user of
                  None \<Rightarrow> throw (App InvalidRefreshToken)
                | Some user \<Rightarrow>
                    if \<not> u_is_active user then throw (App InvalidRefreshToken)
                    else bnd (race (au_race env)) (\<lambda>_.
                         bnd (issue cfg env user (rt_family_id row) user_agent) (\<lambda>(issued, new_row_id).
                         bnd (stmt (rotate_out (rt_id row) new_row_id (au_now env))) (\<lambda>_.
                         bnd commit (\<lambda>_. ret issued)))))))"

definition logout :: "auth_cfg \<Rightarrow> auth_env \<Rightarrow> ustr option \<Rightarrow> (sys, unit) eff" where
  "logout cfg env token =
     bnd (case token of
            None \<Rightarrow> ret ()
          | Some t \<Rightarrow>
              if t = [] then ret ()
              else bnd (query (\<lambda>s. token_get_by_hash s (ac_sha256 cfg t))) (\<lambda>found.
                   case found of None \<Rightarrow> ret ()
                   | Some row \<Rightarrow> stmt (revoke_family (rt_family_id row) (au_now env)))) (\<lambda>_.
     commit)"

section \<open>Endpoints\<close>

record user_out =
  uo_id :: uuid
  uo_email :: ustr
  uo_role :: user_role
  uo_created_at :: time

definition user_out_of :: "user \<Rightarrow> user_out" where
  "user_out_of u = \<lparr>uo_id = u_id u, uo_email = u_email u, uo_role = u_role u, uo_created_at = u_created_at u\<rparr>"

record token_response =
  tr_access_token :: ustr
  tr_expires_in :: int
  tr_user :: user_out

record cookie =
  co_key :: ustr
  co_value :: ustr
  co_max_age :: int
  co_httponly :: bool
  co_samesite :: ustr
  co_secure :: bool
  co_path :: ustr

definition REFRESH_COOKIE :: ustr where "REFRESH_COOKIE = lit ''rt''"
definition REFRESH_PATH :: ustr where "REFRESH_PATH = lit ''/api/auth''"

definition set_refresh_cookie :: "auth_cfg \<Rightarrow> ustr \<Rightarrow> cookie" where
  "set_refresh_cookie cfg token =
     \<lparr>co_key = REFRESH_COOKIE, co_value = token, co_max_age = ac_refresh_ttl_days cfg * 86400, co_httponly = True,
      co_samesite = lit ''lax'', co_secure = ac_cookie_secure cfg, co_path = REFRESH_PATH\<rparr>"

definition token_response_of :: "issued_tokens \<Rightarrow> token_response" where
  "token_response_of issued =
     \<lparr>tr_access_token = is_access_token issued, tr_expires_in = is_expires_in issued,
      tr_user = user_out_of (is_user issued)\<rparr>"

text \<open>\<^verbatim>\<open>RegisterRequest\<close> and \<^verbatim>\<open>LoginRequest\<close>; the syntax of an address is \<^verbatim>\<open>email-validator\<close>'s.\<close>

definition credentials_ok :: "(ustr \<Rightarrow> bool) \<Rightarrow> ustr \<Rightarrow> ustr \<Rightarrow> bool" where
  "credentials_ok is_email email password \<longleftrightarrow>
     is_email email \<and> length email \<le> 254 \<and> 8 \<le> length password \<and> length password \<le> 128"

definition register_endpoint :: "auth_cfg \<Rightarrow> auth_env \<Rightarrow> (ustr \<Rightarrow> bool) \<Rightarrow> ustr \<Rightarrow> ustr \<Rightarrow> (sys, nat \<times> user_out) eff" where
  "register_endpoint cfg env is_email email password =
     (if \<not> credentials_ok is_email email password then throw (App (ValidationError None))
      else in_session (bnd (register cfg env email password) (\<lambda>user. ret (201, user_out_of user))))"

definition login_endpoint :: "auth_cfg \<Rightarrow> auth_env \<Rightarrow> (ustr \<Rightarrow> bool) \<Rightarrow> ustr \<Rightarrow> ustr \<Rightarrow> ustr option
    \<Rightarrow> (sys, nat \<times> token_response \<times> cookie) eff" where
  "login_endpoint cfg env is_email email password user_agent =
     (if \<not> credentials_ok is_email email password then throw (App (ValidationError None))
      else in_session (bnd (login cfg env email password user_agent) (\<lambda>issued.
        ret (200, token_response_of issued, set_refresh_cookie cfg (is_refresh_token issued)))))"

definition refresh_endpoint :: "auth_cfg \<Rightarrow> auth_env \<Rightarrow> ustr option \<Rightarrow> ustr option
    \<Rightarrow> (sys, nat \<times> token_response \<times> cookie) eff" where
  "refresh_endpoint cfg env rt_cookie user_agent =
     (case rt_cookie of
        None \<Rightarrow> throw (App InvalidRefreshToken)
      | Some token \<Rightarrow>
          if token = [] then throw (App InvalidRefreshToken)
          else in_session (bnd (refresh cfg env token user_agent) (\<lambda>issued.
            ret (200, token_response_of issued, set_refresh_cookie cfg (is_refresh_token issued)))))"

definition logout_endpoint :: "auth_cfg \<Rightarrow> auth_env \<Rightarrow> ustr option \<Rightarrow> (sys, nat \<times> ustr \<times> ustr) eff" where
  \<comment> \<open>status, and key and path of the deleted cookie\<close>
  "logout_endpoint cfg env rt_cookie =
     in_session (bnd (logout cfg env rt_cookie) (\<lambda>_. ret (204, REFRESH_COOKIE, REFRESH_PATH)))"

definition get_auth :: "auth_cfg \<Rightarrow> time \<Rightarrow> ustr \<Rightarrow> ustr option \<Rightarrow> exn + auth_context" where
  "get_auth cfg now request_id creds =
     (case creds of
        None \<Rightarrow> Inl (App InvalidToken)
      | Some token \<Rightarrow>
          (case decode_access_token cfg now token of
             Inl e \<Rightarrow> Inl (App e)
           | Inr payload \<Rightarrow>
               (case ac_of_uuid cfg (cl_sub payload) of
                  None \<Rightarrow> Inl (PyError (lit ''ValueError'') (lit ''badly formed hexadecimal UUID string''))
                | Some i \<Rightarrow> Inr \<lparr>ctx_user_id = i, ctx_role = cl_role payload, ctx_trace_id = request_id\<rparr>)))"

definition me :: "auth_context \<Rightarrow> (sys, user_out) eff" where
  "me ctx =
     bnd (query (\<lambda>s. user_by_id s (ctx_user_id ctx))) (\<lambda>found.
     case found of None \<Rightarrow> throw (App InvalidToken) | Some user \<Rightarrow> ret (user_out_of user))"

end
