(* ===== verification/Auth_Correct.thy ===== *)
theory Auth_Correct
  imports Auth System
begin

text \<open>
  Refresh token families: the rotation keeps at most one live token per family, a replay outside the
  grace window kills the family for good, a replay inside it changes nothing. Two requests that rotate the same token at the
  same time both succeed and fork the family. Access tokens identify their user until they expire;
  a login discloses nothing about an account without its password.
\<close>

section \<open>Families\<close>

definition live :: "refresh_token \<Rightarrow> bool" where "live t \<longleftrightarrow> rt_revoked_at t = None"

definition live_in :: "uuid \<Rightarrow> db \<Rightarrow> refresh_token list" where
  "live_in fam s = filter (\<lambda>t. rt_family_id t = fam \<and> live t) (refresh_tokens s)"

definition tokens_ok :: "db \<Rightarrow> bool" where
  "tokens_ok s \<longleftrightarrow>
     distinct (map rt_id (refresh_tokens s)) \<and> distinct (map rt_token_hash (refresh_tokens s))
     \<and> (\<forall>fam. length (live_in fam s) \<le> 1)
     \<and> (\<forall>t \<in> set (refresh_tokens s). rt_replaced_by t \<noteq> None \<longrightarrow> \<not> live t)"

definition family_dead :: "uuid \<Rightarrow> db \<Rightarrow> bool" where
  "family_dead fam s \<longleftrightarrow> (\<exists>t \<in> set (refresh_tokens s). rt_family_id t = fam) \<and> live_in fam s = []"

lemma live_in_append: "refresh_tokens s' = refresh_tokens s @ [t]
    \<Longrightarrow> live_in fam s' = live_in fam s @ (if rt_family_id t = fam \<and> live t then [t] else [])"
  by (simp add: live_in_def)

lemma token_get_by_hashD:
  "token_get_by_hash s h = Some t \<Longrightarrow> t \<in> set (refresh_tokens s) \<and> rt_token_hash t = h"
  by (auto simp: token_get_by_hash_def dest: find_SomeD)

lemma live_in_revoke: "live_in fam (revoke_family g now s) = (if fam = g then [] else live_in fam s)"
proof -
  have "filter (\<lambda>t. rt_family_id t = fam \<and> live t) (update_where (\<lambda>t. rt_family_id t = g \<and> rt_revoked_at t = None)
         (\<lambda>t. t\<lparr>rt_revoked_at := Some now\<rparr>) ts)
     = (if fam = g then [] else filter (\<lambda>t. rt_family_id t = fam \<and> live t) ts)" for ts
    by (induction ts) (auto simp: update_where_def live_def)
  then show ?thesis by (simp add: live_in_def revoke_family_def)
qed

lemma live_in_rotate: "live_in fam (rotate_out i n now s) = filter (\<lambda>t. rt_id t \<noteq> i) (live_in fam s)"
proof -
  have "filter (\<lambda>t. rt_family_id t = fam \<and> live t) (update_where (\<lambda>t. rt_id t = i)
         (\<lambda>t. t\<lparr>rt_revoked_at := Some now, rt_replaced_by := Some n\<rparr>) ts)
     = filter (\<lambda>t. rt_id t \<noteq> i) (filter (\<lambda>t. rt_family_id t = fam \<and> live t) ts)" for ts
    by (induction ts) (auto simp: update_where_def live_def)
  then show ?thesis by (simp add: live_in_def rotate_out_def)
qed

lemma live_row_alone:
  assumes "tokens_ok s" "row \<in> set (refresh_tokens s)" "live row"
  shows "live_in (rt_family_id row) s = [row]"
proof -
  have "row \<in> set (live_in (rt_family_id row) s)" using assms by (simp add: live_in_def)
  moreover have "length (live_in (rt_family_id row) s) \<le> 1" using assms(1) by (simp add: tokens_ok_def)
  ultimately show ?thesis by (cases "live_in (rt_family_id row) s") auto
qed

lemma update_where_maps:
  "map rt_id (refresh_tokens (revoke_family g now s)) = map rt_id (refresh_tokens s)"
  "map rt_token_hash (refresh_tokens (revoke_family g now s)) = map rt_token_hash (refresh_tokens s)"
  "map rt_family_id (refresh_tokens (revoke_family g now s)) = map rt_family_id (refresh_tokens s)"
  "map rt_id (refresh_tokens (rotate_out i n now s)) = map rt_id (refresh_tokens s)"
  "map rt_token_hash (refresh_tokens (rotate_out i n now s)) = map rt_token_hash (refresh_tokens s)"
  "map rt_family_id (refresh_tokens (rotate_out i n now s)) = map rt_family_id (refresh_tokens s)"
  by (simp_all add: revoke_family_def rotate_out_def update_where_def)

lemma family_ex: "(\<exists>t \<in> set (refresh_tokens s). rt_family_id t = fam) \<longleftrightarrow> fam \<in> set (map rt_family_id (refresh_tokens s))"
  by auto

lemma revoke_ok: "tokens_ok s \<Longrightarrow> tokens_ok (revoke_family g now s)"
  unfolding tokens_ok_def update_where_maps live_in_revoke
  by (auto simp: revoke_family_def set_update_where live_def split: if_splits)

lemma revoke_dead: "family_dead fam s \<Longrightarrow> family_dead fam (revoke_family g now s)"
  by (simp add: family_dead_def family_ex update_where_maps live_in_revoke del: set_map)

lemma token_create_ok:
  assumes "token_create t s = Inr s'" "tokens_ok s" "live_in (rt_family_id t) s = []" "rt_replaced_by t = None"
  shows "tokens_ok s'"
proof -
  have s': "refresh_tokens s' = refresh_tokens s @ [t]" and fresh: "\<forall>r \<in> set (refresh_tokens s). rt_id r \<noteq> rt_id t \<and> rt_token_hash r \<noteq> rt_token_hash t"
    using assms(1) by (auto simp: token_create_def split: if_splits option.splits)
  then show ?thesis
    using assms(2-4) unfolding tokens_ok_def live_in_append [OF s'] by (auto simp: s')
qed

lemma token_create_tokens: "token_create t s = Inr s' \<Longrightarrow> refresh_tokens s' = refresh_tokens s @ [t] \<and> users s' = users s"
  by (auto simp: token_create_def split: if_splits option.splits)

lemma issue_rotate_ok:
  assumes s: "tokens_ok s" "row \<in> set (refresh_tokens s)" "live row"
    and t: "token_create t s = Inr s'" "rt_family_id t = rt_family_id row" "rt_replaced_by t = None" "live t"
  shows "tokens_ok (rotate_out (rt_id row) (rt_id t) now s')"
    and "live_in fam (rotate_out (rt_id row) (rt_id t) now s') = (if fam = rt_family_id row then [t] else live_in fam s)"
proof -
  let ?u = "rotate_out (rt_id row) (rt_id t) now s"
  have s': "refresh_tokens s' = refresh_tokens s @ [t]" and fresh: "rt_id t \<notin> rt_id ` set (refresh_tokens s)"
      "rt_token_hash t \<notin> rt_token_hash ` set (refresh_tokens s)"
    using t(1) by (auto simp: token_create_def image_iff split: if_splits option.splits)
  then have rot: "refresh_tokens (rotate_out (rt_id row) (rt_id t) now s') = refresh_tokens ?u @ [t]"
    using s(2) by (auto simp: rotate_out_def update_where_def)
  have "inj_on rt_id (set (refresh_tokens s))" using s(1) by (simp add: tokens_ok_def distinct_map)
  then have row: "rt_id r \<noteq> rt_id row" if "fam \<noteq> rt_family_id row" "r \<in> set (live_in fam s)" for fam r
    using that s(2) by (auto simp: live_in_def dest: inj_onD)
  then show l: "live_in fam (rotate_out (rt_id row) (rt_id t) now s') = (if fam = rt_family_id row then [t] else live_in fam s)"
    for fam
    using live_in_append [OF rot] live_in_rotate [of _ "rt_id row" "rt_id t" now s] live_row_alone [OF s] t(2,4)
    by (auto simp: filter_id_conv)
  have "\<forall>r \<in> set (refresh_tokens ?u). rt_replaced_by r \<noteq> None \<longrightarrow> \<not> live r"
    using s(1) by (auto simp: tokens_ok_def rotate_out_def set_update_where live_def)
  then show "tokens_ok (rotate_out (rt_id row) (rt_id t) now s')"
    using s(1) fresh t(3) unfolding tokens_ok_def l
    by (auto simp: rot update_where_maps simp flip: set_map)
qed

section \<open>Sequences of requests\<close>

definition alone :: "auth_env \<Rightarrow> bool" where "alone env \<longleftrightarrow> au_race env = (\<lambda>s. s)"

inductive auth_step :: "auth_cfg \<Rightarrow> sys \<Rightarrow> sys \<Rightarrow> bool" for cfg where
  Register: "alone env \<Longrightarrow> auth_step cfg s (snd (register_endpoint cfg env is_email email password s))"
| Login: "\<forall>t \<in> set (refresh_tokens (committed s)). rt_family_id t \<noteq> au_family_id env
    \<Longrightarrow> auth_step cfg s (snd (login_endpoint cfg env is_email email password ua s))"
| Refresh: "alone env \<Longrightarrow> auth_step cfg s (snd (refresh_endpoint cfg env rt_cookie ua s))"
| Logout: "auth_step cfg s (snd (logout_endpoint cfg env rt_cookie s))"

inductive auth_steps :: "auth_cfg \<Rightarrow> sys \<Rightarrow> sys \<Rightarrow> bool" for cfg where
  Here: "auth_steps cfg s s"
| Then: "auth_steps cfg s t \<Longrightarrow> auth_step cfg t u \<Longrightarrow> auth_steps cfg s u"

text \<open>What every request preserves: \<open>keeps s t\<close>.\<close>

definition keeps :: "db \<Rightarrow> db \<Rightarrow> bool" where
  "keeps s t \<longleftrightarrow> tokens_ok t \<and> (\<forall>fam. family_dead fam s \<longrightarrow> family_dead fam t)"

lemma keeps_same: "tokens_ok s \<Longrightarrow> refresh_tokens t = refresh_tokens s \<Longrightarrow> keeps s t"
  by (simp add: keeps_def tokens_ok_def family_dead_def live_in_def)

lemma keeps_revoke: "tokens_ok s \<Longrightarrow> keeps s (revoke_family g now s)"
  by (simp add: keeps_def revoke_ok revoke_dead)

lemma keeps_login:
  assumes "tokens_ok s" "token_create t s' = Inr u" "refresh_tokens s' = refresh_tokens s" "rt_replaced_by t = None"
    "\<forall>r \<in> set (refresh_tokens s). rt_family_id r \<noteq> rt_family_id t"
  shows "keeps s u"
proof -
  have s': "tokens_ok s'" "live_in (rt_family_id t) s' = []"
    using assms(1,3,5) by (simp_all add: tokens_ok_def live_in_def)
  have u: "refresh_tokens u = refresh_tokens s @ [t]" using token_create_tokens [OF assms(2)] assms(3) by simp
  show ?thesis
    using token_create_ok [OF assms(2) s' assms(4)] assms(5)
    by (auto simp: keeps_def family_dead_def live_in_append [OF u] u)
qed

lemma keeps_rotate:
  assumes "tokens_ok s" "row \<in> set (refresh_tokens s)" "live row" "token_create t s = Inr s'"
    "rt_family_id t = rt_family_id row" "rt_replaced_by t = None" "live t"
  shows "keeps s (rotate_out (rt_id row) (rt_id t) now s')"
proof -
  have "live_in (rt_family_id row) s \<noteq> []" using assms(2,3) by (auto simp: live_in_def filter_empty_conv)
  then show ?thesis
    using issue_rotate_ok [OF assms] token_create_tokens [OF assms(4)]
    by (auto simp: keeps_def family_dead_def family_ex update_where_maps simp flip: set_map)
qed

lemma wp_refresh_keeps:
  assumes pc: "pending s = committed s" and "alone env" and ok: "tokens_ok (committed s)"
  shows "wp (refresh cfg env token ua) (\<lambda>_ t. keeps (committed s) (committed t)) (\<lambda>_ t. keeps (committed s) (committed t)) s"
proof -
  have same: "keeps (committed s) (committed s)" by (rule keeps_same [OF ok refl])
  have rot: "keeps (committed s) (rotate_out (rt_id row) (au_token_id env) now db)"
    if "token_get_by_hash (committed s) h = Some row" "rt_revoked_at row = None"
      "token_create (new_token cfg env u (rt_family_id row) ua) (committed s) = Inr db" for row h u now db
    using keeps_rotate [OF ok _ _ that(3), of row now] token_get_by_hashD [OF that(1)] that(2)
    by (simp add: new_token_def live_def)
  show ?thesis
    using assms(2) same rot
    by (auto simp: refresh_def issue_def wp_simps race_def alone_def pc keeps_revoke [OF ok]
        split: option.split sum.split)
qed

lemma wp_login_keeps:
  assumes pc: "pending s = committed s" and ok: "tokens_ok (committed s)"
    and fresh: "\<forall>t \<in> set (refresh_tokens (committed s)). rt_family_id t \<noteq> au_family_id env"
  shows "wp (login cfg env email password ua) (\<lambda>_ t. keeps (committed s) (committed t)) (\<lambda>_ t. keeps (committed s) (committed t)) s"
proof -
  have same: "keeps (committed s) (committed s)" by (rule keeps_same [OF ok refl])
  have new: "keeps (committed s) u"
    if "token_create (new_token cfg env user (au_family_id env) ua) s' = Inr u"
      "refresh_tokens s' = refresh_tokens (committed s)" for user s' u
    using keeps_login [OF ok that] fresh by (simp add: new_token_def)
  have "user_set_hash i h now d = Inr d' \<Longrightarrow> refresh_tokens d' = refresh_tokens d" for i h now d d'
    by (auto simp: user_set_hash_def split: if_splits)
  with same new show ?thesis
    by (auto simp: login_def issue_def wp_simps wp_fun Let_def pc split: option.split sum.split prod.split)
qed

lemma session_keeps:
  assumes "pending s = committed s" and "wp m (\<lambda>_ t. keeps d (committed t)) (\<lambda>_ t. keeps d (committed t)) s"
  shows "keeps d (committed (snd (in_session (bnd m (\<lambda>a. ret (f a))) s)))"
proof -
  have "s\<lparr>pending := committed s\<rparr> = s" using assms(1) by (cases s) simp
  with assms(2) have "wp (in_session (bnd m (\<lambda>a. ret (f a)))) (\<lambda>_ t. keeps d (committed t)) (\<lambda>_ t. keeps d (committed t)) s"
    by (simp add: wp_simps wp_fun)
  then show ?thesis by (simp add: wp_ends)
qed

lemma session_synced: "pending (snd (in_session m s)) = committed (snd (in_session m s))"
  by (simp add: in_session_def split: prod.split)

lemma user_create_tokens: "user_create u s = Inr s' \<Longrightarrow> refresh_tokens s' = refresh_tokens s"
  by (auto simp: user_create_def split: if_splits)

lemma auth_step_keeps:
  assumes "auth_step cfg s t" and "pending s = committed s" and ok: "tokens_ok (committed s)"
  shows "pending t = committed t \<and> keeps (committed s) (committed t)"
  using assms
proof (induction rule: auth_step.induct)
  case (Register env s is_email email password)
  have same: "keeps (committed s) t" if "refresh_tokens t = refresh_tokens (committed s)" for t
    by (rule keeps_same [OF Register.prems(2) that])
  have "wp (register cfg env email password) (\<lambda>_ t. keeps (committed s) (committed t)) (\<lambda>_ t. keeps (committed s) (committed t)) s"
    using Register.hyps Register.prems
    by (auto simp: register_def Let_def wp_simps race_def alone_def intro!: same dest: user_create_tokens
        split: sum.split)
  note keep = session_keeps [OF Register.prems(1) this]
  show ?case
    using Register.prems same [OF refl]
    by (simp add: register_endpoint_def throw_def keep session_synced)
next
  case (Login s env is_email email password ua)
  note keep = session_keeps [OF Login.prems(1) wp_login_keeps [OF Login.prems Login.hyps]]
  show ?case
    using Login.prems keeps_same [OF Login.prems(2) HOL.refl]
    by (simp add: login_endpoint_def throw_def keep session_synced)
next
  case (Refresh env s rt_cookie ua)
  note keep = session_keeps [OF Refresh.prems(1) wp_refresh_keeps [OF Refresh.prems(1) Refresh.hyps Refresh.prems(2)]]
  show ?case
    using Refresh.prems keeps_same [OF Refresh.prems(2) HOL.refl]
    by (simp add: refresh_endpoint_def throw_def keep session_synced split: option.split)
next
  case (Logout s env rt_cookie)
  have "wp (logout cfg env rt_cookie) (\<lambda>_ t. keeps (committed s) (committed t)) (\<lambda>_ t. keeps (committed s) (committed t)) s"
    using Logout.prems keeps_same [OF Logout.prems(2) HOL.refl] keeps_revoke [OF Logout.prems(2)]
    by (auto simp: logout_def wp_simps wp_fun split: option.split)
  note keep = session_keeps [OF Logout.prems(1) this]
  show ?case
    by (simp add: logout_endpoint_def keep session_synced)
qed

lemma keeps_trans: "keeps s t \<Longrightarrow> keeps t u \<Longrightarrow> keeps s u"
  by (simp add: keeps_def)

lemma auth_steps_keep:
  assumes "auth_steps cfg s t" and "pending s = committed s" and "tokens_ok (committed s)"
  shows "pending t = committed t \<and> keeps (committed s) (committed t)"
  using assms
proof (induction rule: auth_steps.induct)
  case (Here s)
  then show ?case by (simp add: keeps_same)
next
  case (Then s t u)
  then show ?case using auth_step_keeps [OF Then.hyps(2)] keeps_trans by (auto simp: keeps_def)
qed

text \<open>
  C10: a family never has two live tokens. Whatever sequence of registrations, logins, refreshes and logouts runs, starting from
  an empty token table, token ids and hashes are unique, every family has at most one token that is not revoked, and a
  token that was replaced is revoked. New families are fresh, and requests do not interleave.
\<close>

theorem one_live_token_per_family:
  assumes "auth_steps cfg s t" and "pending s = committed s" and "refresh_tokens (committed s) = []"
  shows "tokens_ok (committed t)"
proof -
  have "tokens_ok (committed s)" using assms(3) by (simp add: tokens_ok_def live_in_def)
  from auth_steps_keep [OF assms(1,2) this] show ?thesis by (simp add: keeps_def)
qed

section \<open>Refreshing\<close>

lemma session_id: "pending s = committed s \<Longrightarrow> s\<lparr>pending := committed s\<rparr> = s"
  by (cases s) simp

lemma refresh_run:
  assumes pc: "pending s = committed s"
    and row: "token_get_by_hash (committed s) (ac_sha256 cfg token) = Some row"
    and valid: "au_now env \<le> rt_expires_at row" "rt_revoked_at row = None"
    and user: "user_by_id (committed s) (rt_user_id row) = Some u" "u_is_active u"
    and new: "token_create (new_token cfg env u (rt_family_id row) ua) (au_race env (committed s)) = Inr db"
  shows "in_session (refresh cfg env token ua) s =
      (Inr \<lparr>is_user = u, is_access_token = create_access_token cfg env (uuid_str (u_id u)) (u_role u),
            is_refresh_token = au_plain env, is_expires_in = ac_access_ttl_min cfg * 60\<rparr>,
       s\<lparr>pending := rotate_out (rt_id row) (au_token_id env) (au_now env) db,
         committed := rotate_out (rt_id row) (au_token_id env) (au_now env) db\<rparr>)"
  using assms
  by (simp add: in_session_def session_id [OF pc] refresh_def issue_def bnd_def query_def look_def ret_def race_def
      change_def stmt_exn_def stmt_def commit_def)

text \<open>
  C21: a refresh rotates. With a live, unexpired token of an active user it answers with new tokens, revokes the
  presented token and points it to its successor, adds exactly one live token in the same family with the full
  lifetime, and changes nothing else.
\<close>

theorem refresh_rotates:
  assumes pc: "pending s = committed s" and env: "alone env"
    and row: "token_get_by_hash (committed s) (ac_sha256 cfg token) = Some row"
    and valid: "au_now env \<le> rt_expires_at row" "rt_revoked_at row = None"
    and user: "user_by_id (committed s) (rt_user_id row) = Some u" "u_is_active u"
    and new: "token_create (new_token cfg env u (rt_family_id row) ua) (committed s) = Inr db"
  shows "\<exists>issued t. in_session (refresh cfg env token ua) s = (Inr issued, t)
     \<and> is_user issued = u \<and> is_refresh_token issued = au_plain env
     \<and> committed t = (committed s)\<lparr>refresh_tokens :=
          map (\<lambda>r. if rt_id r = rt_id row then r\<lparr>rt_revoked_at := Some (au_now env), rt_replaced_by := Some (au_token_id env)\<rparr>
                   else r) (refresh_tokens (committed s))
          @ [new_token cfg env u (rt_family_id row) ua]\<rparr>
     \<and> files t = files s \<and> broker t = broker s"
proof -
  have db: "db = (committed s)\<lparr>refresh_tokens := refresh_tokens (committed s) @ [new_token cfg env u (rt_family_id row) ua]\<rparr>"
    and fresh: "rt_id row \<noteq> au_token_id env"
    using new token_get_by_hashD [OF row] by (auto simp: token_create_def new_token_def split: if_splits option.splits)
  have new': "token_create (new_token cfg env u (rt_family_id row) ua) (au_race env (committed s)) = Inr db"
    using new env by (simp add: alone_def)
  show ?thesis
    using fresh by (simp add: refresh_run [OF pc row valid user new'] db rotate_out_def update_where_def new_token_def)
qed

text \<open>
  C22: a replay kills the family for good. When a revoked token is presented that was not replaced, or whose
  replacement is more than 60 seconds ago, the request is refused and every token of its family is revoked; and as long as the requests
  that follow run one after the other (each reads and commits with no other request in between, and none was under way during the
  replay), no token of that family is accepted again. A refresh that had read a live token before the revocation is not covered: it
  would still add one, by the race shown below.
\<close>

theorem replay_kills_family:
  assumes pc: "pending s = committed s" and ok: "tokens_ok (committed s)"
    and row: "token_get_by_hash (committed s) (ac_sha256 cfg token) = Some row"
    and replay: "au_now env \<le> rt_expires_at row" "rt_revoked_at row = Some r"
      "rt_replaced_by row = None \<or> au_now env - r > ROTATION_GRACE"
    and later: "auth_steps cfg (snd (in_session (refresh cfg env token ua) s)) t"
    and row': "token_get_by_hash (committed t) (ac_sha256 cfg token') = Some row'" "rt_family_id row' = rt_family_id row"
  shows "fst (in_session (refresh cfg env token ua) s) = Inl (App InvalidRefreshToken)
     \<and> fst (in_session (refresh cfg env' token' ua') t) = Inl (App InvalidRefreshToken)"
proof -
  let ?db = "revoke_family (rt_family_id row) (au_now env) (committed s)"
  have run: "in_session (refresh cfg env token ua) s = (Inl (App InvalidRefreshToken), s\<lparr>pending := ?db, committed := ?db\<rparr>)"
    using row replay pc
    by (auto simp: in_session_def session_id [OF pc] refresh_def bnd_def query_def look_def throw_def
        change_def stmt_def commit_def)
  have "\<exists>r \<in> set (refresh_tokens (committed s)). rt_family_id r = rt_family_id row"
    using token_get_by_hashD [OF row] by blast
  then have dead: "family_dead (rt_family_id row) ?db"
    by (simp add: family_dead_def family_ex update_where_maps live_in_revoke del: set_map)
  have steps: "auth_steps cfg (s\<lparr>pending := ?db, committed := ?db\<rparr>) t" using later by (simp add: run)
  have t: "pending t = committed t" "family_dead (rt_family_id row) (committed t)"
    using auth_steps_keep [OF steps] revoke_ok [OF ok] dead by (simp_all add: keeps_def)
  then have "\<not> live row'"
    using token_get_by_hashD [OF row'(1)] row'(2) by (auto simp: family_dead_def live_in_def filter_empty_conv)
  then have "fst (in_session (refresh cfg env' token' ua') t) = Inl (App InvalidRefreshToken)"
    using row' t(1)
    by (auto simp: in_session_def session_id [OF t(1)] refresh_def bnd_def query_def look_def throw_def
        change_def stmt_def commit_def live_def split: option.splits)
  with run show ?thesis by simp
qed

text \<open>
  the grace window. A token that was rotated at most 60 seconds ago is refused, but nothing is revoked:
  the state is unchanged, so the other tab's new token stays usable.
\<close>

theorem replay_in_grace_harmless:
  assumes pc: "pending s = committed s"
    and row: "token_get_by_hash (committed s) (ac_sha256 cfg token) = Some row"
    and replay: "rt_revoked_at row = Some r" "rt_replaced_by row \<noteq> None" "au_now env - r \<le> ROTATION_GRACE"
  shows "in_session (refresh cfg env token ua) s = (Inl (App InvalidRefreshToken), s)"
  using assms(2-) pc
  by (auto simp: in_session_def session_id [OF pc] refresh_def bnd_def query_def look_def throw_def)

text \<open>
  C23: rotation is not atomic. When a second request presents the same live token between the first one's read and
  its write, both answer with new tokens and the family ends with two live tokens: neither of
  the two requests gets the 401 that the grace rule provides for the loser of such a race.
\<close>

theorem concurrent_refresh_forks:
  assumes pc: "pending s = committed s" and ok: "tokens_ok (committed s)" and env2: "alone env2"
    and row: "token_get_by_hash (committed s) (ac_sha256 cfg token) = Some row"
    and valid: "au_now env \<le> rt_expires_at row" "au_now env2 \<le> rt_expires_at row" "rt_revoked_at row = None"
    and user: "user_by_id (committed s) (rt_user_id row) = Some u" "u_is_active u"
    and new2: "token_create (new_token cfg env2 u (rt_family_id row) ua2) (committed s) = Inr db2"
    and race: "au_race env = (\<lambda>_. committed (snd (in_session (refresh cfg env2 token ua2) s)))"
    and new: "token_create (new_token cfg env u (rt_family_id row) ua)
        (committed (snd (in_session (refresh cfg env2 token ua2) s))) = Inr db"
  shows "\<exists>issued issued2. fst (in_session (refresh cfg env2 token ua2) s) = Inr issued2
     \<and> fst (in_session (refresh cfg env token ua) s) = Inr issued
     \<and> length (live_in (rt_family_id row) (committed (snd (in_session (refresh cfg env token ua) s)))) = 2"
proof -
  let ?n2 = "new_token cfg env2 u (rt_family_id row) ua2" and ?n = "new_token cfg env u (rt_family_id row) ua"
  let ?s2 = "committed (snd (in_session (refresh cfg env2 token ua2) s))"
  have r: "row \<in> set (refresh_tokens (committed s))" "live row"
    using token_get_by_hashD [OF row] valid(3) by (simp_all add: live_def)
  have new2': "token_create ?n2 (au_race env2 (committed s)) = Inr db2" using new2 env2 by (simp add: alone_def)
  note first = refresh_run [OF pc row valid(2,3) user new2']
  have s2: "?s2 = rotate_out (rt_id row) (au_token_id env2) (au_now env2) db2" by (simp add: first)
  have live2: "live_in (rt_family_id row) ?s2 = [?n2]"
    using issue_rotate_ok(2) [OF ok r new2, of "rt_family_id row" "au_now env2"]
    by (simp add: s2 new_token_def live_def)
  have ids: "map rt_id (refresh_tokens ?s2) = map rt_id (refresh_tokens (committed s)) @ [au_token_id env2]"
    using token_create_tokens [OF new2] by (simp add: s2 update_where_maps new_token_def)
  then have "rt_id row \<in> set (map rt_id (refresh_tokens ?s2))" using r(1) by simp
  then have n: "rt_id row \<noteq> au_token_id env"
    using new by (auto simp: token_create_def new_token_def split: if_splits option.splits)
  have n2: "rt_id row \<noteq> au_token_id env2"
    using new2 r(1) by (auto simp: token_create_def new_token_def split: if_splits option.splits)
  have "token_create ?n (au_race env (committed s)) = Inr db" using new by (simp only: race)
  note second = refresh_run [OF pc row valid(1,3) user this]
  have "live_in (rt_family_id row) db = [?n2, ?n]"
    using live_in_append [of db ?s2 ?n] token_create_tokens [OF new] live2 by (simp add: new_token_def live_def)
  then have "live_in (rt_family_id row) (rotate_out (rt_id row) (au_token_id env) (au_now env) db) = [?n2, ?n]"
    using n n2 by (simp add: live_in_rotate new_token_def)
  then show ?thesis using first second by simp
qed

section \<open>Passwords and access tokens\<close>

definition trunc :: "time \<Rightarrow> time" where "trunc t = t div 1000000 * 1000000"

lemma trunc_bounds: "trunc t \<le> t" "t < trunc t + 1000000"
proof -
  have "trunc t = t - t mod 1000000" by (simp add: trunc_def minus_mod_eq_div_mult)
  moreover have "0 \<le> t mod 1000000" "t mod 1000000 < 1000000" by simp_all
  ultimately show "trunc t \<le> t" "t < trunc t + 1000000" by linarith+
qed

text \<open>
  What is relied on of argon2, SHA-256, PyJWT and \<^verbatim>\<open>UUID\<close>: \<^verbatim>\<open>verify\<close> accepts exactly the hashed password,
  digests fit their columns, a token signed with the secret decodes to its claims (with whole seconds) while
  \<^verbatim>\<open>exp > now - leeway\<close> and \<^verbatim>\<open>iat <= now + leeway\<close>, and the text of a UUID is read back.
\<close>

definition crypto_ok :: "auth_cfg \<Rightarrow> bool" where
  "crypto_ok cfg \<longleftrightarrow>
     (\<forall>n p q. ac_pw_verify cfg (ac_pw_hash cfg n p) q = (q = p))
     \<and> (\<forall>n p. length p \<le> 128 \<longrightarrow> length (ac_pw_hash cfg n p) \<le> 255)
     \<and> (\<forall>t. length (ac_sha256 cfg t) \<le> 64)
     \<and> (\<forall>k l now c. ac_jwt_decode cfg k l now (ac_jwt_encode cfg k c) =
          (if trunc (cl_exp c) > now - seconds l \<and> trunc (cl_iat c) \<le> now + seconds l
           then Some (c\<lparr>cl_iat := trunc (cl_iat c), cl_exp := trunc (cl_exp c)\<rparr>) else None))
     \<and> (\<forall>i < 2 ^ 128. ac_of_uuid cfg (uuid_str i) = Some i)"

lemma access_token_lifetime_eq:
  assumes "crypto_ok cfg" and "i < 2 ^ 128"
  shows "get_auth cfg now rid (Some (create_access_token cfg env (uuid_str i) role)) =
    (if trunc (au_jwt_now env + minutes (ac_access_ttl_min cfg)) > now - seconds 10
        \<and> trunc (au_jwt_now env) \<le> now + seconds 10
     then Inr \<lparr>ctx_user_id = i, ctx_role = role, ctx_trace_id = rid\<rparr>
     else Inl (App InvalidToken))"
  using assms
  by (simp add: get_auth_def create_access_token_def decode_access_token_def crypto_ok_def JWT_LEEWAY_S_def)

text \<open>
  an access token identifies its user, and only while it lasts. \<^verbatim>\<open>get_auth\<close> maps the token issued to a user back to
  that user's id and role from ten seconds before its issue until ten seconds after its expiry (in whole
  seconds), and refuses it at any other time.
\<close>

theorem access_token_lifetime:
  assumes "crypto_ok cfg" and "i < 2 ^ 128"
  shows "get_auth cfg now rid (Some (create_access_token cfg env (uuid_str i) role)) =
    (if trunc (au_jwt_now env + minutes (ac_access_ttl_min cfg)) > now - seconds 10
        \<and> trunc (au_jwt_now env) \<le> now + seconds 10
     then Inr \<lparr>ctx_user_id = i, ctx_role = role, ctx_trace_id = rid\<rparr>
     else Inl (App InvalidToken))"
  by (rule access_token_lifetime_eq [OF assms])

text \<open>
  a login discloses nothing. For an address without an account and for a wrong password the answer is
  the same and nothing changes; that an account is disabled is told only to who has its password; and with the
  right password of an active account a user agent longer than its column makes the request fail with a database error
  instead of a login.
\<close>

theorem login_refusals:
  assumes pc: "pending s = committed s"
  shows "case user_get_by_email (committed s) (normalize_email cfg email) of
      None \<Rightarrow> in_session (login cfg env email password ua) s = (Inl (App InvalidCredentials), s)
    | Some u \<Rightarrow>
        if \<not> ac_pw_verify cfg (u_password_hash u) password
        then in_session (login cfg env email password ua) s = (Inl (App InvalidCredentials), s)
        else if \<not> u_is_active u then in_session (login cfg env email password ua) s = (Inl (App UserInactive), s)
        else ac_needs_rehash cfg (u_password_hash u)
          \<or> (case ua of None \<Rightarrow> True | Some a \<Rightarrow> length a \<le> 255)
          \<or> in_session (login cfg env email password ua) s = (Inl data_error, s)"
  using pc
  by (auto simp: in_session_def session_id [OF pc] login_def verify_password_def issue_def bnd_def query_def look_def
      throw_def stmt_exn_def change_def ret_def token_create_def new_token_def split: option.split)

lemma login_run:
  assumes pc: "pending s = committed s"
    and u: "user_get_by_email (committed s) (normalize_email cfg email) = Some u"
    and ok: "ac_pw_verify cfg (u_password_hash u) password" "u_is_active u"
    and hash: "length (ac_pw_hash cfg (au_salt env) password) \<le> 255"
    and fresh: "\<forall>r \<in> set (refresh_tokens (committed s)). rt_id r \<noteq> au_token_id env \<and> rt_token_hash r \<noteq> ac_sha256 cfg (au_plain env)"
    and lens: "length (ac_sha256 cfg (au_plain env)) \<le> 64" "case ua of None \<Rightarrow> True | Some a \<Rightarrow> length a \<le> 255"
    and exists: "\<exists>v \<in> set (users (committed s)). u_id v = u_id u"
  shows "\<exists>issued t. in_session (login cfg env email password ua) s = (Inr issued, t)
     \<and> is_access_token issued = create_access_token cfg env (uuid_str (u_id u)) (u_role u)
     \<and> is_refresh_token issued = au_plain env
     \<and> refresh_tokens (committed t) = refresh_tokens (committed s) @ [new_token cfg env u (au_family_id env) ua]"
proof -
  have token: "token_create (new_token cfg env u' (au_family_id env) ua) s' =
      Inr (s'\<lparr>refresh_tokens := refresh_tokens s' @ [new_token cfg env u' (au_family_id env) ua]\<rparr>)"
    if "u_id u' = u_id u" "refresh_tokens s' = refresh_tokens (committed s)" "u_id ` set (users s') = u_id ` set (users (committed s))" for u' s'
  proof -
    have "\<exists>v \<in> set (users s'). u_id v = u_id u" using exists that(3) by (metis imageE imageI)
    then show ?thesis using fresh lens that(1,2) by (auto simp: token_create_def new_token_def split: option.splits)
  qed
  have same: "new_token cfg env (u\<lparr>u_password_hash := h\<rparr>) f ua = new_token cfg env u f ua" for h f
    by (simp add: new_token_def)
  let ?s' = "(committed s)\<lparr>users := update_where (\<lambda>v. u_id v = u_id u)
      (\<lambda>v. v\<lparr>u_password_hash := ac_pw_hash cfg (au_salt env) password, u_updated_at := au_now env\<rparr>) (users (committed s))\<rparr>"
  have "u_id ` set (users ?s') = u_id ` set (users (committed s))"
    by (simp add: map_update_where flip: set_map)
  then have t: "token_create (new_token cfg env u (au_family_id env) ua) ?s' =
      Inr (?s'\<lparr>refresh_tokens := refresh_tokens ?s' @ [new_token cfg env u (au_family_id env) ua]\<rparr>)"
    by (intro token) simp_all
  show ?thesis
    using u ok hash token [of u "committed s"] t pc
    by (auto simp: in_session_def session_id [OF pc] login_def verify_password_def issue_def bnd_def query_def look_def ret_def
        stmt_exn_def change_def commit_def user_set_hash_def same Let_def)
qed

text \<open>
  registering and logging in. After a registration, a login with the same address in any spelling that normalises
  alike succeeds with the chosen password and fails with any other; the access token it returns is accepted as
  the new user with role \<^verbatim>\<open>user\<close> during its lifetime, and the refresh token's hash is stored, live.
\<close>

theorem register_then_login:
  assumes crypto: "crypto_ok cfg" and pc: "pending s = committed s" and env: "alone env"
    and email: "user_get_by_email (committed s) (normalize_email cfg email) = None" "length (normalize_email cfg email) \<le> 255"
    and id: "user_by_id (committed s) (au_user_id env) = None" "au_user_id env < 2 ^ 128"
    and pw: "length password \<le> 128"
    and email': "normalize_email cfg email' = normalize_email cfg email"
    and fresh: "\<forall>r \<in> set (refresh_tokens (committed s)). rt_id r \<noteq> au_token_id env2 \<and> rt_token_hash r \<noteq> ac_sha256 cfg (au_plain env2)"
    and ua: "case ua of None \<Rightarrow> True | Some a \<Rightarrow> length a \<le> 255"
    and now: "au_jwt_now env2 \<le> now" "now < au_jwt_now env2 + minutes (ac_access_ttl_min cfg)"
    and t: "t = snd (in_session (register cfg env email password) s)"
  shows "(other \<noteq> password \<longrightarrow> in_session (login cfg env2 email' other ua) t = (Inl (App InvalidCredentials), t))
     \<and> (\<exists>issued u. in_session (login cfg env2 email' password ua) t = (Inr issued, u)
          \<and> get_auth cfg now rid (Some (is_access_token issued))
              = Inr \<lparr>ctx_user_id = au_user_id env, ctx_role = R_user, ctx_trace_id = rid\<rparr>
          \<and> (\<exists>r. token_get_by_hash (committed u) (ac_sha256 cfg (is_refresh_token issued)) = Some r \<and> live r))"
proof -
  let ?u = "new_user (au_user_id env) (normalize_email cfg email) (ac_pw_hash cfg (au_salt env) password) (au_now env)"
  have hash: "length (ac_pw_hash cfg n password) \<le> 255" for n using crypto pw by (simp add: crypto_ok_def)
  have new: "\<forall>v \<in> set (users (committed s)). u_id v \<noteq> au_user_id env \<and> u_email v \<noteq> normalize_email cfg email"
    using email(1) id(1) by (simp add: user_get_by_email_def user_by_id_def find_None_iff)
  then have uc: "user_create ?u (committed s) = Inr ((committed s)\<lparr>users := users (committed s) @ [?u]\<rparr>)"
    using email(2) hash [of "au_salt env"] by (simp add: user_create_def new_user_def)
  have ct: "committed t = (committed s)\<lparr>users := users (committed s) @ [?u]\<rparr>" "pending t = committed t"
    using email(1) env pc uc
    by (auto simp: t in_session_def session_id [OF pc] register_def Let_def bnd_def query_def look_def race_def change_def
        alone_def try_with_def stmt_exn_def commit_def ret_def)
  have found: "user_get_by_email (committed t) (normalize_email cfg email') = Some ?u"
    using email(1) by (simp add: ct user_get_by_email_def email' find_append_new new_user_def)
  have verify: "ac_pw_verify cfg (u_password_hash ?u) p = (p = password)" for p
    using crypto by (simp add: crypto_ok_def new_user_def)
  have v: "ac_pw_verify cfg (u_password_hash ?u) password" and l: "length (ac_sha256 cfg (au_plain env2)) \<le> 64"
    using crypto by (simp_all add: crypto_ok_def new_user_def)
  have act: "u_is_active ?u" by (simp add: new_user_def)
  have f: "\<forall>r \<in> set (refresh_tokens (committed t)). rt_id r \<noteq> au_token_id env2 \<and> rt_token_hash r \<noteq> ac_sha256 cfg (au_plain env2)"
    and e: "\<exists>v \<in> set (users (committed t)). u_id v = u_id ?u" using fresh by (simp_all add: ct)
  obtain issued u where login: "in_session (login cfg env2 email' password ua) t = (Inr issued, u)"
    "is_access_token issued = create_access_token cfg env2 (uuid_str (u_id ?u)) (u_role ?u)" "is_refresh_token issued = au_plain env2"
    "refresh_tokens (committed u) = refresh_tokens (committed t) @ [new_token cfg env2 ?u (au_family_id env2) ua]"
    using login_run [OF ct(2) found v act hash f l ua e] by (elim exE conjE) (rule that)
  have trunc: "trunc (au_jwt_now env2 + minutes (ac_access_ttl_min cfg)) > now - seconds 10" "trunc (au_jwt_now env2) \<le> now + seconds 10"
    using now trunc_bounds [of "au_jwt_now env2 + minutes (ac_access_ttl_min cfg)"] trunc_bounds [of "au_jwt_now env2"]
    by (simp_all add: seconds_def)
  have get: "get_auth cfg now rid (Some (is_access_token issued))
      = Inr \<lparr>ctx_user_id = au_user_id env, ctx_role = R_user, ctx_trace_id = rid\<rparr>"
    using access_token_lifetime_eq [OF crypto id(2)] trunc by (simp add: login(2) new_user_def)
  have "token_get_by_hash (committed u) (ac_sha256 cfg (is_refresh_token issued))
      = Some (new_token cfg env2 ?u (au_family_id env2) ua)"
    using fresh
    by (auto simp: login(3,4) ct token_get_by_hash_def find_append_new new_token_def dest!: find_SomeD split: option.split)
  then have "\<exists>r. token_get_by_hash (committed u) (ac_sha256 cfg (is_refresh_token issued)) = Some r \<and> live r"
    by (simp add: live_def new_token_def)
  moreover have "other \<noteq> password \<Longrightarrow> in_session (login cfg env2 email' other ua) t = (Inl (App InvalidCredentials), t)"
    using verify [of other] found ct(2)
    by (simp add: in_session_def session_id [OF ct(2)] login_def verify_password_def bnd_def query_def look_def throw_def)
  ultimately show ?thesis using login(1) get by blast
qed

section \<open>Witnesses\<close>

fun demo_claims :: "ustr \<Rightarrow> jwt_claims option" where
  "demo_claims (r # s # i # s' # e # j # sub) =
     Some \<lparr>cl_sub = sub, cl_role = (if r = 0 then R_user else R_admin),
       cl_iat = (if s = 0 then int i else - int i), cl_exp = (if s' = 0 then int e else - int e), cl_jti = j\<rparr>"
| "demo_claims _ = None"

definition demo_token :: "jwt_claims \<Rightarrow> ustr" where
  "demo_token c =
     [if cl_role c = R_user then 0 else 1, if cl_iat c \<ge> 0 then 0 else 1, nat \<bar>cl_iat c\<bar>,
      if cl_exp c \<ge> 0 then 0 else 1, nat \<bar>cl_exp c\<bar>, cl_jti c] @ cl_sub c"

definition demo_auth :: auth_cfg where
  "demo_auth =
     \<lparr>ac_lower = (\<lambda>s. s), ac_pw_hash = (\<lambda>_ p. p), ac_pw_verify = (\<lambda>h p. p = h), ac_needs_rehash = (\<lambda>_. False),
      ac_sha256 = take 64, ac_jwt_encode = (\<lambda>_. demo_token),
      ac_jwt_decode = (\<lambda>_ l now t. case demo_claims t of None \<Rightarrow> None
         | Some c \<Rightarrow> if trunc (cl_exp c) > now - seconds l \<and> trunc (cl_iat c) \<le> now + seconds l
                     then Some (c\<lparr>cl_iat := trunc (cl_iat c), cl_exp := trunc (cl_exp c)\<rparr>) else None),
      ac_of_uuid = (\<lambda>s. Some (parse_uuid s)), ac_jwt_secret = [1], ac_access_ttl_min = 20,
      ac_refresh_ttl_days = 14, ac_cookie_secure = False\<rparr>"

lemma demo_claims_token: "demo_claims (demo_token c) = Some c"
  by (cases c; cases "cl_role c") (auto simp: demo_token_def)

lemma demo_crypto: "crypto_ok demo_auth"
  using demo_codec_ok by (simp add: crypto_ok_def demo_auth_def demo_claims_token codec_ok_def demo_codec_def)

definition demo_aenv :: "uuid \<Rightarrow> time \<Rightarrow> (db \<Rightarrow> db) \<Rightarrow> auth_env" where
  "demo_aenv k now g = \<lparr>au_now = now, au_jwt_now = now, au_user_id = 5, au_family_id = 30, au_token_id = k,
     au_jti = 9, au_plain = [k], au_salt = 0, au_race = g\<rparr>"

abbreviation demo_solo :: "uuid \<Rightarrow> time \<Rightarrow> auth_env" where
  "demo_solo k now \<equiv> demo_aenv k now (\<lambda>s. s)"

definition demo_row :: "time option \<Rightarrow> uuid option \<Rightarrow> refresh_token" where
  "demo_row revoked next = \<lparr>rt_id = 40, rt_user_id = 5, rt_family_id = 30, rt_token_hash = [40], rt_expires_at = days 14,
     rt_revoked_at = revoked, rt_replaced_by = next, rt_user_agent = None, rt_created_at = 0\<rparr>"

definition demo_accounts :: "time option \<Rightarrow> uuid option \<Rightarrow> sys" where
  "demo_accounts revoked next =
     (let d = empty_db\<lparr>users := [new_user 5 [97] [98] 0], refresh_tokens := [demo_row revoked next]\<rparr>
      in \<lparr>committed = d, pending = d, files = Map.empty, broker = []\<rparr>)"

definition empty_user_sys :: sys where
  "empty_user_sys = \<lparr>committed = empty_db, pending = empty_db, files = Map.empty, broker = []\<rparr>"

lemma demo_solo_alone: "alone (demo_solo k now)"
  by (simp add: alone_def demo_aenv_def)

lemma demo_accounts_simps [simp]:
  "pending (demo_accounts r n) = committed (demo_accounts r n)"
  "refresh_tokens (committed (demo_accounts r n)) = [demo_row r n]"
  "users (committed (demo_accounts r n)) = [new_user 5 [97] [98] 0]"
  by (simp_all add: demo_accounts_def Let_def)

lemma demo_row_found: "token_get_by_hash (committed (demo_accounts r n)) (ac_sha256 demo_auth [40]) = Some (demo_row r n)"
  by (simp add: token_get_by_hash_def demo_auth_def demo_row_def)

lemma demo_tokens_ok: "n = None \<or> r \<noteq> None \<Longrightarrow> tokens_ok (committed (demo_accounts r n))"
  by (auto simp: tokens_ok_def live_in_def live_def demo_row_def)

lemma demo_user: "user_by_id (committed (demo_accounts r n)) (rt_user_id (demo_row r n)) = Some (new_user 5 [97] [98] 0)"
  by (simp add: user_by_id_def demo_row_def new_user_def)

lemma demo_new_token:
  "k \<noteq> 40 \<Longrightarrow> token_create (new_token demo_auth (demo_solo k now) (new_user 5 [97] [98] 0) 30 None)
      (committed (demo_accounts r n))
    = Inr ((committed (demo_accounts r n))\<lparr>refresh_tokens := [demo_row r n,
        new_token demo_auth (demo_solo k now) (new_user 5 [97] [98] 0) 30 None]\<rparr>)"
  by (simp add: token_create_def new_token_def demo_aenv_def demo_row_def demo_auth_def new_user_def)

theorem refresh_rotates_witness:
  "\<exists>issued t. in_session (refresh demo_auth (demo_solo 41 0) [40] None) (demo_accounts None None) = (Inr issued, t)"
proof -
  have "token_create (new_token demo_auth (demo_solo 41 0) (new_user 5 [97] [98] 0) (rt_family_id (demo_row None None)) None)
      (committed (demo_accounts None None)) = Inr ((committed (demo_accounts None None))\<lparr>refresh_tokens := [demo_row None None,
        new_token demo_auth (demo_solo 41 0) (new_user 5 [97] [98] 0) 30 None]\<rparr>)"
    using demo_new_token [of 41 0 None None] by (simp add: demo_row_def)
  from refresh_rotates [OF demo_accounts_simps(1) demo_solo_alone demo_row_found _ _ demo_user _ this] show ?thesis
    by (auto simp: demo_aenv_def demo_row_def days_def seconds_def new_user_def)
qed

theorem replay_kills_family_witness:
  "fst (in_session (refresh demo_auth (demo_solo 41 (days 1)) [40] None) (demo_accounts (Some 0) (Some 41)))
     = Inl (App InvalidRefreshToken)"
proof -
  let ?s = "demo_accounts (Some 0) (Some 41)"
  let ?t = "snd (in_session (refresh demo_auth (demo_solo 41 (days 1)) [40] None) ?s)"
  have "refresh_tokens (committed ?t) = [demo_row (Some 0) (Some 41)]"
    by (simp add: in_session_def session_id refresh_def bnd_def query_def look_def demo_row_found, simp add: demo_row_def
        demo_aenv_def days_def seconds_def ROTATION_GRACE_def throw_def stmt_def change_def commit_def revoke_family_def
        update_where_def bnd_def)
  then have "token_get_by_hash (committed ?t) (ac_sha256 demo_auth [40]) = Some (demo_row (Some 0) (Some 41))"
    by (simp add: token_get_by_hash_def demo_auth_def demo_row_def)
  from replay_kills_family [OF demo_accounts_simps(1) demo_tokens_ok demo_row_found _ _ _ Here this]
  show ?thesis by (simp add: demo_row_def demo_aenv_def days_def seconds_def ROTATION_GRACE_def)
qed

theorem replay_in_grace_harmless_witness:
  "in_session (refresh demo_auth (demo_solo 41 (seconds 60)) [40] None) (demo_accounts (Some 0) (Some 41))
     = (Inl (App InvalidRefreshToken), demo_accounts (Some 0) (Some 41))"
  by (rule replay_in_grace_harmless [where r = 0, OF demo_accounts_simps(1) demo_row_found])
    (simp_all add: demo_row_def demo_aenv_def ROTATION_GRACE_def)

theorem one_live_token_per_family_witness:
  "tokens_ok (committed (snd (logout_endpoint demo_auth (demo_solo 41 0) (Some [40]) empty_sys)))"
  by (rule one_live_token_per_family [OF Then [OF Here Logout]]) (simp_all add: empty_sys_def empty_db_def Let_def)

theorem access_token_lifetime_witness:
  "get_auth demo_auth 0 [] (Some (create_access_token demo_auth (demo_solo 41 0) (uuid_str 5) R_user))
     = Inr \<lparr>ctx_user_id = 5, ctx_role = R_user, ctx_trace_id = []\<rparr>"
  using access_token_lifetime [OF demo_crypto, of 5 0 "[]" "demo_solo 41 0" R_user]
  by (simp add: demo_aenv_def trunc_def minutes_def seconds_def demo_auth_def)

theorem login_refusals_witness:
  "in_session (login demo_auth (demo_solo 41 0) [97] [99] None) (demo_accounts None None)
     = (Inl (App InvalidCredentials), demo_accounts None None)"
proof -
  have "normalize_email demo_auth [97] = [97]"
    by (simp add: normalize_email_def demo_auth_def py_strip_def strip_by_def py_space_def)
  then show ?thesis
    using login_refusals [where cfg = demo_auth and email = "[97]" and password = "[99]" and env = "demo_solo 41 0" and ua = None,
        OF demo_accounts_simps(1) [of None None]]
    by (simp add: user_get_by_email_def new_user_def demo_auth_def)
qed

theorem concurrent_refresh_forks_witness:
  "let s = demo_accounts None None; g = (\<lambda>_. committed (snd (in_session (refresh demo_auth (demo_solo 41 0) [40] None) s)))
   in length (live_in 30 (committed (snd (in_session (refresh demo_auth (demo_aenv 42 0 g) [40] None) s)))) = 2"
proof -
  let ?s = "demo_accounts None None"
  let ?n = "\<lambda>k. new_token demo_auth (demo_solo k 0) (new_user 5 [97] [98] 0) 30 None"
  let ?s2 = "committed (snd (in_session (refresh demo_auth (demo_solo 41 0) [40] None) ?s))"
  let ?env = "demo_aenv 42 0 (\<lambda>_. ?s2)"
  have fam: "rt_family_id (demo_row None None) = 30" and now: "au_now (demo_solo k 0) \<le> rt_expires_at (demo_row None None)"
    "rt_revoked_at (demo_row None None) = None" "u_is_active (new_user 5 [97] [98] 0)" for k
    by (simp_all add: demo_row_def demo_aenv_def days_def seconds_def new_user_def)
  have n2: "token_create (new_token demo_auth (demo_solo 41 0) (new_user 5 [97] [98] 0) (rt_family_id (demo_row None None)) None)
      (committed ?s) = Inr ((committed ?s)\<lparr>refresh_tokens := [demo_row None None, ?n 41]\<rparr>)"
    using demo_new_token [of 41 0 None None] by (simp add: fam)
  then have n2': "token_create (new_token demo_auth (demo_solo 41 0) (new_user 5 [97] [98] 0) (rt_family_id (demo_row None None)) None)
      (au_race (demo_solo 41 0) (committed ?s)) = Inr ((committed ?s)\<lparr>refresh_tokens := [demo_row None None, ?n 41]\<rparr>)"
    by (simp add: demo_aenv_def)
  have s2: "?s2 = rotate_out 40 41 0 ((committed ?s)\<lparr>refresh_tokens := [demo_row None None, ?n 41]\<rparr>)"
    using refresh_run [OF demo_accounts_simps(1) demo_row_found now(1,2) demo_user now(3) n2']
    by (simp add: demo_aenv_def demo_row_def)
  have n: "token_create (new_token demo_auth ?env (new_user 5 [97] [98] 0) (rt_family_id (demo_row None None)) None) ?s2
      = Inr (?s2\<lparr>refresh_tokens := refresh_tokens ?s2 @ [?n 42]\<rparr>)"
    unfolding s2 fam
    by (simp add: token_create_def new_token_def demo_aenv_def demo_row_def demo_auth_def new_user_def rotate_out_def update_where_def)
  have env: "au_now ?env \<le> rt_expires_at (demo_row None None)" "au_race ?env = (\<lambda>_. ?s2)"
    using now(1) [of 41] by (simp_all add: demo_aenv_def)
  from concurrent_refresh_forks [OF demo_accounts_simps(1) demo_tokens_ok demo_solo_alone demo_row_found env(1) now(1,2) demo_user
      now(3) n2 env(2) n] show ?thesis by (auto simp: Let_def fam)
qed

theorem register_then_login_witness:
  "let t = snd (in_session (register demo_auth (demo_solo 41 0) [97] [98]) empty_user_sys)
   in \<exists>issued u. in_session (login demo_auth (demo_solo 41 0) [97] [98] None) t = (Inr issued, u)"
proof -
  have e: "normalize_email demo_auth [97] = [97]"
    by (simp add: normalize_email_def demo_auth_def py_strip_def strip_by_def py_space_def)
  have s: "pending empty_user_sys = committed empty_user_sys" "user_get_by_email (committed empty_user_sys) (normalize_email demo_auth [97]) = None"
    "user_by_id (committed empty_user_sys) (au_user_id (demo_solo 41 0)) = None" "refresh_tokens (committed empty_user_sys) = []"
    by (simp_all add: empty_user_sys_def empty_db_def user_get_by_email_def user_by_id_def)
  have n: "length (normalize_email demo_auth [97]) \<le> 255" "au_user_id (demo_solo 41 0) < 2 ^ 128" "length [98 :: nat] \<le> 128"
    "au_jwt_now (demo_solo 41 0) \<le> 0" "0 < au_jwt_now (demo_solo 41 0) + minutes (ac_access_ttl_min demo_auth)"
    by (simp_all add: e) (simp_all add: demo_aenv_def minutes_def seconds_def demo_auth_def)
  show ?thesis
    using register_then_login [where ?env2.0 = "demo_solo 41 0" and ua = None,
        OF demo_crypto s(1) demo_solo_alone s(2) n(1) s(3) n(2,3) refl _ _ n(4,5) refl] s(4)
    by (simp add: Let_def) blast
qed

end
