(* ===== verification/Prompts.thy ===== *)
theory Prompts
  imports Effects
begin

text \<open>
  What a chat turn sends to a model: the types of the \<^verbatim>\<open>LLMProvider\<close> port (\<^verbatim>\<open>domain/ports/llm.py\<close>), the
  alias registry (\<^verbatim>\<open>core/model_registry.py\<close>, over the contents of \<^verbatim>\<open>models.yaml\<close>), the check of
  \<^verbatim>\<open>core/wiring.py\<close> and the prompt templates (\<^verbatim>\<open>application/prompts.py\<close>) with the character budget of the
  retrieved context.
\<close>

section \<open>The port\<close>

record chat_message =
  cm_role :: msg_role
  cm_content :: ustr

record model_params =
  mp_model :: ustr
  mp_temperature :: rat
  mp_max_tokens :: "int option"

datatype stop_reason = End_turn | Tool_use | Max_tokens

datatype stream_event =
    TextDelta ustr
  | ToolCallRequest ustr ustr ustr
  | UsageInfo int int
  | StreamStop stop_reason
  | StreamError provider_error_code ustr

record retrieved_chunk =
  rc_chunk_id :: uuid
  rc_document_id :: uuid
  rc_filename :: ustr
  rc_text :: ustr
  rc_score :: rat
  rc_rank :: nat
  rc_meta :: dict

definition code_str :: "provider_error_code \<Rightarrow> ustr" where
  "code_str c =
     (case c of Rate_limited \<Rightarrow> lit ''rate_limited'' | Auth \<Rightarrow> lit ''auth'' | Context_length \<Rightarrow> lit ''context_length''
        | Transient \<Rightarrow> lit ''transient'' | Provider_error \<Rightarrow> lit ''provider_error'')"

section \<open>The alias registry\<close>

record model_entry =
  me_provider :: ustr
  me_model :: ustr
  me_temperature :: "rat option"
  me_max_tokens :: "int option"

record models_yaml =
  my_default :: ustr
  my_aliases :: "(ustr \<times> model_entry) list"

record resolved_model =
  rm_provider :: ustr
  rm_model :: ustr
  rm_temperature :: rat
  rm_max_tokens :: "int option"

definition key_error :: "ustr \<Rightarrow> exn" where "key_error k = PyError (lit ''KeyError'') k"

definition alias_exists :: "models_yaml \<Rightarrow> ustr \<Rightarrow> bool" where
  "alias_exists cfg alias \<longleftrightarrow> map_of (my_aliases cfg) alias \<noteq> None"

definition resolve_alias :: "models_yaml \<Rightarrow> ustr \<Rightarrow> exn + resolved_model" where
  "resolve_alias cfg alias =
     (let alias = (if alias_exists cfg alias then alias else my_default cfg) in
      case map_of (my_aliases cfg) alias of
        None \<Rightarrow> Inl (key_error alias)
      | Some entry \<Rightarrow>
          Inr \<lparr>rm_provider = me_provider entry, rm_model = me_model entry,
               rm_temperature = (case me_temperature entry of None \<Rightarrow> 7 / 10 | Some t \<Rightarrow> t),
               rm_max_tokens = me_max_tokens entry\<rparr>)"

definition build_llm :: "models_yaml \<Rightarrow> exn + unit" where
  \<comment> \<open>starting up: whether the adapter can be built\<close>
  "build_llm cfg =
     (case resolve_alias cfg (my_default cfg) of
        Inl e \<Rightarrow> Inl e
      | Inr m \<Rightarrow> if rm_provider m \<noteq> lit ''openai_compat'' then Inl (PyError (lit ''RuntimeError'') (rm_provider m)) else Inr ())"

text \<open>
  Aliases may be removed from the file after conversations were created with them. Once the service has started
  (\<open>build_llm\<close> succeeded), every alias resolves, an unknown one as the default.
\<close>

lemma resolve_after_start:
  assumes "build_llm cfg = Inr ()"
  shows "\<exists>m. resolve_alias cfg alias = Inr m \<and> (\<not> alias_exists cfg alias \<longrightarrow> resolve_alias cfg (my_default cfg) = Inr m)"
proof -
  have d: "map_of (my_aliases cfg) (my_default cfg) \<noteq> None"
    using assms by (auto simp: build_llm_def resolve_alias_def Let_def split: option.splits)
  show ?thesis
  proof (cases "alias_exists cfg alias")
    case True
    then show ?thesis by (auto simp: resolve_alias_def alias_exists_def Let_def)
  next
    case False
    with d show ?thesis by (auto simp: resolve_alias_def alias_exists_def Let_def)
  qed
qed

section \<open>Templates\<close>

definition TITLE_SYSTEM :: ustr where
  "TITLE_SYSTEM =
     [0x4F60, 0x662F, 0x70BA, 0x5C0D, 0x8A71, 0x751F, 0x6210, 0x6A19, 0x984C, 0x7684, 0x52A9, 0x7406, 0x3002, 0x6839, 0x64DA, 0x4F7F, 0x7528, 0x8005, 0x7684, 0x7B2C, 0x4E00, 0x5247, 0x8A0A, 0x606F, 0x8207, 0x52A9, 0x7406, 0x7684, 0x56DE, 0x8986, 0x2C]
     @ [0x7522, 0x51FA, 0x4E00, 0x500B, 0x4E0D, 0x8D85, 0x904E, 0x20, 0x32, 0x30, 0x20, 0x5B57, 0x3001, 0x7CBE, 0x6E96, 0x6982, 0x62EC, 0x4E3B, 0x984C, 0x7684, 0x7E41, 0x9AD4, 0x4E2D, 0x6587, 0x6A19, 0x984C, 0x3002]
     @ [0x53EA, 0x8F38, 0x51FA, 0x6A19, 0x984C, 0x672C, 0x8EAB, 0x2C, 0x4E0D, 0x8981, 0x52A0, 0x5F15, 0x865F, 0x3001, 0x53E5, 0x672B, 0x6A19, 0x9EDE, 0x6216, 0x4EFB, 0x4F55, 0x591A, 0x9918, 0x8AAA, 0x660E, 0x3002]"

definition title_prompt :: "ustr \<Rightarrow> ustr \<Rightarrow> chat_message list" where
  "title_prompt user_content assistant_content =
     [\<lparr>cm_role = Role_system, cm_content = TITLE_SYSTEM\<rparr>,
      \<lparr>cm_role = Role_user, cm_content = [0x4F7F, 0x7528, 0x8005, 0x3A] @ user_content @ [nl] @ [0x52A9, 0x7406, 0x3A] @ assistant_content\<rparr>]"

definition RAG_INSTRUCTION :: ustr where
  "RAG_INSTRUCTION =
     [0x50C5, 0x4F9D, 0x64DA, 0x4E0B, 0x5217, 0x8CC7, 0x6599, 0x56DE, 0x7B54, 0x4F7F, 0x7528, 0x8005, 0x7684, 0x554F, 0x984C, 0x3B, 0x8CC7, 0x6599, 0x4E0D, 0x8DB3, 0x4EE5, 0x56DE, 0x7B54, 0x6642, 0x660E, 0x767D, 0x8AAA, 0x51FA, 0x300C, 0x63D0, 0x4F9B, 0x7684, 0x8CC7, 0x6599, 0x4E0D, 0x8DB3, 0x300D, 0x2C]
     @ [0x4E, 0x45, 0x56, 0x45, 0x52, 0x20, 0x81EA, 0x884C, 0x7DE8, 0x9020, 0x6216, 0x88DC, 0x5145, 0x8CC7, 0x6599, 0x4EE5, 0x5916, 0x7684, 0x5167, 0x5BB9, 0x3002, 0x5F15, 0x7528, 0x6642, 0x5728, 0x53E5, 0x672B, 0x4EE5, 0x20, 0x5B, 0x6E, 0x5D, 0x20, 0x6A19, 0x8A3B, 0x5C0D, 0x61C9, 0x8CC7, 0x6599, 0x7DE8, 0x865F, 0x3002]"

definition RAG_EMPTY :: ustr where "RAG_EMPTY = [0x28, 0x9019, 0x6B21, 0x6C92, 0x6709, 0x6AA2, 0x7D22, 0x5230, 0x76F8, 0x95DC, 0x8CC7, 0x6599, 0x29]"

text \<open>\<open>pstr\<close> is \<^verbatim>\<open>str\<close> on a JSON value that is not a string (headings are strings).\<close>

definition str_of :: "(json \<Rightarrow> ustr) \<Rightarrow> json \<Rightarrow> ustr" where
  "str_of pstr v = (case v of JStr s \<Rightarrow> s | _ \<Rightarrow> pstr v)"

definition render_block :: "(json \<Rightarrow> ustr) \<Rightarrow> retrieved_chunk \<Rightarrow> nat \<Rightarrow> ustr" where
  "render_block pstr chunk rank =
     (let path = (case dict_get (rc_meta chunk) (lit ''heading_path'') of
                    Some (JList headings) \<Rightarrow> str_join (lit '' > '') (map (str_of pstr) headings)
                  | _ \<Rightarrow> []);
          title = (if path \<noteq> [] then rc_filename chunk @ [0xFF5C] @ path else rc_filename chunk)
      in lit ''['' @ nat_str rank @ lit ''] '' @ title @ [nl] @ rc_text chunk)"

text \<open>The loop of \<^verbatim>\<open>rag_system_prompt\<close>: \<open>n\<close> is \<^verbatim>\<open>len(used)\<close>; the blocks and the chunks it uses.\<close>

fun rag_loop :: "(json \<Rightarrow> ustr) \<Rightarrow> retrieved_chunk list \<Rightarrow> nat \<Rightarrow> int \<Rightarrow> ustr list \<times> retrieved_chunk list" where
  "rag_loop pstr [] n remaining = ([], [])"
| "rag_loop pstr (chunk # chunks) n remaining =
     (let block = render_block pstr chunk (n + 1)
      in if int (length block) > remaining then ([], [])
         else (let (blocks, used) = rag_loop pstr chunks (n + 1) (remaining - int (length block))
               in (block # blocks, chunk # used)))"

definition rag_system_prompt :: "(json \<Rightarrow> ustr) \<Rightarrow> ustr \<Rightarrow> retrieved_chunk list \<Rightarrow> int \<Rightarrow> ustr \<times> retrieved_chunk list" where
  "rag_system_prompt pstr base chunks char_budget =
     (let (blocks, used) = rag_loop pstr chunks 0 char_budget;
          context = (if blocks \<noteq> [] then str_join [nl, nl] blocks else RAG_EMPTY)
      in (base @ [nl, nl] @ RAG_INSTRUCTION @ [nl, nl] @ context, used))"

section \<open>The budget\<close>

definition rendered :: "(json \<Rightarrow> ustr) \<Rightarrow> nat \<Rightarrow> retrieved_chunk list \<Rightarrow> ustr list" where
  "rendered pstr n chunks = map (\<lambda>(k, c). render_block pstr c (n + k)) (enumerate 1 chunks)"

definition blocks_size :: "ustr list \<Rightarrow> int" where
  "blocks_size blocks = int (sum_list (map length blocks))"

lemma enumerate_from: "map (\<lambda>(k, c). f (Suc n + k) c) (enumerate 1 cs) = map (\<lambda>(k, c). f (n + k) c) (enumerate 2 cs)"
proof -
  have "map (\<lambda>(k, c). f (Suc n + k) c) (enumerate m cs) = map (\<lambda>(k, c). f (n + k) c) (enumerate (Suc m) cs)" for m
    by (induction cs arbitrary: m) simp_all
  from this [of 1] show ?thesis by (simp add: numeral_2_eq_2)
qed

lemma rendered_Cons: "rendered pstr n (c # cs) = render_block pstr c (n + 1) # rendered pstr (n + 1) cs"
  using enumerate_from [of "\<lambda>k c. render_block pstr c k" n cs] by (simp add: rendered_def numeral_2_eq_2)

lemma rag_loop_prefix:
  "\<exists>k \<le> length chunks. rag_loop pstr chunks n b = (rendered pstr n (take k chunks), take k chunks)
     \<and> (\<forall>j \<le> length chunks. j \<le> k \<longleftrightarrow> (\<forall>i \<le> j. i = 0 \<or> blocks_size (rendered pstr n (take i chunks)) \<le> b))"
proof (induction chunks arbitrary: n b)
  case Nil
  then show ?case by (simp add: rendered_def)
next
  case (Cons c cs)
  let ?r = "render_block pstr c (n + 1)"
  have size: "blocks_size (rendered pstr n (take (Suc i) (c # cs)))
      = int (length ?r) + blocks_size (rendered pstr (n + 1) (take i cs))" for i
    by (simp add: rendered_Cons blocks_size_def)
  show ?case
  proof (cases "int (length ?r) > b")
    case True
    have "\<not> (\<forall>i \<le> j. i = 0 \<or> blocks_size (rendered pstr n (take i (c # cs))) \<le> b)" if "0 < j" for j
    proof -
      have "1 \<le> j" "\<not> blocks_size (rendered pstr n (take 1 (c # cs))) \<le> b"
        using that True size [of 0] by (simp_all add: rendered_def blocks_size_def)
      then show ?thesis by (metis zero_neq_one)
    qed
    with True show ?thesis by (intro exI [of _ 0]) (auto simp: rendered_def)
  next
    case False
    obtain k where k: "k \<le> length cs" "rag_loop pstr cs (n + 1) (b - int (length ?r))
        = (rendered pstr (n + 1) (take k cs), take k cs)"
      "\<And>j. j \<le> length cs \<Longrightarrow> j \<le> k \<longleftrightarrow>
        (\<forall>i \<le> j. i = 0 \<or> blocks_size (rendered pstr (n + 1) (take i cs)) \<le> b - int (length ?r))"
      using Cons.IH [of "n + 1" "b - int (length ?r)"] by blast
    have fits: "Suc j \<le> Suc k \<longleftrightarrow> (\<forall>i \<le> Suc j. i = 0 \<or> blocks_size (rendered pstr n (take i (c # cs))) \<le> b)"
      if j: "j \<le> length cs" for j
    proof -
      have "(\<forall>i \<le> Suc j. i = 0 \<or> blocks_size (rendered pstr n (take i (c # cs))) \<le> b)
          \<longleftrightarrow> (\<forall>i \<le> j. blocks_size (rendered pstr n (take (Suc i) (c # cs))) \<le> b)"
        by (metis Suc_le_mono not0_implies_Suc nat.distinct(1))
      also have "\<dots> \<longleftrightarrow> (\<forall>i \<le> j. blocks_size (rendered pstr (n + 1) (take i cs)) \<le> b - int (length ?r))"
        by (simp only: size) (simp add: algebra_simps)
      also have "\<dots> \<longleftrightarrow> (\<forall>i \<le> j. i = 0 \<or> blocks_size (rendered pstr (n + 1) (take i cs)) \<le> b - int (length ?r))"
        using False by (auto simp: rendered_def blocks_size_def)
      finally show ?thesis using k(3) [OF j] by simp
    qed
    have "rag_loop pstr (c # cs) n b = (rendered pstr n (take (Suc k) (c # cs)), take (Suc k) (c # cs))"
      using False k(2) by (simp add: rendered_Cons)
    moreover have "j \<le> Suc k \<longleftrightarrow> (\<forall>i \<le> j. i = 0 \<or> blocks_size (rendered pstr n (take i (c # cs))) \<le> b)"
      if "j \<le> length (c # cs)" for j
      using fits [of "j - 1"] that by (cases j) auto
    ultimately show ?thesis using k(1) by (intro exI [of _ "Suc k"]) auto
  qed
qed

lemma rendered_take: "rendered pstr n (take j cs) = take j (rendered pstr n cs)"
proof -
  have "enumerate m (take j cs) = take j (enumerate m cs)" for m
    by (simp add: enumerate_eq_zip take_zip take_upt min_def)
  then show ?thesis by (simp add: rendered_def take_map)
qed

lemma rendered_Nil: "rendered pstr n cs = [] \<longleftrightarrow> cs = []"
proof -
  have "length (rendered pstr n cs) = length cs" by (simp add: rendered_def)
  then show ?thesis by (metis length_0_conv)
qed

lemma blocks_size_mono: "i \<le> j \<Longrightarrow> blocks_size (take i bs) \<le> blocks_size (take j bs)"
proof -
  assume "i \<le> j"
  then have "take j bs = take i bs @ drop i (take j bs)"
    using append_take_drop_id [of i "take j bs"] by (simp add: min_def del: append_take_drop_id)
  then have "sum_list (map length (take j bs)) = sum_list (map length (take i bs)) + sum_list (map length (drop i (take j bs)))"
    by (metis map_append sum_list_append)
  then show ?thesis by (simp add: blocks_size_def)
qed

text \<open>
  C30: the context budget. The chunks a RAG prompt uses are the longest prefix of the retrieved ones whose rendered
  blocks fit the character budget; the prompt is the base prompt, the instruction and exactly these blocks,
  numbered from 1 without gaps, or the note that nothing was found.
\<close>

theorem rag_prompt_budget:
  assumes "0 \<le> budget" and "rag_system_prompt pstr base chunks budget = (prompt, used)"
  shows "\<exists>k. used = take k chunks \<and> blocks_size (rendered pstr 0 used) \<le> budget
     \<and> (\<forall>j \<le> length chunks. k < j \<longrightarrow> budget < blocks_size (rendered pstr 0 (take j chunks)))
     \<and> prompt = base @ [nl, nl] @ RAG_INSTRUCTION @ [nl, nl]
         @ (if used = [] then RAG_EMPTY else str_join [nl, nl] (rendered pstr 0 used))"
proof -
  obtain k where k: "k \<le> length chunks" "rag_loop pstr chunks 0 budget = (rendered pstr 0 (take k chunks), take k chunks)"
    "\<And>j. j \<le> length chunks \<Longrightarrow> j \<le> k \<longleftrightarrow> (\<forall>i \<le> j. i = 0 \<or> blocks_size (rendered pstr 0 (take i chunks)) \<le> budget)"
    using rag_loop_prefix [of chunks pstr 0 budget] by blast
  have used: "used = take k chunks" using assms(2) k(2) by (simp add: rag_system_prompt_def Let_def)
  have fits: "blocks_size (rendered pstr 0 used) \<le> budget"
    using k(3) [OF k(1)] assms(1) by (cases k) (auto simp: used rendered_def blocks_size_def)
  have more: "budget < blocks_size (rendered pstr 0 (take j chunks))" if j: "j \<le> length chunks" "k < j" for j
  proof -
    obtain i where i: "i \<le> j" "\<not> blocks_size (rendered pstr 0 (take i chunks)) \<le> budget"
      using k(3) [OF j(1)] j(2) by auto
    have "blocks_size (rendered pstr 0 (take i chunks)) \<le> blocks_size (rendered pstr 0 (take j chunks))"
      unfolding rendered_take by (rule blocks_size_mono [OF i(1)])
    with i(2) show ?thesis by linarith
  qed
  have "prompt = base @ [nl, nl] @ RAG_INSTRUCTION @ [nl, nl]
         @ (if used = [] then RAG_EMPTY else str_join [nl, nl] (rendered pstr 0 used))"
    using assms(2) k(2) by (auto simp: rag_system_prompt_def Let_def used rendered_Nil)
  with used fits more show ?thesis by blast
qed

definition demo_chunk :: "nat \<Rightarrow> retrieved_chunk" where
  "demo_chunk i = \<lparr>rc_chunk_id = i, rc_document_id = 7, rc_filename = lit ''a.pstr'', rc_text = [65, 66],
     rc_score = 1 / 61, rc_rank = i, rc_meta = []\<rparr>"

theorem rag_prompt_budget_witness:
  "\<exists>k. snd (rag_system_prompt (\<lambda>_. []) [66] [demo_chunk 1, demo_chunk 2] 15) = take k [demo_chunk 1, demo_chunk 2]
     \<and> blocks_size (rendered (\<lambda>_. []) 0 (snd (rag_system_prompt (\<lambda>_. []) [66] [demo_chunk 1, demo_chunk 2] 15))) \<le> 15"
  using rag_prompt_budget [of 15 "\<lambda>_. []" "[66]" "[demo_chunk 1, demo_chunk 2]", OF _ surjective_pairing] by auto

end
