(* ===== verification/Conversations.thy ===== *)
theory Conversations
  imports Auth Prompts
begin

text \<open>
  Conversations and messages: the conversation, message, citation and usage repositories,
  \<^verbatim>\<open>application/conversation_service.py\<close> and the endpoints of \<^verbatim>\<open>api/routers/conversations.py\<close>. Inserts fail as the
  database makes them fail: on a key, on a missing parent row, on a text longer than its column or
  with the character NUL, which PostgreSQL text cannot hold.
\<close>

section \<open>ConversationRepository\<close>

definition text_ok :: "nat \<Rightarrow> ustr \<Rightarrow> bool" where
  "text_ok n s \<longleftrightarrow> length s \<le> n \<and> 0 \<notin> set s"

definition opt_ok :: "('a \<Rightarrow> bool) \<Rightarrow> 'a option \<Rightarrow> bool" where
  "opt_ok p x = (case x of None \<Rightarrow> True | Some a \<Rightarrow> p a)"

definition conv_by_id :: "db \<Rightarrow> uuid \<Rightarrow> conversation option" where
  "conv_by_id s i = find (\<lambda>c. c_id c = i) (conversations s)"

definition conv_get_owned :: "db \<Rightarrow> uuid \<Rightarrow> uuid \<Rightarrow> conversation option" where
  "conv_get_owned s user_id i = find (\<lambda>c. c_id c = i \<and> c_user_id c = user_id) (conversations s)"

definition new_conversation :: "uuid \<Rightarrow> uuid \<Rightarrow> ustr option \<Rightarrow> ustr \<Rightarrow> time \<Rightarrow> conversation" where
  "new_conversation i user_id title alias now =
     \<lparr>c_id = i, c_user_id = user_id, c_title = title, c_channel = lit ''web'', c_model_alias = alias,
      c_created_at = now, c_updated_at = now\<rparr>"

definition conv_create :: "conversation \<Rightarrow> db \<Rightarrow> exn + db" where
  "conv_create c s =
     (if \<not> opt_ok (text_ok 200) (c_title c) \<or> \<not> text_ok 64 (c_model_alias c) then Inl data_error
      else if (\<exists>d \<in> set (conversations s). c_id d = c_id c) \<or> \<not> (\<exists>u \<in> set (users s). u_id u = c_user_id c)
      then Inl IntegrityError
      else Inr (s\<lparr>conversations := conversations s @ [c]\<rparr>))"

definition conv_delete :: "uuid \<Rightarrow> db \<Rightarrow> db" where
  \<comment> \<open>ON DELETE CASCADE: the messages, and with them their citations; usage logs stay\<close>
  "conv_delete i s =
     s\<lparr>conversations := filter (\<lambda>c. c_id c \<noteq> i) (conversations s),
       messages := filter (\<lambda>m. m_conversation_id m \<noteq> i) (messages s),
       message_citations := filter (\<lambda>ci. \<not> (\<exists>m \<in> set (messages s). m_conversation_id m = i \<and> m_id m = ci_message_id ci))
         (message_citations s)\<rparr>"

definition conv_update :: "uuid \<Rightarrow> (conversation \<Rightarrow> conversation) \<Rightarrow> db \<Rightarrow> db" where
  "conv_update i f s = s\<lparr>conversations := update_where (\<lambda>c. c_id c = i) f (conversations s)\<rparr>"

definition conv_rename :: "uuid \<Rightarrow> ustr \<Rightarrow> time \<Rightarrow> db \<Rightarrow> exn + db" where
  \<comment> \<open>the unit of work emits no UPDATE for an unchanged title; an UPDATE also sets \<^verbatim>\<open>updated_at\<close>\<close>
  "conv_rename i title now s =
     (if \<not> text_ok 200 title then Inl data_error
      else Inr (conv_update i (\<lambda>c. if c_title c = Some title then c
                                   else c\<lparr>c_title := Some title, c_updated_at := now\<rparr>) s))"

definition conv_bump_updated_at :: "uuid \<Rightarrow> time \<Rightarrow> db \<Rightarrow> db" where
  "conv_bump_updated_at i now s = conv_update i (\<lambda>c. c\<lparr>c_updated_at := now\<rparr>) s"

definition conv_set_title_if_null :: "uuid \<Rightarrow> ustr \<Rightarrow> time \<Rightarrow> db \<Rightarrow> exn + db" where
  "conv_set_title_if_null i title now s =
     (if \<not> text_ok 200 title then Inl data_error
      else Inr (conv_update i (\<lambda>c. if c_title c = None then c\<lparr>c_title := Some title, c_updated_at := now\<rparr> else c) s))"

definition conv_key :: "conversation \<Rightarrow> keyset" where
  "conv_key c = (c_updated_at c, c_id c)"

definition user_conversations :: "db \<Rightarrow> uuid \<Rightarrow> conversation list" where
  "user_conversations s user_id = filter (\<lambda>c. c_user_id c = user_id) (conversations s)"

definition conv_list_page :: "db \<Rightarrow> uuid \<Rightarrow> nat \<Rightarrow> keyset option \<Rightarrow> conversation list" where
  "conv_list_page s user_id limit cursor = select_page conv_key limit cursor (user_conversations s user_id)"

section \<open>MessageRepository\<close>

definition message_add :: "message \<Rightarrow> db \<Rightarrow> exn + db" where
  \<comment> \<open>primary key, \<^verbatim>\<open>ux_messages_client_id\<close>, the conversation's foreign key\<close>
  "message_add m s =
     (if 0 \<in> set (m_content m) \<or> \<not> opt_ok (text_ok 32) (m_provider m) \<or> \<not> opt_ok (text_ok 64) (m_model m)
      then Inl data_error
      else if (\<exists>r \<in> set (messages s). m_id r = m_id m
            \<or> (m_client_message_id m \<noteq> None \<and> m_conversation_id r = m_conversation_id m
               \<and> m_client_message_id r = m_client_message_id m))
         \<or> \<not> (\<exists>c \<in> set (conversations s). c_id c = m_conversation_id m)
      then Inl IntegrityError
      else Inr (s\<lparr>messages := messages s @ [m]\<rparr>))"

definition msg_key :: "message \<Rightarrow> keyset" where
  "msg_key m = (m_created_at m, m_id m)"

definition conv_messages :: "db \<Rightarrow> uuid \<Rightarrow> message list" where
  "conv_messages s i = filter (\<lambda>m. m_conversation_id m = i) (messages s)"

definition message_first_of_role :: "db \<Rightarrow> uuid \<Rightarrow> msg_role \<Rightarrow> message option" where
  "message_first_of_role s i role =
     (case sort_key msg_key (filter (\<lambda>m. m_role m = role) (conv_messages s i)) of [] \<Rightarrow> None | m # _ \<Rightarrow> Some m)"

definition message_list_recent :: "db \<Rightarrow> uuid \<Rightarrow> nat \<Rightarrow> message list" where
  "message_list_recent s i limit = rev (take limit (rev (sort_key msg_key (conv_messages s i))))"

definition message_list_page :: "db \<Rightarrow> uuid \<Rightarrow> nat \<Rightarrow> keyset option \<Rightarrow> message list" where
  "message_list_page s i limit cursor = select_page msg_key limit cursor (conv_messages s i)"

section \<open>Citations and usage\<close>

definition SNIPPET_MAX_CHARS :: nat where "SNIPPET_MAX_CHARS = 200"

definition citation_add_one :: "message_citation \<Rightarrow> db \<Rightarrow> exn + db" where
  "citation_add_one ci s =
     (if \<not> text_ok 255 (ci_filename ci) \<or> 0 \<in> set (ci_snippet ci) then Inl data_error
      else if (\<exists>r \<in> set (message_citations s). ci_id r = ci_id ci)
         \<or> \<not> (\<exists>m \<in> set (messages s). m_id m = ci_message_id ci)
      then Inl IntegrityError
      else Inr (s\<lparr>message_citations := message_citations s @ [ci]\<rparr>))"

fun citations_add_all :: "message_citation list \<Rightarrow> db \<Rightarrow> exn + db" where
  "citations_add_all [] s = Inr s"
| "citations_add_all (ci # rest) s = (case citation_add_one ci s of Inl e \<Rightarrow> Inl e | Inr s' \<Rightarrow> citations_add_all rest s')"

definition citations_of :: "db \<Rightarrow> uuid \<Rightarrow> message_citation list" where
  "citations_of s i = sort_key ci_rank (filter (\<lambda>ci. ci_message_id ci = i) (message_citations s))"

definition citations_for_messages :: "db \<Rightarrow> uuid list \<Rightarrow> (uuid \<times> message_citation list) list" where
  \<comment> \<open>message id to its citations by rank, for the messages that have any\<close>
  "citations_for_messages s ids =
     map (\<lambda>i. (i, citations_of s i)) (sorted_list_of_set {i \<in> set ids. citations_of s i \<noteq> []})"

definition usage_add :: "usage_log \<Rightarrow> db \<Rightarrow> exn + db" where
  "usage_add l s =
     (if \<not> text_ok 32 (ul_provider l) \<or> \<not> text_ok 64 (ul_model l) \<or> \<not> opt_ok (text_ok 64) (ul_error_code l) then Inl data_error
      else if (\<exists>r \<in> set (usage_logs s). ul_id r = ul_id l)
         \<or> \<not> opt_ok (\<lambda>i. \<exists>u \<in> set (users s). u_id u = i) (ul_user_id l)
      then Inl IntegrityError
      else Inr (s\<lparr>usage_logs := usage_logs s @ [l]\<rparr>))"

section \<open>ConversationService\<close>

record conv_env =
  cv_now :: time
  cv_id :: uuid

definition create_conversation :: "models_yaml \<Rightarrow> conv_env \<Rightarrow> auth_context \<Rightarrow> ustr option \<Rightarrow> ustr option
    \<Rightarrow> (sys, conversation) eff" where
  "create_conversation cfg env ctx title model_alias =
     (let alias = (case model_alias of None \<Rightarrow> my_default cfg | Some a \<Rightarrow> if a = [] then my_default cfg else a);
          conv = new_conversation (cv_id env) (ctx_user_id ctx) title alias (cv_now env)
      in if \<not> alias_exists cfg alias then throw (App (ValidationError (Some [0x6D, 0x6F, 0x64, 0x65, 0x6C, 0x5F, 0x61, 0x6C, 0x69, 0x61, 0x73, 0x20, 0x7121, 0x6548])))
         else bnd (stmt_exn (conv_create conv)) (\<lambda>_.
              bnd commit (\<lambda>_. ret conv)))"

definition get_conversation :: "auth_context \<Rightarrow> uuid \<Rightarrow> (sys, conversation) eff" where
  "get_conversation ctx i =
     bnd (query (\<lambda>s. conv_get_owned s (ctx_user_id ctx) i)) (\<lambda>conv.
     case conv of None \<Rightarrow> throw (App ConversationNotFound) | Some c \<Rightarrow> ret c)"

definition decode_optional :: "cursor_codec \<Rightarrow> ustr option \<Rightarrow> app_error + keyset option" where
  \<comment> \<open>\<^verbatim>\<open>decode_cursor(cursor) if cursor else None\<close>\<close>
  "decode_optional cc cursor =
     (case cursor of None \<Rightarrow> Inr None
      | Some c \<Rightarrow> if c = [] then Inr None else (case decode_cursor cc c of Inl e \<Rightarrow> Inl e | Inr k \<Rightarrow> Inr (Some k)))"

definition list_conversations :: "cursor_codec \<Rightarrow> auth_context \<Rightarrow> nat \<Rightarrow> ustr option
    \<Rightarrow> (sys, conversation list \<times> ustr option) eff" where
  "list_conversations cc ctx limit cursor =
     (case decode_optional cc cursor of
        Inl e \<Rightarrow> throw (App e)
      | Inr keyset \<Rightarrow>
          bnd (query (\<lambda>s. conv_list_page s (ctx_user_id ctx) limit keyset)) (\<lambda>rows.
          ret (paginate cc rows limit conv_key)))"

definition rename_conversation :: "conv_env \<Rightarrow> auth_context \<Rightarrow> uuid \<Rightarrow> ustr \<Rightarrow> (sys, conversation) eff" where
  "rename_conversation env ctx i title =
     bnd (get_conversation ctx i) (\<lambda>conv.
     bnd (stmt_exn (conv_rename (c_id conv) title (cv_now env))) (\<lambda>_.
     bnd commit (\<lambda>_.
     query (\<lambda>s. case conv_by_id s (c_id conv) of None \<Rightarrow> conv | Some c \<Rightarrow> c))))"

definition delete_conversation :: "auth_context \<Rightarrow> uuid \<Rightarrow> (sys, unit) eff" where
  "delete_conversation ctx i =
     bnd (get_conversation ctx i) (\<lambda>conv.
     bnd (stmt (conv_delete (c_id conv))) (\<lambda>_.
     commit))"

definition list_messages :: "cursor_codec \<Rightarrow> auth_context \<Rightarrow> uuid \<Rightarrow> nat \<Rightarrow> ustr option
    \<Rightarrow> (sys, message list \<times> (uuid \<times> message_citation list) list \<times> ustr option) eff" where
  "list_messages cc ctx i limit cursor =
     bnd (get_conversation ctx i) (\<lambda>_.
     case decode_optional cc cursor of
       Inl e \<Rightarrow> throw (App e)
     | Inr keyset \<Rightarrow>
         bnd (query (\<lambda>s. message_list_page s i limit keyset)) (\<lambda>rows.
         let (items, next_cursor) = paginate cc rows limit msg_key in
         bnd (query (\<lambda>s. citations_for_messages s (map m_id items))) (\<lambda>citations.
         ret (items, citations, next_cursor))))"

section \<open>Endpoints\<close>

record citation_out =
  co_rank :: nat
  co_chunk_id :: "uuid option"
  co_document_id :: "uuid option"
  co_filename :: ustr
  co_snippet :: ustr
  co_score :: rat

definition citation_out_of :: "message_citation \<Rightarrow> citation_out" where
  "citation_out_of ci = \<lparr>co_rank = ci_rank ci, co_chunk_id = ci_chunk_id ci, co_document_id = ci_document_id ci,
     co_filename = ci_filename ci, co_snippet = ci_snippet ci, co_score = ci_score ci\<rparr>"

record message_out =
  mo_id :: uuid
  mo_role :: msg_role
  mo_content :: ustr
  mo_content_meta :: dict
  mo_tokens_in :: "int option"
  mo_tokens_out :: "int option"
  mo_latency_ms :: "int option"
  mo_created_at :: time
  mo_citations :: "citation_out list"

definition message_out_of :: "message \<Rightarrow> message_citation list \<Rightarrow> message_out" where
  "message_out_of m citations =
     \<lparr>mo_id = m_id m, mo_role = m_role m, mo_content = m_content m, mo_content_meta = m_content_meta m,
      mo_tokens_in = m_tokens_in m, mo_tokens_out = m_tokens_out m, mo_latency_ms = m_latency_ms m,
      mo_created_at = m_created_at m, mo_citations = map citation_out_of citations\<rparr>"

definition limit_ok :: "int \<Rightarrow> bool" where "limit_ok limit \<longleftrightarrow> 1 \<le> limit \<and> limit \<le> 100"

definition create_conversation_endpoint :: "models_yaml \<Rightarrow> conv_env \<Rightarrow> auth_context \<Rightarrow> ustr option \<Rightarrow> ustr option
    \<Rightarrow> (sys, nat \<times> conversation) eff" where
  "create_conversation_endpoint cfg env ctx title model_alias =
     (if \<not> opt_ok (\<lambda>t. length t \<le> 200) title then throw (App (ValidationError None))
      else in_session (bnd (create_conversation cfg env ctx title model_alias) (\<lambda>conv. ret (201, conv))))"

definition update_conversation_endpoint :: "conv_env \<Rightarrow> auth_context \<Rightarrow> uuid \<Rightarrow> ustr \<Rightarrow> (sys, nat \<times> conversation) eff" where
  "update_conversation_endpoint env ctx i title =
     (if \<not> (1 \<le> length title \<and> length title \<le> 200) then throw (App (ValidationError None))
      else in_session (bnd (rename_conversation env ctx i title) (\<lambda>conv. ret (200, conv))))"

definition list_messages_endpoint :: "cursor_codec \<Rightarrow> auth_context \<Rightarrow> uuid \<Rightarrow> int \<Rightarrow> ustr option
    \<Rightarrow> (sys, message_out list \<times> ustr option) eff" where
  "list_messages_endpoint cc ctx i limit cursor =
     (if \<not> limit_ok limit then throw (App (ValidationError None))
      else in_session (bnd (list_messages cc ctx i (nat limit) cursor) (\<lambda>(items, citations, next_cursor).
        ret (map (\<lambda>m. message_out_of m (case map_of citations (m_id m) of None \<Rightarrow> [] | Some cs \<Rightarrow> cs)) items,
             next_cursor))))"

section \<open>Properties\<close>

text \<open>
  conversations are private. A conversation that the user does not own, or that does not exist, is the same
  404 for reading, renaming, deleting and listing its messages, and nothing changes.
\<close>

theorem foreign_conversation_hidden:
  assumes "conv_get_owned (pending s) (ctx_user_id ctx) i = None"
  shows "get_conversation ctx i s = (Inl (App ConversationNotFound), s)
     \<and> rename_conversation env ctx i title s = (Inl (App ConversationNotFound), s)
     \<and> delete_conversation ctx i s = (Inl (App ConversationNotFound), s)
     \<and> list_messages cc ctx i limit cursor s = (Inl (App ConversationNotFound), s)"
  using assms
  by (simp add: get_conversation_def rename_conversation_def delete_conversation_def list_messages_def bnd_def query_def
      look_def throw_def)

definition messages_keyed :: "db \<Rightarrow> bool" where
  "messages_keyed s \<longleftrightarrow> distinct (map m_id (messages s)) \<and> (\<forall>m \<in> set (messages s). m_id m < 2 ^ 128)"

interpretation msg_pages: keyset_table
  "\<lambda>s limit c. message_list_page s i limit c" msg_key "\<lambda>s. conv_messages s i" messages_keyed for i
proof
  fix s :: db
  assume s: "messages_keyed s"
  then have "distinct (map m_id (conv_messages s i))"
    by (simp add: messages_keyed_def conv_messages_def distinct_map_filter)
  then have "distinct (map snd (map msg_key (conv_messages s i)))" by (simp add: msg_key_def comp_def)
  then show "distinct (map msg_key (conv_messages s i))" using distinct_map by blast
  show "snd (msg_key r) < 2 ^ 128" if "r \<in> set (conv_messages s i)" for r
    using that s by (simp add: messages_keyed_def conv_messages_def msg_key_def)
qed (simp add: message_list_page_def)

lemma map_of_citations:
  "(case map_of (citations_for_messages s ids) i of None \<Rightarrow> [] | Some cs \<Rightarrow> cs) = (if i \<in> set ids then citations_of s i else [])"
proof -
  have "map_of (map (\<lambda>i. (i, f i)) xs) i = (if i \<in> set xs then Some (f i) else None)" for f :: "uuid \<Rightarrow> message_citation list" and xs
    by (induction xs) auto
  then show ?thesis by (simp add: citations_for_messages_def)
qed

text \<open>
  C38: reading a conversation back. Following the cursors of the message list from the first page visits every message of
  the conversation exactly once, newest first, and ends.
\<close>

theorem message_pages_enumerate:
  assumes "codec_ok cc" and "1 \<le> limit" and "messages_keyed s" and "length (conv_messages s i) < n"
  shows "\<exists>pages. walk cc (\<lambda>limit c. message_list_page s i limit c) msg_key limit n None = Some pages
       \<and> concat pages = newest_first msg_key (conv_messages s i)"
  using msg_pages.pages_enumerate [OF assms] by blast

text \<open>
  the citations of a page. The endpoint answers the owner of the conversation with a page of its messages, each with
  exactly the citations stored for it in the order of their ranks, and changes nothing.
\<close>

theorem message_page_citations:
  assumes pc: "pending s = committed s" and owned: "conv_get_owned (committed s) (ctx_user_id ctx) i = Some c"
    and limit: "1 \<le> limit" "limit \<le> 100" and k: "decode_optional cc cursor = Inr k"
  shows "list_messages_endpoint cc ctx i limit cursor s =
    (let (items, next_cursor) = paginate cc (message_list_page (committed s) i (nat limit) k) (nat limit) msg_key
     in (Inr (map (\<lambda>m. message_out_of m (citations_of (committed s) (m_id m))) items, next_cursor), s))"
proof -
  have id: "s\<lparr>pending := committed s\<rparr> = s" using pc by (cases s) simp
  show ?thesis
    using assms
    by (simp add: list_messages_endpoint_def limit_ok_def in_session_def id list_messages_def get_conversation_def bnd_def
        query_def look_def ret_def map_of_citations split: prod.split)
qed

end
