(* ===== verification/Llm_Adapter.thy ===== *)
theory Llm_Adapter
  imports Prompts
begin

text \<open>
  The model adapter (\<^verbatim>\<open>infrastructure/llm/openai_compat.py\<close>): the request it builds, the parsing of the SSE
  response and the mapping of every failure to a \<open>StreamError\<close>. The HTTP exchange, \<^verbatim>\<open>json.loads\<close> and pydantic's
  reading of an integer are parameters. A generator is the list of the events it yields and the
  exception it ends with, if any. The locale \<open>llm_provider\<close> is the port's event contract.
\<close>

section \<open>The port's contract\<close>

fun terminal :: "stream_event \<Rightarrow> bool" where
  "terminal (StreamStop _) = True"
| "terminal (StreamError _ _) = True"
| "terminal _ = False"

text \<open>Any number of deltas (or tool calls), at most one usage, exactly one terminal event, at the end.\<close>

fun ordered :: "stream_event list \<Rightarrow> bool" where
  "ordered [] = False"
| "ordered (TextDelta _ # r) = ordered r"
| "ordered (ToolCallRequest _ _ _ # r) = ordered r"
| "ordered (UsageInfo _ _ # r) = (case r of [t] \<Rightarrow> terminal t | _ \<Rightarrow> False)"
| "ordered (t # r) = (r = [])"

locale llm_provider =
  fixes chat :: "'w \<Rightarrow> chat_message list \<Rightarrow> model_params \<Rightarrow> stream_event list"
  assumes contract: "ordered (chat w msgs params)"
begin

lemma one_terminal: "\<exists>evs t. chat w msgs params = evs @ [t] \<and> terminal t \<and> filter terminal evs = []"
proof -
  have split: "ordered evs \<Longrightarrow> \<exists>us t. evs = us @ [t] \<and> terminal t \<and> filter terminal us = []" for evs
  proof (induction evs rule: ordered.induct)
    case (2 a r)
    then obtain us t where "r = us @ [t]" "terminal t" "filter terminal us = []" by auto
    then show ?case by (intro exI [of _ "TextDelta a # us"] exI [of _ t]) simp
  next
    case (3 a b c r)
    then obtain us t where "r = us @ [t]" "terminal t" "filter terminal us = []" by auto
    then show ?case by (intro exI [of _ "ToolCallRequest a b c # us"] exI [of _ t]) simp
  next
    case (4 i t r)
    then obtain t where "r = [t]" "terminal t" by (auto split: list.splits)
    then show ?case by (intro exI [of _ "[UsageInfo i t]" for i t] exI [of _ t]) auto
  qed (auto intro: exI [of _ "[]"])
  show ?thesis by (rule split [OF contract])
qed

end

section \<open>The exchange\<close>

datatype wire_exn = Timeout_exception | Http_error | Other_exception

datatype wire_line = Line ustr | Broken wire_exn

record http_response =
  hr_status :: nat
  hr_body :: ustr \<comment> \<open>decoded, invalid bytes dropped\<close>
  hr_lines :: "wire_line list"

record llm_request =
  rq_url :: ustr
  rq_model :: ustr
  rq_messages :: "chat_message list"
  rq_temperature :: rat
  rq_max_tokens :: "int option"

record llm_adapter =
  ad_base_url :: ustr
  ad_lower :: "ustr \<Rightarrow> ustr"
  ad_loads :: "ustr \<Rightarrow> json option"
  ad_as_int :: "json \<Rightarrow> int option"

section \<open>Errors\<close>

definition LLM_ERROR_MESSAGES :: "provider_error_code \<Rightarrow> ustr" where
  "LLM_ERROR_MESSAGES c =
     (case c of Auth \<Rightarrow> [0x4E0A, 0x6E38, 0x670D, 0x52D9, 0x9A57, 0x8B49, 0x5931, 0x6557] | Rate_limited \<Rightarrow> [0x4E0A, 0x6E38, 0x670D, 0x52D9, 0x5FD9, 0x788C, 0x4E2D, 0x2C, 0x8ACB, 0x7A0D, 0x5F8C, 0x518D, 0x8A66]
        | Context_length \<Rightarrow> [0x5C0D, 0x8A71, 0x5167, 0x5BB9, 0x904E, 0x9577, 0x2C, 0x8D85, 0x51FA, 0x6A21, 0x578B, 0x4E0A, 0x9650] | Transient \<Rightarrow> [0x4E0A, 0x6E38, 0x670D, 0x52D9, 0x66AB, 0x6642, 0x7121, 0x6CD5, 0x56DE, 0x61C9, 0x2C, 0x8ACB, 0x7A0D, 0x5F8C, 0x518D, 0x8A66]
        | Provider_error \<Rightarrow> [0x4E0A, 0x6E38, 0x670D, 0x52D9, 0x56DE, 0x61C9, 0x7570, 0x5E38])"

definition llm_error :: "provider_error_code \<Rightarrow> stream_event" where
  "llm_error c = StreamError c (LLM_ERROR_MESSAGES c)"

definition llm_map_http_status :: "(ustr \<Rightarrow> ustr) \<Rightarrow> nat \<Rightarrow> ustr \<Rightarrow> provider_error_code" where
  "llm_map_http_status lower status raw =
     (if status \<in> {401, 403} then Auth
      else if status = 429 then Rate_limited
      else if status = 400 then
        (let t = lower raw
         in if sublist (lit ''context'') t \<or> sublist (lit ''length'') t then Context_length else Provider_error)
      else if status \<ge> 500 then Transient
      else Provider_error)"

section \<open>Parsing\<close>

definition py_truthy :: "json \<Rightarrow> bool" where
  "py_truthy v = (case v of JNull \<Rightarrow> False | JBool b \<Rightarrow> b | JInt i \<Rightarrow> i \<noteq> 0 | JStr s \<Rightarrow> s \<noteq> []
     | JList l \<Rightarrow> l \<noteq> [] | JObj d \<Rightarrow> d \<noteq> [])"

text \<open>\<^verbatim>\<open>obj.get(k)\<close>: an \<^verbatim>\<open>AttributeError\<close> on a value that is not a dict; \<open>JNull\<close> stands for a missing key.\<close>

definition json_get :: "json \<Rightarrow> ustr \<Rightarrow> wire_exn + json" where
  "json_get v k =
     (case v of JObj d \<Rightarrow> Inr (case dict_get d k of None \<Rightarrow> JNull | Some x \<Rightarrow> x) | _ \<Rightarrow> Inl Other_exception)"

definition json_item :: "json \<Rightarrow> ustr \<Rightarrow> wire_exn + json" where
  "json_item v k =
     (case v of JObj d \<Rightarrow> (case dict_get d k of None \<Rightarrow> Inl Other_exception | Some x \<Rightarrow> Inr x) | _ \<Rightarrow> Inl Other_exception)"

definition bind_sum :: "'e + 'a \<Rightarrow> ('a \<Rightarrow> 'e + 'b) \<Rightarrow> 'e + 'b" where
  "bind_sum x f = (case x of Inl e \<Rightarrow> Inl e | Inr a \<Rightarrow> f a)"

definition FINISH_MAP :: "(ustr \<times> stop_reason) list" where
  "FINISH_MAP = [(lit ''stop'', End_turn), (lit ''length'', Max_tokens), (lit ''tool_calls'', Tool_use)]"

definition finish_lookup :: "json \<Rightarrow> wire_exn + stop_reason option" where
  "finish_lookup v =
     (case v of JStr s \<Rightarrow> Inr (map_of FINISH_MAP s) | JList _ \<Rightarrow> Inl Other_exception | JObj _ \<Rightarrow> Inl Other_exception
        | _ \<Rightarrow> Inr None)"

definition choice_delta :: "json \<Rightarrow> wire_exn + stream_event list" where
  "choice_delta choice =
     bind_sum (json_get choice (lit ''delta'')) (\<lambda>d.
     bind_sum (if py_truthy d then json_get d (lit ''content'') else Inr JNull) (\<lambda>content.
     if \<not> py_truthy content then Inr []
     else (case content of JStr s \<Rightarrow> Inr [TextDelta s] | _ \<Rightarrow> Inl Other_exception)))"

definition first_choice :: "json \<Rightarrow> wire_exn + json option" where
  "first_choice obj =
     bind_sum (json_get obj (lit ''choices'')) (\<lambda>choices.
     if \<not> py_truthy choices then Inr None
     else (case choices of JList (c # _) \<Rightarrow> Inr (Some c) | _ \<Rightarrow> Inl Other_exception))"

definition read_usage :: "(json \<Rightarrow> int option) \<Rightarrow> json \<Rightarrow> wire_exn + (int \<times> int) option" where
  "read_usage as_int obj =
     bind_sum (json_get obj (lit ''usage'')) (\<lambda>usage.
     if \<not> py_truthy usage then Inr None
     else bind_sum (json_item usage (lit ''prompt_tokens'')) (\<lambda>p.
          bind_sum (json_item usage (lit ''completion_tokens'')) (\<lambda>c.
          case (as_int p, as_int c) of (Some i, Some j) \<Rightarrow> Inr (Some (i, j)) | _ \<Rightarrow> Inl Other_exception)))"

text \<open>One parsed payload: the deltas it yields, then the new stop reason and usage, or an exception.\<close>

definition read_payload :: "(json \<Rightarrow> int option) \<Rightarrow> json \<Rightarrow> stop_reason \<Rightarrow> (int \<times> int) option
    \<Rightarrow> stream_event list \<times> (wire_exn + stop_reason \<times> (int \<times> int) option)" where
  "read_payload as_int obj stop usage =
     (case first_choice obj of
        Inl e \<Rightarrow> ([], Inl e)
      | Inr None \<Rightarrow> ([], bind_sum (read_usage as_int obj) (\<lambda>u. Inr (stop, case u of None \<Rightarrow> usage | Some x \<Rightarrow> Some x)))
      | Inr (Some choice) \<Rightarrow>
          (case choice_delta choice of
             Inl e \<Rightarrow> ([], Inl e)
           | Inr deltas \<Rightarrow>
               (deltas,
                bind_sum (json_get choice (lit ''finish_reason'')) (\<lambda>f.
                bind_sum (finish_lookup f) (\<lambda>mapped.
                bind_sum (read_usage as_int obj) (\<lambda>u.
                Inr (case mapped of None \<Rightarrow> stop | Some r \<Rightarrow> r, case u of None \<Rightarrow> usage | Some x \<Rightarrow> Some x)))))))"

definition DATA_PREFIX :: ustr where "DATA_PREFIX = lit ''data:''"

text \<open>The loop over the lines: the events, then \<^verbatim>\<open>saw_done\<close>, the stop reason and the usage.\<close>

fun read_lines :: "llm_adapter \<Rightarrow> wire_line list \<Rightarrow> stop_reason \<Rightarrow> (int \<times> int) option
    \<Rightarrow> stream_event list \<times> (wire_exn + bool \<times> stop_reason \<times> (int \<times> int) option)" where
  "read_lines ad [] stop usage = ([], Inr (False, stop, usage))"
| "read_lines ad (Broken e # lines) stop usage = ([], Inl e)"
| "read_lines ad (Line raw # lines) stop usage =
     (let line = py_strip raw;
          payload = py_strip (drop (length DATA_PREFIX) line)
      in if \<not> py_prefix DATA_PREFIX line then read_lines ad lines stop usage
         else if payload = lit ''[DONE]'' then ([], Inr (True, stop, usage))
         else (case ad_loads ad payload of
                 None \<Rightarrow> ([], Inl Other_exception)
               | Some obj \<Rightarrow>
                   (case read_payload (ad_as_int ad) obj stop usage of
                      (deltas, Inl e) \<Rightarrow> (deltas, Inl e)
                    | (deltas, Inr (stop', usage')) \<Rightarrow>
                        (let (evs, r) = read_lines ad lines stop' usage' in (deltas @ evs, r)))))"

definition llm_stream :: "llm_adapter \<Rightarrow> wire_exn + http_response \<Rightarrow> stream_event list \<times> wire_exn option" where
  "llm_stream ad resp =
     (case resp of
        Inl e \<Rightarrow> ([], Some e)
      | Inr r \<Rightarrow>
          if hr_status r \<ge> 400 then ([llm_error (llm_map_http_status (ad_lower ad) (hr_status r) (hr_body r))], None)
          else (case read_lines ad (hr_lines r) End_turn None of
                  (evs, Inl e) \<Rightarrow> (evs, Some e)
                | (evs, Inr (saw_done, stop, usage)) \<Rightarrow>
                    if \<not> saw_done then (evs @ [llm_error Transient], None)
                    else (evs @ (case usage of None \<Rightarrow> [] | Some (i, j) \<Rightarrow> [UsageInfo i j]) @ [StreamStop stop], None)))"

definition rstrip_slash :: "ustr \<Rightarrow> ustr" where
  "rstrip_slash s = rev (dropWhile (\<lambda>c. c = 47) (rev s))"

definition llm_request_of :: "llm_adapter \<Rightarrow> chat_message list \<Rightarrow> model_params \<Rightarrow> llm_request" where
  "llm_request_of ad msgs params =
     \<lparr>rq_url = rstrip_slash (ad_base_url ad) @ lit ''/chat/completions'', rq_model = mp_model params,
      rq_messages = msgs, rq_temperature = mp_temperature params, rq_max_tokens = mp_max_tokens params\<rparr>"

definition openai_chat :: "llm_adapter \<Rightarrow> (llm_request \<Rightarrow> wire_exn + http_response) \<Rightarrow> chat_message list \<Rightarrow> model_params
    \<Rightarrow> stream_event list" where
  "openai_chat ad post msgs params =
     (case llm_stream ad (post (llm_request_of ad msgs params)) of
        (evs, None) \<Rightarrow> evs
      | (evs, Some Timeout_exception) \<Rightarrow> evs @ [llm_error Transient]
      | (evs, Some Http_error) \<Rightarrow> evs @ [llm_error Transient]
      | (evs, Some Other_exception) \<Rightarrow> evs @ [llm_error Provider_error])"

section \<open>The adapter keeps the contract\<close>

definition deltas_only :: "stream_event list \<Rightarrow> bool" where
  "deltas_only evs \<longleftrightarrow> (\<forall>e \<in> set evs. \<exists>s. e = TextDelta s)"

lemma ordered_deltas: "deltas_only evs \<Longrightarrow> ordered (evs @ r) = ordered r"
  by (induction evs) (auto simp: deltas_only_def)

lemma choice_delta_deltas: "choice_delta c = Inr evs \<Longrightarrow> deltas_only evs"
  by (auto simp: choice_delta_def bind_sum_def deltas_only_def split: sum.splits if_splits json.splits)

lemma read_payload_deltas: "read_payload as_int obj stop usage = (evs, r) \<Longrightarrow> deltas_only evs"
  by (auto simp: read_payload_def deltas_only_def dest: choice_delta_deltas [unfolded deltas_only_def, rule_format]
      split: sum.splits option.splits)

lemma read_lines_deltas: "read_lines ad lines stop usage = (evs, r) \<Longrightarrow> deltas_only evs"
proof (induction ad lines stop usage arbitrary: evs r rule: read_lines.induct)
  case (3 ad raw lines stop usage)
  note d = read_payload_deltas
  have app: "deltas_only a \<Longrightarrow> deltas_only b \<Longrightarrow> deltas_only (a @ b)" for a b by (auto simp: deltas_only_def)
  have nil: "deltas_only []" by (simp add: deltas_only_def)
  show ?case
    using 3 by (auto simp: Let_def nil intro!: app dest: d split: if_splits option.splits prod.splits sum.splits)
qed (simp_all add: deltas_only_def)

lemma llm_error_terminal [simp]: "ordered [llm_error c]"
  by (simp add: llm_error_def)

lemma openai_chat_ordered: "ordered (openai_chat ad post msgs params)"
proof -
  have s: "case llm_stream ad resp of (evs, None) \<Rightarrow> ordered evs | (evs, Some e) \<Rightarrow> deltas_only evs" for resp
  proof (cases resp)
    case (Inl e)
    then show ?thesis by (simp add: llm_stream_def deltas_only_def)
  next
    case (Inr r)
    obtain evs x where l: "read_lines ad (hr_lines r) End_turn None = (evs, x)" by fastforce
    have d: "deltas_only evs" by (rule read_lines_deltas [OF l])
    show ?thesis
      using Inr l d
      by (auto simp: llm_stream_def ordered_deltas split: sum.split prod.split option.split)
  qed
  show ?thesis
    using s [of "post (llm_request_of ad msgs params)"]
    by (auto simp: openai_chat_def ordered_deltas split: prod.splits option.splits wire_exn.split)
qed

interpretation openai: llm_provider "openai_chat ad" for ad
  by unfold_locales (rule openai_chat_ordered)

text \<open>
  C20: the stream contract. Whatever the upstream service answers - an error status, a timeout, a line that is no JSON, a
  payload of any shape, a connection that breaks in the middle - the adapter yields text deltas, then at most one
  usage report, then exactly one terminal event, and raises nothing.
\<close>

theorem llm_stream_contract:
  "ordered (openai_chat ad post msgs params)
   \<and> (\<exists>evs t. openai_chat ad post msgs params = evs @ [t] \<and> terminal t \<and> filter terminal evs = [])"
  using openai.contract openai.one_terminal by blast

text \<open>
  a truncated answer is an error. If the response ends without \<^verbatim>\<open>[DONE]\<close>, or the transport breaks before it, the stream
  ends in a transient error and no stop event; after \<^verbatim>\<open>[DONE]\<close> with well-formed payloads it ends in a stop event.
\<close>

theorem llm_stream_ends:
  assumes "post (llm_request_of ad msgs params) = Inr r" and "hr_status r < 400"
  shows "(case snd (read_lines ad (hr_lines r) End_turn None) of
       Inr (saw_done, stop, usage) \<Rightarrow>
         last (openai_chat ad post msgs params) = (if saw_done then StreamStop stop else llm_error Transient)
     | Inl e \<Rightarrow> last (openai_chat ad post msgs params) =
         llm_error (if e = Other_exception then Provider_error else Transient))"
  using assms
  by (auto simp: openai_chat_def llm_stream_def split: prod.split sum.split option.split wire_exn.split)

end
