(* ===== verification/Chat.thy ===== *)
theory Chat
  imports Conversations Llm_Adapter
begin

text \<open>
  The core loop, \<^verbatim>\<open>application/chat_orchestrator.py\<close>: one turn of a conversation as an asynchronous
  generator. TXN A stores the user's message and reads the history, the retrieval (if asked for) fills the citations
  and the system prompt, the model's events are passed on as they come, TXN B stores the answer.

  A generator runs in a state \<open>chat_st\<close>: the shared \<open>sys\<close>, the events yielded so far, and the local variables that
  its exception handlers read. \<open>chat_env\<close> is the outside: ids and clocks, the retrieval, the model's
  stream (which may also raise), the faults of the two transactions, what others commit in between, and
  \<open>ce_stop k\<close>, an exception thrown into the generator where it is suspended at its \<open>k\<close>-th event:
  \<open>generator_exit\<close> when the consumer closes it, \<open>cancelled_error\<close> when its task is cancelled.
\<close>

section \<open>Events and state\<close>

record citation_item =
  it_rank :: nat
  it_chunk_id :: uuid
  it_document_id :: uuid
  it_filename :: ustr
  it_snippet :: ustr
  it_score :: rat

datatype chat_event =
    Message_start uuid uuid
  | Citations_event "citation_item list"
  | Delta ustr
  | Done uuid ustr "int option" "int option" int
  | Error_event ustr ustr ustr

record turn =
  t_user_message_id :: uuid
  t_assistant_message_id :: uuid
  t_history :: "chat_message list"
  t_system_prompt :: ustr
  t_params :: model_params
  t_title_is_none :: bool
  t_source_ids :: "uuid list option"
  t_citations :: "retrieved_chunk list"

datatype llm_item = Ev stream_event | Raise exn

datatype chat_point = Txn_a | Txn_b | Ack_b | Bg_b | At_broker

record chat_cfg =
  cc_models :: models_yaml
  cc_system_prompt :: ustr
  cc_history_max :: nat
  cc_top_n :: nat
  cc_char_budget :: int
  cc_pstr :: "json \<Rightarrow> ustr"
  cc_llm_name :: ustr

record chat_env =
  ce_user_message_id :: uuid
  ce_assistant_message_id :: uuid
  ce_usage_id :: uuid
  ce_citation_id :: "nat \<Rightarrow> uuid"
  ce_now_a :: time
  ce_now_b :: time
  ce_latency :: int
  ce_retrieve :: "auth_context \<Rightarrow> ustr \<Rightarrow> uuid list option \<Rightarrow> nat \<Rightarrow> (sys, retrieved_chunk list) eff"
  ce_llm :: "chat_message list \<Rightarrow> model_params \<Rightarrow> llm_item list"
  ce_fault :: "chat_point \<Rightarrow> exn option"
  ce_between :: "db \<Rightarrow> db"
  ce_stop :: "nat \<Rightarrow> exn option"

record chat_st =
  ch_sys :: sys
  ch_events :: "chat_event list"
  ch_buffer :: "ustr list"
  ch_tokens :: "int option \<times> int option"
  ch_stop :: stop_reason

definition on_sys :: "(sys, 'a) eff \<Rightarrow> (chat_st, 'a) eff" where
  "on_sys m s = (case m (ch_sys s) of (r, t) \<Rightarrow> (r, s\<lparr>ch_sys := t\<rparr>))"

definition emit_event :: "chat_env \<Rightarrow> chat_event \<Rightarrow> (chat_st, unit) eff" where
  \<comment> \<open>\<^verbatim>\<open>yield\<close>: the event is delivered, then the consumer resumes or stops the generator\<close>
  "emit_event env ev =
     bnd (look (\<lambda>s. length (ch_events s))) (\<lambda>k.
     bnd (change (\<lambda>s. s\<lparr>ch_events := ch_events s @ [ev]\<rparr>)) (\<lambda>_.
     guard_fault (ce_stop env k)))"

text \<open>The two exceptions that are no \<^verbatim>\<open>Exception\<close>.\<close>

definition generator_exit :: exn where "generator_exit = PyError (lit ''GeneratorExit'') []"
definition cancelled_error :: exn where "cancelled_error = PyError (lit ''CancelledError'') []"

definition base_only :: "exn \<Rightarrow> bool" where
  "base_only e \<longleftrightarrow> e = generator_exit \<or> e = cancelled_error"

definition try_except :: "('s, 'a) eff \<Rightarrow> (exn \<Rightarrow> ('s, 'a) eff) \<Rightarrow> ('s, 'a) eff" where
  \<comment> \<open>\<^verbatim>\<open>except Exception\<close>\<close>
  "try_except m h = try_with m (\<lambda>e. if base_only e then throw e else h e)"

section \<open>Rows and payloads\<close>

definition prompt_of :: "turn \<Rightarrow> chat_message list" where
  "prompt_of turn = \<lparr>cm_role = Role_system, cm_content = t_system_prompt turn\<rparr> # t_history turn"

definition content_meta :: "turn \<Rightarrow> dict \<Rightarrow> dict" where
  "content_meta turn extra =
     (case t_source_ids turn of
        None \<Rightarrow> extra
      | Some ids \<Rightarrow> dict_set (lit ''rag'')
          (JObj [(lit ''source_ids'', JList (map (\<lambda>i. JStr (uuid_str i)) ids)),
                 (lit ''top_n'', JInt (int (length (t_citations turn))))]) extra)"

definition citation_items :: "retrieved_chunk list \<Rightarrow> citation_item list" where
  "citation_items chunks =
     map (\<lambda>(rank, c). \<lparr>it_rank = rank, it_chunk_id = rc_chunk_id c, it_document_id = rc_document_id c,
            it_filename = rc_filename c, it_snippet = take SNIPPET_MAX_CHARS (rc_text c), it_score = rc_score c\<rparr>)
       (enumerate 1 chunks)"

definition citation_rows :: "chat_env \<Rightarrow> turn \<Rightarrow> message_citation list" where
  "citation_rows env turn =
     map (\<lambda>(rank, c). \<lparr>ci_id = ce_citation_id env rank, ci_message_id = t_assistant_message_id turn,
            ci_chunk_id = Some (rc_chunk_id c), ci_document_id = Some (rc_document_id c),
            ci_filename = rc_filename c, ci_snippet = take SNIPPET_MAX_CHARS (rc_text c), ci_score = rc_score c,
            ci_rank = rank, ci_created_at = ce_now_b env\<rparr>)
       (enumerate 1 (t_citations turn))"

definition assistant_message :: "chat_cfg \<Rightarrow> chat_env \<Rightarrow> uuid \<Rightarrow> turn \<Rightarrow> ustr list \<Rightarrow> dict
    \<Rightarrow> int option \<times> int option \<Rightarrow> int option \<Rightarrow> message" where
  "assistant_message cfg env cid turn buffer meta tokens latency_ms =
     \<lparr>m_id = t_assistant_message_id turn, m_conversation_id = cid, m_role = Role_assistant, m_content = concat buffer,
      m_content_meta = content_meta turn meta, m_client_message_id = None, m_provider = Some (cc_llm_name cfg),
      m_model = Some (mp_model (t_params turn)), m_tokens_in = fst tokens, m_tokens_out = snd tokens,
      m_latency_ms = latency_ms, m_created_at = ce_now_b env\<rparr>"

definition assistant_partial :: "chat_cfg \<Rightarrow> chat_env \<Rightarrow> uuid \<Rightarrow> turn \<Rightarrow> ustr list \<Rightarrow> dict \<Rightarrow> message" where
  "assistant_partial cfg env cid turn buffer meta = assistant_message cfg env cid turn buffer meta (None, None) None"

definition usage_log_of :: "chat_cfg \<Rightarrow> chat_env \<Rightarrow> auth_context \<Rightarrow> uuid \<Rightarrow> turn \<Rightarrow> int option \<times> int option \<Rightarrow> int option
    \<Rightarrow> usage_status \<Rightarrow> ustr option \<Rightarrow> usage_log" where
  "usage_log_of cfg env ctx cid turn tokens latency_ms status error_code =
     \<lparr>ul_id = ce_usage_id env, ul_user_id = Some (ctx_user_id ctx), ul_conversation_id = Some cid,
      ul_message_id = Some (t_assistant_message_id turn), ul_channel = lit ''web'', ul_provider = cc_llm_name cfg,
      ul_model = mp_model (t_params turn), ul_tokens_in = fst tokens, ul_tokens_out = snd tokens,
      ul_latency_ms = latency_ms, ul_status = status, ul_error_code = error_code, ul_created_at = ce_now_b env\<rparr>"

definition user_message :: "chat_env \<Rightarrow> uuid \<Rightarrow> ustr \<Rightarrow> uuid option \<Rightarrow> message" where
  "user_message env cid content client_message_id =
     \<lparr>m_id = ce_user_message_id env, m_conversation_id = cid, m_role = Role_user, m_content = content,
      m_content_meta = [], m_client_message_id = client_message_id, m_provider = None, m_model = None,
      m_tokens_in = None, m_tokens_out = None, m_latency_ms = None, m_created_at = ce_now_a env\<rparr>"

definition RETRIEVAL_FAILED_MESSAGE :: ustr where "RETRIEVAL_FAILED_MESSAGE = [0x77E5, 0x8B58, 0x5EAB, 0x6AA2, 0x7D22, 0x66AB, 0x6642, 0x7121, 0x6CD5, 0x4F7F, 0x7528, 0x2C, 0x8ACB, 0x7A0D, 0x5F8C, 0x518D, 0x8A66]"
definition PERSIST_FAILED_MESSAGE :: ustr where
  "PERSIST_FAILED_MESSAGE = [0x4F3A, 0x670D, 0x5668, 0x66AB, 0x6642, 0x767C, 0x751F, 0x932F, 0x8AA4, 0x2C, 0x56DE, 0x8986, 0x672A, 0x80FD, 0x5132, 0x5B58, 0x2C, 0x8ACB, 0x7A0D, 0x5F8C, 0x518D, 0x8A66]"

definition internal_error :: ustr where "internal_error = lit ''internal_error''"

definition FINISH_REASON :: "stop_reason \<Rightarrow> ustr" where
  "FINISH_REASON r = (case r of End_turn \<Rightarrow> lit ''stop'' | Max_tokens \<Rightarrow> lit ''length'' | Tool_use \<Rightarrow> lit ''stop'')"

section \<open>TXN A\<close>

fun assert_sources_owned :: "auth_context \<Rightarrow> uuid list \<Rightarrow> (sys, unit) eff" where
  "assert_sources_owned ctx [] = ret ()"
| "assert_sources_owned ctx (i # ids) =
     bnd (query (\<lambda>s. source_get_owned s (ctx_user_id ctx) i)) (\<lambda>source.
     if source = None then throw (App SourceNotFound) else assert_sources_owned ctx ids)"

definition prepare_turn :: "chat_cfg \<Rightarrow> chat_env \<Rightarrow> auth_context \<Rightarrow> uuid \<Rightarrow> ustr \<Rightarrow> uuid option \<Rightarrow> uuid list option
    \<Rightarrow> (sys, turn) eff" where
  "prepare_turn cfg env ctx cid content client_message_id source_ids =
     in_session
       (bnd (query (\<lambda>s. conv_get_owned s (ctx_user_id ctx) cid)) (\<lambda>found.
        case found of
          None \<Rightarrow> throw (App ConversationNotFound)
        | Some conv \<Rightarrow>
            bnd (assert_sources_owned ctx (case source_ids of None \<Rightarrow> [] | Some ids \<Rightarrow> ids)) (\<lambda>_.
            bnd (try_with (stmt_exn (message_add (user_message env cid content client_message_id)))
                   (\<lambda>e. if e = IntegrityError then bnd rollback (\<lambda>_. throw (App DuplicateMessage)) else throw e)) (\<lambda>_.
            bnd (query (\<lambda>s. message_list_recent s cid (cc_history_max cfg))) (\<lambda>history.
            case resolve_alias (cc_models cfg) (c_model_alias conv) of
              Inl e \<Rightarrow> throw e
            | Inr resolved \<Rightarrow>
                bnd (guard_fault (ce_fault env Txn_a)) (\<lambda>_.
                bnd commit (\<lambda>_.
                ret \<lparr>t_user_message_id = ce_user_message_id env, t_assistant_message_id = ce_assistant_message_id env,
                     t_history = map (\<lambda>m. \<lparr>cm_role = m_role m, cm_content = m_content m\<rparr>) history,
                     t_system_prompt = cc_system_prompt cfg,
                     t_params = \<lparr>mp_model = rm_model resolved, mp_temperature = rm_temperature resolved,
                                 mp_max_tokens = rm_max_tokens resolved\<rparr>,
                     t_title_is_none = (c_title conv = None), t_source_ids = source_ids, t_citations = []\<rparr>)))))))"

section \<open>Retrieval\<close>

definition retrieve_turn :: "chat_cfg \<Rightarrow> chat_env \<Rightarrow> auth_context \<Rightarrow> ustr \<Rightarrow> turn \<Rightarrow> (sys, turn) eff" where
  "retrieve_turn cfg env ctx content turn =
     bnd (ce_retrieve env ctx content (if t_source_ids turn = Some [] then None else t_source_ids turn) (cc_top_n cfg)) (\<lambda>chunks.
     let (system_prompt, used) = rag_system_prompt (cc_pstr cfg) (cc_system_prompt cfg) chunks (cc_char_budget cfg)
     in ret (turn\<lparr>t_system_prompt := system_prompt, t_citations := used\<rparr>))"

section \<open>TXN B\<close>

text \<open>Others commit first, then the transaction runs to its commit; \<open>p\<close> is where it can fail before that.\<close>

definition txn_b :: "chat_env \<Rightarrow> chat_point \<Rightarrow> (sys, unit) eff \<Rightarrow> (sys, unit) eff" where
  "txn_b env p m =
     bnd (race (ce_between env)) (\<lambda>_.
     bnd (in_session (bnd m (\<lambda>_. bnd (guard_fault (ce_fault env p)) (\<lambda>_. commit)))) (\<lambda>_.
     if p = Bg_b then ret () else guard_fault (ce_fault env Ack_b)))"

definition add_citations :: "chat_env \<Rightarrow> turn \<Rightarrow> (sys, unit) eff" where
  "add_citations env turn = stmt_exn (citations_add_all (citation_rows env turn))"

definition bump_and_log :: "chat_env \<Rightarrow> uuid \<Rightarrow> usage_log \<Rightarrow> (sys, unit) eff" where
  "bump_and_log env cid entry =
     bnd (stmt (conv_bump_updated_at cid (ce_now_b env))) (\<lambda>_. stmt_exn (usage_add entry))"

definition persist_success :: "chat_cfg \<Rightarrow> chat_env \<Rightarrow> auth_context \<Rightarrow> uuid \<Rightarrow> turn \<Rightarrow> ustr list
    \<Rightarrow> int option \<times> int option \<Rightarrow> int \<Rightarrow> (sys, unit) eff" where
  "persist_success cfg env ctx cid turn buffer tokens latency_ms =
     bnd (txn_b env Txn_b
       (bnd (stmt_exn (message_add (assistant_message cfg env cid turn buffer [] tokens (Some latency_ms)))) (\<lambda>_.
        bnd (add_citations env turn) (\<lambda>_.
        bump_and_log env cid (usage_log_of cfg env ctx cid turn tokens (Some latency_ms) U_ok None))))) (\<lambda>_.
     if t_title_is_none turn
     then try_with (bnd (guard_fault (ce_fault env At_broker)) (\<lambda>_. enqueue (Title_call cid) 0 0)) (\<lambda>_. ret ())
     else ret ())"

definition persist_error :: "chat_cfg \<Rightarrow> chat_env \<Rightarrow> auth_context \<Rightarrow> uuid \<Rightarrow> turn \<Rightarrow> ustr list \<Rightarrow> ustr \<Rightarrow> (sys, unit) eff" where
  "persist_error cfg env ctx cid turn buffer error_code =
     txn_b env Txn_b
       (bnd (if buffer \<noteq> [] then
               bnd (stmt_exn (message_add (assistant_partial cfg env cid turn buffer
                 [(lit ''partial'', JBool True), (lit ''error_code'', JStr error_code)]))) (\<lambda>_.
               add_citations env turn)
             else ret ()) (\<lambda>_.
        bump_and_log env cid (usage_log_of cfg env ctx cid turn (None, None) None U_error (Some error_code))))"

definition persist_cancelled :: "chat_cfg \<Rightarrow> chat_env \<Rightarrow> chat_point \<Rightarrow> auth_context \<Rightarrow> uuid \<Rightarrow> turn \<Rightarrow> ustr list \<Rightarrow> (sys, unit) eff" where
  "persist_cancelled cfg env p ctx cid turn buffer =
     (if buffer = [] then ret ()
      else txn_b env p
        (bnd (stmt_exn (message_add (assistant_partial cfg env cid turn buffer [(lit ''partial'', JBool True)]))) (\<lambda>_.
         bnd (add_citations env turn) (\<lambda>_.
         bump_and_log env cid (usage_log_of cfg env ctx cid turn (None, None) None U_ok None)))))"

definition persist_error_guarded :: "chat_cfg \<Rightarrow> chat_env \<Rightarrow> auth_context \<Rightarrow> uuid \<Rightarrow> turn \<Rightarrow> ustr list \<Rightarrow> ustr \<Rightarrow> (sys, unit) eff" where
  "persist_error_guarded cfg env ctx cid turn buffer error_code =
     try_except (persist_error cfg env ctx cid turn buffer error_code) (\<lambda>_. ret ())"

definition persist_cancelled_guarded :: "chat_cfg \<Rightarrow> chat_env \<Rightarrow> auth_context \<Rightarrow> uuid \<Rightarrow> turn \<Rightarrow> ustr list \<Rightarrow> (sys, unit) eff" where
  \<comment> \<open>a detached task: nobody sees how it ends\<close>
  "persist_cancelled_guarded cfg env ctx cid turn buffer =
     try_with (persist_cancelled cfg env Bg_b ctx cid turn buffer) (\<lambda>_. ret ())"

section \<open>The stream\<close>

datatype loop_exit = Finished | Returned

fun chat_loop :: "chat_cfg \<Rightarrow> chat_env \<Rightarrow> auth_context \<Rightarrow> uuid \<Rightarrow> turn \<Rightarrow> llm_item list \<Rightarrow> (chat_st, loop_exit) eff" where
  "chat_loop cfg env ctx cid turn [] = ret Finished"
| "chat_loop cfg env ctx cid turn (Raise e # items) = throw e"
| "chat_loop cfg env ctx cid turn (Ev (TextDelta text) # items) =
     bnd (change (\<lambda>s. s\<lparr>ch_buffer := ch_buffer s @ [text]\<rparr>)) (\<lambda>_.
     bnd (emit_event env (Delta text)) (\<lambda>_.
     chat_loop cfg env ctx cid turn items))"
| "chat_loop cfg env ctx cid turn (Ev (UsageInfo i j) # items) =
     bnd (change (\<lambda>s. s\<lparr>ch_tokens := (Some i, Some j)\<rparr>)) (\<lambda>_.
     chat_loop cfg env ctx cid turn items)"
| "chat_loop cfg env ctx cid turn (Ev (StreamError code message) # items) =
     bnd (look ch_buffer) (\<lambda>buffer.
     bnd (try_except (on_sys (persist_error cfg env ctx cid turn buffer (code_str code))) (\<lambda>_. ret ())) (\<lambda>_.
     bnd (emit_event env (Error_event (code_str code) message (ctx_trace_id ctx))) (\<lambda>_.
     ret Returned)))"
| "chat_loop cfg env ctx cid turn (Ev (StreamStop r) # items) =
     bnd (change (\<lambda>s. s\<lparr>ch_stop := r\<rparr>)) (\<lambda>_. ret Finished)"
| "chat_loop cfg env ctx cid turn (Ev (ToolCallRequest a b c) # items) = chat_loop cfg env ctx cid turn items"

definition on_close :: "chat_cfg \<Rightarrow> chat_env \<Rightarrow> auth_context \<Rightarrow> uuid \<Rightarrow> turn \<Rightarrow> exn \<Rightarrow> (chat_st, loop_exit) eff" where
  "on_close cfg env ctx cid turn e =
     bnd (look ch_buffer) (\<lambda>buffer.
     bnd (if e = generator_exit
          then try_except (on_sys (persist_cancelled cfg env Txn_b ctx cid turn buffer)) (\<lambda>_. ret ())
          else if e = cancelled_error
          then on_sys (persist_cancelled_guarded cfg env ctx cid turn buffer)
          else ret ()) (\<lambda>_.
     throw e))"

definition retrieval_failed :: "chat_cfg \<Rightarrow> chat_env \<Rightarrow> auth_context \<Rightarrow> uuid \<Rightarrow> turn \<Rightarrow> exn \<Rightarrow> (chat_st, turn option) eff" where
  "retrieval_failed cfg env ctx cid turn e =
     (let (code, message) = (case e of EmbeddingError c m \<Rightarrow> (code_str c, m)
                                     | _ \<Rightarrow> (internal_error, RETRIEVAL_FAILED_MESSAGE))
      in bnd (on_sys (persist_error_guarded cfg env ctx cid turn [] code)) (\<lambda>_.
         bnd (emit_event env (Error_event code message (ctx_trace_id ctx))) (\<lambda>_.
         ret None)))"

definition announce_citations :: "chat_env \<Rightarrow> turn \<Rightarrow> (chat_st, turn option) eff" where
  "announce_citations env turn =
     bnd (if t_citations turn \<noteq> [] then emit_event env (Citations_event (citation_items (t_citations turn)))
          else ret ()) (\<lambda>_.
     ret (Some turn))"

definition retrieval_phase :: "chat_cfg \<Rightarrow> chat_env \<Rightarrow> auth_context \<Rightarrow> uuid \<Rightarrow> ustr \<Rightarrow> turn \<Rightarrow> (chat_st, turn option) eff" where
  \<comment> \<open>the turn to go on with, or \<open>None\<close> after an early return\<close>
  "retrieval_phase cfg env ctx cid content turn =
     (if t_source_ids turn = None then ret (Some turn)
      else
        bnd (try_except (bnd (on_sys (retrieve_turn cfg env ctx content turn)) (\<lambda>t. ret (Inr t))) (\<lambda>e. ret (Inl e))) (\<lambda>result.
        case result of
          Inl e \<Rightarrow> retrieval_failed cfg env ctx cid turn e
        | Inr turn \<Rightarrow> announce_citations env turn))"

definition finish_phase :: "chat_cfg \<Rightarrow> chat_env \<Rightarrow> auth_context \<Rightarrow> uuid \<Rightarrow> turn \<Rightarrow> (chat_st, unit) eff" where
  "finish_phase cfg env ctx cid turn =
     bnd (look (\<lambda>s. (ch_buffer s, ch_tokens s, ch_stop s))) (\<lambda>(buffer, tokens, stop).
     bnd (try_except (bnd (on_sys (persist_success cfg env ctx cid turn buffer tokens (ce_latency env))) (\<lambda>_. ret True))
            (\<lambda>_. ret False)) (\<lambda>ok.
     if ok then emit_event env (Done (t_assistant_message_id turn) (FINISH_REASON stop) (fst tokens) (snd tokens)
                                  (ce_latency env))
     else emit_event env (Error_event internal_error PERSIST_FAILED_MESSAGE (ctx_trace_id ctx))))"

definition stream_reply :: "chat_cfg \<Rightarrow> chat_env \<Rightarrow> auth_context \<Rightarrow> uuid \<Rightarrow> ustr \<Rightarrow> uuid option \<Rightarrow> uuid list option
    \<Rightarrow> (chat_st, unit) eff" where
  "stream_reply cfg env ctx cid content client_message_id source_ids =
     bnd (on_sys (prepare_turn cfg env ctx cid content client_message_id source_ids)) (\<lambda>turn.
     bnd (emit_event env (Message_start (t_user_message_id turn) (t_assistant_message_id turn))) (\<lambda>_.
     bnd (retrieval_phase cfg env ctx cid content turn) (\<lambda>next_turn.
     case next_turn of
       None \<Rightarrow> ret ()
     | Some turn \<Rightarrow>
         bnd (try_with (chat_loop cfg env ctx cid turn (ce_llm env (prompt_of turn) (t_params turn)))
                (on_close cfg env ctx cid turn)) (\<lambda>exit.
         case exit of Returned \<Rightarrow> ret () | Finished \<Rightarrow> finish_phase cfg env ctx cid turn))))"

definition chat_start :: "sys \<Rightarrow> chat_st" where
  "chat_start s = \<lparr>ch_sys = s, ch_events = [], ch_buffer = [], ch_tokens = (None, None), ch_stop = End_turn\<rparr>"

definition run_chat :: "chat_cfg \<Rightarrow> chat_env \<Rightarrow> auth_context \<Rightarrow> uuid \<Rightarrow> ustr \<Rightarrow> uuid option \<Rightarrow> uuid list option
    \<Rightarrow> sys \<Rightarrow> (exn + unit) \<times> chat_st" where
  "run_chat cfg env ctx cid content client_message_id source_ids s =
     stream_reply cfg env ctx cid content client_message_id source_ids (chat_start s)"

end
