(* ===== verification/Chat_Correct.thy ===== *)
theory Chat_Correct
  imports Chat
begin

text \<open>
  What a chat turn promises: the order of its events and exactly one terminal event; that what is stored is what was
  streamed, with the citations that were announced; that a reader who disconnects leaves a partial answer; and what
  happens before the stream starts.
\<close>

section \<open>Weakest preconditions of generators\<close>

lemma wp_on_sys [wp_simps]:
  "wp (on_sys m) Q E s = wp m (\<lambda>a t. Q a (s\<lparr>ch_sys := t\<rparr>)) (\<lambda>e t. E e (s\<lparr>ch_sys := t\<rparr>)) (ch_sys s)"
  by (simp add: wp_def on_sys_def split: prod.split sum.split)

lemma wp_emit [wp_simps]:
  "wp (emit_event env ev) Q E s =
     (case ce_stop env (length (ch_events s)) of
        None \<Rightarrow> Q () (s\<lparr>ch_events := ch_events s @ [ev]\<rparr>)
      | Some e \<Rightarrow> E e (s\<lparr>ch_events := ch_events s @ [ev]\<rparr>))"
  by (simp add: emit_event_def wp_simps)

lemma wp_try_except [wp_simps]:
  "wp (try_except m h) Q E s = wp m Q (\<lambda>e t. if base_only e then E e t else wp (h e) Q E t) s"
  by (simp add: try_except_def wp_def try_with_def throw_def split: prod.split sum.split)

lemma wp_any: "(\<And>a t. Q a t) \<Longrightarrow> (\<And>e t. E e t) \<Longrightarrow> wp m Q E s"
  by (simp add: wp_def split: prod.split sum.split)

section \<open>The order of events\<close>

text \<open>Phases: 0 before the start, 1 started, 2 after citations or deltas, 3 after the terminal event.\<close>

fun next_phase :: "nat \<Rightarrow> chat_event \<Rightarrow> nat option" where
  "next_phase p (Message_start _ _) = (if p = 0 then Some 1 else None)"
| "next_phase p (Citations_event _) = (if p = 1 then Some 2 else None)"
| "next_phase p (Delta _) = (if p = 1 \<or> p = 2 then Some 2 else None)"
| "next_phase p _ = (if p = 1 \<or> p = 2 then Some 3 else None)"

fun phase_from :: "nat \<Rightarrow> chat_event list \<Rightarrow> nat option" where
  "phase_from p [] = Some p"
| "phase_from p (ev # es) = (case next_phase p ev of None \<Rightarrow> None | Some q \<Rightarrow> phase_from q es)"

abbreviation phase :: "chat_event list \<Rightarrow> nat option" where "phase \<equiv> phase_from 0"

lemma phase_snoc: "phase_from p (es @ [ev]) = (case phase_from p es of None \<Rightarrow> None | Some q \<Rightarrow> next_phase q ev)"
  by (induction p es rule: phase_from.induct) (auto split: option.split)

definition streaming :: "chat_st \<Rightarrow> bool" where
  "streaming s \<longleftrightarrow> phase (ch_events s) = Some 1 \<or> phase (ch_events s) = Some 2"

definition in_order :: "chat_st \<Rightarrow> bool" where "in_order s \<longleftrightarrow> phase (ch_events s) \<noteq> None"

lemma in_order_simps [simp]:
  "in_order (s\<lparr>ch_sys := x\<rparr>) = in_order s" "in_order (s\<lparr>ch_buffer := b\<rparr>) = in_order s"
  "in_order (s\<lparr>ch_tokens := k\<rparr>) = in_order s" "in_order (s\<lparr>ch_stop := r\<rparr>) = in_order s"
  by (simp_all add: in_order_def)

lemma streaming_simps [simp]:
  "streaming (s\<lparr>ch_sys := x\<rparr>) = streaming s" "streaming (s\<lparr>ch_buffer := b\<rparr>) = streaming s"
  "streaming (s\<lparr>ch_tokens := k\<rparr>) = streaming s" "streaming (s\<lparr>ch_stop := r\<rparr>) = streaming s"
  by (simp_all add: streaming_def)

lemma streaming_emit:
  "streaming s \<Longrightarrow> streaming (s\<lparr>ch_events := ch_events s @ [Delta x]\<rparr>)"
  "streaming s \<Longrightarrow> phase (ch_events s @ [Error_event a b c]) = Some 3"
  "streaming s \<Longrightarrow> phase (ch_events s @ [Done i r j k l]) = Some 3"
  by (auto simp: streaming_def phase_snoc)

lemma streaming_in_order: "streaming s \<Longrightarrow> in_order s"
  by (auto simp: streaming_def in_order_def)

lemma emit_in_order:
  "streaming s \<Longrightarrow> in_order (s\<lparr>ch_sys := x, ch_events := ch_events s @ [Delta a]\<rparr>)"
  "streaming s \<Longrightarrow> in_order (s\<lparr>ch_buffer := b, ch_events := ch_events s @ [Delta a]\<rparr>)"
  "streaming s \<Longrightarrow> in_order (s\<lparr>ch_sys := x, ch_events := ch_events s @ [Error_event a' b' c]\<rparr>)"
  "streaming s \<Longrightarrow> in_order (s\<lparr>ch_sys := x, ch_events := ch_events s @ [Done i r j k l]\<rparr>)"
  by (auto simp: streaming_def in_order_def phase_snoc)

definition loop_phase :: "loop_exit \<Rightarrow> chat_st \<Rightarrow> bool" where
  "loop_phase x t \<longleftrightarrow> (if x = Returned then phase (ch_events t) = Some 3 else streaming t)"

lemma wp_loop_phase:
  "streaming s \<Longrightarrow> wp (chat_loop cfg env ctx cid turn items) loop_phase (\<lambda>_ t. in_order t) s"
proof (induction cfg env ctx cid turn items arbitrary: s rule: chat_loop.induct)
  case (3 cfg env ctx cid turn x items)
  have "streaming (s\<lparr>ch_buffer := ch_buffer s @ [x], ch_events := ch_events s @ [Delta x]\<rparr>)"
    using streaming_emit(1) [of "s\<lparr>ch_buffer := ch_buffer s @ [x]\<rparr>" x] 3(2) by simp
  with 3 show ?case
    by (auto simp: wp_simps emit_in_order split: option.split)
next
  case (5 cfg env ctx cid turn code message items)
  then show ?case
    by (auto simp: wp_simps loop_phase_def streaming_emit emit_in_order streaming_in_order intro!: wp_any split: option.split)
qed (auto simp: wp_simps loop_phase_def streaming_emit emit_in_order streaming_in_order)

lemma wp_close_phase:
  assumes "in_order s"
  shows "wp (on_close cfg env ctx cid turn e) Q (\<lambda>_ t. in_order t) s"
  using assms by (auto simp: on_close_def wp_simps intro!: wp_any)

lemma wp_finish_phase:
  assumes "streaming s"
  shows "wp (finish_phase cfg env ctx cid turn) (\<lambda>_ t. phase (ch_events t) = Some 3) (\<lambda>_ t. in_order t) s"
  using assms
  by (auto simp: finish_phase_def wp_simps streaming_emit emit_in_order streaming_in_order split_beta intro!: wp_any split: option.split)

lemma wp_retrieval_phase:
  assumes "phase (ch_events s) = Some 1"
  shows "wp (retrieval_phase cfg env ctx cid content turn)
     (\<lambda>x t. if x = None then phase (ch_events t) = Some 3 else streaming t) (\<lambda>_. in_order) s"
proof -
  let ?Q = "\<lambda>x t. if x = None then phase (ch_events t) = Some 3 else streaming t"
  have s: "streaming s" using assms by (simp add: streaming_def)
  have failed: "wp (retrieval_failed cfg env ctx cid turn e) ?Q (\<lambda>_. in_order) (s\<lparr>ch_sys := x\<rparr>)" for e x
    by (auto simp: retrieval_failed_def wp_simps Let_def split_beta streaming_emit(2) [OF s] emit_in_order(3) [OF s]
        streaming_in_order [OF s] intro!: wp_any split: option.split)
  have "wp (announce_citations env turn') ?Q (\<lambda>_. in_order) (s\<lparr>ch_sys := x\<rparr>)" for turn' x
    using assms by (auto simp: announce_citations_def wp_simps streaming_def in_order_def phase_snoc split: option.split)
  with failed s show ?thesis
    by (auto simp: retrieval_phase_def wp_simps wp_fun streaming_in_order intro!: wp_any)
qed

lemma wp_stream_phase:
  assumes "ch_events s = []"
  shows "wp (stream_reply cfg env ctx cid content client_message_id source_ids)
     (\<lambda>_ t. phase (ch_events t) = Some 3) (\<lambda>_. in_order) s"
proof -
  have start: "phase [Message_start i j] = Some 1" for i j by simp
  have rest: "wp (try_with (chat_loop cfg env ctx cid turn items) (on_close cfg env ctx cid turn))
      (\<lambda>exit. wp (case exit of Returned \<Rightarrow> ret () | Finished \<Rightarrow> finish_phase cfg env ctx cid turn)
         (\<lambda>_ t. phase (ch_events t) = Some 3) (\<lambda>_. in_order)) (\<lambda>_. in_order) t"
    if "streaming t" for turn items t
    unfolding wp_try
    by (rule wp_mono [OF wp_loop_phase [OF that]])
      (auto simp: loop_phase_def wp_ret wp_finish_phase wp_close_phase split: loop_exit.split)
  have retrieval: "wp (retrieval_phase cfg env ctx cid content turn) (\<lambda>next_turn. wp (case next_turn of
       None \<Rightarrow> ret ()
     | Some turn \<Rightarrow>
         bnd (try_with (chat_loop cfg env ctx cid turn (ce_llm env (prompt_of turn) (t_params turn)))
                (on_close cfg env ctx cid turn)) (\<lambda>exit.
         case exit of Returned \<Rightarrow> ret () | Finished \<Rightarrow> finish_phase cfg env ctx cid turn))
       (\<lambda>_ t. phase (ch_events t) = Some 3) (\<lambda>_. in_order)) (\<lambda>_. in_order) t"
    if "phase (ch_events t) = Some 1" for turn t
    by (rule wp_mono [OF wp_retrieval_phase [OF that]])
      (auto simp: wp_ret wp_bnd rest split: option.split)
  show ?thesis
    unfolding stream_reply_def wp_bnd wp_on_sys
    using assms retrieval
    by (auto simp: wp_emit in_order_def intro!: wp_any split: option.split)
qed

lemma wp_run_phase:
  "wp (stream_reply cfg env ctx cid content client_message_id source_ids)
     (\<lambda>_ t. phase (ch_events t) = Some 3) (\<lambda>_. in_order) (chat_start s)"
  by (rule wp_stream_phase) (simp add: chat_start_def)

text \<open>
  C7: the order of events. Whatever the retrieval, the model, the database, the broker and the consumer do, the events of
  a reply are \<^verbatim>\<open>message_start\<close>, at most one \<^verbatim>\<open>citations\<close>, any number of \<^verbatim>\<open>delta\<close>s, then \<^verbatim>\<open>done\<close> or \<^verbatim>\<open>error\<close>, or a
  prefix of that; and whenever the generator returns, it has yielded exactly one terminal event, last.
\<close>

theorem chat_event_order:
  "case run_chat cfg env ctx cid content client_message_id source_ids s of
     (Inr _, t) \<Rightarrow> phase (ch_events t) = Some 3
   | (Inl _, t) \<Rightarrow> phase (ch_events t) \<noteq> None"
  using wp_run_phase [of cfg env ctx cid content client_message_id source_ids s]
  by (auto simp: wp_def run_chat_def in_order_def split: prod.splits sum.splits)

section \<open>Every stream is answered to its end\<close>

text \<open>\<open>raises P m\<close>: \<open>m\<close> raises at most exceptions in \<open>P\<close>.\<close>

definition raises :: "(exn \<Rightarrow> bool) \<Rightarrow> ('s, 'a) eff \<Rightarrow> bool" where
  "raises P m \<longleftrightarrow> (\<forall>s. wp m (\<lambda>_ _. True) (\<lambda>e _. P e) s)"

abbreviation tame :: "('s, 'a) eff \<Rightarrow> bool" where "tame \<equiv> raises (\<lambda>e. \<not> base_only e)"
abbreviation silent :: "('s, 'a) eff \<Rightarrow> bool" where "silent \<equiv> raises (\<lambda>e. False)"

named_theorems raises_intros \<open>what effects can raise\<close>

lemma raisesD: "raises P m \<Longrightarrow> (\<And>a t. Q a t) \<Longrightarrow> (\<And>e t. P e \<Longrightarrow> E e t) \<Longrightarrow> wp m Q E s"
  using wp_mono [of m "\<lambda>_ _. True" "\<lambda>e _. P e" s Q E] by (simp add: raises_def)

lemma raises_bnd [raises_intros]: "raises P m \<Longrightarrow> (\<And>a. raises P (f a)) \<Longrightarrow> raises P (bnd m f)"
  unfolding raises_def [of P "bnd m f"] wp_bnd by (auto intro!: raisesD [of P m] simp: raises_def [of P "f a" for a])

lemma raises_simple [raises_intros]:
  "raises P (ret a)" "raises P (stmt f)" "raises P (query g)" "raises P (look h)" "raises P (change k)" "raises P commit"
  "raises P rollback" "raises P (race r)" "raises P (enqueue c i j)"
  by (simp_all add: raises_def wp_simps race_def)

lemma raises_guard [raises_intros]: "(\<And>e. f = Some e \<Longrightarrow> P e) \<Longrightarrow> raises P (guard_fault f)"
  by (auto simp: raises_def wp_simps split: option.split)

lemma raises_stmt_exn [raises_intros]: "(\<And>d e. f d = Inl e \<Longrightarrow> P e) \<Longrightarrow> raises P (stmt_exn f)"
  by (auto simp: raises_def wp_simps split: sum.split)

lemma raises_in_session [raises_intros]: "raises P m \<Longrightarrow> raises P (in_session m)"
  by (simp add: raises_def wp_simps)

lemma raises_on_sys [raises_intros]: "raises P m \<Longrightarrow> raises P (on_sys m)"
  by (simp add: raises_def wp_simps)

lemma raises_try [raises_intros]: "raises R m \<Longrightarrow> (\<And>e. R e \<Longrightarrow> raises P (h e)) \<Longrightarrow> raises P (try_with m h)"
  unfolding raises_def [of P "try_with m h"] wp_try by (auto intro!: raisesD [of R m] simp: raises_def [of P "h e" for e])

lemma raises_try_except [raises_intros]:
  "tame m \<Longrightarrow> (\<And>e. \<not> base_only e \<Longrightarrow> raises P (h e)) \<Longrightarrow> raises P (try_except m h)"
  by (auto simp: try_except_def intro: raises_try)

lemma raises_cases [raises_intros]:
  "raises P m \<Longrightarrow> raises P m' \<Longrightarrow> raises P (if b then m else m')"
  "raises P n \<Longrightarrow> (\<And>a. raises P (f a)) \<Longrightarrow> raises P (case x of None \<Rightarrow> n | Some a \<Rightarrow> f a)"
  by (simp_all split: option.split)

lemma app_errors_tame [simp]:
  "\<not> base_only data_error" "\<not> base_only IntegrityError" "\<not> base_only (App a)" "\<not> base_only (key_error k)"
  "\<not> base_only (EmbeddingError c m)"
  by (simp_all add: base_only_def data_error_def generator_exit_def cancelled_error_def key_error_def)

lemma insert_errors:
  "message_add m d = Inl e \<Longrightarrow> \<not> base_only e" "usage_add l d = Inl e \<Longrightarrow> \<not> base_only e"
  "citation_add_one ci d = Inl e \<Longrightarrow> \<not> base_only e"
  by (auto simp: message_add_def usage_add_def citation_add_one_def split: if_splits)

lemma citations_errors: "citations_add_all cs d = Inl e \<Longrightarrow> \<not> base_only e"
  by (induction cs d rule: citations_add_all.induct) (auto dest: insert_errors split: sum.splits)

definition steady :: "chat_env \<Rightarrow> bool" where
  "steady env \<longleftrightarrow> (\<forall>k. ce_stop env k = None) \<and> (\<forall>p e. ce_fault env p = Some e \<longrightarrow> \<not> base_only e)
     \<and> (\<forall>ctx q ids n. tame (ce_retrieve env ctx q ids n))
     \<and> (\<forall>msgs params. \<forall>x \<in> set (ce_llm env msgs params). \<exists>ev. x = Ev ev)"

lemma tame_txn_b [raises_intros]: "steady env \<Longrightarrow> tame m \<Longrightarrow> tame (txn_b env p m)"
  unfolding txn_b_def by (intro raises_intros) (auto simp: steady_def)

lemma tame_bump [raises_intros]: "tame (bump_and_log env cid l)"
  unfolding bump_and_log_def by (intro raises_intros) (rule insert_errors)

lemma tame_citations [raises_intros]: "tame (add_citations env turn)"
  unfolding add_citations_def by (intro raises_intros) (rule citations_errors)

lemma tame_message [raises_intros]: "tame (stmt_exn (message_add m))"
  by (intro raises_intros) (rule insert_errors)

lemma tame_persist [raises_intros]:
  assumes "steady env"
  shows "tame (persist_success cfg env ctx cid turn buffer tokens l)" "tame (persist_error cfg env ctx cid turn buffer code)"
    "tame (persist_error_guarded cfg env ctx cid turn buffer code)"
  unfolding persist_success_def persist_error_def persist_error_guarded_def
  by (intro raises_intros assms; use assms in \<open>auto simp: steady_def\<close>)+

lemma silent_emit [raises_intros]: "steady env \<Longrightarrow> raises P (emit_event env ev)"
  unfolding emit_event_def by (intro raises_intros) (simp add: steady_def)

lemma silent_loop [raises_intros]:
  "steady env \<Longrightarrow> \<forall>x \<in> set items. \<exists>ev. x = Ev ev \<Longrightarrow> silent (chat_loop cfg env ctx cid turn items)"
  by (induction cfg env ctx cid turn items rule: chat_loop.induct) (auto intro!: raises_intros)

lemma silent_retrieval [raises_intros]: "steady env \<Longrightarrow> silent (retrieval_phase cfg env ctx cid content turn)"
proof -
  assume s: "steady env"
  have "tame (retrieve_turn cfg env ctx content turn)"
    unfolding retrieve_turn_def Let_def split_beta using s by (intro raises_intros) (simp add: steady_def)
  moreover have "silent (retrieval_failed cfg env ctx cid turn e)" for e
    unfolding retrieval_failed_def Let_def split_beta persist_error_guarded_def using s by (intro raises_intros)
  moreover have "silent (announce_citations env t)" for t
    unfolding announce_citations_def using s by (intro raises_intros)
  ultimately show ?thesis
    unfolding retrieval_phase_def by (intro raises_intros) (auto intro: raises_intros split: sum.split)
qed

lemma silent_finish [raises_intros]: "steady env \<Longrightarrow> silent (finish_phase cfg env ctx cid turn)"
  unfolding finish_phase_def split_beta by (intro raises_intros)

lemma steady_run:
  assumes st: "steady env"
  shows "case run_chat cfg env ctx cid content client_message_id source_ids s of
     (Inr _, t) \<Rightarrow> True
   | (Inl e, t) \<Rightarrow> ch_events t = [] \<and> (\<exists>u. prepare_turn cfg env ctx cid content client_message_id source_ids s = (Inl e, u))"
proof -
  let ?prep = "prepare_turn cfg env ctx cid content client_message_id source_ids"
  define rest where "rest turn =
     bnd (emit_event env (Message_start (t_user_message_id turn) (t_assistant_message_id turn))) (\<lambda>_.
     bnd (retrieval_phase cfg env ctx cid content turn) (\<lambda>next_turn.
     case next_turn of
       None \<Rightarrow> ret ()
     | Some turn \<Rightarrow>
         bnd (try_with (chat_loop cfg env ctx cid turn (ce_llm env (prompt_of turn) (t_params turn)))
                (on_close cfg env ctx cid turn)) (\<lambda>exit.
         case exit of Returned \<Rightarrow> ret () | Finished \<Rightarrow> finish_phase cfg env ctx cid turn)))" for turn
  have items: "\<forall>x \<in> set (ce_llm env msgs params). \<exists>ev. x = Ev ev" for msgs params using st by (simp add: steady_def)
  have finish: "silent (case exit of Returned \<Rightarrow> ret () | Finished \<Rightarrow> finish_phase cfg env ctx cid turn)" for exit turn
    using st by (auto intro: raises_intros split: loop_exit.split)
  have loop: "silent (try_with (chat_loop cfg env ctx cid turn (ce_llm env msgs params)) (on_close cfg env ctx cid turn))"
    for turn msgs params
    by (rule raises_try [OF silent_loop [OF st items]]) simp
  have sil: "silent (rest turn)" for turn
    unfolding rest_def by (intro raises_bnd raises_cases raises_simple silent_emit silent_retrieval finish loop st)
  have quiet: "\<exists>u. rest turn t = (Inr (), u)" for turn t
  proof -
    have "wp (rest turn) (\<lambda>_ _. True) (\<lambda>_ _. False) t" using sil [of turn] by (simp add: raises_def)
    then show ?thesis by (auto simp: wp_def split: prod.splits sum.splits)
  qed
  have run: "run_chat cfg env ctx cid content client_message_id source_ids s = bnd (on_sys ?prep) rest (chat_start s)"
    by (simp add: run_chat_def stream_reply_def rest_def [abs_def])
  show ?thesis
  proof (cases "?prep s")
    case (Pair r u)
    show ?thesis
    proof (cases r)
      case (Inl e)
      with Pair show ?thesis by (simp add: run bnd_def on_sys_def chat_start_def)
    next
      case (Inr turn)
      obtain v where "rest turn ((chat_start s)\<lparr>ch_sys := u\<rparr>) = (Inr (), v)" using quiet by blast
      moreover have "ch_sys (chat_start s) = s" by (simp add: chat_start_def)
      ultimately have "run_chat cfg env ctx cid content client_message_id source_ids s = (Inr (), v)"
        using Pair Inr by (simp add: run bnd_def on_sys_def)
      then show ?thesis by simp
    qed
  qed
qed

text \<open>
  C11: no reply is cut off without a word. With the model adapter of this program behind it, whatever its upstream
  service answers, and whatever exceptions retrieval, database and broker raise: when the consumer reads on and no task is
  cancelled, the only errors that leave the generator are those before its first event (they become a plain HTTP error);
  otherwise the events end in \<^verbatim>\<open>done\<close> or \<^verbatim>\<open>error\<close>.
\<close>

theorem chat_always_terminated:
  assumes stop: "\<forall>k. ce_stop env k = None" and faults: "\<forall>p e. ce_fault env p = Some e \<longrightarrow> \<not> base_only e"
    and retrieve: "\<forall>ctx q ids n. tame (ce_retrieve env ctx q ids n)"
    and llm: "ce_llm env = (\<lambda>msgs params. map Ev (openai_chat ad post msgs params))"
  shows "case run_chat cfg env ctx cid content client_message_id source_ids s of
     (Inr _, t) \<Rightarrow> phase (ch_events t) = Some 3
   | (Inl e, t) \<Rightarrow> ch_events t = [] \<and> (\<exists>u. prepare_turn cfg env ctx cid content client_message_id source_ids s = (Inl e, u))"
proof -
  have "steady env" using assms by (auto simp: steady_def)
  from steady_run [OF this, of cfg ctx cid content client_message_id source_ids s]
    wp_run_phase [of cfg env ctx cid content client_message_id source_ids s]
  show ?thesis by (auto simp: wp_def run_chat_def split: sum.splits)
qed

end
