(* ===== verification/Chat_Storage.thy ===== *)
theory Chat_Storage
  imports Chat_Correct
begin

text \<open>
  What a turn leaves in the database: the user's message, and the answer exactly as far as it was streamed, with
  exactly the citations that were announced, in one piece or not at all.
\<close>

section \<open>The transcript of a stream\<close>

fun delta_list :: "chat_event list \<Rightarrow> ustr list" where
  "delta_list [] = []"
| "delta_list (Delta x # es) = x # delta_list es"
| "delta_list (_ # es) = delta_list es"

fun cited :: "chat_event list \<Rightarrow> citation_item list" where
  "cited [] = []"
| "cited (Citations_event items # es) = items @ cited es"
| "cited (_ # es) = cited es"

lemma delta_list_append [simp]: "delta_list (es @ fs) = delta_list es @ delta_list fs"
  by (induction es rule: delta_list.induct) auto

lemma cited_append [simp]: "cited (es @ fs) = cited es @ cited fs"
  by (induction es rule: cited.induct) auto

definition row_item :: "message_citation \<Rightarrow> citation_item" where
  "row_item r = \<lparr>it_rank = ci_rank r, it_chunk_id = the (ci_chunk_id r), it_document_id = the (ci_document_id r),
     it_filename = ci_filename r, it_snippet = ci_snippet r, it_score = ci_score r\<rparr>"

lemma rows_are_items:
  "map row_item (citation_rows env turn) = citation_items (t_citations turn)"
  "\<forall>r \<in> set (citation_rows env turn). ci_message_id r = t_assistant_message_id turn"
  by (auto simp: citation_rows_def citation_items_def row_item_def)

section \<open>Storing once\<close>

definition same_chat :: "db \<Rightarrow> db \<Rightarrow> bool" where
  "same_chat d0 d \<longleftrightarrow> messages d = messages d0 \<and> message_citations d = message_citations d0"

definition stored :: "chat_cfg \<Rightarrow> chat_env \<Rightarrow> uuid \<Rightarrow> turn \<Rightarrow> ustr list \<Rightarrow> db \<Rightarrow> db \<Rightarrow> bool" where
  "stored cfg env cid turn buffer d0 d \<longleftrightarrow>
     (\<exists>meta tokens latency. messages d = messages d0 @ [assistant_message cfg env cid turn buffer meta tokens latency])
     \<and> message_citations d = message_citations d0 @ citation_rows env turn"

definition kept :: "chat_cfg \<Rightarrow> chat_env \<Rightarrow> uuid \<Rightarrow> turn \<Rightarrow> ustr list \<Rightarrow> db \<Rightarrow> sys \<Rightarrow> bool" where
  "kept cfg env cid turn buffer d0 s \<longleftrightarrow>
     pending s = committed s \<and> (same_chat d0 (committed s) \<or> stored cfg env cid turn buffer d0 (committed s))"

lemma storedI:
  "messages d = messages d0 @ [assistant_message cfg env cid turn buffer meta tokens latency]
     \<Longrightarrow> message_citations d = message_citations d0 @ citation_rows env turn \<Longrightarrow> stored cfg env cid turn buffer d0 d"
  unfolding stored_def by blast

lemma kept_cong:
  "kept cfg env cid turn buffer d0 s \<Longrightarrow> same_chat (committed s) (committed t) \<Longrightarrow> pending t = committed t
     \<Longrightarrow> kept cfg env cid turn buffer d0 t"
  by (simp add: kept_def same_chat_def stored_def)

lemma kept_stored: "stored cfg env cid turn buffer d0 (committed t) \<Longrightarrow> pending t = committed t \<Longrightarrow> kept cfg env cid turn buffer d0 t"
  by (simp add: kept_def)

lemma citations_add_all_rows:
  "citations_add_all rows d = Inr d' \<Longrightarrow> message_citations d' = message_citations d @ rows \<and> messages d' = messages d"
proof (induction rows d arbitrary: d' rule: citations_add_all.induct)
  case (2 ci rest s)
  then obtain s' where add: "citation_add_one ci s = Inr s'" and rest: "citations_add_all rest s' = Inr d'"
    by (cases "citation_add_one ci s") simp_all
  have "message_citations s' = message_citations s @ [ci] \<and> messages s' = messages s"
    using add unfolding citation_add_one_def by (simp split: if_split_asm) auto
  with 2(1) [OF add rest] show ?case by simp
qed simp

lemma bump_same [simp]:
  "messages (conv_bump_updated_at cid now d) = messages d"
  "message_citations (conv_bump_updated_at cid now d) = message_citations d"
  by (simp_all add: conv_bump_updated_at_def conv_update_def)

lemma usage_add_same: "usage_add l d = Inr d' \<Longrightarrow> messages d' = messages d \<and> message_citations d' = message_citations d"
  by (auto simp: usage_add_def split: if_splits)

lemma message_add_rows: "message_add m d = Inr d' \<Longrightarrow> d' = d\<lparr>messages := messages d @ [m]\<rparr>"
  by (auto simp: message_add_def split: if_splits)

lemma message_add_again:
  "stored cfg env cid turn buffer d0 d \<Longrightarrow> m_id m = t_assistant_message_id turn \<Longrightarrow> \<exists>e. message_add m d = Inl e"
  by (auto simp: stored_def message_add_def assistant_message_def)

lemma wp_txn_kept:
  assumes b: "ce_between env = (\<lambda>d. d)" and k: "kept cfg env cid turn buffer d0 s"
    and m: "wp m (\<lambda>_ t. kept cfg env cid turn buffer d0 (t\<lparr>pending := committed t\<rparr>) \<and> R (pending t)
        \<and> kept cfg env cid turn buffer d0 (t\<lparr>committed := pending t\<rparr>))
      (\<lambda>_ t. kept cfg env cid turn buffer d0 (t\<lparr>pending := committed t\<rparr>)) s"
  shows "wp (txn_b env p m) (\<lambda>_ t. kept cfg env cid turn buffer d0 t \<and> R (committed t)) (\<lambda>_. kept cfg env cid turn buffer d0) s"
proof -
  have pc: "s\<lparr>committed := committed s, pending := pending s\<rparr> = s" "s\<lparr>pending := committed s\<rparr> = s"
    using k by (cases s; simp add: kept_def)+
  have c: "t\<lparr>committed := pending t, pending := pending t\<rparr> = t\<lparr>committed := pending t\<rparr>" for t :: sys by (cases t) simp
  show ?thesis
    unfolding txn_b_def wp_bnd
    by (simp add: race_def b wp_simps pc, rule wp_mono [OF m])
      (auto simp: wp_simps c split: option.split)
qed

lemma wp_store:
  assumes b: "ce_between env = (\<lambda>d. d)" and k: "kept cfg env cid turn buffer d0 s"
  shows "wp (txn_b env p
       (bnd (stmt_exn (message_add (assistant_message cfg env cid turn buffer meta tokens latency))) (\<lambda>_.
        bnd (add_citations env turn) (\<lambda>_. bump_and_log env cid l))))
     (\<lambda>_ t. kept cfg env cid turn buffer d0 t \<and> stored cfg env cid turn buffer d0 (committed t))
     (\<lambda>_. kept cfg env cid turn buffer d0) s"
proof (rule wp_txn_kept [OF b k])
  let ?m = "assistant_message cfg env cid turn buffer meta tokens latency"
  have pc: "pending s = committed s" using k by (simp add: kept_def)
  have fail: "kept cfg env cid turn buffer d0 (t\<lparr>pending := committed t\<rparr>)" if "committed t = committed s" for t
    using k that by (simp add: kept_def)
  have id: "m_id ?m = t_assistant_message_id turn" by (simp add: assistant_message_def)
  have written: "stored cfg env cid turn buffer d0 d3"
    if "message_add ?m (committed s) = Inr d1" "citations_add_all (citation_rows env turn) d1 = Inr d2"
      "usage_add l (conv_bump_updated_at cid now d2) = Inr d3" for d1 d2 d3 now
  proof -
    have "same_chat d0 (committed s)" using k message_add_again [OF _ id] that(1) by (fastforce simp: kept_def)
    then show ?thesis
      using message_add_rows [OF that(1)] citations_add_all_rows [OF that(2)] usage_add_same [OF that(3)]
      by (intro storedI) (simp_all add: same_chat_def)
  qed
  show "wp (bnd (stmt_exn (message_add ?m)) (\<lambda>_. bnd (add_citations env turn) (\<lambda>_. bump_and_log env cid l)))
     (\<lambda>_ t. kept cfg env cid turn buffer d0 (t\<lparr>pending := committed t\<rparr>) \<and> stored cfg env cid turn buffer d0 (pending t)
        \<and> kept cfg env cid turn buffer d0 (t\<lparr>committed := pending t\<rparr>))
      (\<lambda>_ t. kept cfg env cid turn buffer d0 (t\<lparr>pending := committed t\<rparr>)) s"
    by (auto simp: wp_simps wp_fun add_citations_def bump_and_log_def pc fail
        intro!: kept_stored dest: written split: sum.split)
qed

lemma wp_log_only:
  assumes b: "ce_between env = (\<lambda>d. d)" and k: "kept cfg env cid turn buffer d0 s"
  shows "wp (txn_b env p (bump_and_log env cid l)) (\<lambda>_. kept cfg env cid turn buffer d0) (\<lambda>_. kept cfg env cid turn buffer d0) s"
proof -
  have pc: "pending s = committed s" using k by (simp add: kept_def)
  have "wp (bump_and_log env cid l) (\<lambda>_ t. kept cfg env cid turn buffer d0 (t\<lparr>pending := committed t\<rparr>) \<and> True
        \<and> kept cfg env cid turn buffer d0 (t\<lparr>committed := pending t\<rparr>))
      (\<lambda>_ t. kept cfg env cid turn buffer d0 (t\<lparr>pending := committed t\<rparr>)) s"
    using pc by (auto simp: bump_and_log_def wp_simps same_chat_def intro!: kept_cong [OF k] dest: usage_add_same split: sum.split)
  from wp_txn_kept [OF b k this] show ?thesis by simp
qed

section \<open>Through the stream\<close>

definition chat_inv :: "chat_cfg \<Rightarrow> chat_env \<Rightarrow> uuid \<Rightarrow> turn \<Rightarrow> db \<Rightarrow> chat_st \<Rightarrow> bool" where
  "chat_inv cfg env cid turn d0 s \<longleftrightarrow>
     ch_buffer s = delta_list (ch_events s) \<and> cited (ch_events s) = citation_items (t_citations turn)
     \<and> kept cfg env cid turn (ch_buffer s) d0 (ch_sys s)"

definition unsaved :: "db \<Rightarrow> chat_st \<Rightarrow> bool" where
  "unsaved d0 s \<longleftrightarrow> pending (ch_sys s) = committed (ch_sys s) \<and> same_chat d0 (committed (ch_sys s))"

lemma chat_inv_sys:
  "chat_inv cfg env cid turn d0 s \<Longrightarrow> kept cfg env cid turn (ch_buffer s) d0 x \<Longrightarrow> chat_inv cfg env cid turn d0 (s\<lparr>ch_sys := x\<rparr>)"
  unfolding chat_inv_def by auto

lemma chat_inv_end:
  "chat_inv cfg env cid turn d0 s \<Longrightarrow> chat_inv cfg env cid turn d0 (s\<lparr>ch_events := ch_events s @ [Error_event a b c]\<rparr>)"
  "chat_inv cfg env cid turn d0 s \<Longrightarrow> chat_inv cfg env cid turn d0 (s\<lparr>ch_events := ch_events s @ [Done i r j k l]\<rparr>)"
  unfolding chat_inv_def by auto

lemma chat_inv_kept: "chat_inv cfg env cid turn d0 s \<Longrightarrow> kept cfg env cid turn (ch_buffer s) d0 (ch_sys s)"
  unfolding chat_inv_def by blast

lemma bnd_assoc: "bnd (bnd m f) g = bnd m (\<lambda>a. bnd (f a) g)"
  by (auto simp: bnd_def fun_eq_iff split: prod.split sum.split)

lemma bnd_ret: "bnd (ret a) f = f a"
  by (simp add: bnd_def ret_def fun_eq_iff)

lemma chat_inv_locals:
  "chat_inv cfg env cid turn d0 s \<Longrightarrow> chat_inv cfg env cid turn d0 (s\<lparr>ch_tokens := k\<rparr>)"
  "chat_inv cfg env cid turn d0 s \<Longrightarrow> chat_inv cfg env cid turn d0 (s\<lparr>ch_stop := r\<rparr>)"
  "unsaved d0 s \<Longrightarrow> unsaved d0 (s\<lparr>ch_tokens := k\<rparr>)" "unsaved d0 s \<Longrightarrow> unsaved d0 (s\<lparr>ch_stop := r\<rparr>)"
  unfolding chat_inv_def unsaved_def by auto

lemma wp_persist_error_kept:
  assumes "ce_between env = (\<lambda>d. d)" and "kept cfg env cid turn buffer d0 s"
  shows "wp (persist_error cfg env ctx cid turn buffer code) (\<lambda>_. kept cfg env cid turn buffer d0) (\<lambda>_. kept cfg env cid turn buffer d0) s"
  unfolding persist_error_def assistant_partial_def using wp_log_only [OF assms]
  by (cases "buffer = []") (auto simp: bnd_assoc bnd_ret intro: wp_mono [OF wp_store [OF assms]])

lemma wp_persist_cancelled_kept:
  assumes "ce_between env = (\<lambda>d. d)" and "kept cfg env cid turn buffer d0 s"
  shows "wp (persist_cancelled cfg env p ctx cid turn buffer) (\<lambda>_. kept cfg env cid turn buffer d0) (\<lambda>_. kept cfg env cid turn buffer d0) s"
  using assms(2) unfolding persist_cancelled_def assistant_partial_def
  by (auto simp: wp_ret intro: wp_mono [OF wp_store [OF assms]])

lemma wp_persist_success_stored:
  assumes "ce_between env = (\<lambda>d. d)" and "kept cfg env cid turn buffer d0 s"
  shows "wp (persist_success cfg env ctx cid turn buffer tokens l)
     (\<lambda>_ t. kept cfg env cid turn buffer d0 t \<and> stored cfg env cid turn buffer d0 (committed t)) (\<lambda>_. kept cfg env cid turn buffer d0) s"
  unfolding persist_success_def wp_bnd
  by (rule wp_mono [OF wp_store [OF assms]]) (auto simp: wp_simps kept_def split: option.split)

lemma wp_loop_inv:
  assumes b: "ce_between env = (\<lambda>d. d)"
  shows "chat_inv cfg env cid turn d0 s \<Longrightarrow> unsaved d0 s \<Longrightarrow> wp (chat_loop cfg env ctx cid turn items)
     (\<lambda>x t. chat_inv cfg env cid turn d0 t \<and> (x = Finished \<longrightarrow> unsaved d0 t) \<and> (x = Returned \<longrightarrow> (\<exists>a b c. last (ch_events t) = Error_event a b c)))
     (\<lambda>_. chat_inv cfg env cid turn d0) s"
  using b
proof (induction cfg env ctx cid turn items arbitrary: s rule: chat_loop.induct)
  case (3 cfg env ctx cid turn x items)
  let ?t = "s\<lparr>ch_buffer := ch_buffer s @ [x], ch_events := ch_events s @ [Delta x]\<rparr>"
  have "unsaved d0 ?t" using 3(3) by (simp add: unsaved_def)
  moreover from this have "chat_inv cfg env cid turn d0 ?t" using 3(2) by (simp add: chat_inv_def kept_def unsaved_def)
  ultimately show ?case using 3(1) [OF _ _ 3(4)] by (simp add: wp_simps split: option.split)
next
  case (4 cfg env ctx cid turn i j items)
  then show ?case by (simp add: wp_simps chat_inv_locals)
next
  case (5 cfg env ctx cid turn code message items)
  have k: "kept cfg env cid turn (ch_buffer s) d0 (ch_sys s)" by (rule chat_inv_kept [OF 5(1)])
  show ?case
    using chat_inv_sys [OF 5(1)]
    by (auto simp: wp_simps wp_fun chat_inv_end intro!: wp_mono [OF wp_persist_error_kept [OF 5(3) k]] split: option.split)
      (use chat_inv_end(1) in force)+
next
  case (6 cfg env ctx cid turn r items)
  then show ?case by (simp add: wp_simps chat_inv_locals)
qed (auto simp: wp_simps)

lemma wp_close_inv:
  assumes b: "ce_between env = (\<lambda>d. d)" and i: "chat_inv cfg env cid turn d0 s"
  shows "wp (on_close cfg env ctx cid turn e) Q (\<lambda>_. chat_inv cfg env cid turn d0) s"
proof -
  have k: "kept cfg env cid turn (ch_buffer s) d0 (ch_sys s)" by (rule chat_inv_kept [OF i])
  show ?thesis
    using i chat_inv_sys [OF i] unfolding on_close_def persist_cancelled_guarded_def
    by (auto simp: wp_simps wp_fun intro!: wp_mono [OF wp_persist_cancelled_kept [OF b k]])
qed

lemma wp_finish_inv:
  assumes b: "ce_between env = (\<lambda>d. d)" and i: "chat_inv cfg env cid turn d0 s"
  shows "wp (finish_phase cfg env ctx cid turn)
     (\<lambda>_ t. chat_inv cfg env cid turn d0 t \<and> ((\<exists>a b c. last (ch_events t) = Error_event a b c)
        \<or> stored cfg env cid turn (ch_buffer t) d0 (committed (ch_sys t)))) (\<lambda>_. chat_inv cfg env cid turn d0) s"
proof -
  have k: "kept cfg env cid turn (ch_buffer s) d0 (ch_sys s)" by (rule chat_inv_kept [OF i])
  let ?ok = "\<lambda>x. s\<lparr>ch_sys := x, ch_events := ch_events s @ [Done (t_assistant_message_id turn) (FINISH_REASON (ch_stop s))
      (fst (ch_tokens s)) (snd (ch_tokens s)) (ce_latency env)]\<rparr>"
  have ok: "chat_inv cfg env cid turn d0 (?ok x)" if "kept cfg env cid turn (ch_buffer s) d0 x" for x
    using chat_inv_end(2) [OF chat_inv_sys [OF i that]] by simp
  have bad: "chat_inv cfg env cid turn d0 (s\<lparr>ch_sys := x, ch_events := ch_events s @ [Error_event a b c]\<rparr>)"
    if "kept cfg env cid turn (ch_buffer s) d0 x" for x a b c
    using chat_inv_end(1) [OF chat_inv_sys [OF i that]] by simp
  show ?thesis
    unfolding finish_phase_def wp_bnd wp_look prod.case wp_try_except wp_on_sys
    by (rule wp_mono [OF wp_persist_success_stored [OF b k]])
      (auto simp: wp_simps wp_fun chat_inv_sys [OF i] ok bad split: option.split)
qed

section \<open>The whole turn\<close>

lemma wp_sources: "Q () s \<Longrightarrow> E (App SourceNotFound) s \<Longrightarrow> wp (assert_sources_owned ctx ids) Q E s"
  by (induction ctx ids rule: assert_sources_owned.induct) (auto simp: wp_simps)

lemma wp_prepare:
  assumes pc: "pending s = committed s"
  shows "wp (prepare_turn cfg env ctx cid content client_message_id source_ids)
     (\<lambda>turn t. pending t = committed t
        \<and> committed t = (committed s)\<lparr>messages := messages (committed s) @ [user_message env cid content client_message_id]\<rparr>
        \<and> t_user_message_id turn = ce_user_message_id env \<and> t_assistant_message_id turn = ce_assistant_message_id env
        \<and> t_citations turn = [] \<and> t_source_ids turn = source_ids)
     (\<lambda>_ t. pending t = committed t \<and> committed t = committed s) s"
proof -
  have id: "s\<lparr>pending := committed s\<rparr> = s" using pc by (cases s) simp
  show ?thesis
    unfolding prepare_turn_def
    by (auto simp: wp_simps wp_fun id pc intro!: wp_sources dest: message_add_rows split: option.split sum.split)
qed

definition transcript :: "chat_cfg \<Rightarrow> chat_env \<Rightarrow> uuid \<Rightarrow> db \<Rightarrow> chat_st \<Rightarrow> bool" where
  "transcript cfg env cid d0 t \<longleftrightarrow>
     (\<exists>answer rows. messages (committed (ch_sys t)) = messages d0 @ answer
        \<and> message_citations (committed (ch_sys t)) = message_citations d0 @ rows
        \<and> (answer = [] \<and> rows = []
           \<or> (\<exists>m. answer = [m] \<and> m_id m = ce_assistant_message_id env \<and> m_conversation_id m = cid
                \<and> m_role m = Role_assistant \<and> m_content m = concat (delta_list (ch_events t))
                \<and> map row_item rows = cited (ch_events t) \<and> (\<forall>x \<in> set rows. ci_message_id x = m_id m))))"

lemma transcript_unsaved: "unsaved d0 t \<Longrightarrow> transcript cfg env cid d0 t"
  by (simp add: unsaved_def same_chat_def transcript_def)

lemma transcript_stored:
  assumes "chat_inv cfg env cid turn d0 t" and "t_assistant_message_id turn = ce_assistant_message_id env"
    and "stored cfg env cid turn (ch_buffer t) d0 (committed (ch_sys t))"
  shows "transcript cfg env cid d0 t"
proof -
  obtain meta tokens latency where m: "messages (committed (ch_sys t))
      = messages d0 @ [assistant_message cfg env cid turn (ch_buffer t) meta tokens latency]"
    using assms(3) unfolding stored_def by blast
  show ?thesis
    unfolding transcript_def
    using m assms rows_are_items [of env turn]
    by (intro exI [of _ "[assistant_message cfg env cid turn (ch_buffer t) meta tokens latency]"] exI [of _ "citation_rows env turn"])
      (auto simp: assistant_message_def stored_def chat_inv_def)
qed

lemma transcript_inv:
  "chat_inv cfg env cid turn d0 t \<Longrightarrow> t_assistant_message_id turn = ce_assistant_message_id env \<Longrightarrow> transcript cfg env cid d0 t"
  using transcript_stored [of cfg env cid turn d0 t] transcript_unsaved [of d0 t]
  by (auto simp: chat_inv_def kept_def unsaved_def)

definition answered :: "chat_cfg \<Rightarrow> chat_env \<Rightarrow> uuid \<Rightarrow> db \<Rightarrow> chat_st \<Rightarrow> bool" where
  "answered cfg env cid d0 t \<longleftrightarrow> transcript cfg env cid d0 t
     \<and> (messages (committed (ch_sys t)) \<noteq> messages d0 \<or> (\<exists>a b c. last (ch_events t) = Error_event a b c))"

lemma stored_more: "stored cfg env cid turn buffer d0 d \<Longrightarrow> messages d \<noteq> messages d0"
  by (auto simp: stored_def)

lemma wp_answer:
  assumes b: "ce_between env = (\<lambda>d. d)" and i: "chat_inv cfg env cid turn d0 s" "unsaved d0 s"
    and id: "t_assistant_message_id turn = ce_assistant_message_id env"
  shows "wp (bnd (try_with (chat_loop cfg env ctx cid turn items) (on_close cfg env ctx cid turn)) (\<lambda>exit.
         case exit of Returned \<Rightarrow> ret () | Finished \<Rightarrow> finish_phase cfg env ctx cid turn))
     (\<lambda>_. answered cfg env cid d0) (\<lambda>_. transcript cfg env cid d0) s"
proof -
  have closed: "wp (on_close cfg env ctx cid turn e) Q (\<lambda>_. transcript cfg env cid d0) t"
    if "chat_inv cfg env cid turn d0 t" for e t Q
    by (rule wp_mono [OF wp_close_inv [OF b that]]) (auto intro: transcript_inv [OF _ id])
  have fin: "wp (finish_phase cfg env ctx cid turn) (\<lambda>_. answered cfg env cid d0) (\<lambda>_. transcript cfg env cid d0) t"
    if "chat_inv cfg env cid turn d0 t" for t
    by (rule wp_mono [OF wp_finish_inv [OF b that]])
      (auto simp: answered_def intro: transcript_inv [OF _ id] dest: stored_more)
  show ?thesis
    unfolding wp_bnd wp_try
    by (rule wp_mono [OF wp_loop_inv [OF b i]])
      (auto simp: closed fin wp_ret answered_def intro: transcript_inv [OF _ id] split: loop_exit.split)
qed

lemma wp_retrieve_turn:
  assumes "\<forall>ctx q ids n s. pending s = committed s \<longrightarrow> snd (ce_retrieve env ctx q ids n s) = s" and "pending s = committed s"
  shows "wp (retrieve_turn cfg env ctx content turn)
     (\<lambda>turn' t. t = s \<and> t_assistant_message_id turn' = t_assistant_message_id turn) (\<lambda>_ t. t = s) s"
proof -
  have r: "wp (ce_retrieve env ctx content ids n) (\<lambda>_ t. t = s) (\<lambda>_ t. t = s) s" for ids n
    using assms by (simp add: wp_ends)
  show ?thesis
    unfolding retrieve_turn_def wp_bnd Let_def split_beta by (rule wp_mono [OF r]) (simp_all add: wp_ret)
qed

lemma wp_retrieval_inv:
  assumes b: "ce_between env = (\<lambda>d. d)" and ro: "\<forall>ctx q ids n s. pending s = committed s \<longrightarrow> snd (ce_retrieve env ctx q ids n s) = s"
    and s: "ch_events s = [Message_start i j]" "ch_buffer s = []" "unsaved d0 s"
    and turn: "t_citations turn = []" "t_assistant_message_id turn = ce_assistant_message_id env"
  shows "wp (retrieval_phase cfg env ctx cid content turn)
     (\<lambda>x t. case x of None \<Rightarrow> answered cfg env cid d0 t
        | Some turn' \<Rightarrow> chat_inv cfg env cid turn' d0 t \<and> unsaved d0 t \<and> t_assistant_message_id turn' = ce_assistant_message_id env)
     (\<lambda>_. transcript cfg env cid d0) s"
proof -
  have inv: "chat_inv cfg env cid turn d0 s"
    using s turn by (simp add: chat_inv_def citation_items_def kept_def unsaved_def)
  have k: "kept cfg env cid turn [] d0 (ch_sys s)" using chat_inv_kept [OF inv] s(2) by simp
  have failed: "wp (retrieval_failed cfg env ctx cid turn e) (\<lambda>x t. case x of None \<Rightarrow> answered cfg env cid d0 t
        | Some turn' \<Rightarrow> chat_inv cfg env cid turn' d0 t \<and> unsaved d0 t \<and> t_assistant_message_id turn' = ce_assistant_message_id env)
     (\<lambda>_. transcript cfg env cid d0) s" for e
  proof -
    have t: "transcript cfg env cid d0 (s\<lparr>ch_sys := x\<rparr>)"
      "transcript cfg env cid d0 (s\<lparr>ch_sys := x, ch_events := ch_events s @ [Error_event a b c]\<rparr>)"
      if "kept cfg env cid turn [] d0 x" for x a b c
      using chat_inv_sys [OF inv, of x] chat_inv_end(1) [OF chat_inv_sys [OF inv, of x], of a b c] that s(2)
      by (auto intro: transcript_inv [OF _ turn(2)])
    show ?thesis
      unfolding retrieval_failed_def Let_def split_beta wp_bnd wp_on_sys persist_error_guarded_def wp_try_except
      by (rule wp_mono [OF wp_persist_error_kept [OF b k]])
        (auto simp: wp_simps t answered_def split: option.split)
  qed
  have announced: "wp (announce_citations env turn') (\<lambda>x t. case x of None \<Rightarrow> answered cfg env cid d0 t
        | Some turn' \<Rightarrow> chat_inv cfg env cid turn' d0 t \<and> unsaved d0 t \<and> t_assistant_message_id turn' = ce_assistant_message_id env)
     (\<lambda>_. transcript cfg env cid d0) s" if "t_assistant_message_id turn' = t_assistant_message_id turn" for turn'
    using s that turn(2)
    by (auto simp: announce_citations_def wp_simps chat_inv_def kept_def unsaved_def citation_items_def
        intro!: transcript_unsaved split: option.split)
  have same: "s\<lparr>ch_sys := ch_sys s\<rparr> = s" by simp
  have pc: "pending (ch_sys s) = committed (ch_sys s)" using s(3) by (simp add: unsaved_def)
  show ?thesis
  proof (cases "t_source_ids turn = None")
    case True
    then show ?thesis using inv s(3) turn(2) by (simp add: retrieval_phase_def wp_ret)
  next
    case False
    then show ?thesis
      unfolding retrieval_phase_def if_not_P [OF False] wp_bnd wp_try_except wp_on_sys
      by (intro wp_mono [OF wp_retrieve_turn [OF ro pc]])
        (auto simp: wp_ret same failed announced intro: transcript_unsaved [OF s(3)])
  qed
qed

lemma wp_stream_stored:
  assumes pc: "pending s = committed s" and b: "ce_between env = (\<lambda>d. d)"
    and ro: "\<forall>ctx q ids n s. pending s = committed s \<longrightarrow> snd (ce_retrieve env ctx q ids n s) = s"
    and d0: "d0 = (committed s)\<lparr>messages := messages (committed s) @ [user_message env cid content client_message_id]\<rparr>"
  shows "wp (stream_reply cfg env ctx cid content client_message_id source_ids)
      (\<lambda>_. answered cfg env cid d0) (\<lambda>_ t. ch_events t = [] \<or> transcript cfg env cid d0 t) (chat_start s)"
proof -
  let ?rest = "\<lambda>next_turn. case next_turn of None \<Rightarrow> ret () | Some turn \<Rightarrow>
      bnd (try_with (chat_loop cfg env ctx cid turn (ce_llm env (prompt_of turn) (t_params turn)))
                (on_close cfg env ctx cid turn)) (\<lambda>exit.
         case exit of Returned \<Rightarrow> ret () | Finished \<Rightarrow> finish_phase cfg env ctx cid turn)"
  have rest: "wp (bnd (retrieval_phase cfg env ctx cid content turn) ?rest)
      (\<lambda>_. answered cfg env cid d0) (\<lambda>_. transcript cfg env cid d0) u"
    if "ch_events u = [Message_start i j]" "ch_buffer u = []" "unsaved d0 u" "t_citations turn = []"
      "t_assistant_message_id turn = ce_assistant_message_id env" for u turn i j
    unfolding wp_bnd [of "retrieval_phase cfg env ctx cid content turn"]
    by (rule wp_mono [OF wp_retrieval_inv [OF b ro that]]) (auto simp: wp_ret intro: wp_answer [OF b] split: option.splits)
  show ?thesis
    unfolding stream_reply_def wp_bnd [of "on_sys _"] wp_on_sys
  proof (rule wp_mono [where Q = "\<lambda>turn t. pending t = committed t \<and> committed t = d0
        \<and> t_user_message_id turn = ce_user_message_id env \<and> t_assistant_message_id turn = ce_assistant_message_id env
        \<and> t_citations turn = [] \<and> t_source_ids turn = source_ids" and E = "\<lambda>_ t. True"])
    show "wp (prepare_turn cfg env ctx cid content client_message_id source_ids) (\<lambda>turn t. pending t = committed t \<and> committed t = d0
        \<and> t_user_message_id turn = ce_user_message_id env \<and> t_assistant_message_id turn = ce_assistant_message_id env
        \<and> t_citations turn = [] \<and> t_source_ids turn = source_ids) (\<lambda>_ _. True) (ch_sys (chat_start s))"
      using wp_mono [OF wp_prepare [OF pc]] by (simp add: chat_start_def d0)
  next
    fix turn :: turn and v :: sys
    assume v: "pending v = committed v \<and> committed v = d0
        \<and> t_user_message_id turn = ce_user_message_id env \<and> t_assistant_message_id turn = ce_assistant_message_id env
        \<and> t_citations turn = [] \<and> t_source_ids turn = source_ids"
    show "wp (bnd (emit_event env (Message_start (t_user_message_id turn) (t_assistant_message_id turn)))
           (\<lambda>_. bnd (retrieval_phase cfg env ctx cid content turn) ?rest))
         (\<lambda>_. answered cfg env cid d0) (\<lambda>_ t. ch_events t = [] \<or> transcript cfg env cid d0 t) ((chat_start s)\<lparr>ch_sys := v\<rparr>)"
      unfolding wp_bnd [of "emit_event _ _"] wp_emit
      by (auto simp: chat_start_def unsaved_def same_chat_def v intro!: wp_mono [OF rest] transcript_unsaved split: option.split)
  qed (simp add: chat_start_def)
qed

text \<open>
  C4: what is stored is what was streamed. Once a reply has started, however it ends - finished, failed, closed or
  cancelled at any event, with any fault of the transactions - the conversation has gained the user's message and at most one more: the
  assistant's, whose content is the concatenation of the deltas that were yielded and whose citations are those
  of the \<^verbatim>\<open>citations\<close> event, item by item; and if the reply did not end with an error, it is there.
\<close>

theorem chat_stores_what_it_streamed:
  assumes pc: "pending s = committed s" and b: "ce_between env = (\<lambda>d. d)"
    and ro: "\<forall>ctx q ids n s. pending s = committed s \<longrightarrow> snd (ce_retrieve env ctx q ids n s) = s"
    and run: "run_chat cfg env ctx cid content client_message_id source_ids s = (r, t)" and started: "ch_events t \<noteq> []"
    and d0: "d0 = (committed s)\<lparr>messages := messages (committed s) @ [user_message env cid content client_message_id]\<rparr>"
  shows "(\<exists>answer rows. messages (committed (ch_sys t)) = messages d0 @ answer
        \<and> message_citations (committed (ch_sys t)) = message_citations (committed s) @ rows
        \<and> (answer = [] \<and> rows = []
           \<or> (\<exists>m. answer = [m] \<and> m_id m = ce_assistant_message_id env \<and> m_conversation_id m = cid
                \<and> m_role m = Role_assistant \<and> m_content m = concat (delta_list (ch_events t))
                \<and> map row_item rows = cited (ch_events t) \<and> (\<forall>x \<in> set rows. ci_message_id x = m_id m))))
     \<and> (r = Inr () \<longrightarrow> messages (committed (ch_sys t)) \<noteq> messages d0 \<or> (\<exists>a b c. last (ch_events t) = Error_event a b c))"
  using wp_stream_stored [OF pc b ro d0, of cfg ctx source_ids] run started
  by (auto simp: wp_def run_chat_def answered_def transcript_def d0 split: sum.splits)

end
