(* ===== verification/Chat_Runs.thy ===== *)
theory Chat_Runs
  imports Chat_Storage
begin

text \<open>
  Runs of a plain chat turn computed to the end: the reply that succeeds, the reader who leaves in the middle, the
  reader who leaves while the answer is being saved, the message sent twice, the history in the prompt.
\<close>

section \<open>Computing the pieces\<close>

definition text_items :: "ustr list \<Rightarrow> llm_item list" where
  "text_items xs = map (\<lambda>x. Ev (TextDelta x)) xs"

lemma loop_texts:
  assumes "\<And>k. length (ch_events s) \<le> k \<Longrightarrow> k < length (ch_events s) + length xs \<Longrightarrow> ce_stop env k = None"
  shows "chat_loop cfg env ctx cid turn (text_items xs @ items) s
    = chat_loop cfg env ctx cid turn items (s\<lparr>ch_buffer := ch_buffer s @ xs, ch_events := ch_events s @ map Delta xs\<rparr>)"
  using assms
proof (induction xs arbitrary: s)
  case (Cons x xs)
  have "ce_stop env (length (ch_events s)) = None" using Cons.prems by simp
  then have "chat_loop cfg env ctx cid turn (text_items (x # xs) @ items) s
      = chat_loop cfg env ctx cid turn (text_items xs @ items) (s\<lparr>ch_buffer := ch_buffer s @ [x], ch_events := ch_events s @ [Delta x]\<rparr>)"
    by (simp add: text_items_def bnd_def change_def emit_event_def look_def guard_fault_def ret_def)
  also have "\<dots> = chat_loop cfg env ctx cid turn items (s\<lparr>ch_buffer := ch_buffer s @ x # xs, ch_events := ch_events s @ map Delta (x # xs)\<rparr>)"
    using Cons.IH [of "s\<lparr>ch_buffer := ch_buffer s @ [x], ch_events := ch_events s @ [Delta x]\<rparr>"] Cons.prems by simp
  finally show ?case .
qed (simp add: text_items_def)

lemma sources_none: "assert_sources_owned ctx [] = ret ()"
  by simp

definition plain_turn :: "chat_cfg \<Rightarrow> chat_env \<Rightarrow> conversation \<Rightarrow> resolved_model \<Rightarrow> message list \<Rightarrow> turn" where
  "plain_turn cfg env conv rm history =
     \<lparr>t_user_message_id = ce_user_message_id env, t_assistant_message_id = ce_assistant_message_id env,
      t_history = map (\<lambda>m. \<lparr>cm_role = m_role m, cm_content = m_content m\<rparr>) history,
      t_system_prompt = cc_system_prompt cfg,
      t_params = \<lparr>mp_model = rm_model rm, mp_temperature = rm_temperature rm, mp_max_tokens = rm_max_tokens rm\<rparr>,
      t_title_is_none = (c_title conv = None), t_source_ids = None, t_citations = []\<rparr>"

lemma prepare_run:
  assumes pc: "pending s = committed s" and conv: "conv_get_owned (committed s) (ctx_user_id ctx) cid = Some conv"
    and rm: "resolve_alias (cc_models cfg) (c_model_alias conv) = Inr rm" and f: "ce_fault env Txn_a = None"
    and add: "message_add (user_message env cid content client_message_id) (committed s) = Inr d1"
  shows "prepare_turn cfg env ctx cid content client_message_id None s
    = (Inr (plain_turn cfg env conv rm (message_list_recent d1 cid (cc_history_max cfg))), s\<lparr>pending := d1, committed := d1\<rparr>)"
proof -
  have id: "s\<lparr>pending := committed s\<rparr> = s" using pc by (cases s) simp
  show ?thesis
    using assms(2-)
    by (simp add: prepare_turn_def in_session_def id bnd_def query_def look_def ret_def try_with_def stmt_exn_def change_def
        guard_fault_def commit_def plain_turn_def pc)
qed

text \<open>The rows of the transaction that stores an answer: \<open>saved m l d\<close> is the database after it, if it accepts them.\<close>

definition saved :: "chat_env \<Rightarrow> uuid \<Rightarrow> message \<Rightarrow> usage_log \<Rightarrow> db \<Rightarrow> exn + db" where
  "saved env cid m l d =
     (case message_add m d of Inl e \<Rightarrow> Inl e | Inr d' \<Rightarrow> usage_add l (conv_bump_updated_at cid (ce_now_b env) d'))"

lemma txn_b_run:
  assumes pc: "pending s = committed s" and b: "ce_between env = (\<lambda>d. d)" and turn: "t_citations turn = []"
    and ok: "saved env cid m l (committed s) = Inr d"
  shows "txn_b env p (bnd (stmt_exn (message_add m)) (\<lambda>_. bnd (add_citations env turn) (\<lambda>_. bump_and_log env cid l))) s
    = (case ce_fault env p of
         Some e \<Rightarrow> (Inl e, s)
       | None \<Rightarrow> (case (if p = Bg_b then None else ce_fault env Ack_b) of
            None \<Rightarrow> (Inr (), s\<lparr>pending := d, committed := d\<rparr>) | Some e \<Rightarrow> (Inl e, s\<lparr>pending := d, committed := d\<rparr>)))"
proof -
  have id: "s\<lparr>pending := committed s\<rparr> = s" "s\<lparr>committed := committed s, pending := committed s\<rparr> = s" using pc by (cases s; simp)+
  obtain d1 where d1: "message_add m (committed s) = Inr d1" "usage_add l (conv_bump_updated_at cid (ce_now_b env) d1) = Inr d"
    using ok by (auto simp: saved_def split: sum.splits)
  show ?thesis
    using pc d1 turn
    by (simp add: txn_b_def race_def b in_session_def id bnd_def change_def stmt_exn_def look_def add_citations_def
        citation_rows_def bump_and_log_def stmt_def guard_fault_def ret_def throw_def commit_def split: option.split)
qed

section \<open>The reply that succeeds\<close>

definition done_message :: "chat_cfg \<Rightarrow> chat_env \<Rightarrow> uuid \<Rightarrow> turn \<Rightarrow> ustr list \<Rightarrow> int option \<times> int option \<Rightarrow> message" where
  "done_message cfg env cid turn xs tokens = assistant_message cfg env cid turn xs [] tokens (Some (ce_latency env))"

definition done_usage :: "chat_cfg \<Rightarrow> chat_env \<Rightarrow> auth_context \<Rightarrow> uuid \<Rightarrow> turn \<Rightarrow> int option \<times> int option \<Rightarrow> usage_log" where
  "done_usage cfg env ctx cid turn tokens = usage_log_of cfg env ctx cid turn tokens (Some (ce_latency env)) U_ok None"

lemma events_prefix: "(chat_start s)\<lparr>ch_sys := x, ch_events := [ev]\<rparr>
   = \<lparr>ch_sys = x, ch_events = [ev], ch_buffer = [], ch_tokens = (None, None), ch_stop = End_turn\<rparr>"
  by (simp add: chat_start_def)

lemma chat_run_start:
  assumes prep: "prepare_turn cfg env ctx cid content client_message_id None s = (Inr turn, u)"
    and turn: "t_source_ids turn = None" and stop: "ce_stop env 0 = None"
  shows "run_chat cfg env ctx cid content client_message_id None s =
    bnd (try_with (chat_loop cfg env ctx cid turn (ce_llm env (prompt_of turn) (t_params turn))) (on_close cfg env ctx cid turn))
      (\<lambda>exit. case exit of Returned \<Rightarrow> ret () | Finished \<Rightarrow> finish_phase cfg env ctx cid turn)
      \<lparr>ch_sys = u, ch_events = [Message_start (t_user_message_id turn) (t_assistant_message_id turn)], ch_buffer = [],
       ch_tokens = (None, None), ch_stop = End_turn\<rparr>"
  using assms
  by (simp add: run_chat_def stream_reply_def bnd_def on_sys_def chat_start_def emit_event_def look_def change_def
      guard_fault_def ret_def retrieval_phase_def)

text \<open>
  C16: a plain turn that goes well. The client sees \<^verbatim>\<open>message_start\<close>, the model's deltas and \<^verbatim>\<open>done\<close> with the finish reason
  and token counts; the database has the user's message, the answer with the same content, tokens and latency, the
  bumped conversation and the usage log, all from one transaction; and the title task is queued if there is no title yet.
\<close>

theorem chat_happy_path:
  assumes pc: "pending s = committed s" and conv: "conv_get_owned (committed s) (ctx_user_id ctx) cid = Some conv"
    and rm: "resolve_alias (cc_models cfg) (c_model_alias conv) = Inr rm"
    and add: "message_add (user_message env cid content client_message_id) (committed s) = Inr d1"
    and turn: "turn = plain_turn cfg env conv rm (message_list_recent d1 cid (cc_history_max cfg))"
    and llm: "ce_llm env (prompt_of turn) (t_params turn) = text_items xs @ [Ev (UsageInfo i j), Ev (StreamStop r)]"
    and calm: "\<forall>k. ce_stop env k = None" "\<forall>p. ce_fault env p = None" "ce_between env = (\<lambda>d. d)"
    and ok: "saved env cid (done_message cfg env cid turn xs (Some i, Some j)) (done_usage cfg env ctx cid turn (Some i, Some j)) d1 = Inr d2"
  shows "\<exists>t. run_chat cfg env ctx cid content client_message_id None s = (Inr (), t)
     \<and> ch_events t = Message_start (ce_user_message_id env) (ce_assistant_message_id env) # map Delta xs
         @ [Done (ce_assistant_message_id env) (FINISH_REASON r) (Some i) (Some j) (ce_latency env)]
     \<and> committed (ch_sys t) = d2 \<and> pending (ch_sys t) = d2 \<and> files (ch_sys t) = files s
     \<and> broker (ch_sys t) = broker s @ (if c_title conv = None
          then [\<lparr>tm_call = Title_call cid, tm_retries = 0, tm_countdown = 0\<rparr>] else [])"
proof -
  have t: "t_source_ids turn = None" "t_citations turn = []" "t_user_message_id turn = ce_user_message_id env"
    "t_assistant_message_id turn = ce_assistant_message_id env" "t_title_is_none turn = (c_title conv = None)"
    by (simp_all add: turn plain_turn_def)
  have prep: "prepare_turn cfg env ctx cid content client_message_id None s = (Inr turn, s\<lparr>pending := d1, committed := d1\<rparr>)"
    unfolding turn by (rule prepare_run [OF pc conv rm _ add]) (use calm in simp)
  let ?u = "\<lparr>ch_sys = s\<lparr>pending := d1, committed := d1\<rparr>, ch_events = [Message_start (t_user_message_id turn) (t_assistant_message_id turn)],
      ch_buffer = [], ch_tokens = (None, None), ch_stop = End_turn\<rparr>"
  have loop: "chat_loop cfg env ctx cid turn (ce_llm env (prompt_of turn) (t_params turn)) ?u
      = (Inr Finished, ?u\<lparr>ch_buffer := xs, ch_events := ch_events ?u @ map Delta xs, ch_tokens := (Some i, Some j), ch_stop := r\<rparr>)"
    unfolding llm using loop_texts [of ?u xs env cfg ctx cid turn] calm(1)
    by (simp add: bnd_def change_def ret_def)
  have ok': "saved env cid (assistant_message cfg env cid turn xs [] (Some i, Some j) (Some (ce_latency env)))
      (usage_log_of cfg env ctx cid turn (Some i, Some j) (Some (ce_latency env)) U_ok None) (committed (s\<lparr>pending := d1, committed := d1\<rparr>)) = Inr d2"
    using ok by (simp add: done_message_def done_usage_def)
  have save: "persist_success cfg env ctx cid turn xs (Some i, Some j) (ce_latency env) (s\<lparr>pending := d1, committed := d1\<rparr>)
      = (Inr (), s\<lparr>pending := d2, committed := d2, broker := broker s @ (if c_title conv = None
          then [\<lparr>tm_call = Title_call cid, tm_retries = 0, tm_countdown = 0\<rparr>] else [])\<rparr>)"
    unfolding persist_success_def bnd_def [of "txn_b _ _ _"] using txn_b_run [OF _ calm(3) t(2) ok', of Txn_b] calm(2) t(5)
    by (simp add: try_with_def bnd_def guard_fault_def ret_def enqueue_def change_def)
  show ?thesis
    unfolding chat_run_start [OF prep t(1) spec [OF calm(1)]]
    using loop save calm(1) t
    by (simp add: bnd_def try_with_def finish_phase_def look_def try_except_def on_sys_def ret_def emit_event_def change_def
        guard_fault_def)
qed

section \<open>The reader who leaves\<close>

lemma loop_stopped:
  assumes "xs \<noteq> []" and "\<And>k. length (ch_events s) \<le> k \<Longrightarrow> k < length (ch_events s) + length xs - 1 \<Longrightarrow> ce_stop env k = None"
    and "ce_stop env (length (ch_events s) + length xs - 1) = Some e"
  shows "chat_loop cfg env ctx cid turn (text_items xs @ items) s
    = (Inl e, s\<lparr>ch_buffer := ch_buffer s @ xs, ch_events := ch_events s @ map Delta xs\<rparr>)"
proof -
  obtain ys y where xs: "xs = ys @ [y]" using assms(1) by (cases xs rule: rev_cases) auto
  let ?s = "s\<lparr>ch_buffer := ch_buffer s @ ys, ch_events := ch_events s @ map Delta ys\<rparr>"
  have "text_items xs @ items = text_items ys @ Ev (TextDelta y) # items" by (simp add: xs text_items_def)
  then have "chat_loop cfg env ctx cid turn (text_items xs @ items) s = chat_loop cfg env ctx cid turn (Ev (TextDelta y) # items) ?s"
    using loop_texts [of s ys env] assms(2) by (simp add: xs)
  also have "ce_stop env (length (ch_events ?s)) = Some e" using assms(3) by (simp add: xs)
  then have "chat_loop cfg env ctx cid turn (Ev (TextDelta y) # items) ?s
      = (Inl e, s\<lparr>ch_buffer := ch_buffer s @ xs, ch_events := ch_events s @ map Delta xs\<rparr>)"
    by (simp add: bnd_def change_def emit_event_def look_def guard_fault_def throw_def xs)
  finally show ?thesis .
qed

definition partial_message :: "chat_cfg \<Rightarrow> chat_env \<Rightarrow> uuid \<Rightarrow> turn \<Rightarrow> ustr list \<Rightarrow> message" where
  "partial_message cfg env cid turn xs = assistant_partial cfg env cid turn xs [(lit ''partial'', JBool True)]"

text \<open>
  C17: a reader who leaves keeps what was read. If the consumer closes the stream, or its task is cancelled, when some deltas have
  been delivered, exactly these deltas are stored as the answer, marked partial, with a usage log; in the case of a
  cancellation by a task of its own.
\<close>

theorem disconnect_keeps_partial:
  assumes pc: "pending s = committed s" and conv: "conv_get_owned (committed s) (ctx_user_id ctx) cid = Some conv"
    and rm: "resolve_alias (cc_models cfg) (c_model_alias conv) = Inr rm"
    and add: "message_add (user_message env cid content client_message_id) (committed s) = Inr d1"
    and turn: "turn = plain_turn cfg env conv rm (message_list_recent d1 cid (cc_history_max cfg))"
    and llm: "ce_llm env (prompt_of turn) (t_params turn) = text_items xs @ items" and xs: "xs \<noteq> []"
    and stop: "\<forall>k < length xs. ce_stop env k = None" "ce_stop env (length xs) = Some e" and e: "e = generator_exit \<or> e = cancelled_error"
    and calm: "\<forall>p. ce_fault env p = None" "ce_between env = (\<lambda>d. d)"
    and ok: "saved env cid (partial_message cfg env cid turn xs) (usage_log_of cfg env ctx cid turn (None, None) None U_ok None) d1 = Inr d2"
  shows "\<exists>t. run_chat cfg env ctx cid content client_message_id None s = (Inl e, t)
     \<and> ch_events t = Message_start (ce_user_message_id env) (ce_assistant_message_id env) # map Delta xs
     \<and> committed (ch_sys t) = d2"
proof -
  have t: "t_source_ids turn = None" "t_citations turn = []" "t_user_message_id turn = ce_user_message_id env"
    "t_assistant_message_id turn = ce_assistant_message_id env"
    by (simp_all add: turn plain_turn_def)
  have prep: "prepare_turn cfg env ctx cid content client_message_id None s = (Inr turn, s\<lparr>pending := d1, committed := d1\<rparr>)"
    unfolding turn by (rule prepare_run [OF pc conv rm _ add]) (use calm in simp)
  let ?v = "s\<lparr>pending := d1, committed := d1\<rparr>"
  let ?u = "\<lparr>ch_sys = ?v, ch_events = [Message_start (t_user_message_id turn) (t_assistant_message_id turn)],
      ch_buffer = [], ch_tokens = (None, None), ch_stop = End_turn\<rparr>"
  have loop: "chat_loop cfg env ctx cid turn (ce_llm env (prompt_of turn) (t_params turn)) ?u
      = (Inl e, ?u\<lparr>ch_buffer := xs, ch_events := ch_events ?u @ map Delta xs\<rparr>)"
    unfolding llm using loop_stopped [OF xs, of ?u env e cfg ctx cid turn items] stop by simp
  have save: "persist_cancelled cfg env p ctx cid turn xs ?v = (Inr (), s\<lparr>pending := d2, committed := d2\<rparr>)" for p
    using txn_b_run [OF _ calm(2) t(2), of ?v cid "partial_message cfg env cid turn xs"
        "usage_log_of cfg env ctx cid turn (None, None) None U_ok None" d2 p] ok calm(1) xs
    by (simp add: persist_cancelled_def partial_message_def)
  have stop0: "ce_stop env 0 = None" using stop(1) xs by simp
  have ne: "generator_exit \<noteq> cancelled_error" by (simp add: generator_exit_def cancelled_error_def)
  show ?thesis
    unfolding chat_run_start [OF prep t(1) stop0]
    using loop save e t ne
    by (auto simp: bnd_def try_with_def on_close_def look_def try_except_def on_sys_def ret_def throw_def persist_cancelled_guarded_def)
qed

text \<open>
  C18: a reader who leaves too late loses everything. When the model has finished and the request's task is cancelled while
  the answer is being stored, before its commit, the whole answer is lost, although all of its deltas were delivered: the
  database has the user's message only. (Leaving one event earlier would have kept it.)
\<close>

theorem cancel_while_saving_loses_reply:
  assumes pc: "pending s = committed s" and conv: "conv_get_owned (committed s) (ctx_user_id ctx) cid = Some conv"
    and rm: "resolve_alias (cc_models cfg) (c_model_alias conv) = Inr rm"
    and add: "message_add (user_message env cid content client_message_id) (committed s) = Inr d1"
    and turn: "turn = plain_turn cfg env conv rm (message_list_recent d1 cid (cc_history_max cfg))"
    and llm: "ce_llm env (prompt_of turn) (t_params turn) = text_items xs @ [Ev (StreamStop r)]"
    and stop: "\<forall>k. ce_stop env k = None" "ce_fault env Txn_a = None" "ce_fault env Txn_b = Some cancelled_error" "ce_between env = (\<lambda>d. d)"
    and ok: "saved env cid (done_message cfg env cid turn xs (None, None)) (done_usage cfg env ctx cid turn (None, None)) d1 = Inr d2"
  shows "\<exists>t. run_chat cfg env ctx cid content client_message_id None s = (Inl cancelled_error, t)
     \<and> ch_events t = Message_start (ce_user_message_id env) (ce_assistant_message_id env) # map Delta xs
     \<and> committed (ch_sys t) = d1 \<and> messages d1 = messages (committed s) @ [user_message env cid content client_message_id]"
proof -
  have t: "t_source_ids turn = None" "t_citations turn = []" "t_user_message_id turn = ce_user_message_id env"
    "t_assistant_message_id turn = ce_assistant_message_id env"
    by (simp_all add: turn plain_turn_def)
  have prep: "prepare_turn cfg env ctx cid content client_message_id None s = (Inr turn, s\<lparr>pending := d1, committed := d1\<rparr>)"
    unfolding turn by (rule prepare_run [OF pc conv rm stop(2) add])
  let ?v = "s\<lparr>pending := d1, committed := d1\<rparr>"
  let ?u = "\<lparr>ch_sys = ?v, ch_events = [Message_start (t_user_message_id turn) (t_assistant_message_id turn)],
      ch_buffer = [], ch_tokens = (None, None), ch_stop = End_turn\<rparr>"
  have loop: "chat_loop cfg env ctx cid turn (ce_llm env (prompt_of turn) (t_params turn)) ?u
      = (Inr Finished, ?u\<lparr>ch_buffer := xs, ch_events := ch_events ?u @ map Delta xs, ch_stop := r\<rparr>)"
    unfolding llm using loop_texts [of ?u xs env cfg ctx cid turn] stop(1) by (simp add: bnd_def change_def ret_def)
  have save: "persist_success cfg env ctx cid turn xs (None, None) (ce_latency env) ?v = (Inl cancelled_error, ?v)"
    using txn_b_run [OF _ stop(4) t(2), of ?v cid "done_message cfg env cid turn xs (None, None)"
        "done_usage cfg env ctx cid turn (None, None)" d2 Txn_b] ok stop(3)
    by (simp add: persist_success_def bnd_def [of "txn_b _ _ _"] done_message_def done_usage_def)
  have "base_only cancelled_error" by (simp add: base_only_def)
  then show ?thesis
    unfolding chat_run_start [OF prep t(1) spec [OF stop(1)]]
    using loop save t message_add_rows [OF add]
    by (simp add: bnd_def try_with_def finish_phase_def look_def try_except_def on_sys_def throw_def)
qed

section \<open>Before the stream\<close>

lemma assert_sources_owned_run:
  "assert_sources_owned ctx ids s =
     (if list_all (\<lambda>i. source_get_owned (pending s) (ctx_user_id ctx) i \<noteq> None) ids then Inr () else Inl (App SourceNotFound), s)"
  by (induction ids) (simp_all add: bnd_def query_def look_def ret_def throw_def)

text \<open>
  C25: a message is refused before its reply starts, with 404 when the conversation is not the user's or one of the chosen sources,
  at whatever position, is not, and with 409 when the conversation already holds a message with this client message id; then no
  event has been sent and the whole system is as before.
\<close>

theorem chat_refused_before_stream:
  assumes pc: "pending s = committed s"
    and "conv_get_owned (committed s) (ctx_user_id ctx) cid = None \<and> err = ConversationNotFound
      \<or> conv_get_owned (committed s) (ctx_user_id ctx) cid = Some conv
          \<and> \<not> list_all (\<lambda>i. source_get_owned (committed s) (ctx_user_id ctx) i \<noteq> None) (case source_ids of None \<Rightarrow> [] | Some ids \<Rightarrow> ids)
          \<and> err = SourceNotFound
      \<or> conv_get_owned (committed s) (ctx_user_id ctx) cid = Some conv
          \<and> list_all (\<lambda>i. source_get_owned (committed s) (ctx_user_id ctx) i \<noteq> None) (case source_ids of None \<Rightarrow> [] | Some ids \<Rightarrow> ids)
          \<and> 0 \<notin> set content \<and> m \<in> set (messages (committed s)) \<and> m_conversation_id m = cid
          \<and> m_client_message_id m = Some k \<and> client_message_id = Some k \<and> err = DuplicateMessage"
  shows "run_chat cfg env ctx cid content client_message_id source_ids s = (Inl (App err), chat_start s)"
proof -
  have id: "s\<lparr>pending := committed s\<rparr> = s" using pc by (cases s) simp
  have "prepare_turn cfg env ctx cid content client_message_id source_ids s = (Inl (App err), s)"
    using assms
    by (auto simp: prepare_turn_def in_session_def id bnd_def query_def look_def ret_def throw_def try_with_def stmt_exn_def
        assert_sources_owned_run message_add_def user_message_def opt_ok_def rollback_def change_def
        simp del: assert_sources_owned.simps split: option.split)
  then show ?thesis by (simp add: run_chat_def stream_reply_def bnd_def on_sys_def chat_start_def)
qed

lemma sort_key_last:
  assumes "\<forall>m \<in> set ms. msg_key m \<le> msg_key x"
  shows "sort_key msg_key (ms @ [x]) = sort_key msg_key ms @ [x]"
  using assms
proof (induction ms)
  case (Cons m ms)
  have "insort_key msg_key m (ys @ [x]) = insort_key msg_key m ys @ [x]" for ys
    using Cons.prems by (induction ys) auto
  with Cons show ?case by simp
qed simp

text \<open>
  C37: what the model is asked. In a plain turn the prompt is the system prompt followed by the most recent messages of
  the conversation in their order, at most as many as configured, the last of which is the message just sent,
  provided the clock did not go back.
\<close>

theorem prompt_is_recent_history:
  assumes pc: "pending s = committed s" and conv: "conv_get_owned (committed s) (ctx_user_id ctx) cid = Some conv"
    and rm: "resolve_alias (cc_models cfg) (c_model_alias conv) = Inr rm" and f: "ce_fault env Txn_a = None"
    and add: "message_add (user_message env cid content client_message_id) (committed s) = Inr d1"
    and newest: "\<forall>m \<in> set (conv_messages (committed s) cid). msg_key m \<le> (ce_now_a env, ce_user_message_id env)"
    and n: "0 < cc_history_max cfg"
  shows "\<exists>turn t old. prepare_turn cfg env ctx cid content client_message_id None s = (Inr turn, t)
     \<and> prompt_of turn = \<lparr>cm_role = Role_system, cm_content = cc_system_prompt cfg\<rparr>
         # map (\<lambda>m. \<lparr>cm_role = m_role m, cm_content = m_content m\<rparr>) old @ [\<lparr>cm_role = Role_user, cm_content = content\<rparr>]
     \<and> suffix old (sort_key msg_key (conv_messages (committed s) cid))
     \<and> length old = min (cc_history_max cfg - 1) (length (conv_messages (committed s) cid))"
proof -
  let ?m = "user_message env cid content client_message_id"
  let ?old = "rev (take (cc_history_max cfg - 1) (rev (sort_key msg_key (conv_messages (committed s) cid))))"
  have d1: "conv_messages d1 cid = conv_messages (committed s) cid @ [?m]"
    using message_add_rows [OF add] by (simp add: conv_messages_def user_message_def)
  have key: "msg_key ?m = (ce_now_a env, ce_user_message_id env)" by (simp add: msg_key_def user_message_def)
  have "sort_key msg_key (conv_messages d1 cid) = sort_key msg_key (conv_messages (committed s) cid) @ [?m]"
    unfolding d1 by (rule sort_key_last) (use newest in \<open>simp add: key\<close>)
  then have recent: "message_list_recent d1 cid (cc_history_max cfg) = ?old @ [?m]"
    using n by (cases "cc_history_max cfg") (simp_all add: message_list_recent_def)
  have "suffix ?old (sort_key msg_key (conv_messages (committed s) cid))"
    by (simp add: suffix_to_prefix take_is_prefix)
  moreover have "length ?old = min (cc_history_max cfg - 1) (length (conv_messages (committed s) cid))"
    by (simp add: min.commute)
  ultimately show ?thesis
    using prepare_run [OF pc conv rm f add]
    by (intro exI [of _ "plain_turn cfg env conv rm (message_list_recent d1 cid (cc_history_max cfg))"]
        exI [of _ "s\<lparr>pending := d1, committed := d1\<rparr>"] exI [of _ ?old])
      (simp add: prompt_of_def plain_turn_def recent user_message_def)
qed

end
