(* ===== verification/Chat_Witness.thy ===== *)
theory Chat_Witness
  imports Chat_Runs System
begin

text \<open>
  One user with one conversation, and the turns of the chat properties on it: hypotheses that hold together.
\<close>

section \<open>A conversation\<close>

definition demo_models :: models_yaml where
  "demo_models = \<lparr>my_default = [109], my_aliases = [([109], \<lparr>me_provider = lit ''openai_compat'', me_model = [120],
     me_temperature = None, me_max_tokens = None\<rparr>)]\<rparr>"

definition demo_ccfg :: chat_cfg where
  "demo_ccfg = \<lparr>cc_models = demo_models, cc_system_prompt = [83], cc_history_max = 10, cc_top_n = 3, cc_char_budget = 100,
     cc_pstr = (\<lambda>_. []), cc_llm_name = [111]\<rparr>"

definition demo_conv :: conversation where "demo_conv = new_conversation 5 1 None [109] 0"

definition chat_db :: db where
  "chat_db = empty_db\<lparr>users := [new_user 1 [97] [98] 0], conversations := [demo_conv]\<rparr>"

definition chat_sys :: sys where
  "chat_sys = \<lparr>committed = chat_db, pending = chat_db, files = Map.empty, broker = []\<rparr>"

definition demo_cenv :: "llm_item list \<Rightarrow> (chat_point \<Rightarrow> exn option) \<Rightarrow> (nat \<Rightarrow> exn option) \<Rightarrow> chat_env" where
  "demo_cenv items fault stop = \<lparr>ce_user_message_id = 10, ce_assistant_message_id = 11, ce_usage_id = 12,
     ce_citation_id = (\<lambda>i. 20 + i), ce_now_a = 1, ce_now_b = 2, ce_latency = 3, ce_retrieve = (\<lambda>_ _ _ _. ret []),
     ce_llm = (\<lambda>_ _. items), ce_fault = fault, ce_between = (\<lambda>d. d), ce_stop = stop\<rparr>"

abbreviation hello :: ustr where "hello \<equiv> [72, 105]"

definition asked_db :: "llm_item list \<Rightarrow> (chat_point \<Rightarrow> exn option) \<Rightarrow> (nat \<Rightarrow> exn option) \<Rightarrow> db" where
  "asked_db items fault stop = chat_db\<lparr>messages := [user_message (demo_cenv items fault stop) 5 hello None]\<rparr>"

definition demo_turn :: "llm_item list \<Rightarrow> (chat_point \<Rightarrow> exn option) \<Rightarrow> (nat \<Rightarrow> exn option) \<Rightarrow> turn" where
  "demo_turn items fault stop =
     plain_turn demo_ccfg (demo_cenv items fault stop) demo_conv
       \<lparr>rm_provider = lit ''openai_compat'', rm_model = [120], rm_temperature = 7 / 10, rm_max_tokens = None\<rparr>
       (message_list_recent (asked_db items fault stop) 5 (cc_history_max demo_ccfg))"

lemma demo_cenv_simps [simp]:
  "ce_llm (demo_cenv items fault stop) = (\<lambda>_ _. items)" "ce_fault (demo_cenv items fault stop) = fault"
  "ce_stop (demo_cenv items fault stop) = stop" "ce_between (demo_cenv items fault stop) = (\<lambda>d. d)"
  "ce_retrieve (demo_cenv items fault stop) = (\<lambda>_ _ _ _. ret [])" "ce_now_a (demo_cenv items fault stop) = 1"
  "ce_user_message_id (demo_cenv items fault stop) = 10" "ce_assistant_message_id (demo_cenv items fault stop) = 11"
  by (simp_all add: demo_cenv_def)

lemma chat_sys_simps [simp]: "pending chat_sys = committed chat_sys" "committed chat_sys = chat_db" "files chat_sys = Map.empty"
  "broker chat_sys = []" "messages chat_db = []"
  by (simp_all add: chat_sys_def chat_db_def empty_db_def)

lemma demo_conv_owned: "conv_get_owned (committed chat_sys) (ctx_user_id demo_ctx) 5 = Some demo_conv"
  by (simp add: conv_get_owned_def chat_db_def demo_conv_def new_conversation_def)

lemma demo_resolved: "resolve_alias (cc_models demo_ccfg) (c_model_alias demo_conv)
    = Inr \<lparr>rm_provider = lit ''openai_compat'', rm_model = [120], rm_temperature = 7 / 10, rm_max_tokens = None\<rparr>"
  by (simp add: demo_ccfg_def demo_models_def demo_conv_def new_conversation_def resolve_alias_def alias_exists_def Let_def)

lemma demo_asked: "message_add (user_message (demo_cenv items fault stop) 5 hello None) (committed chat_sys)
    = Inr (asked_db items fault stop)"
  by (simp add: message_add_def user_message_def asked_db_def opt_ok_def chat_db_def demo_conv_def new_conversation_def empty_db_def)

lemma demo_saved:
  assumes "m = assistant_message demo_ccfg (demo_cenv items fault stop) 5 (demo_turn items fault stop) [[65]] meta tokens lat"
    and "l = usage_log_of demo_ccfg (demo_cenv items fault stop) demo_ctx 5 (demo_turn items fault stop) tokens lat U_ok None"
  shows "saved (demo_cenv items fault stop) 5 m l (asked_db items fault stop)
    = Inr ((conv_bump_updated_at 5 2 (asked_db items fault stop))
        \<lparr>messages := messages (asked_db items fault stop) @ [m], usage_logs := [l]\<rparr>)"
  by (simp add: assms saved_def message_add_def usage_add_def assistant_message_def user_message_def usage_log_of_def asked_db_def
      opt_ok_def text_ok_def chat_db_def demo_conv_def new_conversation_def empty_db_def demo_turn_def plain_turn_def
      demo_ccfg_def demo_cenv_def conv_bump_updated_at_def conv_update_def new_user_def demo_ctx_def)

section \<open>Turns\<close>

theorem chat_happy_path_witness:
  "\<exists>t. run_chat demo_ccfg (demo_cenv (text_items [[65]] @ [Ev (UsageInfo 4 1), Ev (StreamStop End_turn)]) (\<lambda>_. None) (\<lambda>_. None))
       demo_ctx 5 hello None None chat_sys = (Inr (), t)
     \<and> ch_events t = [Message_start 10 11, Delta [65], Done 11 (lit ''stop'') (Some 4) (Some 1) 3]
     \<and> broker (ch_sys t) = [\<lparr>tm_call = Title_call 5, tm_retries = 0, tm_countdown = 0\<rparr>]"
proof -
  let ?items = "text_items [[65]] @ [Ev (UsageInfo 4 1), Ev (StreamStop End_turn)]"
  show ?thesis
    using chat_happy_path [OF chat_sys_simps(1) demo_conv_owned demo_resolved demo_asked
        demo_turn_def [of ?items "\<lambda>_. None" "\<lambda>_. None"] _ _ _ _ demo_saved [OF done_message_def done_usage_def]]
    by (auto simp: demo_cenv_def FINISH_REASON_def demo_conv_def new_conversation_def)
qed

theorem disconnect_keeps_partial_witness:
  "\<exists>t. run_chat demo_ccfg (demo_cenv (text_items [[65]] @ []) (\<lambda>_. None) ((\<lambda>_. None)(1 := Some cancelled_error)))
       demo_ctx 5 hello None None chat_sys = (Inl cancelled_error, t)
     \<and> ch_events t = [Message_start 10 11, Delta [65]] \<and> map m_content (messages (committed (ch_sys t))) = [hello, [65]]"
proof -
  let ?items = "text_items [[65]] @ []" and ?stop = "(\<lambda>_::nat. None)(1 := Some cancelled_error)"
  let ?env = "demo_cenv ?items (\<lambda>_. None) ?stop" and ?turn = "demo_turn ?items (\<lambda>_. None) ?stop"
  obtain d2 where ok: "saved ?env 5 (partial_message demo_ccfg ?env 5 ?turn [[65]])
      (usage_log_of demo_ccfg ?env demo_ctx 5 ?turn (None, None) None U_ok None) (asked_db ?items (\<lambda>_. None) ?stop) = Inr d2"
    and d2: "map m_content (messages d2) = [hello, [65]]"
    using demo_saved [OF trans [OF partial_message_def assistant_partial_def] refl, of ?items "\<lambda>_. None" ?stop]
    by (simp add: partial_message_def assistant_partial_def assistant_message_def user_message_def asked_db_def)
  have "\<exists>t. run_chat demo_ccfg ?env demo_ctx 5 hello None None chat_sys = (Inl cancelled_error, t)
     \<and> ch_events t = Message_start (ce_user_message_id ?env) (ce_assistant_message_id ?env) # map Delta [[65]]
     \<and> committed (ch_sys t) = d2"
    by (rule disconnect_keeps_partial [OF chat_sys_simps(1) demo_conv_owned demo_resolved demo_asked demo_turn_def
          _ _ _ _ _ _ _ ok, of "[]"]) simp_all
  with d2 show ?thesis by auto
qed

theorem cancel_while_saving_loses_reply_witness:
  "\<exists>t. run_chat demo_ccfg (demo_cenv (text_items [[65]] @ [Ev (StreamStop End_turn)]) ((\<lambda>_. None)(Txn_b := Some cancelled_error)) (\<lambda>_. None))
       demo_ctx 5 hello None None chat_sys = (Inl cancelled_error, t)
     \<and> ch_events t = [Message_start 10 11, Delta [65]] \<and> map m_content (messages (committed (ch_sys t))) = [hello]"
proof -
  let ?items = "text_items [[65]] @ [Ev (StreamStop End_turn)]" and ?fault = "(\<lambda>_. None)(Txn_b := Some cancelled_error)"
  from cancel_while_saving_loses_reply [OF chat_sys_simps(1) demo_conv_owned demo_resolved demo_asked
      demo_turn_def [of ?items ?fault "\<lambda>_. None"] _ _ _ _ _ demo_saved [OF done_message_def done_usage_def]]
  show ?thesis by (auto simp: user_message_def)
qed

text \<open>A conversation that holds the message with client id 9, and a source of the user: 2 is owned, 3 is not.\<close>

definition asked_sys :: sys where
  "asked_sys =
     (let d = chat_db\<lparr>messages := [user_message (demo_cenv [] (\<lambda>_. None) (\<lambda>_. None)) 5 hello (Some 9)],
            knowledge_sources := [\<lparr>ks_id = 2, ks_owner_id = 1, ks_name = [], ks_type = [], ks_config = [], ks_enabled = True,
              ks_created_at = 0, ks_updated_at = 0\<rparr>]\<rparr>
      in \<lparr>committed = d, pending = d, files = Map.empty, broker = []\<rparr>)"

theorem chat_refused_before_stream_witness:
  "run_chat demo_ccfg (demo_cenv [] (\<lambda>_. None) (\<lambda>_. None)) demo_ctx 6 hello None None asked_sys
     = (Inl (App ConversationNotFound), chat_start asked_sys)
   \<and> run_chat demo_ccfg (demo_cenv [] (\<lambda>_. None) (\<lambda>_. None)) demo_ctx 5 hello None (Some [2, 3]) asked_sys
     = (Inl (App SourceNotFound), chat_start asked_sys)
   \<and> run_chat demo_ccfg (demo_cenv [] (\<lambda>_. None) (\<lambda>_. None)) demo_ctx 5 hello (Some 9) (Some [2]) asked_sys
     = (Inl (App DuplicateMessage), chat_start asked_sys)"
proof -
  let ?m = "user_message (demo_cenv [] (\<lambda>_. None) (\<lambda>_. None)) 5 hello (Some 9)"
  have pc: "pending asked_sys = committed asked_sys" by (simp add: asked_sys_def Let_def)
  have conv: "conv_get_owned (committed asked_sys) (ctx_user_id demo_ctx) 6 = None"
    "conv_get_owned (committed asked_sys) (ctx_user_id demo_ctx) 5 = Some demo_conv"
    by (simp_all add: asked_sys_def Let_def conv_get_owned_def chat_db_def demo_conv_def new_conversation_def)
  have sources: "source_get_owned (committed asked_sys) (ctx_user_id demo_ctx) 2 \<noteq> None"
    "source_get_owned (committed asked_sys) (ctx_user_id demo_ctx) 3 = None"
    by (simp_all add: asked_sys_def Let_def source_get_owned_def)
  have m: "?m \<in> set (messages (committed asked_sys))" "m_conversation_id ?m = 5" "m_client_message_id ?m = Some 9"
    by (simp_all add: asked_sys_def Let_def user_message_def)
  note refused = chat_refused_before_stream [OF pc, of demo_ctx]
  show ?thesis
    using refused [of 6 ConversationNotFound] refused [of 5 SourceNotFound demo_conv "Some [2, 3]" hello]
      refused [of 5 DuplicateMessage demo_conv "Some [2]" hello ?m 9 "Some 9"] conv sources m
    by simp
qed

theorem prompt_is_recent_history_witness:
  "\<exists>turn t. prepare_turn demo_ccfg (demo_cenv [] (\<lambda>_. None) (\<lambda>_. None)) demo_ctx 5 hello None None chat_sys = (Inr turn, t)
     \<and> prompt_of turn = [\<lparr>cm_role = Role_system, cm_content = [83]\<rparr>, \<lparr>cm_role = Role_user, cm_content = hello\<rparr>]"
proof -
  have "conv_messages (committed chat_sys) 5 = []" by (simp add: conv_messages_def)
  moreover have "cc_history_max demo_ccfg = 10" "cc_system_prompt demo_ccfg = [83]" by (simp_all add: demo_ccfg_def)
  ultimately show ?thesis
    using prompt_is_recent_history [OF chat_sys_simps(1) demo_conv_owned demo_resolved _ demo_asked, of "[]" "\<lambda>_. None" "\<lambda>_. None"]
    by auto
qed

lemma demo_started:
  "fst (run_chat demo_ccfg (demo_cenv (text_items [[65]] @ []) (\<lambda>_. None) ((\<lambda>_. None)(1 := Some cancelled_error)))
       demo_ctx 5 hello None None chat_sys) = Inl cancelled_error
   \<and> ch_events (snd (run_chat demo_ccfg (demo_cenv (text_items [[65]] @ []) (\<lambda>_. None) ((\<lambda>_. None)(1 := Some cancelled_error)))
       demo_ctx 5 hello None None chat_sys)) = [Message_start 10 11, Delta [65]]"
proof -
  let ?items = "text_items [[65]] @ []" and ?stop = "(\<lambda>_::nat. None)(1 := Some cancelled_error)"
  let ?env = "demo_cenv ?items (\<lambda>_. None) ?stop"
  have loop: "chat_loop demo_ccfg ?env ctx cid turn ?items s
      = (Inl cancelled_error, s\<lparr>ch_buffer := ch_buffer s @ [[65]], ch_events := ch_events s @ [Delta [65]]\<rparr>)"
    if "length (ch_events s) = 1" for s ctx cid turn
    using loop_stopped [of "[[65]]" s ?env cancelled_error demo_ccfg ctx cid turn "[]"] that by simp
  have close: "\<exists>u. on_close demo_ccfg ?env ctx cid turn cancelled_error s = (Inl cancelled_error, s\<lparr>ch_sys := u\<rparr>)"
    for ctx cid turn s
  proof -
    have "cancelled_error \<noteq> generator_exit" by (simp add: generator_exit_def cancelled_error_def)
    moreover have "\<exists>u. persist_cancelled_guarded cfg env ctx cid turn b s = (Inr (), u)" for cfg env b s
      by (simp add: persist_cancelled_guarded_def try_with_def ret_def split: prod.split sum.split)
    ultimately show ?thesis
      by (auto simp: on_close_def bnd_def look_def on_sys_def throw_def split: prod.split sum.split) (metis prod.inject sum.inject(2) sum.distinct(1))+
  qed
  let ?turn = "demo_turn ?items (\<lambda>_. None) ?stop" and ?u = "chat_sys\<lparr>pending := asked_db ?items (\<lambda>_. None) ?stop,
      committed := asked_db ?items (\<lambda>_. None) ?stop\<rparr>"
  have prep: "prepare_turn demo_ccfg ?env demo_ctx 5 hello None None chat_sys = (Inr ?turn, ?u)"
    unfolding demo_turn_def by (rule prepare_run [OF chat_sys_simps(1) demo_conv_owned demo_resolved _ demo_asked]) simp
  have ids: "t_source_ids ?turn = None" "t_user_message_id ?turn = 10" "t_assistant_message_id ?turn = 11"
    by (simp_all add: demo_turn_def plain_turn_def)
  have llm: "ce_llm ?env msgs params = ?items" and stop0: "ce_stop ?env 0 = None" for msgs params by simp_all
  note start = chat_run_start [OF prep ids(1) stop0, unfolded llm ids]
  let ?s = "\<lparr>ch_sys = ?u, ch_events = [Message_start 10 11, Delta [65]], ch_buffer = [[65]], ch_tokens = (None, None), ch_stop = End_turn\<rparr>"
  obtain v where "on_close demo_ccfg ?env demo_ctx 5 ?turn cancelled_error ?s = (Inl cancelled_error, ?s\<lparr>ch_sys := v\<rparr>)"
    using close by blast
  then show ?thesis
    unfolding start using loop by (simp add: bnd_def try_with_def)
qed

theorem chat_stores_what_it_streamed_witness:
  "\<exists>t. run_chat demo_ccfg (demo_cenv (text_items [[65]] @ []) (\<lambda>_. None) ((\<lambda>_. None)(1 := Some cancelled_error)))
       demo_ctx 5 hello None None chat_sys = (Inl cancelled_error, t) \<and> ch_events t = [Message_start 10 11, Delta [65]]
     \<and> map m_content (messages (committed (ch_sys t))) \<in> {[hello], [hello, [65]]}"
proof -
  let ?env = "demo_cenv (text_items [[65]] @ []) (\<lambda>_. None) ((\<lambda>_. None)(1 := Some cancelled_error))"
  obtain t where t: "run_chat demo_ccfg ?env demo_ctx 5 hello None None chat_sys = (Inl cancelled_error, t)"
    "ch_events t = [Message_start 10 11, Delta [65]]"
    using demo_started by (metis prod.collapse)
  have started: "ch_events t \<noteq> []" by (simp add: t(2))
  have env: "ce_between ?env = (\<lambda>d. d)" "\<forall>ctx q ids n s. pending s = committed s \<longrightarrow> snd (ce_retrieve ?env ctx q ids n s) = s" by (simp_all add: ret_def)
  have m: "messages (d\<lparr>messages := x\<rparr>) = x" for d x by simp
  note stores = conjunct1 [OF chat_stores_what_it_streamed [OF chat_sys_simps(1) env t(1) started refl]]
  obtain answer where msgs: "messages (committed (ch_sys t)) = [user_message ?env 5 hello None] @ answer"
    and answer: "answer = [] \<or> (\<exists>m. answer = [m] \<and> m_content m = concat (delta_list (ch_events t)))"
    using stores by (simp only: chat_sys_simps append_Nil m) blast
  have "m_content (user_message ?env 5 hello None) = hello" by (simp add: user_message_def)
  moreover have "concat (delta_list (ch_events t)) = [65]" unfolding t(2) by simp
  ultimately have "map m_content (messages (committed (ch_sys t))) \<in> {[hello], [hello, [65]]}"
    unfolding msgs using answer by (elim disjE exE conjE) simp_all
  with t show ?thesis by (intro exI [of _ t] conjI)
qed

definition demo_ad :: llm_adapter where
  "demo_ad = \<lparr>ad_base_url = [], ad_lower = (\<lambda>s. s), ad_loads = (\<lambda>_. None), ad_as_int = (\<lambda>_. None)\<rparr>"

theorem chat_always_terminated_witness:
  "case run_chat demo_ccfg ((demo_cenv [] (\<lambda>_. None) (\<lambda>_. None))\<lparr>ce_llm := (\<lambda>msgs params.
       map Ev (openai_chat demo_ad (\<lambda>_. Inl Timeout_exception) msgs params))\<rparr>) demo_ctx 5 hello None None chat_sys of
     (Inr _, t) \<Rightarrow> phase (ch_events t) = Some 3
   | (Inl e, t) \<Rightarrow> ch_events t = []"
proof -
  let ?env = "(demo_cenv [] (\<lambda>_. None) (\<lambda>_. None))\<lparr>ce_llm := (\<lambda>msgs params.
       map Ev (openai_chat demo_ad (\<lambda>_. Inl Timeout_exception) msgs params))\<rparr>"
  have calm: "\<forall>k. ce_stop ?env k = None" "\<forall>p e. ce_fault ?env p = Some e \<longrightarrow> \<not> base_only e" by simp_all
  have retrieve: "\<forall>ctx q ids n. tame (ce_retrieve ?env ctx q ids n)" by (simp add: raises_def wp_ret)
  have llm: "ce_llm ?env = (\<lambda>msgs params. map Ev (openai_chat demo_ad (\<lambda>_. Inl Timeout_exception) msgs params))" by simp
  have ends: "case run_chat demo_ccfg ?env demo_ctx 5 hello None None chat_sys of
     (Inr _, t) \<Rightarrow> phase (ch_events t) = Some 3
   | (Inl e, t) \<Rightarrow> ch_events t = [] \<and> (\<exists>u. prepare_turn demo_ccfg ?env demo_ctx 5 hello None None chat_sys = (Inl e, u))"
    by (rule chat_always_terminated [OF calm retrieve llm])
  obtain r t where "run_chat demo_ccfg ?env demo_ctx 5 hello None None chat_sys = (r, t)" by fastforce
  with ends show ?thesis by (cases r) simp_all
qed

theorem llm_stream_ends_witness:
  "last (openai_chat demo_ad (\<lambda>_. Inr \<lparr>hr_status = 200, hr_body = [], hr_lines = [Line (lit ''data: [DONE]'')]\<rparr>) []
     \<lparr>mp_model = [], mp_temperature = 0, mp_max_tokens = None\<rparr>) = StreamStop End_turn"
proof -
  have "read_lines demo_ad [Line (lit ''data: [DONE]'')] End_turn None = ([], Inr (True, End_turn, None))"
  proof -
    have "py_strip (lit ''data: [DONE]'') = lit ''data: [DONE]''" "py_prefix DATA_PREFIX (lit ''data: [DONE]'')"
      "py_strip (drop (length DATA_PREFIX) (lit ''data: [DONE]'')) = lit ''[DONE]''" by (simp_all add: py_strip_def strip_by_def py_space_def DATA_PREFIX_def py_prefix_def)
    then show ?thesis by (simp only: read_lines.simps Let_def if_True if_False not_True_eq_False simp_thms)
  qed
  with llm_stream_ends [of "\<lambda>_. Inr \<lparr>hr_status = 200, hr_body = [], hr_lines = [Line (lit ''data: [DONE]'')]\<rparr>" demo_ad "[]"
      "\<lparr>mp_model = [], mp_temperature = 0, mp_max_tokens = None\<rparr>", OF refl]
  show ?thesis by simp
qed

section \<open>Reading it back\<close>

theorem foreign_conversation_hidden_witness:
  "get_conversation demo_ctx 6 chat_sys = (Inl (App ConversationNotFound), chat_sys)"
proof -
  have "conv_get_owned (pending chat_sys) (ctx_user_id demo_ctx) 6 = None"
    by (simp add: conv_get_owned_def chat_db_def demo_conv_def new_conversation_def)
  from foreign_conversation_hidden [OF this] show ?thesis by blast
qed

abbreviation demo_asked_db :: db where "demo_asked_db \<equiv> asked_db [] (\<lambda>_. None) (\<lambda>_. None)"

theorem message_pages_enumerate_witness:
  "\<exists>pages. walk demo_codec (\<lambda>limit c. message_list_page demo_asked_db 5 limit c) msg_key 1 2 None = Some pages
     \<and> concat pages = newest_first msg_key (conv_messages demo_asked_db 5)"
proof -
  have "messages demo_asked_db = [user_message (demo_cenv [] (\<lambda>_. None) (\<lambda>_. None)) 5 hello None]" by (simp add: asked_db_def)
  then have "messages_keyed demo_asked_db" "length (conv_messages demo_asked_db 5) < 2"
    by (simp_all add: messages_keyed_def conv_messages_def user_message_def)
  from message_pages_enumerate [OF demo_codec_ok _ this, of 1] show ?thesis by simp
qed

theorem message_page_citations_witness:
  "list_messages_endpoint demo_codec demo_ctx 5 20 None chat_sys = (Inr ([], None), chat_sys)"
proof -
  have "message_list_page chat_db 5 20 None = []" by (simp add: message_list_page_def conv_messages_def select_page_def)
  with message_page_citations [OF chat_sys_simps(1) demo_conv_owned, of 20 demo_codec None None] show ?thesis
    by (simp add: decode_optional_def paginate_def)
qed

end
