(* ===== verification/Titles.thy ===== *)
theory Titles
  imports Chat_Correct
begin

text \<open>
  The title task (\<^verbatim>\<open>workers/tasks/titles.py\<close>): the first question and answer of a conversation are given to the model, its
  reply is cleaned up and written where the title is still null. \<open>title_env\<close> is the outside of one run: the model's
  stream, a fault at each of the two sessions, and what others commit between them, while the model answers.
\<close>

section \<open>Cleaning up\<close>

definition TITLE_MAX_CHARS :: nat where "TITLE_MAX_CHARS = 20"
definition TITLE_TEMPERATURE :: rat where "TITLE_TEMPERATURE = 3 / 10"
definition TITLE_MAX_TOKENS :: int where "TITLE_MAX_TOKENS = 64"

definition STRIP_CHARS :: ustr where
  "STRIP_CHARS = lit '' '' @ [9, 13, 10, 0x300C, 0x300D, 0x300E, 0x300F, 34, 39, 0x201C, 0x201D, 0x2018, 0x2019]"

text \<open>The line boundaries of \<^verbatim>\<open>str.splitlines\<close>; its first element, for a text that is not empty.\<close>

definition line_break :: "nat \<Rightarrow> bool" where
  "line_break c \<longleftrightarrow> (10 \<le> c \<and> c \<le> 13) \<or> (28 \<le> c \<and> c \<le> 30) \<or> c = 0x85 \<or> c = 0x2028 \<or> c = 0x2029"

definition first_line :: "ustr \<Rightarrow> ustr" where
  "first_line s = takeWhile (\<lambda>c. \<not> line_break c) s"

definition clean_title :: "ustr \<Rightarrow> ustr" where
  "clean_title raw =
     (let stripped = py_strip raw
      in if stripped = [] then []
         else take TITLE_MAX_CHARS (strip_by (\<lambda>c. c \<in> set STRIP_CHARS) (first_line stripped)))"

section \<open>The task\<close>

datatype title_point = Title_read | Title_write

record title_env =
  te_now :: time
  te_llm :: "chat_message list \<Rightarrow> model_params \<Rightarrow> llm_item list"
  te_fault :: "title_point \<Rightarrow> exn option"
  te_between :: "db \<Rightarrow> db"

text \<open>What the first session reads: the question, the answer and the alias, or nothing to do.\<close>

definition title_input :: "db \<Rightarrow> uuid \<Rightarrow> (ustr \<times> ustr \<times> ustr) option" where
  "title_input s cid =
     (case conv_by_id s cid of
        None \<Rightarrow> None
      | Some conv \<Rightarrow>
          if c_title conv \<noteq> None then None
          else (case (message_first_of_role s cid Role_user, message_first_of_role s cid Role_assistant) of
                  (Some user_msg, Some assistant_msg) \<Rightarrow> Some (m_content user_msg, m_content assistant_msg, c_model_alias conv)
                | _ \<Rightarrow> None))"

fun collect_title :: "llm_item list \<Rightarrow> ustr list \<Rightarrow> exn + ustr list option" where
  \<comment> \<open>\<open>Inr None\<close>: the model reported an error\<close>
  "collect_title [] parts = Inr (Some parts)"
| "collect_title (Raise e # items) parts = Inl e"
| "collect_title (Ev (TextDelta text) # items) parts = collect_title items (parts @ [text])"
| "collect_title (Ev (StreamError code m) # items) parts = Inr None"
| "collect_title (Ev ev # items) parts = collect_title items parts"

definition generate_title_body :: "models_yaml \<Rightarrow> title_env \<Rightarrow> uuid \<Rightarrow> (sys, unit) eff" where
  "generate_title_body cfg env cid =
     bnd (in_session (bnd (guard_fault (te_fault env Title_read)) (\<lambda>_. query (\<lambda>s. title_input s cid)))) (\<lambda>input.
     case input of
       None \<Rightarrow> ret ()
     | Some (user_content, assistant_content, model_alias) \<Rightarrow>
         bnd (race (te_between env)) (\<lambda>_.
          case resolve_alias cfg model_alias of
            Inl e \<Rightarrow> throw e
          | Inr resolved \<Rightarrow>
              (let params = \<lparr>mp_model = rm_model resolved, mp_temperature = TITLE_TEMPERATURE, mp_max_tokens = Some TITLE_MAX_TOKENS\<rparr>
               in case collect_title (te_llm env (title_prompt user_content assistant_content) params) [] of
                    Inl e \<Rightarrow> throw e
                  | Inr None \<Rightarrow> ret ()
                  | Inr (Some parts) \<Rightarrow>
                      (let title = clean_title (concat parts)
                       in if title = [] then ret ()
                          else in_session (bnd (stmt_exn (conv_set_title_if_null cid title (te_now env))) (\<lambda>_.
                                 bnd (guard_fault (te_fault env Title_write)) (\<lambda>_. commit)))))))"

definition run_title :: "models_yaml \<Rightarrow> title_env \<Rightarrow> uuid \<Rightarrow> (sys, unit) eff" where
  "run_title cfg env cid =
     (case build_llm cfg of Inl e \<Rightarrow> throw e | Inr _ \<Rightarrow> generate_title_body cfg env cid)"

definition generate_title :: "models_yaml \<Rightarrow> title_env \<Rightarrow> uuid \<Rightarrow> (sys, unit) eff" where
  \<comment> \<open>every \<^verbatim>\<open>Exception\<close> is logged and forgotten; a cancellation is not an \<^verbatim>\<open>Exception\<close>\<close>
  "generate_title cfg env cid = try_except (run_title cfg env cid) (\<lambda>_. ret ())"

section \<open>A clean title\<close>

lemma clean_title_bounds:
  "length (clean_title raw) \<le> TITLE_MAX_CHARS" "c \<in> set (clean_title raw) \<Longrightarrow> \<not> line_break c \<and> c \<in> set raw"
  "clean_title raw \<noteq> [] \<Longrightarrow> hd (clean_title raw) \<notin> set STRIP_CHARS"
proof -
  let ?l = "strip_by (\<lambda>c. c \<in> set STRIP_CHARS) (first_line (py_strip raw))"
  show "length (clean_title raw) \<le> TITLE_MAX_CHARS" by (simp add: clean_title_def Let_def)
  show "\<not> line_break c \<and> c \<in> set raw" if c: "c \<in> set (clean_title raw)"
  proof -
    have "c \<in> set (take TITLE_MAX_CHARS ?l)" using c by (cases "py_strip raw = []") (simp_all add: clean_title_def Let_def)
    then have "c \<in> set ?l" by (rule in_set_takeD)
    then have "c \<in> set (first_line (py_strip raw))" by (rule subsetD [OF set_strip_by])
    then have l: "c \<in> set (py_strip raw) \<and> \<not> line_break c" unfolding first_line_def by (rule set_takeWhileD)
    then have "c \<in> set raw" unfolding py_strip_def by (blast intro: subsetD [OF set_strip_by])
    with l show ?thesis by blast
  qed
  show "hd (clean_title raw) \<notin> set STRIP_CHARS" if ne: "clean_title raw \<noteq> []"
  proof -
    have "clean_title raw = take TITLE_MAX_CHARS ?l" "?l \<noteq> []"
      using ne by (auto simp: clean_title_def Let_def split: if_splits)
    then show ?thesis using strip_by_ends(1) [of "\<lambda>c. c \<in> set STRIP_CHARS"] by (simp add: TITLE_MAX_CHARS_def)
  qed
qed

section \<open>What the task may do\<close>

definition titled :: "uuid \<Rightarrow> title_env \<Rightarrow> db \<Rightarrow> db \<Rightarrow> bool" where
  "titled cid env d d' \<longleftrightarrow> d' = d
     \<or> (\<exists>raw. clean_title raw \<noteq> []
          \<and> d' = conv_update cid (\<lambda>c. if c_title c = None then c\<lparr>c_title := Some (clean_title raw), c_updated_at := te_now env\<rparr> else c) d)"

lemma titled_refl: "titled cid env d d"
  by (simp add: titled_def)

lemma titled_set:
  "conv_set_title_if_null cid (clean_title raw) (te_now env) d = Inr d' \<Longrightarrow> clean_title raw \<noteq> [] \<Longrightarrow> titled cid env d d'"
  by (auto simp: titled_def conv_set_title_if_null_def split: if_splits)

lemma wp_body:
  "wp (generate_title_body cfg env cid)
     (\<lambda>_ t. (\<exists>d \<in> {committed s, te_between env (committed s)}. titled cid env d (committed t)) \<and> files t = files s \<and> broker t = broker s)
     (\<lambda>_ t. (\<exists>d \<in> {committed s, te_between env (committed s)}. titled cid env d (committed t)) \<and> files t = files s \<and> broker t = broker s) s"
proof -
  show ?thesis
    unfolding generate_title_body_def race_def Let_def
    by (auto simp: wp_simps wp_fun titled_refl dest: titled_set split: option.split sum.split)
qed

text \<open>
  C39: a title task never harms. Whatever the model answers or raises, whatever fails and whatever others commit meanwhile, the task
  returns normally, or raises an exception outside \<^verbatim>\<open>Exception\<close> (a cancellation); it leaves files and broker alone and the database as
  it is, except that it may set the title of its conversation, and with it the time of its last update, if the title is still null when it
  writes, to a non-empty line of at most 20 characters.
\<close>

theorem title_never_overwrites:
  "\<exists>res t. generate_title cfg env cid s = (res, t) \<and> (res = Inr () \<or> (\<exists>e. res = Inl e \<and> base_only e))
     \<and> files t = files s \<and> broker t = broker s
     \<and> (\<exists>d \<in> {committed s, te_between env (committed s)}. committed t = d
        \<or> (\<exists>title. title \<noteq> [] \<and> length title \<le> 20 \<and> filter line_break title = []
             \<and> committed t = conv_update cid (\<lambda>c. if c_title c = None
                 then c\<lparr>c_title := Some title, c_updated_at := te_now env\<rparr> else c) d))"
proof -
  let ?R = "\<lambda>t. (\<exists>d \<in> {committed s, te_between env (committed s)}. titled cid env d (committed t)) \<and> files t = files s \<and> broker t = broker s"
  have "wp (run_title cfg env cid) (\<lambda>_. ?R) (\<lambda>_. ?R) s"
    using wp_body [of cfg env cid s] by (cases "build_llm cfg") (simp_all add: run_title_def wp_simps titled_refl)
  then have "wp (generate_title cfg env cid) (\<lambda>_. ?R) (\<lambda>e t. base_only e \<and> ?R t) s"
    unfolding generate_title_def wp_try_except wp_ret by (rule wp_mono) simp_all
  moreover have "length (clean_title raw) \<le> 20 \<and> filter line_break (clean_title raw) = []" for raw
    using clean_title_bounds(1) [of raw] clean_title_bounds(2) [of _ raw] by (auto simp: TITLE_MAX_CHARS_def filter_empty_conv)
  ultimately show ?thesis by (fastforce simp: wp_def titled_def split: prod.splits sum.splits)
qed

text \<open>
  a title task does its work. For a conversation without a title that has a question and an answer, a model that answers and
  no fault, the cleaned answer becomes the title, unless it is empty.
\<close>

theorem title_is_generated:
  assumes build: "build_llm cfg = Inr ()"
    and conv: "conv_by_id (committed s) cid = Some conv" "c_title conv = None"
    and msgs: "message_first_of_role (committed s) cid Role_user = Some q" "message_first_of_role (committed s) cid Role_assistant = Some a"
    and rm: "resolve_alias cfg (c_model_alias conv) = Inr rm"
    and llm: "te_llm env (title_prompt (m_content q) (m_content a))
        \<lparr>mp_model = rm_model rm, mp_temperature = 3 / 10, mp_max_tokens = Some 64\<rparr> = map (\<lambda>x. Ev (TextDelta x)) xs @ [Ev (StreamStop r)]"
    and calm: "te_fault env = (\<lambda>_. None)" "te_between env = (\<lambda>d. d)"
    and title: "title = clean_title (concat xs)" "title \<noteq> []" "0 \<notin> set title"
  shows "\<exists>t. generate_title cfg env cid s = (Inr (), t)
     \<and> committed t = conv_update cid (\<lambda>c. if c_title c = None then c\<lparr>c_title := Some title, c_updated_at := te_now env\<rparr> else c) (committed s)"
proof -
  have collect: "collect_title (map (\<lambda>x. Ev (TextDelta x)) xs @ [Ev (StreamStop r)]) parts = Inr (Some (parts @ xs))" for parts
    by (induction xs arbitrary: parts) simp_all
  have "text_ok 200 title"
    using clean_title_bounds(1) [of "concat xs"] title by (simp add: text_ok_def TITLE_MAX_CHARS_def)
  then have set_title: "conv_set_title_if_null cid title (te_now env) (committed s)
      = Inr (conv_update cid (\<lambda>c. if c_title c = None then c\<lparr>c_title := Some title, c_updated_at := te_now env\<rparr> else c) (committed s))"
    by (simp add: conv_set_title_if_null_def)
  have input: "title_input (committed s) cid = Some (m_content q, m_content a, c_model_alias conv)"
    using conv msgs by (simp add: title_input_def)
  show ?thesis
    using build rm llm calm title input collect [of "[]"] set_title
    by (simp add: generate_title_def run_title_def generate_title_body_def bnd_def try_except_def try_with_def in_session_def guard_fault_def
        query_def look_def race_def change_def ret_def stmt_exn_def commit_def TITLE_TEMPERATURE_def TITLE_MAX_TOKENS_def Let_def)
qed

end
