(* ===== verification/Sse.thy ===== *)
theory Sse
  imports Chat_Storage
begin

text \<open>
  The HTTP side of a chat turn (\<^verbatim>\<open>api/routers/chat.py\<close>): the events of the orchestrator as server-sent events, with a
  comment line whenever nothing came for 15 seconds. \<open>json_dumps\<close> is \<^verbatim>\<open>json.dumps(..., ensure_ascii=False)\<close> on
  the payloads (how a float is written is a parameter), \<open>sse_read\<close> is a client's reading of an event stream. The
  producer task fills an unbounded queue, so a run of the generator is a list of events; \<open>waits\<close> says which
  waits of the consumer timed out, and where the client stopped reading.
\<close>

section \<open>Payloads\<close>

datatype payload =
    PNull
  | PInt int
  | PFloat rat
  | PStr ustr
  | PList "payload list"
  | PObj "(ustr \<times> payload) list"

definition opt_int :: "int option \<Rightarrow> payload" where
  "opt_int x = (case x of None \<Rightarrow> PNull | Some i \<Rightarrow> PInt i)"

definition item_payload :: "citation_item \<Rightarrow> payload" where
  "item_payload c =
     PObj [(lit ''rank'', PInt (int (it_rank c))), (lit ''chunk_id'', PStr (uuid_str (it_chunk_id c))),
           (lit ''document_id'', PStr (uuid_str (it_document_id c))), (lit ''filename'', PStr (it_filename c)),
           (lit ''snippet'', PStr (it_snippet c)), (lit ''score'', PFloat (it_score c))]"

definition event_name :: "chat_event \<Rightarrow> ustr" where
  "event_name ev =
     (case ev of Message_start _ _ \<Rightarrow> lit ''message_start'' | Citations_event _ \<Rightarrow> lit ''citations'' | Delta _ \<Rightarrow> lit ''delta''
        | Done _ _ _ _ _ \<Rightarrow> lit ''done'' | Error_event _ _ _ \<Rightarrow> lit ''error'')"

definition event_data :: "chat_event \<Rightarrow> payload" where
  "event_data ev =
     (case ev of
        Message_start u a \<Rightarrow> PObj [(lit ''user_message_id'', PStr (uuid_str u)), (lit ''assistant_message_id'', PStr (uuid_str a))]
      | Citations_event items \<Rightarrow> PObj [(lit ''items'', PList (map item_payload items))]
      | Delta text \<Rightarrow> PObj [(lit ''text'', PStr text)]
      | Done m f i j l \<Rightarrow> PObj [(lit ''message_id'', PStr (uuid_str m)), (lit ''finish_reason'', PStr f),
            (lit ''tokens_in'', opt_int i), (lit ''tokens_out'', opt_int j), (lit ''latency_ms'', PInt l)]
      | Error_event c m t \<Rightarrow> PObj [(lit ''code'', PStr c), (lit ''message'', PStr m), (lit ''trace_id'', PStr t)])"

section \<open>json.dumps\<close>

definition escape_char :: "nat \<Rightarrow> ustr" where
  "escape_char c =
     (if c = 34 then [92, 34] else if c = 92 then [92, 92] else if c = 10 then [92, 110] else if c = 13 then [92, 114]
      else if c = 9 then [92, 116] else if c = 12 then [92, 102] else if c = 8 then [92, 98]
      else if c < 32 then [92, 117] @ hex_digits 4 c else [c])"

definition dumps_str :: "ustr \<Rightarrow> ustr" where
  "dumps_str s = [34] @ concat (map escape_char s) @ [34]"

fun json_dumps :: "(rat \<Rightarrow> ustr) \<Rightarrow> payload \<Rightarrow> ustr" where
  "json_dumps frepr PNull = lit ''null''"
| "json_dumps frepr (PInt i) = int_str i"
| "json_dumps frepr (PFloat x) = frepr x"
| "json_dumps frepr (PStr s) = dumps_str s"
| "json_dumps frepr (PList xs) = lit ''['' @ str_join (lit '', '') (map (json_dumps frepr) xs) @ lit '']''"
| "json_dumps frepr (PObj kvs) =
     lit ''{'' @ str_join (lit '', '') (map (\<lambda>kv. dumps_str (fst kv) @ lit '': '' @ json_dumps frepr (snd kv)) kvs) @ lit ''}''"

section \<open>Frames\<close>

definition format_event :: "(rat \<Rightarrow> ustr) \<Rightarrow> chat_event \<Rightarrow> ustr" where
  "format_event frepr ev =
     lit ''event: '' @ event_name ev @ [nl] @ lit ''data: '' @ json_dumps frepr (event_data ev) @ [nl, nl]"

definition PING :: ustr where "PING = lit '': ping'' @ [nl, nl]"

text \<open>
  The loop of \<^verbatim>\<open>source()\<close>: \<open>True\<close> is a wait that timed out, \<open>False\<close> one that got the next item of the queue, whose last
  item is the sentinel; where \<open>waits\<close> ends the client has gone.
\<close>

fun sse_pump :: "(rat \<Rightarrow> ustr) \<Rightarrow> chat_event list \<Rightarrow> bool list \<Rightarrow> ustr list" where
  "sse_pump frepr evs [] = []"
| "sse_pump frepr evs (True # waits) = PING # sse_pump frepr evs waits"
| "sse_pump frepr [] (False # waits) = []"
| "sse_pump frepr (ev # evs) (False # waits) = format_event frepr ev # sse_pump frepr evs waits"

section \<open>The endpoint\<close>

record knowledge_scope =
  kn_types :: "ustr list option"
  kn_law_codes :: "ustr list option"
  kn_source_ids :: "uuid list option"

definition scope_source_ids :: "knowledge_scope option \<Rightarrow> uuid list option" where
  "scope_source_ids scope =
     (case scope of None \<Rightarrow> None | Some sc \<Rightarrow> Some (case kn_source_ids sc of None \<Rightarrow> [] | Some ids \<Rightarrow> ids))"

definition content_ok :: "ustr \<Rightarrow> bool" where
  "content_ok content \<longleftrightarrow> 1 \<le> length content \<and> length content \<le> 8000"

definition send_message :: "chat_cfg \<Rightarrow> (rat \<Rightarrow> ustr) \<Rightarrow> chat_env \<Rightarrow> bool list \<Rightarrow> auth_context \<Rightarrow> uuid \<Rightarrow> ustr \<Rightarrow> uuid option
    \<Rightarrow> knowledge_scope option \<Rightarrow> sys \<Rightarrow> (exn + ustr list) \<times> sys" where
  \<comment> \<open>\<open>Inl\<close> is raised before the response starts; a generator cannot return without an event\<close>
  "send_message cfg frepr env waits ctx cid content client_message_id scope s =
     (if \<not> content_ok content then (Inl (App (ValidationError None)), s)
      else (case run_chat cfg env ctx cid content client_message_id (scope_source_ids scope) s of
              (r, t) \<Rightarrow>
                (case ch_events t of
                   first # rest \<Rightarrow> (Inr (format_event frepr first # sse_pump frepr rest waits), ch_sys t)
                 | [] \<Rightarrow> (case r of Inl e \<Rightarrow> (Inl e, ch_sys t)
                           | Inr _ \<Rightarrow> (Inl (PyError (lit ''StopAsyncIteration'') []), ch_sys t)))))"

section \<open>A client\<close>

text \<open>
  Reading an event stream: lines up to a line feed, a field is what precedes the colon, one space after it is
  dropped, a blank line dispatches the event if it has data, a line that starts with a colon is a comment.
\<close>

definition field_value :: "ustr \<Rightarrow> ustr \<Rightarrow> ustr option" where
  "field_value name line =
     (if take (length name + 1) line = name @ [58]
      then Some (let v = drop (length name + 1) line in if v \<noteq> [] \<and> hd v = 32 then tl v else v) else None)"

definition read_line :: "ustr \<Rightarrow> ustr \<times> ustr list \<Rightarrow> ustr \<times> ustr list" where
  "read_line line st =
     (case field_value (lit ''event'') line of
        Some v \<Rightarrow> (v, snd st)
      | None \<Rightarrow> (case field_value (lit ''data'') line of
                   Some v \<Rightarrow> (fst st, snd st @ [v])
                 | None \<Rightarrow> st))"

fun read_events :: "ustr list \<Rightarrow> ustr \<times> ustr list \<Rightarrow> (ustr \<times> ustr) list" where
  "read_events [] st = []"
| "read_events (line # lines) st =
     (if line = [] then (if snd st = [] then [] else [(fst st, str_join [nl] (snd st))]) @ read_events lines ([], [])
      else read_events lines (read_line line st))"

definition sse_read :: "ustr \<Rightarrow> (ustr \<times> ustr) list" where
  "sse_read body = read_events (split_on nl body) ([], [])"

text \<open>A client's reading of a JSON string, after its opening quote: the text and what follows.\<close>

definition unescape :: "nat \<Rightarrow> nat option" where
  "unescape e = map_of [(34, 34), (92, 92), (47, 47), (110, 10), (114, 13), (116, 9), (102, 12), (98, 8)] e"

definition hex_value :: "ustr \<Rightarrow> nat" where
  "hex_value ds = foldl (\<lambda>a c. a * 16 + (if c < 58 then c - 48 else c - 87)) 0 ds"

fun json_read_str :: "ustr \<Rightarrow> (ustr \<times> ustr) option" where
  "json_read_str [] = None"
| "json_read_str (c # r) =
     (if c = 34 then Some ([], r)
      else if c \<noteq> 92 then map_option (apfst (Cons c)) (json_read_str r)
      else (case r of
              [] \<Rightarrow> None
            | e # r' \<Rightarrow>
                if e = 117
                then (case r' of
                        a # b # x # y # r'' \<Rightarrow> map_option (apfst (Cons (hex_value [a, b, x, y]))) (json_read_str r'')
                      | _ \<Rightarrow> None)
                else (case unescape e of None \<Rightarrow> None | Some d \<Rightarrow> map_option (apfst (Cons d)) (json_read_str r'))))"

declare json_read_str.simps(2) [simp del]

definition TEXT_KEY :: ustr where "TEXT_KEY = lit ''{'' @ dumps_str (lit ''text'') @ lit '': '' @ [34]"

definition delta_text :: "ustr \<times> ustr \<Rightarrow> ustr" where
  "delta_text ev =
     (if fst ev = lit ''delta''
      then (case json_read_str (drop (length TEXT_KEY) (snd ev)) of None \<Rightarrow> [] | Some (t, _) \<Rightarrow> t) else [])"

section \<open>Frames are lines\<close>

lemma read_escape: "json_read_str (escape_char c @ r) = map_option (apfst (Cons c)) (json_read_str r)"
proof (cases "c \<in> {34, 92, 10, 13, 9, 12, 8} \<or> 32 \<le> c")
  case True
  then show ?thesis by (auto simp: escape_char_def json_read_str.simps(2) unescape_def)
next
  case False
  then have e: "escape_char c = 92 # 117 # hex_digits 4 c" by (simp add: escape_char_def)
  obtain a b x y where h: "hex_digits 4 c = [a, b, x, y]" by (simp add: hex_digits_def upt_rec)
  have "hex_value (hex_digits 4 c) = c" using hex_fold [of 0 4 c] False by (simp add: hex_value_def)
  then show ?thesis using e h by (simp add: json_read_str.simps(2) [of 92])
qed

lemma read_dumped: "json_read_str (concat (map escape_char s) @ 34 # r) = Some (s, r)"
  by (induction s) (simp_all add: read_escape json_read_str.simps(2) [of 34])

definition one_line :: "ustr \<Rightarrow> bool" where
  "one_line s \<longleftrightarrow> 10 \<notin> set s \<and> 13 \<notin> set s"

lemma one_line_simps [simp]:
  "one_line []" "one_line (c # s) \<longleftrightarrow> c \<noteq> 10 \<and> c \<noteq> 13 \<and> one_line s" "one_line (s @ t) \<longleftrightarrow> one_line s \<and> one_line t"
  by (auto simp: one_line_def)

lemma one_line_join: "one_line sep \<Longrightarrow> \<forall>x \<in> set xs. one_line x \<Longrightarrow> one_line (str_join sep xs)"
  by (induction sep xs rule: str_join.induct) auto

lemma one_line_nat: "one_line (nat_str n)"
  by (induction n rule: nat_str.induct) (subst nat_str.simps, auto)

lemma one_line_str: "one_line (dumps_str s)"
proof -
  have "one_line (escape_char c)" for c
    by (auto simp: escape_char_def one_line_def hex_digits_def hex_digit_def)
  then have "one_line (concat (map escape_char s))" by (induction s) auto
  then show ?thesis by (simp add: dumps_str_def)
qed

lemma one_line_dumps: "(\<And>x. one_line (frepr x)) \<Longrightarrow> one_line (json_dumps frepr p)"
  by (induction frepr p rule: json_dumps.induct)
    (auto simp: one_line_nat one_line_str int_str_def intro!: one_line_join)

lemma split_on_line: "c \<notin> set l \<Longrightarrow> split_on c (l @ c # r) = l # split_on c r"
  by (induction l) auto

lemma split_frame: "c \<notin> set a \<Longrightarrow> c \<notin> set b \<Longrightarrow> split_on c (a @ c # b @ c # c # r) = a # b # [] # split_on c r"
  by (simp add: split_on_line split_on_line [of c "[]", simplified])

definition wire :: "(rat \<Rightarrow> ustr) \<Rightarrow> chat_event \<Rightarrow> ustr \<times> ustr" where
  "wire frepr ev = (event_name ev, json_dumps frepr (event_data ev))"

lemma event_name_line: "one_line (event_name ev)"
  by (cases ev) (simp_all add: event_name_def)

lemma read_frame:
  assumes "\<And>x. one_line (frepr x)"
  shows "sse_read (format_event frepr ev @ rest) = wire frepr ev # sse_read rest"
proof -
  let ?e = "lit ''event: '' @ event_name ev" and ?d = "lit ''data: '' @ json_dumps frepr (event_data ev)"
  have lines: "one_line ?e" "one_line ?d" using event_name_line one_line_dumps [OF assms] by auto
  have frame: "format_event frepr ev @ rest = ?e @ nl # ?d @ nl # nl # rest" by (simp add: format_event_def)
  have "split_on nl (format_event frepr ev @ rest) = ?e # ?d # [] # split_on nl rest"
    unfolding frame by (rule split_frame) (use lines in \<open>unfold one_line_def, blast+\<close>)
  then show ?thesis by (simp add: sse_read_def read_line_def field_value_def wire_def)
qed

lemma read_ping: "sse_read (PING @ rest) = sse_read rest"
proof -
  have ping: "PING @ rest = lit '': ping'' @ nl # nl # rest" by (simp add: PING_def)
  have "split_on nl (PING @ rest) = lit '': ping'' # [] # split_on nl rest"
    unfolding ping by (subst split_on_line) (simp_all add: split_on_line [of nl "[]", simplified])
  then show ?thesis by (simp add: sse_read_def read_line_def field_value_def)
qed

lemma sse_read_Nil [simp]: "sse_read [] = []"
  by (simp add: sse_read_def)

lemma read_pump:
  assumes "\<And>x. one_line (frepr x)"
  shows "sse_read (concat (sse_pump frepr evs waits)) = map (wire frepr) (take (length (filter Not waits)) evs)"
  using assms
proof (induction frepr evs waits rule: sse_pump.induct)
  case (4 frepr ev evs waits)
  then show ?case by (simp add: read_frame)
qed (simp_all add: read_ping)

lemma pump_line: "(\<And>x. one_line (frepr x)) \<Longrightarrow> 13 \<notin> set (concat (sse_pump frepr evs waits))"
proof (induction frepr evs waits rule: sse_pump.induct)
  case (4 frepr ev evs waits)
  then show ?case
    using event_name_line [of ev] one_line_dumps [OF 4(2), where p = "event_data ev"] by (simp add: format_event_def one_line_def)
qed (simp_all add: PING_def)

lemma delta_text_wire: "delta_text (wire frepr ev) = concat (delta_list [ev])"
proof (cases ev)
  case (Delta x)
  then have "snd (wire frepr ev) = TEXT_KEY @ concat (map escape_char x) @ 34 # lit ''}''"
    by (simp add: wire_def event_data_def TEXT_KEY_def dumps_str_def)
  then have "json_read_str (drop (length TEXT_KEY) (snd (wire frepr ev))) = Some (x, lit ''}'')" by (simp add: read_dumped)
  then show ?thesis using Delta by (simp add: delta_text_def wire_def event_name_def)
qed (simp_all add: delta_text_def wire_def event_name_def)

lemma delta_texts: "concat (map delta_text (map (wire frepr) evs)) = concat (delta_list evs)"
proof (induction evs)
  case (Cons ev evs)
  then show ?case using delta_text_wire [of frepr ev] delta_list_append [of "[ev]" evs] by simp
qed simp

section \<open>What reaches the client\<close>

lemma send_frames:
  assumes repr: "\<And>x. one_line (frepr x)"
    and send: "send_message cfg frepr env waits ctx cid content client_message_id scope s = (Inr frames, u)"
    and run: "run_chat cfg env ctx cid content client_message_id (scope_source_ids scope) s = (r, t)"
  shows "u = ch_sys t \<and> ch_events t \<noteq> [] \<and> 13 \<notin> set (concat frames)
     \<and> sse_read (concat frames) = map (wire frepr) (take (1 + length (filter Not waits)) (ch_events t))"
proof -
  obtain first rest where evs: "ch_events t = first # rest" "frames = format_event frepr first # sse_pump frepr rest waits" "u = ch_sys t"
    using send run by (auto simp: send_message_def split: if_splits list.splits sum.splits)
  let ?evs = "take (1 + length (filter Not waits)) (ch_events t)"
  have wire: "sse_read (concat frames) = map (wire frepr) ?evs"
    by (simp add: evs read_frame [OF repr] read_pump [OF repr])
  have "one_line (json_dumps frepr (event_data first))" by (rule one_line_dumps) (rule repr)
  then have "13 \<notin> set (concat frames)"
    using event_name_line [of first] pump_line [of frepr rest waits, OF repr] by (simp add: evs format_event_def one_line_def)
  with evs wire show ?thesis by simp
qed

text \<open>
  C19: the stream on the wire. However many waits time out and wherever the client stops, whatever line breaks, quotes or
  control characters the texts hold, a client that reads the response as an event stream gets the
  first events of the run, in order, each with its name and its payload, none from a heartbeat; all of them if
  it stays; and the delta texts that it decodes, put together, are those of the run.
\<close>

theorem sse_delivers_events:
  assumes repr: "\<And>x. one_line (frepr x)"
    and send: "send_message cfg frepr env waits ctx cid content client_message_id scope s = (Inr frames, u)"
  shows "\<exists>r t k. run_chat cfg env ctx cid content client_message_id (scope_source_ids scope) s = (r, t) \<and> u = ch_sys t
     \<and> k = 1 + length (filter Not waits)
     \<and> sse_read (concat frames) = map (wire frepr) (take k (ch_events t)) \<and> 13 \<notin> set (concat frames)
     \<and> concat (map delta_text (sse_read (concat frames))) = concat (delta_list (take k (ch_events t)))"
proof -
  obtain r t where run: "run_chat cfg env ctx cid content client_message_id (scope_source_ids scope) s = (r, t)" by fastforce
  from send_frames [OF repr send run] run show ?thesis by (simp only: delta_texts) blast
qed

end
