(* ===== verification/Embedding.thy ===== *)
theory Embedding
  imports Llm_Adapter "HOL-Library.Multiset"
begin

text \<open>
  The embedding adapter (\<^verbatim>\<open>infrastructure/embedding/openai_compat.py\<close>) and the query cache
  (\<^verbatim>\<open>infrastructure/embedding/cache.py\<close>). The HTTP exchange is a parameter: per request it gives a transport
  exception, or a status, the body and, where the body is the JSON that lines 78 to 81 can read, its rows
  with index and vector. The locale \<open>embedding_provider\<close> is the port's contract; redis is a map of strings that can
  fail on either side.
\<close>

section \<open>Errors\<close>

definition EMBED_ERROR_MESSAGES :: "provider_error_code \<Rightarrow> ustr" where
  "EMBED_ERROR_MESSAGES c =
     (case c of Auth \<Rightarrow> [0x65, 0x6D, 0x62, 0x65, 0x64, 0x64, 0x69, 0x6E, 0x67, 0x20, 0x670D, 0x52D9, 0x9A57, 0x8B49, 0x5931, 0x6557] | Rate_limited \<Rightarrow> [0x65, 0x6D, 0x62, 0x65, 0x64, 0x64, 0x69, 0x6E, 0x67, 0x20, 0x670D, 0x52D9, 0x5FD9, 0x788C, 0x4E2D, 0x2C, 0x8ACB, 0x7A0D, 0x5F8C, 0x518D, 0x8A66]
        | Context_length \<Rightarrow> [0x5F85, 0x5D4C, 0x5165, 0x6587, 0x5B57, 0x904E, 0x9577, 0x2C, 0x8D85, 0x51FA, 0x6A21, 0x578B, 0x4E0A, 0x9650] | Transient \<Rightarrow> [0x65, 0x6D, 0x62, 0x65, 0x64, 0x64, 0x69, 0x6E, 0x67, 0x20, 0x670D, 0x52D9, 0x66AB, 0x6642, 0x7121, 0x6CD5, 0x56DE, 0x61C9, 0x2C, 0x8ACB, 0x7A0D, 0x5F8C, 0x518D, 0x8A66]
        | Provider_error \<Rightarrow> [0x65, 0x6D, 0x62, 0x65, 0x64, 0x64, 0x69, 0x6E, 0x67, 0x20, 0x670D, 0x52D9, 0x56DE, 0x61C9, 0x7570, 0x5E38])"

definition embed_error :: "provider_error_code \<Rightarrow> exn" where
  "embed_error c = EmbeddingError c (EMBED_ERROR_MESSAGES c)"

definition embed_map_http_status :: "(ustr \<Rightarrow> ustr) \<Rightarrow> nat \<Rightarrow> ustr \<Rightarrow> provider_error_code" where
  "embed_map_http_status lower status raw =
     (if status \<in> {401, 403} then Auth
      else if status = 429 then Rate_limited
      else if status = 400 then
        (let t = lower raw
         in if sublist (lit ''context'') t \<or> sublist (lit ''length'') t then Context_length else Provider_error)
      else if status \<ge> 500 then Transient
      else Provider_error)"

text \<open>The two adapters classify a status alike.\<close>

lemma same_classification: "embed_map_http_status = llm_map_http_status"
  by (intro ext) (simp add: embed_map_http_status_def llm_map_http_status_def)

section \<open>The adapter\<close>

record embedding_adapter =
  eb_dim :: nat
  eb_batch_size :: nat
  eb_lower :: "ustr \<Rightarrow> ustr"
  eb_post :: "nat \<Rightarrow> ustr list \<Rightarrow> wire_exn + nat \<times> ustr \<times> (int \<times> vec) list option"

definition embed_http_batch :: "embedding_adapter \<Rightarrow> nat \<Rightarrow> ustr list \<Rightarrow> exn + vec list" where
  "embed_http_batch ad k batch =
     (case eb_post ad k batch of
        Inl Timeout_exception \<Rightarrow> Inl (embed_error Transient)
      | Inl Http_error \<Rightarrow> Inl (embed_error Transient)
      | Inl Other_exception \<Rightarrow> Inl (PyError (lit ''Exception'') [])
      | Inr (status, body, data) \<Rightarrow>
          if status \<ge> 400 then Inl (embed_error (embed_map_http_status (eb_lower ad) status body))
          else (case data of
                  None \<Rightarrow> Inl (embed_error Provider_error)
                | Some rows \<Rightarrow>
                    (let vectors = map snd (sort_key fst rows)
                     in if length vectors \<noteq> length batch then Inl (embed_error Provider_error)
                        else if \<exists>v \<in> set vectors. length v \<noteq> eb_dim ad then Inl (embed_error Provider_error)
                        else Inr vectors)))"

text \<open>The \<open>k\<close>-th request carries the next batch.\<close>

function embed_from :: "embedding_adapter \<Rightarrow> nat \<Rightarrow> ustr list \<Rightarrow> exn + vec list" where
  "embed_from ad k texts =
     (if texts = [] then Inr []
      else (let n = max 1 (eb_batch_size ad)
            in case embed_http_batch ad k (take n texts) of
                 Inl e \<Rightarrow> Inl e
               | Inr vectors \<Rightarrow>
                   (case embed_from ad (Suc k) (drop n texts) of Inl e \<Rightarrow> Inl e | Inr rest \<Rightarrow> Inr (vectors @ rest))))"
  by pat_completeness auto
termination by (relation "measure (\<lambda>(ad, k, texts). length texts)") auto

declare embed_from.simps [simp del]

definition embed_texts :: "embedding_adapter \<Rightarrow> ustr list \<Rightarrow> exn + vec list" where
  "embed_texts ad texts = embed_from ad 0 texts"

section \<open>The port's contract\<close>

locale embedding_provider =
  fixes emb :: "ustr list \<Rightarrow> exn + vec list" and dim :: nat
  assumes aligned: "emb texts = Inr vectors \<Longrightarrow> length vectors = length texts"
    and dimension: "emb texts = Inr vectors \<Longrightarrow> v \<in> set vectors \<Longrightarrow> length v = dim"
begin

lemma one_vector: "emb [t] = Inr vectors \<Longrightarrow> \<exists>v. vectors = [v] \<and> length v = dim"
  using aligned [of "[t]" vectors] dimension [of "[t]" vectors] by (cases vectors) auto

end

lemma http_batch_shape:
  "embed_http_batch ad k batch = Inr vectors \<Longrightarrow> length vectors = length batch \<and> (\<forall>v \<in> set vectors. length v = eb_dim ad)"
  by (simp add: embed_http_batch_def Let_def split: sum.splits wire_exn.splits if_splits option.splits prod.splits) auto

lemma embed_from_shape:
  "embed_from ad k texts = Inr vectors \<Longrightarrow> length vectors = length texts \<and> (\<forall>v \<in> set vectors. length v = eb_dim ad)"
proof (induction ad k texts arbitrary: vectors rule: embed_from.induct)
  case (1 ad k texts)
  show ?case
  proof (cases "texts = []")
    case True
    with 1(2) show ?thesis by (simp add: embed_from.simps)
  next
    case False
    let ?n = "max 1 (eb_batch_size ad)"
    obtain a b where ab: "embed_http_batch ad k (take ?n texts) = Inr a" "embed_from ad (Suc k) (drop ?n texts) = Inr b" "vectors = a @ b"
      using 1(2) False by (subst (asm) embed_from.simps) (auto simp: Let_def split: sum.splits)
    have "length b = length (drop ?n texts) \<and> (\<forall>v \<in> set b. length v = eb_dim ad)"
      by (rule 1(1) [OF False refl ab(1,2)])
    with http_batch_shape [OF ab(1)] ab(3) show ?thesis by auto
  qed
qed

interpretation openai_embedding: embedding_provider "embed_texts ad" "eb_dim ad" for ad
  by unfold_locales (use embed_from_shape in \<open>auto simp: embed_texts_def\<close>)

lemma sort_key_unique:
  assumes m: "mset xs = mset ys" and d: "distinct (map f ys)" and o: "sorted (map f ys)"
  shows "sort_key f xs = ys"
proof (rule properties_for_sort_key)
  fix k assume "k \<in> set ys"
  have "length (filter (\<lambda>x. f k = f x) ys) \<le> 1"
    using d by (induction ys) (auto simp: filter_empty_conv)
  moreover have "mset (filter (\<lambda>x. f k = f x) ys) = mset (filter (\<lambda>x. f k = f x) xs)" by (simp add: m)
  ultimately show "filter (\<lambda>x. f k = f x) ys = filter (\<lambda>x. f k = f x) xs"
    by (cases "filter (\<lambda>x. f k = f x) ys") (auto simp del: mset_filter simp: mset_single_iff_right)
qed (use assms in simp_all)

text \<open>
  C27: vectors go with their texts. If the service answers every request with one vector per text, in rows numbered from 0 but
  in any order, then, whatever the batch size, the adapter returns the vectors in the order of the texts when all of them have the
  configured dimension, and a provider error when a single one, in any batch, has another.
\<close>

theorem embed_restores_order:
  assumes "\<forall>k batch. \<exists>body rows. eb_post ad k batch = Inr (200, body, Some rows)
      \<and> mset rows = mset (map (\<lambda>i. (int i, f (batch ! i))) [0..<length batch])"
  shows "embed_texts ad texts =
    (if list_all (\<lambda>t. length (f t) = eb_dim ad) texts then Inr (map f texts) else Inl (embed_error Provider_error))"
proof -
  let ?good = "list_all (\<lambda>t. length (f t) = eb_dim ad)"
  have batch: "embed_http_batch ad k b = (if ?good b then Inr (map f b) else Inl (embed_error Provider_error))" for k b
  proof -
    obtain body rows where r: "eb_post ad k b = Inr (200, body, Some rows)"
      "mset rows = mset (map (\<lambda>i. (int i, f (b ! i))) [0..<length b])" using assms by blast
    have fst: "map fst (map (\<lambda>i. (int i, f (b ! i))) [0..<length b]) = map int [0..<length b]" by simp
    have "sort_key fst rows = map (\<lambda>i. (int i, f (b ! i))) [0..<length b]"
      by (rule sort_key_unique [OF r(2)], unfold fst) (simp_all add: distinct_map inj_on_def sorted_iff_nth_mono)
    moreover have "map snd (map (\<lambda>i. (int i, f (b ! i))) [0..<length b]) = map f b"
      by (rule nth_equalityI) simp_all
    ultimately have "map snd (sort_key fst rows) = map f b" by simp
    moreover from this have "length rows = length b" by (metis length_map length_sort)
    ultimately show ?thesis using r by (auto simp: embed_http_batch_def Let_def list_all_iff)
  qed
  have "embed_from ad k texts = (if ?good texts then Inr (map f texts) else Inl (embed_error Provider_error))" for k
  proof (induction "length texts" arbitrary: k texts rule: less_induct)
    case less
    show ?case
    proof (cases "texts = []")
      case False
      let ?n = "max 1 (eb_batch_size ad)"
      have "?good texts = (?good (take ?n texts) \<and> ?good (drop ?n texts))"
        using list_all_append [of _ "take ?n texts" "drop ?n texts"] by simp
      moreover have "embed_from ad (Suc k) (drop ?n texts)
          = (if ?good (drop ?n texts) then Inr (map f (drop ?n texts)) else Inl (embed_error Provider_error))"
        by (rule less.hyps) (use False in simp)
      moreover have "map f (take ?n texts) @ map f (drop ?n texts) = map f texts" by (metis append_take_drop_id map_append)
      ultimately show ?thesis using False by (subst embed_from.simps) (simp add: batch Let_def)
    qed (simp add: embed_from.simps)
  qed
  then show ?thesis by (simp add: embed_texts_def)
qed

section \<open>The query cache\<close>

record query_cache =
  qc_version :: ustr
  qc_sha256 :: "ustr \<Rightarrow> ustr"
  qc_dumps :: "vec \<Rightarrow> ustr"
  qc_loads :: "ustr \<Rightarrow> vec option"
  qc_get_fails :: bool
  qc_set_fails :: bool

type_synonym redis = "ustr \<rightharpoonup> ustr"

definition cache_key :: "query_cache \<Rightarrow> ustr \<Rightarrow> ustr" where
  "cache_key qc t = lit ''emb:q:'' @ qc_version qc @ lit '':'' @ qc_sha256 qc t"

definition cache_get :: "query_cache \<Rightarrow> ustr \<Rightarrow> redis \<Rightarrow> vec option" where
  "cache_get qc t r =
     (if qc_get_fails qc then None
      else (case r (cache_key qc t) of None \<Rightarrow> None | Some raw \<Rightarrow> qc_loads qc raw))"

definition cache_set :: "query_cache \<Rightarrow> ustr \<Rightarrow> vec \<Rightarrow> redis \<Rightarrow> redis" where
  "cache_set qc t v r = (if qc_set_fails qc then r else r(cache_key qc t \<mapsto> qc_dumps qc v))"

definition embed_query :: "(ustr list \<Rightarrow> exn + vec list) \<Rightarrow> query_cache \<Rightarrow> ustr \<Rightarrow> redis \<Rightarrow> (exn + vec) \<times> redis" where
  "embed_query emb qc t r =
     (case cache_get qc t r of
        Some v \<Rightarrow> (Inr v, r)
      | None \<Rightarrow> (case emb [t] of
                   Inl e \<Rightarrow> (Inl e, r)
                 | Inr [v] \<Rightarrow> (Inr v, cache_set qc t v r)
                 | Inr _ \<Rightarrow> (Inl (PyError (lit ''ValueError'') []), r)))"

definition cache_ok :: "(ustr list \<Rightarrow> exn + vec list) \<Rightarrow> query_cache \<Rightarrow> redis \<Rightarrow> bool" where
  "cache_ok emb qc r \<longleftrightarrow> (\<forall>t raw v. r (cache_key qc t) = Some raw \<longrightarrow> qc_loads qc raw = Some v \<longrightarrow> emb [t] = Inr [v])"


end
