(* ===== verification/Retrieval.thy ===== *)
theory Retrieval
  imports Embedding Chat_Storage
begin

text \<open>
  The hybrid search (\<^verbatim>\<open>infrastructure/vector/pgvector_index.py\<close>) and the retrieval service
  (\<^verbatim>\<open>application/retrieval_service.py\<close>). The two legs are ranked lists of chunk ids under the same filter, fused by
  reciprocal ranks. What the database leaves open is a parameter: the distance and text search functions, the rows
  the approximate vector index offers (\<open>ix_scan\<close>, of which the query keeps those that pass its filter), the order among
  equals (\<open>ix_tie\<close>), and what others commit between the ranking and the loading of the chunks.
\<close>

section \<open>The query\<close>

fun py_words :: "ustr \<Rightarrow> ustr \<Rightarrow> ustr list" where
  \<comment> \<open>\<^verbatim>\<open>str.split()\<close>; the first argument is the word being read\<close>
  "py_words w [] = (if w = [] then [] else [w])"
| "py_words w (c # s) =
     (if py_space c then (if w = [] then py_words [] s else w # py_words [] s) else py_words (w @ [c]) s)"

fun seen_first :: "ustr list \<Rightarrow> ustr list \<Rightarrow> ustr list" where
  "seen_first seen [] = seen"
| "seen_first seen (t # ts) = seen_first (if length t > 1 \<and> t \<notin> set seen then seen @ [t] else seen) ts"

definition quote_token :: "ustr \<Rightarrow> ustr" where
  "quote_token t = [34] @ concat (map (\<lambda>c. if c = 92 then [92, 92] else if c = 34 then [92, 34] else [c]) t) @ [34]"

definition build_tsquery :: "ustr \<Rightarrow> ustr" where
  "build_tsquery query_tokens = str_join (lit '' | '') (map quote_token (seen_first [] (py_words [] query_tokens)))"

section \<open>The two legs\<close>

datatype search_point = At_rank | At_load

record chunk_index =
  ix_top_k :: nat
  ix_rrf_k :: nat
  ix_distance :: "vec \<Rightarrow> vec \<Rightarrow> rat"
  ix_matches :: "ustr \<Rightarrow> ustr \<Rightarrow> bool"
  ix_rank_cd :: "ustr \<Rightarrow> ustr \<Rightarrow> rat"
  ix_scan :: "document_chunk list \<Rightarrow> document_chunk list"
  ix_tie :: "uuid \<Rightarrow> nat"
  ix_fault :: "search_point \<Rightarrow> exn option"
  ix_between :: "db \<Rightarrow> db"

definition is_law :: "document_chunk \<Rightarrow> bool" where
  "is_law c \<longleftrightarrow> dict_get (ck_meta c) (lit ''kind'') = Some (JStr (lit ''law''))"

definition eligible :: "db \<Rightarrow> uuid \<Rightarrow> uuid list \<Rightarrow> document_chunk \<Rightarrow> bool" where
  \<comment> \<open>the joins and the common conditions of both legs\<close>
  "eligible s user_id filter_ids c =
     (case doc_by_id s (ck_document_id c) of
        None \<Rightarrow> False
      | Some d \<Rightarrow>
          (case source_get s (d_source_id d) of
             None \<Rightarrow> False
           | Some src \<Rightarrow> d_status d = St_ready \<and> ks_enabled src \<and> (d_uploaded_by d = user_id \<or> is_law c)
               \<and> (filter_ids = [] \<or> d_source_id d \<in> set filter_ids)))"

definition embedded :: "document_chunk \<Rightarrow> bool" where
  "embedded c \<longleftrightarrow> ck_embedding c \<noteq> None"

definition distance_to :: "chunk_index \<Rightarrow> vec \<Rightarrow> document_chunk \<Rightarrow> rat" where
  "distance_to ix qvec c = (case ck_embedding c of None \<Rightarrow> 0 | Some v \<Rightarrow> ix_distance ix v qvec)"

definition numbered :: "document_chunk list \<Rightarrow> (uuid \<times> nat) list" where
  "numbered cs = map (\<lambda>(r, c). (ck_id c, r)) (enumerate 1 cs)"

definition scanned :: "chunk_index \<Rightarrow> document_chunk list \<Rightarrow> document_chunk list" where
  "scanned ix cs = filter (\<lambda>c. c \<in> set cs) (remdups (ix_scan ix cs))"

definition top_by :: "chunk_index \<Rightarrow> (document_chunk \<Rightarrow> rat) \<Rightarrow> document_chunk list \<Rightarrow> document_chunk list" where
  \<comment> \<open>\<^verbatim>\<open>order by ... limit :top_k\<close>\<close>
  "top_by ix key cs = take (ix_top_k ix) (sort_key key (sort_key (\<lambda>c. ix_tie ix (ck_id c)) cs))"

definition vec_leg :: "chunk_index \<Rightarrow> db \<Rightarrow> uuid \<Rightarrow> uuid list \<Rightarrow> vec \<Rightarrow> (uuid \<times> nat) list" where
  "vec_leg ix s user_id filter_ids qvec =
     numbered (top_by ix (distance_to ix qvec)
       (scanned ix (filter (\<lambda>c. eligible s user_id filter_ids c \<and> embedded c) (document_chunks s))))"

definition fts_leg :: "chunk_index \<Rightarrow> db \<Rightarrow> uuid \<Rightarrow> uuid list \<Rightarrow> ustr \<Rightarrow> (uuid \<times> nat) list" where
  "fts_leg ix s user_id filter_ids tsquery =
     numbered (top_by ix (\<lambda>c. - ix_rank_cd ix (ck_tsv c) tsquery)
       (filter (\<lambda>c. eligible s user_id filter_ids c \<and> ix_matches ix (ck_tsv c) tsquery) (document_chunks s)))"

section \<open>Fusion\<close>

definition leg_score :: "nat \<Rightarrow> (uuid \<times> nat) list \<Rightarrow> uuid \<Rightarrow> rat" where
  "leg_score rrf_k leg i = (case map_of leg i of None \<Rightarrow> 0 | Some r \<Rightarrow> 1 / of_nat (rrf_k + r))"

definition rrf_score :: "nat \<Rightarrow> (uuid \<times> nat) list \<Rightarrow> (uuid \<times> nat) list \<Rightarrow> uuid \<Rightarrow> rat" where
  "rrf_score rrf_k v f i = leg_score rrf_k v i + leg_score rrf_k f i"

definition fuse :: "chunk_index \<Rightarrow> (uuid \<times> nat) list \<Rightarrow> (uuid \<times> nat) list \<Rightarrow> nat \<Rightarrow> (uuid \<times> rat) list" where
  \<comment> \<open>\<^verbatim>\<open>full outer join ... order by score desc limit :top_n\<close>; without the text leg \<open>f\<close> is empty\<close>
  "fuse ix v f top_n =
     (let ids = map fst v @ filter (\<lambda>i. i \<notin> fst ` set v) (map fst f)
      in map (\<lambda>i. (i, rrf_score (ix_rrf_k ix) v f i))
           (take top_n (sort_key (\<lambda>i. - rrf_score (ix_rrf_k ix) v f i) (sort_key (ix_tie ix) ids))))"

definition search_ranked :: "chunk_index \<Rightarrow> uuid \<Rightarrow> uuid list \<Rightarrow> ustr \<Rightarrow> vec \<Rightarrow> nat \<Rightarrow> db \<Rightarrow> (uuid \<times> rat) list" where
  "search_ranked ix user_id filter_ids tsquery qvec top_n s =
     fuse ix (vec_leg ix s user_id filter_ids qvec)
       (if tsquery = [] then [] else fts_leg ix s user_id filter_ids tsquery) top_n"

definition chunk_by_id :: "db \<Rightarrow> uuid \<Rightarrow> (document_chunk \<times> document) option" where
  "chunk_by_id s i =
     (case find (\<lambda>c. ck_id c = i) (document_chunks s) of
        None \<Rightarrow> None
      | Some c \<Rightarrow> (case doc_by_id s (ck_document_id c) of None \<Rightarrow> None | Some d \<Rightarrow> Some (c, d)))"

definition load_chunks :: "(uuid \<times> rat) list \<Rightarrow> db \<Rightarrow> retrieved_chunk list" where
  \<comment> \<open>the ranked ids whose rows are still there, numbered anew\<close>
  "load_chunks scores s =
     map (\<lambda>(rank, score, c, d). \<lparr>rc_chunk_id = ck_id c, rc_document_id = ck_document_id c, rc_filename = d_filename d,
            rc_text = ck_text c, rc_score = score, rc_rank = rank, rc_meta = ck_meta c\<rparr>)
       (enumerate 1 (List.map_filter (\<lambda>(i, score). map_option (\<lambda>cd. (score, cd)) (chunk_by_id s i)) scores))"

definition hybrid_search :: "chunk_index \<Rightarrow> uuid \<Rightarrow> uuid list option \<Rightarrow> ustr \<Rightarrow> vec \<Rightarrow> nat \<Rightarrow> (sys, retrieved_chunk list) eff" where
  "hybrid_search ix user_id source_ids query_tokens qvec top_n =
     (let tsquery = build_tsquery query_tokens;
          filter_ids = (case source_ids of None \<Rightarrow> [] | Some ids \<Rightarrow> ids)
      in in_session
           (bnd (guard_fault (ix_fault ix At_rank)) (\<lambda>_.
            bnd (query (search_ranked ix user_id filter_ids tsquery qvec top_n)) (\<lambda>ranked.
            if ranked = [] then ret []
            else bnd (race (ix_between ix)) (\<lambda>_.
                 bnd (guard_fault (ix_fault ix At_load)) (\<lambda>_.
                 query (load_chunks ranked)))))))"

section \<open>The service\<close>

definition QUERY_EMBED_MAX_CHARS :: nat where "QUERY_EMBED_MAX_CHARS = 2000"

definition noop_rerank :: "ustr \<Rightarrow> retrieved_chunk list \<Rightarrow> nat \<Rightarrow> retrieved_chunk list" where
  "noop_rerank q chunks top_n = take top_n chunks"

definition retrieve :: "chunk_index \<Rightarrow> embedding_adapter \<Rightarrow> query_cache \<Rightarrow> (ustr \<Rightarrow> ustr list) \<Rightarrow> redis \<Rightarrow> auth_context \<Rightarrow> ustr
    \<Rightarrow> uuid list option \<Rightarrow> nat \<Rightarrow> (sys, retrieved_chunk list) eff" where
  "retrieve ix ad qc cutter r ctx q source_ids top_n =
     (let tokens = index_tokens cutter q
      in case fst (embed_query (embed_texts ad) qc (take QUERY_EMBED_MAX_CHARS q) r) of
           Inl e \<Rightarrow> throw e
         | Inr qvec \<Rightarrow>
             bnd (hybrid_search ix (ctx_user_id ctx) source_ids tokens qvec top_n) (\<lambda>chunks.
             ret (noop_rerank q chunks top_n)))"

section \<open>What a search returns\<close>

lemma numbered_ids: "map fst (numbered cs) = map ck_id cs"
proof -
  have "map (\<lambda>(r, c). ck_id c) (enumerate n cs) = map ck_id cs" for n by (induction cs arbitrary: n) simp_all
  then show ?thesis by (simp add: numbered_def comp_def case_prod_unfold)
qed

lemma top_by_subset: "set (top_by ix key cs) \<subseteq> set cs"
  by (auto simp: top_by_def dest: in_set_takeD)

lemma leg_eligible:
  "i \<in> fst ` set (vec_leg ix s u ids qvec) \<Longrightarrow> \<exists>c \<in> set (document_chunks s). ck_id c = i \<and> eligible s u ids c"
  "i \<in> fst ` set (fts_leg ix s u ids tsq) \<Longrightarrow> \<exists>c \<in> set (document_chunks s). ck_id c = i \<and> eligible s u ids c"
proof -
  assume "i \<in> fst ` set (vec_leg ix s u ids qvec)"
  then have "i \<in> set (map fst (vec_leg ix s u ids qvec))" by simp
  then show "\<exists>c \<in> set (document_chunks s). ck_id c = i \<and> eligible s u ids c"
    unfolding vec_leg_def numbered_ids using top_by_subset by (fastforce simp: scanned_def)
next
  assume "i \<in> fst ` set (fts_leg ix s u ids tsq)"
  then have "i \<in> set (map fst (fts_leg ix s u ids tsq))" by simp
  then show "\<exists>c \<in> set (document_chunks s). ck_id c = i \<and> eligible s u ids c"
    unfolding fts_leg_def numbered_ids using top_by_subset by fastforce
qed

lemma fuse_ids: "fst ` set (fuse ix v f n) \<subseteq> fst ` set v \<union> fst ` set f"
proof
  fix i assume "i \<in> fst ` set (fuse ix v f n)"
  then have "i \<in> set (take n (sort_key (\<lambda>i. - rrf_score (ix_rrf_k ix) v f i)
      (sort_key (ix_tie ix) (map fst v @ filter (\<lambda>i. i \<notin> fst ` set v) (map fst f)))))"
    by (simp add: fuse_def Let_def image_image)
  from in_set_takeD [OF this] show "i \<in> fst ` set v \<union> fst ` set f" by auto
qed

lemma in_either: "i \<in> A \<union> fst ` set (if b then [] else l) \<Longrightarrow> i \<in> A \<or> i \<in> fst ` set l"
  by (cases b) auto

lemma ranked_eligible:
  assumes "(i, score) \<in> set (search_ranked ix u ids tsq qvec n s)"
  shows "\<exists>c \<in> set (document_chunks s). ck_id c = i \<and> eligible s u ids c"
proof -
  have "i \<in> fst ` set (search_ranked ix u ids tsq qvec n s)" using assms by (rule image_eqI [rotated]) simp
  then have "i \<in> fst ` set (vec_leg ix s u ids qvec) \<union> fst ` set (if tsq = [] then [] else fts_leg ix s u ids tsq)"
    unfolding search_ranked_def by (rule subsetD [OF fuse_ids])
  then have "i \<in> fst ` set (vec_leg ix s u ids qvec) \<or> i \<in> fst ` set (fts_leg ix s u ids tsq)"
    by (rule in_either)
  then show ?thesis by (elim disjE) (rule leg_eligible(1), assumption, rule leg_eligible(2), assumption)
qed

lemma chunk_by_id_id: "chunk_by_id s i = Some (c, d) \<Longrightarrow> ck_id c = i \<and> c \<in> set (document_chunks s)"
  by (auto simp: chunk_by_id_def find_Some_iff split: option.splits)

lemma load_chunks_snoc:
  "load_chunks (scores @ [(i, score)]) s = load_chunks scores s @
     (case chunk_by_id s i of None \<Rightarrow> []
      | Some (c, d) \<Rightarrow> [\<lparr>rc_chunk_id = ck_id c, rc_document_id = ck_document_id c, rc_filename = d_filename d, rc_text = ck_text c,
          rc_score = score, rc_rank = Suc (length (load_chunks scores s)), rc_meta = ck_meta c\<rparr>])"
proof -
  have snoc: "enumerate n (xs @ [x]) = enumerate n xs @ [(n + length xs, x)]" for n xs and x :: 'a
    by (induction xs arbitrary: n) simp_all
  show ?thesis
    by (auto simp: load_chunks_def List.map_filter_def snoc split: option.split)
qed

lemma load_chunks_spec:
  "map rc_rank (load_chunks scores s) = [1..<Suc (length (load_chunks scores s))]"
  "length (load_chunks scores s) \<le> length scores"
  "subseq (map (\<lambda>c. (rc_chunk_id c, rc_score c)) (load_chunks scores s)) scores"
proof (induction scores rule: rev_induct)
  case (snoc x scores)
  obtain i score where x: "x = (i, score)" by (cases x)
  { case 1 then show ?case using snoc by (auto simp: x load_chunks_snoc split: option.split) }
  { case 2 then show ?case using snoc by (auto simp: x load_chunks_snoc split: option.split) }
  { case 3
    have "subseq (xs @ ys) (xs' @ [x])" if "subseq xs xs'" "ys = [] \<or> ys = [x]" for xs ys xs'
      using that list_emb_append_mono [of "(=)" xs xs' ys "[x]"] by auto
    with snoc(3) show ?case
      by (auto simp: x load_chunks_snoc dest: chunk_by_id_id split: option.split) }
qed (simp_all add: load_chunks_def List.map_filter_def)

section \<open>Reciprocal rank fusion\<close>

lemma leg_score_bounds: "0 \<le> leg_score k leg i"
  by (simp add: leg_score_def split: option.split)

lemma numbered_rank: "map_of (numbered cs) i = Some r \<Longrightarrow> 1 \<le> r"
  by (auto simp: numbered_def in_set_enumerate_eq dest!: map_of_SomeD)

lemma leg_score_max:
  assumes "leg = numbered cs \<or> leg = []"
  shows "leg_score k leg i \<le> 1 / of_nat (k + 1)" and "i \<in> fst ` set leg \<Longrightarrow> 0 < leg_score k leg i"
proof -
  have r: "1 \<le> r" if "map_of leg i = Some r" for r 
    using assms
  proof
    assume "leg = numbered cs"
    with that show ?thesis using numbered_rank by simp
  qed (use that in simp)
  show "leg_score k leg i \<le> 1 / of_nat (k + 1)"
  proof (cases "map_of leg i")
    case (Some r)
    have le: "of_nat (k + 1) \<le> (of_nat (k + r) :: rat)" using r [OF Some] by (simp only: of_nat_le_iff)
    have "1 / of_nat (k + r) \<le> (1 / of_nat (k + 1) :: rat)"
      by (rule frac_le [OF zero_le_one order_refl _ le]) (simp only: of_nat_0_less_iff add_pos_pos zero_less_Suc Suc_eq_plus1 [symmetric])
    then show ?thesis using Some by (simp only: leg_score_def option.case)
  next
    case None
    have "0 \<le> (1 / of_nat (k + 1) :: rat)" by (simp only: zero_le_divide_1_iff of_nat_0_le_iff)
    then show ?thesis using None by (simp only: leg_score_def option.case)
  qed
  show "0 < leg_score k leg i" if m: "i \<in> fst ` set leg"
  proof -
    obtain q where q: "map_of leg i = Some q" 
      using m map_of_eq_None_iff [of leg i] by (cases "map_of leg i") blast+
    have "0 < k + q" using r [OF q] by linarith
    then show ?thesis using q by (simp only: leg_score_def option.case zero_less_divide_1_iff of_nat_0_less_iff)
  qed
qed

lemma fuse_facts:
  "length (fuse ix v f n) \<le> n" "sorted_wrt (\<ge>) (map snd (fuse ix v f n))"
  "(i, score) \<in> set (fuse ix v f n) \<Longrightarrow> score = rrf_score (ix_rrf_k ix) v f i"
proof -
  let ?key = "\<lambda>i. - rrf_score (ix_rrf_k ix) v f i"
  let ?ids = "sort_key ?key (sort_key (ix_tie ix) (map fst v @ filter (\<lambda>i. i \<notin> fst ` set v) (map fst f)))"
  have fuse: "fuse ix v f n = map (\<lambda>i. (i, rrf_score (ix_rrf_k ix) v f i)) (take n ?ids)" by (simp add: fuse_def Let_def)
  show "length (fuse ix v f n) \<le> n" by (simp add: fuse)
  have "sorted (map ?key (take n ?ids))" unfolding take_map [symmetric] by (intro sorted_wrt_take sorted_sort_key)
  then show "sorted_wrt (\<ge>) (map snd (fuse ix v f n))" by (simp add: fuse sorted_map sorted_wrt_map)
  show "(i, score) \<in> set (fuse ix v f n) \<Longrightarrow> score = rrf_score (ix_rrf_k ix) v f i" by (auto simp: fuse)
qed

lemma fuse_best:
  assumes "fused = fuse ix v f top_n"
  shows "length fused = min top_n (length v + length (filter (\<lambda>i. i \<notin> fst ` set v) (map fst f)))"
    and "\<forall>(i, score) \<in> set fused. score = leg_score (ix_rrf_k ix) v i + leg_score (ix_rrf_k ix) f i
      \<and> (\<forall>j \<in> fst ` set v \<union> fst ` set f - fst ` set fused. rrf_score (ix_rrf_k ix) v f j \<le> score)"
proof -
  let ?key = "\<lambda>i. - rrf_score (ix_rrf_k ix) v f i"
  let ?ids = "sort_key ?key (sort_key (ix_tie ix) (map fst v @ filter (\<lambda>i. i \<notin> fst ` set v) (map fst f)))"
  have fuse: "fused = map (\<lambda>i. (i, rrf_score (ix_rrf_k ix) v f i)) (take top_n ?ids)" by (simp add: assms fuse_def Let_def)
  show "length fused = min top_n (length v + length (filter (\<lambda>i. i \<notin> fst ` set v) (map fst f)))" by (simp add: fuse min.commute)
  have best: "?key i \<le> ?key j" if ij: "i \<in> set (take top_n ?ids)" "j \<in> set ?ids" "j \<notin> set (take top_n ?ids)" for i j
  proof -
    have "j \<in> set (drop top_n ?ids)" using ij(2,3) by (metis Un_iff append_take_drop_id set_append)
    moreover have "sorted (map ?key (take top_n ?ids @ drop top_n ?ids))" by (simp only: append_take_drop_id sorted_sort_key)
    ultimately show ?thesis using ij(1) by (auto simp only: map_append sorted_append set_map image_iff)
  qed
  have ids: "set ?ids = fst ` set v \<union> fst ` set f" by auto
  have fst: "fst ` set fused = set (take top_n ?ids)" by (simp add: fuse image_image)
  show "\<forall>(i, score) \<in> set fused. score = leg_score (ix_rrf_k ix) v i + leg_score (ix_rrf_k ix) f i
      \<and> (\<forall>j \<in> fst ` set v \<union> fst ` set f - fst ` set fused. rrf_score (ix_rrf_k ix) v f j \<le> score)"
  proof clarify
    fix i score
    assume m: "(i, score) \<in> set fused"
    then have score: "score = rrf_score (ix_rrf_k ix) v f i" and i: "i \<in> set (take top_n ?ids)" unfolding fuse by auto
    have "\<forall>j \<in> set ?ids - set (take top_n ?ids). rrf_score (ix_rrf_k ix) v f j \<le> score"
    proof
      fix j assume "j \<in> set ?ids - set (take top_n ?ids)"
      then show "rrf_score (ix_rrf_k ix) v f j \<le> score" using best [OF i] by (simp add: score)
    qed
    then show "score = leg_score (ix_rrf_k ix) v i + leg_score (ix_rrf_k ix) f i
      \<and> (\<forall>j \<in> fst ` set v \<union> fst ` set f - fst ` set fused. rrf_score (ix_rrf_k ix) v f j \<le> score)"
      unfolding ids fst by (simp add: score rrf_score_def)
  qed
qed

lemma fuse_distinct:
  assumes "distinct (map fst v)" "distinct (map fst f)"
  shows "distinct (map fst (fuse ix v f top_n))"
    and "length (fuse ix v f top_n) = min top_n (card (fst ` set v \<union> fst ` set f))"
proof -
  let ?ids = "map fst v @ filter (\<lambda>i. i \<notin> fst ` set v) (map fst f)"
  have ids: "distinct ?ids" using assms by auto
  then show "distinct (map fst (fuse ix v f top_n))" by (simp add: fuse_def Let_def comp_def)
  have "set ?ids = fst ` set v \<union> fst ` set f" by auto
  with distinct_card [OF ids] have "length ?ids = card (fst ` set v \<union> fst ` set f)" by simp
  then show "length (fuse ix v f top_n) = min top_n (card (fst ` set v \<union> fst ` set f))"
    by (simp add: fuse_def Let_def min.commute)
qed

text \<open>
  C28: the best by reciprocal rank. Of two legs that each list an id once, the fusion lists exactly the best \<open>top_n\<close> ids: no
  id twice, none that no leg found, as many as there are up to \<open>top_n\<close>, each with the sum of its reciprocal ranks, best first; and no id
  that is left out has a better score than one that is listed.
\<close>

theorem rrf_keeps_best:
  assumes "distinct (map fst v)" and "distinct (map fst f)"
  shows "let fused = fuse ix v f top_n in
     distinct (map fst fused) \<and> fst ` set fused \<subseteq> fst ` set v \<union> fst ` set f
     \<and> length fused = min top_n (card (fst ` set v \<union> fst ` set f))
     \<and> sorted_wrt (\<ge>) (map snd fused)
     \<and> (\<forall>(i, score) \<in> set fused. score = leg_score (ix_rrf_k ix) v i + leg_score (ix_rrf_k ix) f i
          \<and> (\<forall>j \<in> fst ` set v \<union> fst ` set f - fst ` set fused. rrf_score (ix_rrf_k ix) v f j \<le> score))"
  unfolding Let_def by (intro conjI fuse_distinct [OF assms] fuse_ids fuse_best [OF refl] fuse_facts(2))

text \<open>The legs of a search list an id once, since the ids of chunks are their primary key.\<close>

lemma top_by_distinct:
  assumes "distinct cs" "inj_on ck_id (set cs)"
  shows "distinct (map fst (numbered (top_by ix key cs)))"
proof -
  have "distinct (top_by ix key cs)" using assms(1) by (simp add: top_by_def)
  moreover have "inj_on ck_id (set (top_by ix key cs))" using assms(2) top_by_subset by (rule inj_on_subset)
  ultimately show ?thesis by (simp only: numbered_ids distinct_map)
qed

lemma legs_distinct:
  assumes "distinct (map ck_id (document_chunks s))"
  shows "distinct (map fst (vec_leg ix s u ids qvec))" and "distinct (map fst (fts_leg ix s u ids tsq))"
proof -
  have inj: "inj_on ck_id (set (document_chunks s))" and d: "distinct (document_chunks s)" using assms by (simp_all add: distinct_map)
  show "distinct (map fst (vec_leg ix s u ids qvec))"
    unfolding vec_leg_def by (rule top_by_distinct) (auto simp: scanned_def intro: inj_on_subset [OF inj])
  show "distinct (map fst (fts_leg ix s u ids tsq))"
    unfolding fts_leg_def by (rule top_by_distinct) (auto simp: d intro: inj_on_subset [OF inj])
qed

lemma ranked_distinct:
  "distinct (map ck_id (document_chunks s)) \<Longrightarrow> distinct (map fst (search_ranked ix u ids tsq qvec n s))"
  unfolding search_ranked_def by (intro fuse_distinct(1)) (simp_all add: legs_distinct)

section \<open>Searching\<close>

lemma hybrid_search_result:
  "wp (hybrid_search ix u ids tokens qvec n)
     (\<lambda>chunks t. chunks = load_chunks (search_ranked ix u (case ids of None \<Rightarrow> [] | Some is \<Rightarrow> is) (build_tsquery tokens) qvec n (committed s))
          (ix_between ix (committed s)) \<and> committed t \<in> {committed s, ix_between ix (committed s)} \<and> files t = files s \<and> broker t = broker s)
     (\<lambda>_ t. committed t \<in> {committed s, ix_between ix (committed s)} \<and> files t = files s \<and> broker t = broker s) s"
proof -
  have empty: "load_chunks [] d = []" for d by (simp add: load_chunks_def List.map_filter_def)
  show ?thesis by (auto simp: hybrid_search_def Let_def race_def wp_simps empty split: option.split)
qed

text \<open>The port's contract: only what the user may see, at most as many as asked for, numbered from 1.\<close>

locale chunk_search =
  fixes search :: "'w \<Rightarrow> uuid \<Rightarrow> uuid list option \<Rightarrow> ustr \<Rightarrow> vec \<Rightarrow> nat \<Rightarrow> (sys, retrieved_chunk list) eff"
    and visible :: "db \<Rightarrow> uuid \<Rightarrow> uuid list option \<Rightarrow> uuid \<Rightarrow> bool"
  assumes only_visible: "search w u ids tokens v n s = (Inr cs, t) \<Longrightarrow> c \<in> set cs \<Longrightarrow> visible (committed s) u ids (rc_chunk_id c)"
    and at_most: "search w u ids tokens v n s = (Inr cs, t) \<Longrightarrow> length cs \<le> n"
    and ranks: "search w u ids tokens v n s = (Inr cs, t) \<Longrightarrow> map rc_rank cs = [1..<Suc (length cs)]"
begin

lemma rerank_id: "search w u ids tokens v n s = (Inr cs, t) \<Longrightarrow> noop_rerank q cs n = cs"
  using at_most by (simp add: noop_rerank_def)

lemma best_first:
  assumes "search w u ids tokens v n s = (Inr cs, t)" and "k < length cs"
  shows "rc_rank (cs ! k) = k + 1"
proof -
  have "map rc_rank cs ! k = [1..<Suc (length cs)] ! k" by (simp only: ranks [OF assms(1)])
  with assms(2) show ?thesis by (simp del: upt_Suc)
qed

end

definition visible :: "db \<Rightarrow> uuid \<Rightarrow> uuid list option \<Rightarrow> uuid \<Rightarrow> bool" where
  "visible s user_id source_ids i \<longleftrightarrow>
     (\<exists>c \<in> set (document_chunks s). ck_id c = i \<and> eligible s user_id (case source_ids of None \<Rightarrow> [] | Some ids \<Rightarrow> ids) c)"

lemma search_loads:
  "hybrid_search ix u ids tokens v n s = (Inr cs, t) \<Longrightarrow>
     cs = load_chunks (search_ranked ix u (case ids of None \<Rightarrow> [] | Some is \<Rightarrow> is) (build_tsquery tokens) v n (committed s))
          (ix_between ix (committed s))"
  using hybrid_search_result [of ix u ids tokens v n s] by (simp add: wp_def)

interpretation pgvector: chunk_search hybrid_search visible
proof
  fix ix u ids tokens v n s cs t c
  assume run: "hybrid_search ix u ids tokens v n s = (Inr cs, t)"
  let ?ranked = "search_ranked ix u (case ids of None \<Rightarrow> [] | Some is \<Rightarrow> is) (build_tsquery tokens) v n (committed s)"
  note cs = search_loads [OF run] and spec = load_chunks_spec [of ?ranked "ix_between ix (committed s)"]
  have "length ?ranked \<le> n" unfolding search_ranked_def by (rule fuse_facts(1))
  with spec(2) show "length cs \<le> n" unfolding cs by (rule order_trans)
  show "map rc_rank cs = [1..<Suc (length cs)]" unfolding cs by (rule spec(1))
  assume "c \<in> set cs"
  then have "(rc_chunk_id c, rc_score c) \<in> set (map (\<lambda>c. (rc_chunk_id c, rc_score c)) cs)" by auto
  then have "(rc_chunk_id c, rc_score c) \<in> set ?ranked" using list_emb_set [OF spec(3)] unfolding cs by blast
  then show "visible (committed s) u ids (rc_chunk_id c)" unfolding visible_def by (rule ranked_eligible)
qed

lemma sorted_wrt_subseq: "subseq xs ys \<Longrightarrow> sorted_wrt R ys \<Longrightarrow> sorted_wrt R xs"
proof (induction xs ys rule: list_emb.induct)
  case (list_emb_Cons2 x y xs ys)
  then show ?case by (auto dest: list_emb_set)
qed auto

lemma distinct_subseq: "subseq xs ys \<Longrightarrow> distinct ys \<Longrightarrow> distinct xs"
proof (induction xs ys rule: list_emb.induct)
  case (list_emb_Cons2 x y xs ys)
  then show ?case by (auto dest: list_emb_set)
qed auto

text \<open>
  C13: a search is private. Every chunk that the hybrid search returns belongs to a ready document of an enabled source that the user
  uploaded (or is shared law), within the requested sources if any are given; no chunk is returned twice (chunks have distinct
  ids), there are at most \<open>top_n\<close>, numbered from 1 without gaps, best score first; others' commits between the two statements
  can only remove some.
\<close>

theorem search_is_private:
  assumes "hybrid_search ix user_id source_ids tokens qvec top_n s = (Inr chunks, t)"
    and "distinct (map ck_id (document_chunks (committed s)))"
  shows "(\<forall>r \<in> set chunks. \<exists>c \<in> set (document_chunks (committed s)). ck_id c = rc_chunk_id r
        \<and> eligible (committed s) user_id (case source_ids of None \<Rightarrow> [] | Some ids \<Rightarrow> ids) c)
     \<and> distinct (map rc_chunk_id chunks)
     \<and> length chunks \<le> top_n \<and> map rc_rank chunks = [1..<Suc (length chunks)]
     \<and> sorted_wrt (\<ge>) (map rc_score chunks)"
proof -
  let ?ranked = "search_ranked ix user_id (case source_ids of None \<Rightarrow> [] | Some is \<Rightarrow> is) (build_tsquery tokens) qvec top_n (committed s)"
  have "sorted_wrt (\<ge>) (map snd ?ranked)" unfolding search_ranked_def by (rule fuse_facts(2))
  moreover have "subseq (map rc_score chunks) (map snd ?ranked)"
    using subseq_map [OF load_chunks_spec(3) [of ?ranked "ix_between ix (committed s)"], of snd]
    by (simp add: search_loads [OF assms(1)] comp_def)
  ultimately have "sorted_wrt (\<ge>) (map rc_score chunks)" by (rule sorted_wrt_subseq [rotated])
  moreover have "subseq (map rc_chunk_id chunks) (map fst ?ranked)"
    using subseq_map [OF load_chunks_spec(3) [of ?ranked "ix_between ix (committed s)"], of fst]
    by (simp add: search_loads [OF assms(1)] comp_def)
  then have "distinct (map rc_chunk_id chunks)" using ranked_distinct [OF assms(2)] by (rule distinct_subseq)
  moreover note pgvector.only_visible [OF assms(1)] pgvector.at_most [OF assms(1)] pgvector.ranks [OF assms(1)]
  ultimately
  show ?thesis by (simp only: visible_def) blast
qed

section \<open>Citations of a chat turn\<close>

lemma retrieve_visible:
  "wp (retrieve ix ad qc cutter r ctx q ids n) (\<lambda>chunks t. \<forall>c \<in> set chunks. visible (committed s) (ctx_user_id ctx) ids (rc_chunk_id c))
     (\<lambda>_ _. True) s"
proof -
  have search: "wp (hybrid_search ix u ids tokens v n) (\<lambda>chunks t. \<forall>c \<in> set chunks. visible (committed s) u ids (rc_chunk_id c))
     (\<lambda>_ _. True) s" for u tokens v
    using pgvector.only_visible [of ix u ids tokens v n s] by (auto simp: wp_def split: prod.split sum.split)
  show ?thesis
    unfolding retrieve_def Let_def
    by (auto simp: wp_throw wp_bnd wp_ret noop_rerank_def intro!: wp_mono [OF search] split: sum.split) (blast dest: in_set_takeD)
qed

definition cites :: "(uuid \<Rightarrow> bool) \<Rightarrow> chat_st \<Rightarrow> bool" where
  "cites P t \<longleftrightarrow> (\<forall>it \<in> set (cited (ch_events t)). P (it_chunk_id it))"

lemma cites_simps [simp]:
  "cites P (s\<lparr>ch_sys := x\<rparr>) = cites P s" "cites P (s\<lparr>ch_buffer := b\<rparr>) = cites P s"
  "cites P (s\<lparr>ch_tokens := k'\<rparr>) = cites P s" "cites P (s\<lparr>ch_stop := e\<rparr>) = cites P s"
  "cites P (s\<lparr>ch_events := ch_events s @ [Delta y]\<rparr>) = cites P s"
  "cites P (s\<lparr>ch_buffer := b, ch_events := ch_events s @ [Delta y]\<rparr>) = cites P s"
  "cites P (s\<lparr>ch_sys := x, ch_events := ch_events s @ [Error_event a c d]\<rparr>) = cites P s"
  "cites P (s\<lparr>ch_sys := x, ch_events := ch_events s @ [Done i f j k l]\<rparr>) = cites P s"
  "cites P (s\<lparr>ch_events := ch_events s @ [Error_event a c d]\<rparr>) = cites P s"
  "cites P (s\<lparr>ch_events := ch_events s @ [Done i f j k l]\<rparr>) = cites P s"
  by (simp_all add: cites_def)

lemma wp_loop_cites:
  "cites P s \<Longrightarrow> wp (chat_loop cfg env ctx cid turn items) (\<lambda>_. cites P) (\<lambda>_. cites P) s"
proof (induction cfg env ctx cid turn items arbitrary: s rule: chat_loop.induct)
  case (5 cfg env ctx cid turn code m items)
  then show ?case by (auto simp: wp_simps intro!: wp_any split: option.split)
qed (auto simp: wp_simps split: option.split)

lemma wp_close_cites: "cites P s \<Longrightarrow> wp (on_close cfg env ctx cid turn e) Q (\<lambda>_. cites P) s"
  by (auto simp: on_close_def wp_simps intro!: wp_any)

lemma wp_finish_cites: "cites P s \<Longrightarrow> wp (finish_phase cfg env ctx cid turn) (\<lambda>_. cites P) (\<lambda>_. cites P) s"
  by (auto simp: finish_phase_def wp_simps split_beta intro!: wp_any split: option.split)

lemma eligible_cong:
  "documents d = documents d' \<Longrightarrow> knowledge_sources d = knowledge_sources d' \<Longrightarrow> eligible d u ids c = eligible d' u ids c"
  by (simp add: eligible_def doc_by_id_def source_get_def cong: option.case_cong)

lemma visible_messages [simp]: "visible (d\<lparr>messages := ms\<rparr>) u ids i = visible d u ids i"
  by (simp add: visible_def eligible_cong [of "d\<lparr>messages := ms\<rparr>" d])

lemma visible_all [simp]: "visible d u (if ids = Some [] then None else ids) i = visible d u ids i"
  by (simp add: visible_def)

lemma announced_visible:
  assumes "\<forall>c \<in> set (t_citations turn). P (rc_chunk_id c)" and "cites P s"
  shows "wp (announce_citations env turn) (\<lambda>_. cites P) (\<lambda>_. cites P) s"
proof -
  have "\<forall>it \<in> set (citation_items (t_citations turn)). P (it_chunk_id it)"
    using assms(1) by (auto simp: citation_items_def in_set_enumerate_eq)
  then show ?thesis using assms(2) by (auto simp: announce_citations_def wp_simps cites_def split: option.split)
qed

lemma used_subset: "rag_loop pstr chunks k budget = (blocks, used) \<Longrightarrow> set used \<subseteq> set chunks"
  by (induction pstr chunks k budget arbitrary: blocks used rule: rag_loop.induct) (auto simp: Let_def split: if_splits prod.splits)

lemma wp_retrieval_cites:
  assumes r: "ce_retrieve env = retrieve ix ad qc cutter redis"
    and s: "cites (visible (committed (ch_sys s)) (ctx_user_id ctx) (t_source_ids turn)) s"
  shows "wp (retrieval_phase cfg env ctx cid content turn)
     (\<lambda>_. cites (visible (committed (ch_sys s)) (ctx_user_id ctx) (t_source_ids turn)))
     (\<lambda>_. cites (visible (committed (ch_sys s)) (ctx_user_id ctx) (t_source_ids turn))) s"
proof -
  let ?P = "visible (committed (ch_sys s)) (ctx_user_id ctx) (t_source_ids turn)"
  have turn: "wp (retrieve_turn cfg env ctx content turn) (\<lambda>turn' _. \<forall>c \<in> set (t_citations turn'). ?P (rc_chunk_id c)) (\<lambda>_ _. True) (ch_sys s)"
    unfolding retrieve_turn_def r wp_bnd Let_def split_beta
    by (rule wp_mono [OF retrieve_visible])
      (auto simp: wp_ret rag_system_prompt_def Let_def split_beta dest!: subsetD [OF used_subset [OF surjective_pairing]])
  have failed: "wp (retrieval_failed cfg env ctx cid turn e) (\<lambda>_. cites ?P) (\<lambda>_. cites ?P) (s\<lparr>ch_sys := x\<rparr>)" for e x
    using s by (auto simp: retrieval_failed_def wp_simps Let_def split_beta intro!: wp_any split: option.split)
  show ?thesis
  proof (cases "t_source_ids turn = None")
    case True
    then show ?thesis using s by (simp add: retrieval_phase_def wp_ret)
  next
    case False
    then show ?thesis
      unfolding retrieval_phase_def if_not_P [OF False] wp_bnd wp_try_except wp_on_sys
      using s by (intro wp_mono [OF turn]) (auto simp: wp_ret failed intro!: announced_visible)
  qed
qed

lemma wp_answer_cites:
  assumes "cites P s"
  shows "wp (bnd (try_with (chat_loop cfg env ctx cid turn items) (on_close cfg env ctx cid turn)) (\<lambda>exit.
         case exit of Returned \<Rightarrow> ret () | Finished \<Rightarrow> finish_phase cfg env ctx cid turn)) (\<lambda>_. cites P) (\<lambda>_. cites P) s"
  unfolding wp_bnd wp_try
  by (rule wp_mono [OF wp_loop_cites [OF assms]]) (auto simp: wp_ret intro: wp_close_cites wp_finish_cites split: loop_exit.split)

lemma wp_stream_cites:
  assumes pc: "pending s = committed s" and r: "ce_retrieve env = retrieve ix ad qc cutter redis"
  shows "wp (stream_reply cfg env ctx cid content client_message_id source_ids)
     (\<lambda>_. cites (visible (committed s) (ctx_user_id ctx) source_ids)) (\<lambda>_. cites (visible (committed s) (ctx_user_id ctx) source_ids)) (chat_start s)"
proof -
  let ?P = "visible (committed s) (ctx_user_id ctx) source_ids"
  let ?rest = "\<lambda>next_turn. case next_turn of None \<Rightarrow> ret () | Some turn \<Rightarrow>
      bnd (try_with (chat_loop cfg env ctx cid turn (ce_llm env (prompt_of turn) (t_params turn)))
                (on_close cfg env ctx cid turn)) (\<lambda>exit.
         case exit of Returned \<Rightarrow> ret () | Finished \<Rightarrow> finish_phase cfg env ctx cid turn)"
  have phase: "wp (bnd (retrieval_phase cfg env ctx cid content turn) ?rest) (\<lambda>_. cites ?P) (\<lambda>_. cites ?P) u"
    if u: "cites ?P u" "t_source_ids turn = source_ids" "\<exists>ms. committed (ch_sys u) = (committed s)\<lparr>messages := ms\<rparr>" for u turn
  proof -
    have P: "visible (committed (ch_sys u)) (ctx_user_id ctx) (t_source_ids turn) = ?P"
      using u(2,3) by (intro ext) auto
    have answer: "wp (?rest next_turn) (\<lambda>_. cites ?P) (\<lambda>_. cites ?P) v" if "cites ?P v" for next_turn v
      using that by (auto simp: wp_ret intro: wp_answer_cites split: option.split)
    show ?thesis
      unfolding wp_bnd [of "retrieval_phase cfg env ctx cid content turn"]
      using wp_retrieval_cites [OF r, of u ctx turn cfg cid content, unfolded P, OF u(1)]
      by (rule wp_mono) (auto intro: answer)
  qed
  have start: "ch_sys (chat_start s) = s" by (simp add: chat_start_def)
  show ?thesis
    unfolding stream_reply_def wp_bnd [of "on_sys _"] wp_on_sys
  proof (rule wp_mono)
    show "wp (prepare_turn cfg env ctx cid content client_message_id source_ids)
       (\<lambda>turn t. t_source_ids turn = source_ids \<and> (\<exists>ms. committed t = (committed s)\<lparr>messages := ms\<rparr>)) (\<lambda>_ _. True) (ch_sys (chat_start s))"
      unfolding start by (rule wp_mono [OF wp_prepare [OF pc]]) auto
  next
    fix turn :: turn and v :: sys
    assume v: "t_source_ids turn = source_ids \<and> (\<exists>ms. committed v = (committed s)\<lparr>messages := ms\<rparr>)"
    show "wp (bnd (emit_event env (Message_start (t_user_message_id turn) (t_assistant_message_id turn)))
           (\<lambda>_. bnd (retrieval_phase cfg env ctx cid content turn) ?rest)) (\<lambda>_. cites ?P) (\<lambda>_. cites ?P) ((chat_start s)\<lparr>ch_sys := v\<rparr>)"
      (is "wp _ _ _ ?v")
    proof -
      let ?u = "?v\<lparr>ch_events := ch_events ?v @ [Message_start (t_user_message_id turn) (t_assistant_message_id turn)]\<rparr>"
      have u: "cites ?P ?u" "ch_sys ?u = v" by (simp_all add: chat_start_def cites_def)
      have "wp (bnd (retrieval_phase cfg env ctx cid content turn) ?rest) (\<lambda>_. cites ?P) (\<lambda>_. cites ?P) ?u"
        by (rule phase [OF u(1)]) (use v u(2) in simp_all)
      then show ?thesis
        unfolding wp_bnd [of "emit_event _ _"] wp_emit using u(1) by (simp only: split: option.split) blast
    qed
  qed (simp add: chat_start_def cites_def)
qed

text \<open>
  C6: citations never leak. With the retrieval service of this program behind the orchestrator, every chunk that a reply cites belongs
  to a ready document of an enabled source that the user uploaded (or is shared law), within the sources
  asked for; however the reply ends.
\<close>

theorem chat_cites_only_visible:
  assumes pc: "pending s = committed s" and r: "ce_retrieve env = retrieve ix ad qc cutter redis"
    and run: "run_chat cfg env ctx cid content client_message_id source_ids s = (res, t)"
    and item: "it \<in> set (cited (ch_events t))"
  shows "\<exists>c \<in> set (document_chunks (committed s)). ck_id c = it_chunk_id it
     \<and> eligible (committed s) (ctx_user_id ctx) (case source_ids of None \<Rightarrow> [] | Some ids \<Rightarrow> ids) c"
proof -
  have "cites (visible (committed s) (ctx_user_id ctx) source_ids) t"
    using wp_stream_cites [OF pc r, of cfg ctx cid content client_message_id source_ids] run
    by (auto simp: wp_def run_chat_def split: sum.splits)
  then show ?thesis using item by (simp add: cites_def visible_def)
qed

end
