(* ===== verification/Rag_Witness.thy ===== *)
theory Rag_Witness
  imports Chat_Witness Titles Sse Retrieval "HOL-Library.Countable"
begin

text \<open>
  The conversation of \<open>Chat_Witness\<close> with one embedded chunk of a ready document: hypotheses of the properties of titles,
  streams, embedding and retrieval that hold together.
\<close>

section \<open>A chunk\<close>

definition demo_ck :: document_chunk where
  "demo_ck = \<lparr>ck_id = 30, ck_document_id = 7, ck_seq = 0, ck_text = [65], ck_tokens = 1, ck_meta = [], ck_embedding = Some [1],
     ck_embedding_version = Some [118], ck_tsv = []\<rparr>"

definition demo_source :: knowledge_source where
  "demo_source = \<lparr>ks_id = 2, ks_owner_id = 1, ks_name = [], ks_type = [], ks_config = [], ks_enabled = True, ks_created_at = 0,
     ks_updated_at = 0\<rparr>"

definition rag_db :: "message list \<Rightarrow> db" where
  "rag_db ms = chat_db\<lparr>messages := ms, documents := [demo_doc St_ready], knowledge_sources := [demo_source], document_chunks := [demo_ck]\<rparr>"

definition rag_sys :: sys where
  "rag_sys = \<lparr>committed = rag_db [], pending = rag_db [], files = Map.empty, broker = []\<rparr>"

definition demo_ix :: chunk_index where
  "demo_ix = \<lparr>ix_top_k = 2, ix_rrf_k = 60, ix_distance = (\<lambda>_ _. 0), ix_matches = (\<lambda>_ _. False), ix_rank_cd = (\<lambda>_ _. 0),
     ix_scan = (\<lambda>cs. cs), ix_tie = (\<lambda>i. i), ix_fault = (\<lambda>_. None), ix_between = (\<lambda>d. d)\<rparr>"

definition demo_ead :: embedding_adapter where
  "demo_ead = \<lparr>eb_dim = 1, eb_batch_size = 2, eb_lower = (\<lambda>s. s),
     eb_post = (\<lambda>k batch. Inr (200, [], Some (rev (map (\<lambda>i. (int i, [of_nat (length (batch ! i))])) [0..<length batch]))))\<rparr>"

definition demo_qc :: query_cache where
  "demo_qc = \<lparr>qc_version = [118], qc_sha256 = (\<lambda>s. s), qc_dumps = map to_nat,
     qc_loads = (\<lambda>s. Some (map from_nat s)), qc_get_fails = False, qc_set_fails = False\<rparr>"

theorem embed_restores_order_witness:
  "embed_texts demo_ead [[65], [65, 66], []] = Inr [[1], [2], [0]]
   \<and> embed_texts (demo_ead\<lparr>eb_dim := 2\<rparr>) [[65]] = Inl (embed_error Provider_error)"
proof -
  have "\<forall>k batch. \<exists>body rows. eb_post demo_ead k batch = Inr (200, body, Some rows)
      \<and> mset rows = mset (map (\<lambda>i. (int i, [of_nat (length (batch ! i))])) [0..<length batch])"
    by (simp add: demo_ead_def)
  moreover from this have "\<forall>k batch. \<exists>body rows. eb_post (demo_ead\<lparr>eb_dim := 2\<rparr>) k batch = Inr (200, body, Some rows)
      \<and> mset rows = mset (map (\<lambda>i. (int i, [of_nat (length (batch ! i))])) [0..<length batch])"
    by simp
  ultimately show ?thesis
    using embed_restores_order [of demo_ead "\<lambda>t. [of_nat (length t)]" "[[65], [65, 66], []]"]
      embed_restores_order [of "demo_ead\<lparr>eb_dim := 2\<rparr>" "\<lambda>t. [of_nat (length t)]" "[[65]]"]
    by (simp add: demo_ead_def)
qed

lemma demo_eligible: "eligible (rag_db ms) 1 [] demo_ck" "doc_by_id (rag_db ms) 7 = Some (demo_doc St_ready)"
  by (simp_all add: eligible_def rag_db_def doc_by_id_def source_get_def demo_doc_def demo_ck_def demo_source_def)

lemma demo_ranked: "search_ranked demo_ix 1 [] [] v 3 (rag_db ms) = [(30, 1 / 61)]"
proof -
  have "vec_leg demo_ix (rag_db ms) 1 [] v = [(30, 1)]"
  proof -
    have "document_chunks (rag_db ms) = [demo_ck]" by (simp add: rag_db_def)
    then have "filter (\<lambda>c. eligible (rag_db ms) 1 [] c \<and> embedded c) (document_chunks (rag_db ms)) = [demo_ck]"
      using demo_eligible(1) by (simp add: embedded_def demo_ck_def)
    then show ?thesis by (simp add: vec_leg_def demo_ix_def top_by_def scanned_def numbered_def demo_ck_def)
  qed
  then show ?thesis by (simp add: search_ranked_def fuse_def rrf_score_def leg_score_def demo_ix_def)
qed

lemma demo_loaded:
  "load_chunks [(30, 1 / 61)] (rag_db ms) = [\<lparr>rc_chunk_id = 30, rc_document_id = 7, rc_filename = lit ''a.txt'', rc_text = [65],
     rc_score = 1 / 61, rc_rank = 1, rc_meta = []\<rparr>]"
proof -
  have "chunk_by_id (rag_db ms) 30 = Some (demo_ck, demo_doc St_ready)"
    using demo_eligible(2) by (simp add: chunk_by_id_def rag_db_def demo_ck_def)
  moreover have "load_chunks [] (rag_db ms) = []" by (simp add: load_chunks_def List.map_filter_def)
  ultimately show ?thesis using load_chunks_snoc [of "[]" 30 "1 / 61" "rag_db ms"] by (simp add: demo_ck_def demo_doc_def)
qed

lemma demo_tsquery: "build_tsquery [] = []"
  by (simp add: build_tsquery_def)

lemma demo_ix_calm: "ix_fault demo_ix = (\<lambda>_. None)" "ix_between demo_ix = (\<lambda>d. d)"
  by (simp_all add: demo_ix_def)

lemma demo_search:
  assumes "committed s = (rag_db ms)" and "(case ids of None \<Rightarrow> [] | Some is \<Rightarrow> is) = []"
  shows "hybrid_search demo_ix 1 ids [] v 3 s = (Inr (load_chunks [(30, 1 / 61)] (rag_db ms)), s\<lparr>pending := (rag_db ms)\<rparr>)"
proof -
  have "s\<lparr>committed := (rag_db ms)\<rparr> = s" using assms(1) by (cases s) simp
  then show ?thesis
    unfolding hybrid_search_def Let_def demo_tsquery demo_ix_calm assms(2)
    by (simp add: in_session_def bnd_def query_def look_def race_def change_def guard_fault_def ret_def assms(1) demo_ranked [of v, simplified])
qed

theorem search_is_private_witness:
  "\<exists>chunks t. hybrid_search demo_ix 1 None [] [1] 3 rag_sys = (Inr chunks, t) \<and> map rc_chunk_id chunks = [30]
     \<and> distinct (map rc_chunk_id chunks) \<and> map rc_rank chunks = [1..<Suc (length chunks)] \<and> sorted_wrt (\<ge>) (map rc_score chunks)"
proof -
  have "committed rag_sys = rag_db []" by (simp add: rag_sys_def)
  then have "hybrid_search demo_ix 1 None [] [1] 3 rag_sys = (Inr (load_chunks [(30, 1 / 61)] (rag_db [])), rag_sys\<lparr>pending := (rag_db [])\<rparr>)"
    using demo_search [of rag_sys "[]" None "[1]"] by simp
  moreover have "distinct (map ck_id (document_chunks (committed rag_sys)))" by (simp add: rag_sys_def rag_db_def)
  moreover note search_is_private [OF calculation]
  ultimately show ?thesis by (simp only: demo_loaded) simp
qed

theorem rrf_keeps_best_witness:
  "length (fuse demo_ix [(1, 1), (2, 2)] [(2, 1)] 2) = 2 \<and> distinct (map fst (fuse demo_ix [(1, 1), (2, 2)] [(2, 1)] 2))"
  using rrf_keeps_best [of "[(1, 1), (2, 2)]" "[(2, 1)]" demo_ix 2] by (simp add: Let_def insert_commute)


section \<open>A cited reply\<close>

definition rag_env :: chat_env where
  "rag_env = (demo_cenv [] (\<lambda>_. None) ((\<lambda>_. None)(1 := Some generator_exit)))
     \<lparr>ce_retrieve := retrieve demo_ix demo_ead demo_qc (\<lambda>_. []) Map.empty\<rparr>"

definition demo_item :: citation_item where
  "demo_item = \<lparr>it_rank = 1, it_chunk_id = 30, it_document_id = 7, it_filename = lit ''a.txt'', it_snippet = [65], it_score = 1 / 61\<rparr>"

lemma rag_retrieve:
  assumes "committed s = rag_db ms"
  shows "\<exists>t. retrieve demo_ix demo_ead demo_qc (\<lambda>_. []) Map.empty demo_ctx hello None 3 s
     = (Inr (load_chunks [(30, 1 / 61)] (rag_db ms)), t)"
proof -
  have batch: "embed_http_batch demo_ead 0 [hello] = Inr [[2]]" by (simp add: embed_http_batch_def demo_ead_def)
  have n: "max 1 (eb_batch_size demo_ead) = 2" by (simp add: demo_ead_def)
  have embed: "embed_texts demo_ead [hello] = Inr [[2]]"
    by (simp add: embed_texts_def embed_from.simps [of demo_ead 0 "[hello]"] embed_from.simps [of demo_ead "Suc 0" "[]"] n
        batch [simplified] Let_def)
  have q: "fst (embed_query (embed_texts demo_ead) demo_qc (take QUERY_EMBED_MAX_CHARS hello) Map.empty) = Inr [2]"
    by (simp add: QUERY_EMBED_MAX_CHARS_def embed_query_def cache_get_def embed [simplified])
  have "index_tokens (\<lambda>_. []) hello = []" by (simp add: index_tokens_def)
  moreover have "hybrid_search demo_ix 1 None [] [2] 3 s = (Inr (load_chunks [(30, 1 / 61)] (rag_db ms)), s\<lparr>pending := rag_db ms\<rparr>)"
    by (rule demo_search [OF assms]) simp
  ultimately show ?thesis
    by (simp add: retrieve_def Let_def q [simplified] bnd_def ret_def noop_rerank_def demo_loaded)
qed

lemma rag_run:
  "\<exists>t. run_chat demo_ccfg rag_env demo_ctx 5 hello None (Some []) rag_sys = (Inl generator_exit, t)
     \<and> ch_events t = [Message_start 10 11, Citations_event [demo_item]]"
proof -
  let ?m = "user_message rag_env 5 hello None"
  have add: "message_add ?m (rag_db []) = Inr (rag_db [?m])"
    by (simp add: message_add_def user_message_def opt_ok_def rag_db_def chat_db_def demo_conv_def new_conversation_def empty_db_def)
  have conv: "conv_get_owned (rag_db []) 1 5 = Some demo_conv"
    by (simp add: conv_get_owned_def rag_db_def chat_db_def demo_conv_def new_conversation_def)
  have ids: "ce_fault rag_env = (\<lambda>_. None)" "ce_user_message_id rag_env = 10" "ce_assistant_message_id rag_env = 11"
    by (simp_all add: rag_env_def)
  have prep: "\<exists>turn u ms. prepare_turn demo_ccfg rag_env demo_ctx 5 hello None (Some []) rag_sys = (Inr turn, u)
     \<and> t_source_ids turn = Some [] \<and> t_user_message_id turn = 10 \<and> t_assistant_message_id turn = 11
     \<and> committed u = rag_db ms"
    by (simp add: prepare_turn_def in_session_def rag_sys_def bnd_def query_def look_def ret_def try_with_def stmt_exn_def change_def
        guard_fault_def commit_def conv [simplified] add demo_resolved ids) blast
  then obtain turn u ms where p: "prepare_turn demo_ccfg rag_env demo_ctx 5 hello None (Some []) rag_sys = (Inr turn, u)"
    "t_source_ids turn = Some []" "t_user_message_id turn = 10" "t_assistant_message_id turn = 11"
    "committed u = (rag_db ms)" by blast
  obtain v where v: "retrieve demo_ix demo_ead demo_qc (\<lambda>_. []) Map.empty demo_ctx hello None 3 u
     = (Inr (load_chunks [(30, 1 / 61)] (rag_db ms)), v)" using rag_retrieve [OF p(5)] by blast
  have env: "ce_stop rag_env = (\<lambda>_. None)(1 := Some generator_exit)"
    "ce_retrieve rag_env = retrieve demo_ix demo_ead demo_qc (\<lambda>_. []) Map.empty" "cc_top_n demo_ccfg = 3"
    by (simp_all add: rag_env_def demo_ccfg_def)
  have one: "nat_str (Suc 0) = [49]" by (simp add: nat_str.simps)
  obtain prompt where rag: "rag_system_prompt (cc_pstr demo_ccfg) (cc_system_prompt demo_ccfg) (load_chunks [(30, 1 / 61)] (rag_db ms))
      (cc_char_budget demo_ccfg) = (prompt, load_chunks [(30, 1 / 61)] (rag_db ms))"
    by (simp add: demo_loaded rag_system_prompt_def demo_ccfg_def render_block_def dict_get_def Let_def int_str_def one)
  have items: "citation_items (load_chunks [(30, 1 / 61)] (rag_db ms)) = [demo_item]" 
    by (simp add: demo_loaded citation_items_def demo_item_def SNIPPET_MAX_CHARS_def)
  have ne: "load_chunks [(30, 1 / 61)] (rag_db ms) \<noteq> []" by (simp add: demo_loaded)
  show ?thesis
    by (simp add: run_chat_def stream_reply_def bnd_def on_sys_def chat_start_def p emit_event_def look_def change_def
        guard_fault_def ret_def throw_def env retrieval_phase_def try_except_def try_with_def retrieve_turn_def v rag Let_def
        announce_citations_def ne items)
qed

theorem chat_cites_only_visible_witness:
  "\<exists>t. run_chat demo_ccfg rag_env demo_ctx 5 hello None (Some []) rag_sys = (Inl generator_exit, t)
     \<and> cited (ch_events t) = [demo_item]
     \<and> (\<exists>c \<in> set (document_chunks (rag_db [])). ck_id c = 30 \<and> eligible (rag_db []) 1 [] c)"
proof -
  obtain t where t: "run_chat demo_ccfg rag_env demo_ctx 5 hello None (Some []) rag_sys = (Inl generator_exit, t)"
    "ch_events t = [Message_start 10 11, Citations_event [demo_item]]" using rag_run by blast
  have s: "pending rag_sys = committed rag_sys" "committed rag_sys = rag_db []" by (simp_all add: rag_sys_def)
  have r: "ce_retrieve rag_env = retrieve demo_ix demo_ead demo_qc (\<lambda>_. []) Map.empty" by (simp add: rag_env_def)
  have item: "demo_item \<in> set (cited (ch_events t))" by (simp add: t(2))
  have "\<exists>c \<in> set (document_chunks (rag_db [])). ck_id c = 30 \<and> eligible (rag_db []) 1 [] c"
    using chat_cites_only_visible [OF s(1) r t(1) item] by (simp add: s(2) demo_item_def)
  with t show ?thesis by (intro exI [of _ t]) simp
qed

section \<open>A stream and a title\<close>

theorem sse_delivers_events_witness:
  "\<exists>frames u. send_message demo_ccfg (\<lambda>_. [48]) rag_env [True, False] demo_ctx 5 hello None
       (Some \<lparr>kn_types = None, kn_law_codes = None, kn_source_ids = None\<rparr>) rag_sys = (Inr frames, u)
     \<and> map fst (sse_read (concat frames)) = [lit ''message_start'', lit ''citations'']"
proof -
  let ?scope = "Some \<lparr>kn_types = None, kn_law_codes = None, kn_source_ids = None\<rparr>"
  obtain t where t: "run_chat demo_ccfg rag_env demo_ctx 5 hello None (Some []) rag_sys = (Inl generator_exit, t)"
    "ch_events t = [Message_start 10 11, Citations_event [demo_item]]" using rag_run by blast
  have scope: "scope_source_ids ?scope = Some []" by (simp add: scope_source_ids_def)
  obtain frames u where send: "send_message demo_ccfg (\<lambda>_. [48]) rag_env [True, False] demo_ctx 5 hello None ?scope rag_sys = (Inr frames, u)"
    by (simp add: send_message_def content_ok_def scope t)
  have "one_line [48]" by simp
  from sse_delivers_events [OF this send] t scope
  have "sse_read (concat frames) = map (wire (\<lambda>_. [48])) [Message_start 10 11, Citations_event [demo_item]]" by auto
  then have "map fst (sse_read (concat frames)) = [lit ''message_start'', lit ''citations'']"
    by (simp add: wire_def event_name_def)
  with send show ?thesis by (intro exI [of _ frames] exI [of _ u] conjI)
qed

definition demo_tenv :: title_env where
  "demo_tenv = \<lparr>te_now = 9, te_llm = (\<lambda>_ _. [Ev (TextDelta [34, 72]), Ev (TextDelta [34]), Ev (StreamStop End_turn)]),
     te_fault = (\<lambda>_. None), te_between = (\<lambda>d. d)\<rparr>"

text \<open>A conversation that has a title already: the task leaves the whole system as it is.\<close>

theorem title_never_overwrites_witness:
  "let s = chat_sys\<lparr>committed := chat_db\<lparr>conversations := [demo_conv\<lparr>c_title := Some [88]\<rparr>]\<rparr>\<rparr>
   in \<exists>res t. generate_title demo_models demo_tenv 5 s = (res, t) \<and> committed t = committed s \<and> files t = files s \<and> broker t = broker s"
proof -
  let ?s = "chat_sys\<lparr>committed := chat_db\<lparr>conversations := [demo_conv\<lparr>c_title := Some [88]\<rparr>]\<rparr>\<rparr>"
  have "conv_update 5 (\<lambda>c. if c_title c = None then c\<lparr>c_title := Some title, c_updated_at := te_now demo_tenv\<rparr> else c) (committed ?s) = committed ?s"
    for title by (simp add: conv_update_def update_where_def)
  moreover have "te_between demo_tenv = (\<lambda>d. d)" by (simp add: demo_tenv_def)
  ultimately show ?thesis using title_never_overwrites [of demo_models demo_tenv 5 ?s] unfolding Let_def by auto
qed

definition talked_sys :: sys where
  "talked_sys =
     (let d = chat_db\<lparr>messages := [user_message (demo_cenv [] (\<lambda>_. None) (\<lambda>_. None)) 5 hello None,
            (user_message (demo_cenv [] (\<lambda>_. None) (\<lambda>_. None)) 5 [65] None)\<lparr>m_id := 11, m_role := Role_assistant\<rparr>]\<rparr>
      in \<lparr>committed = d, pending = d, files = Map.empty, broker = []\<rparr>)"

theorem title_is_generated_witness:
  "\<exists>t. generate_title demo_models demo_tenv 5 talked_sys = (Inr (), t) \<and> map c_title (conversations (committed t)) = [Some [72]]"
proof -
  let ?q = "user_message (demo_cenv [] (\<lambda>_. None) (\<lambda>_. None)) 5 hello None"
    and ?a = "(user_message (demo_cenv [] (\<lambda>_. None) (\<lambda>_. None)) 5 [65] None)\<lparr>m_id := 11, m_role := Role_assistant\<rparr>"
  have conv: "conv_by_id (committed talked_sys) 5 = Some demo_conv" "c_title demo_conv = None"
    by (simp_all add: talked_sys_def Let_def conv_by_id_def chat_db_def demo_conv_def new_conversation_def)
  have msgs: "message_first_of_role (committed talked_sys) 5 Role_user = Some ?q"
    "message_first_of_role (committed talked_sys) 5 Role_assistant = Some ?a"
    by (simp_all add: message_first_of_role_def conv_messages_def talked_sys_def Let_def user_message_def)
  have build: "build_llm demo_models = Inr ()"
    by (simp add: build_llm_def demo_models_def resolve_alias_def alias_exists_def Let_def)
  have rm: "resolve_alias demo_models (c_model_alias demo_conv)
      = Inr \<lparr>rm_provider = lit ''openai_compat'', rm_model = [120], rm_temperature = 7 / 10, rm_max_tokens = None\<rparr>"
    using demo_resolved by (simp add: demo_ccfg_def)
  have llm: "te_llm demo_tenv p params = map (\<lambda>x. Ev (TextDelta x)) [[34, 72], [34]] @ [Ev (StreamStop End_turn)]" for p params
    by (simp add: demo_tenv_def)
  have title: "([72] :: ustr) = clean_title (concat [[34, 72], [34]])" "([72] :: ustr) \<noteq> []" "0 \<notin> set ([72] :: ustr)"
    by (simp_all add: clean_title_def py_strip_def strip_by_def py_space_def STRIP_CHARS_def first_line_def line_break_def TITLE_MAX_CHARS_def)
  have calm: "te_fault demo_tenv = (\<lambda>_. None)" "te_between demo_tenv = (\<lambda>d. d)" by (simp_all add: demo_tenv_def)
  from title_is_generated [OF build conv msgs rm llm calm title]
  show ?thesis by (auto simp: conv_update_def talked_sys_def Let_def chat_db_def demo_conv_def new_conversation_def update_where_def)
qed

end
