(* ===== verification/Rag_Eval.thy ===== *)
theory Rag_Eval
  imports Rag_Witness
begin

text \<open>
  The evaluation script (\<^verbatim>\<open>src/backend/scripts/rag_eval.py\<close>): a golden set of questions with the document that should be
  found, a run of the retrieval service on each, hit rate and mean reciprocal rank. The parsed YAML, \<^verbatim>\<open>str\<close> of what is no string
  and the formatting of floats are parameters.
\<close>

section \<open>The golden set\<close>

record golden_case =
  gc_question :: ustr
  gc_expected_document :: ustr
  gc_expected_keyword :: "ustr option"

definition value_error :: "ustr \<Rightarrow> exn" where "value_error msg = PyError (lit ''ValueError'') msg"

definition missing_field :: "nat \<Rightarrow> ustr \<Rightarrow> exn" where
  "missing_field i key = value_error ([0x7B2C, 0x20] @ nat_str i @ [0x20, 0x984C, 0x7F3A, 0x5C11, 0x5FC5, 0x8981, 0x6B04, 0x4F4D, 0x20] @ [39] @ key @ [39])"

definition golden_item :: "(json \<Rightarrow> ustr) \<Rightarrow> nat \<Rightarrow> json \<Rightarrow> exn + golden_case" where
  "golden_item pstr i item =
     (case item of
        JObj d \<Rightarrow>
          (case dict_get d (lit ''question'') of
             None \<Rightarrow> Inl (missing_field i (lit ''question''))
           | Some question \<Rightarrow>
               (case dict_get d (lit ''expected_document'') of
                  None \<Rightarrow> Inl (missing_field i (lit ''expected_document''))
                | Some expected_document \<Rightarrow>
                    Inr \<lparr>gc_question = str_of pstr question, gc_expected_document = str_of pstr expected_document,
                         gc_expected_keyword = (case dict_get d (lit ''expected_keyword'') of None \<Rightarrow> None
                           | Some JNull \<Rightarrow> None | Some keyword \<Rightarrow> Some (str_of pstr keyword))\<rparr>))
      | _ \<Rightarrow> Inl (value_error ([0x7B2C, 0x20] @ nat_str i @ [0x20, 0x984C, 0x683C, 0x5F0F, 0x932F, 0x8AA4, 0x3A, 0x61C9, 0x70BA, 0x20, 0x6D, 0x61, 0x70, 0x70, 0x69, 0x6E, 0x67])))"

fun golden_items :: "(json \<Rightarrow> ustr) \<Rightarrow> nat \<Rightarrow> json list \<Rightarrow> exn + golden_case list" where
  "golden_items pstr i [] = Inr []"
| "golden_items pstr i (item # items) =
     (case golden_item pstr i item of
        Inl e \<Rightarrow> Inl e
      | Inr c \<Rightarrow> (case golden_items pstr (Suc i) items of Inl e \<Rightarrow> Inl e | Inr cs \<Rightarrow> Inr (c # cs)))"

definition load_golden :: "(json \<Rightarrow> ustr) \<Rightarrow> ustr \<Rightarrow> json \<Rightarrow> exn + golden_case list" where
  "load_golden pstr path raw =
     (case raw of
        JList (item # items) \<Rightarrow> golden_items pstr 1 (item # items)
      | _ \<Rightarrow> Inl (value_error (path @ [0x20, 0x61C9, 0x70BA, 0x975E, 0x7A7A, 0x7684, 0x984C, 0x76EE, 0x6E05, 0x55AE])))"

section \<open>Scoring\<close>

definition DEFAULT_TOP_K :: int where "DEFAULT_TOP_K = 5"

record case_result =
  cr_case :: golden_case
  cr_chunks :: "retrieved_chunk list"
  cr_hit_rank :: "nat option"

definition reciprocal_rank :: "case_result \<Rightarrow> rat" where
  "reciprocal_rank r = (case cr_hit_rank r of None \<Rightarrow> 0 | Some k \<Rightarrow> 1 / of_nat k)"

record report =
  rp_results :: "case_result list"
  rp_top_k :: int

definition hit_rate :: "report \<Rightarrow> rat" where
  "hit_rate rp =
     (if rp_results rp = [] then 0
      else of_nat (length (filter (\<lambda>r. cr_hit_rank r \<noteq> None) (rp_results rp))) / of_nat (length (rp_results rp)))"

definition mrr :: "report \<Rightarrow> rat" where
  "mrr rp = (if rp_results rp = [] then 0 else sum_list (map reciprocal_rank (rp_results rp)) / of_nat (length (rp_results rp)))"

definition matches :: "golden_case \<Rightarrow> retrieved_chunk \<Rightarrow> bool" where
  "matches c chunk \<longleftrightarrow> rc_filename chunk = gc_expected_document c
     \<and> (case gc_expected_keyword c of None \<Rightarrow> True | Some keyword \<Rightarrow> sublist keyword (rc_text chunk))"

definition py_upto :: "int \<Rightarrow> 'a list \<Rightarrow> 'a list" where
  \<comment> \<open>\<^verbatim>\<open>xs[:k]\<close>\<close>
  "py_upto k xs = (if k < 0 then take (length xs - nat (- k)) xs else take (nat k) xs)"

definition hit_rank_of :: "golden_case \<Rightarrow> retrieved_chunk list \<Rightarrow> nat option" where
  "hit_rank_of c chunks = map_option fst (find (\<lambda>(i, chunk). matches c chunk) (enumerate 1 chunks))"

fun evaluate_cases :: "(ustr \<Rightarrow> int \<Rightarrow> (sys, retrieved_chunk list) eff) \<Rightarrow> int \<Rightarrow> golden_case list \<Rightarrow> (sys, case_result list) eff" where
  "evaluate_cases search top_k [] = ret []"
| "evaluate_cases search top_k (c # cs) =
     bnd (search (gc_question c) top_k) (\<lambda>found.
     let chunks = py_upto top_k found
     in bnd (evaluate_cases search top_k cs) (\<lambda>results.
        ret (\<lparr>cr_case = c, cr_chunks = chunks, cr_hit_rank = hit_rank_of c chunks\<rparr> # results)))"

definition evaluate :: "golden_case list \<Rightarrow> (ustr \<Rightarrow> int \<Rightarrow> (sys, retrieved_chunk list) eff) \<Rightarrow> int \<Rightarrow> (sys, report) eff" where
  "evaluate cases search top_k =
     bnd (evaluate_cases search top_k cases) (\<lambda>results. ret \<lparr>rp_results = results, rp_top_k = top_k\<rparr>)"

section \<open>The report\<close>

definition snippet :: "ustr \<Rightarrow> ustr" where
  "snippet t = (let flat = str_join [32] (py_words [] t) in take 40 flat @ (if length flat > 40 then [0x2026] else []))"

definition pad_left :: "nat \<Rightarrow> ustr \<Rightarrow> ustr" where "pad_left n s = replicate (n - length s) 32 @ s"
definition pad_right :: "nat \<Rightarrow> ustr \<Rightarrow> ustr" where "pad_right n s = s @ replicate (n - length s) 32"

definition chunk_line :: "(nat \<Rightarrow> rat \<Rightarrow> ustr) \<Rightarrow> golden_case \<Rightarrow> nat \<times> retrieved_chunk \<Rightarrow> ustr" where
  "chunk_line fixed c =
     (\<lambda>(rank, chunk). lit ''     '' @ (if matches c chunk then [42] else [32]) @ nat_str rank @ lit ''. ''
        @ pad_right 28 (rc_filename chunk) @ [32] @ fixed 4 (rc_score chunk) @ lit ''  '' @ snippet (rc_text chunk))"

definition result_lines :: "(nat \<Rightarrow> rat \<Rightarrow> ustr) \<Rightarrow> nat \<times> case_result \<Rightarrow> ustr list" where
  "result_lines fixed =
     (\<lambda>(i, r).
        let c = cr_case r;
            expected = gc_expected_document c
              @ (case gc_expected_keyword c of None \<Rightarrow> [] | Some keyword \<Rightarrow> [0x28, 0x95DC, 0x9375, 0x5B57, 0x3A] @ keyword @ [0x29]);
            verdict = (case cr_hit_rank r of None \<Rightarrow> [0x672A, 0x547D, 0x4E2D] | Some k \<Rightarrow> [0x547D, 0x4E2D, 0x20, 0x23] @ nat_str k)
        in [[91] @ pad_left 2 (nat_str i) @ lit ''] '' @ gc_question c, [0x20, 0x20, 0x20, 0x20, 0x20, 0x671F, 0x671B, 0x3A] @ expected @ [0x20, 0x2192, 0x20] @ verdict]
           @ (if cr_chunks r = [] then [[0x20, 0x20, 0x20, 0x20, 0x20, 0x28, 0x7121, 0x6AA2, 0x7D22, 0x7D50, 0x679C, 0x29]] else [])
           @ map (chunk_line fixed c) (enumerate 1 (cr_chunks r)) @ [[]])"

definition format_report :: "(nat \<Rightarrow> rat \<Rightarrow> ustr) \<Rightarrow> report \<Rightarrow> ustr" where
  "format_report fixed rp =
     str_join [nl] (concat (map (result_lines fixed) (enumerate 1 (rp_results rp)))
       @ [[0x7E3D, 0x8A08, 0x3A] @ nat_str (length (rp_results rp)) @ [0x20, 0x984C, 0x20, 0x20, 0x48, 0x69, 0x74, 0x40] @ int_str (rp_top_k rp) @ lit '' = '' @ fixed 2 (hit_rate rp)
          @ lit ''  MRR = '' @ fixed 3 (mrr rp)])"

section \<open>The script\<close>

record eval_args =
  ea_user_email :: ustr
  ea_top_k :: int
  ea_golden :: ustr

text \<open>\<open>user_retrieve\<close>: PostgreSQL refuses a negative limit, but only once the query has been embedded.\<close>

definition user_retrieve :: "chunk_index \<Rightarrow> embedding_adapter \<Rightarrow> query_cache \<Rightarrow> (ustr \<Rightarrow> ustr list) \<Rightarrow> redis \<Rightarrow> auth_context
    \<Rightarrow> ustr \<Rightarrow> int \<Rightarrow> (sys, retrieved_chunk list) eff" where
  "user_retrieve ix ad qc cutter r ctx question top_k =
     bnd (retrieve ix ad qc cutter r ctx question None (nat top_k)) (\<lambda>chunks.
     if top_k < 0 then throw data_error else ret chunks)"

definition rag_eval_run :: "(json \<Rightarrow> ustr) \<Rightarrow> (nat \<Rightarrow> rat \<Rightarrow> ustr) \<Rightarrow> (ustr \<Rightarrow> ustr) \<Rightarrow> (ustr \<Rightarrow> exn + json) \<Rightarrow> chunk_index \<Rightarrow> embedding_adapter
    \<Rightarrow> query_cache \<Rightarrow> (ustr \<Rightarrow> ustr list) \<Rightarrow> redis \<Rightarrow> eval_args \<Rightarrow> (sys, nat \<times> ustr) eff" where
  \<comment> \<open>the exit code with what is printed\<close>
  "rag_eval_run pstr fixed lower yaml ix ad qc cutter r args =
     (case yaml (ea_golden args) of
        Inl e \<Rightarrow> throw e
      | Inr raw \<Rightarrow>
          (case load_golden pstr (ea_golden args) raw of
             Inl e \<Rightarrow> throw e
           | Inr cases \<Rightarrow>
               bnd (in_session (query (\<lambda>s. user_get_by_email s (lower (py_strip (ea_user_email args)))))) (\<lambda>found.
               case found of
                 None \<Rightarrow> ret (1, [0x627E, 0x4E0D, 0x5230, 0x5E33, 0x865F, 0x20] @ ea_user_email args)
               | Some user \<Rightarrow>
                   bnd (evaluate cases (user_retrieve ix ad qc cutter r
                          \<lparr>ctx_user_id = u_id user, ctx_role = u_role user, ctx_trace_id = lit ''rag-eval''\<rparr>) (ea_top_k args)) (\<lambda>rp.
                   ret (0, format_report fixed rp)))))"

section \<open>All questions or none\<close>

definition golden_ok :: "json \<Rightarrow> bool" where
  "golden_ok item \<longleftrightarrow>
     (case item of JObj d \<Rightarrow> dict_get d (lit ''question'') \<noteq> None \<and> dict_get d (lit ''expected_document'') \<noteq> None | _ \<Rightarrow> False)"

lemma golden_item_ok: "golden_ok item \<longleftrightarrow> (\<exists>c. golden_item pstr i item = Inr c)"
  by (auto simp: golden_ok_def golden_item_def split: json.split option.split)

lemma golden_item_error: "golden_item pstr i item = Inl e \<Longrightarrow> \<exists>msg. e = value_error msg"
  by (auto simp: golden_item_def missing_field_def split: json.splits option.splits)

lemma golden_item_case:
  "golden_item pstr i (JObj d) = Inr c \<Longrightarrow>
     map_option (str_of pstr) (dict_get d (lit ''question'')) = Some (gc_question c)
     \<and> map_option (str_of pstr) (dict_get d (lit ''expected_document'')) = Some (gc_expected_document c)"
  by (auto simp: golden_item_def split: option.splits)

definition asks :: "(json \<Rightarrow> ustr) \<Rightarrow> json \<Rightarrow> golden_case \<Rightarrow> bool" where
  "asks pstr item c \<longleftrightarrow> (\<exists>d. item = JObj d
     \<and> map_option (str_of pstr) (dict_get d (lit ''question'')) = Some (gc_question c)
     \<and> map_option (str_of pstr) (dict_get d (lit ''expected_document'')) = Some (gc_expected_document c))"

lemma golden_asks: "golden_item pstr i item = Inr c \<Longrightarrow> asks pstr item c"
proof (cases item)
  case (JObj d)
  moreover assume "golden_item pstr i item = Inr c"
  ultimately show ?thesis using golden_item_case [of pstr i d c] by (simp add: asks_def)
qed (simp_all add: golden_item_def)

lemma golden_items_result:
  "case golden_items pstr i items of
     Inr cases \<Rightarrow> list_all2 (asks pstr) items cases \<and> list_all golden_ok items
   | Inl e \<Rightarrow> (\<exists>msg. e = value_error msg) \<and> \<not> list_all golden_ok items"
proof (induction pstr i items rule: golden_items.induct)
  case (2 pstr i item items)
  show ?case
  proof (cases "golden_item pstr i item")
    case (Inl e)
    then show ?thesis using golden_item_error [OF Inl] golden_item_ok [of item pstr i] by simp
  next
    case (Inr c)
    moreover have "golden_ok item" using Inr golden_item_ok [of item pstr i] by blast
    moreover note golden_asks [OF Inr] 2 [OF Inr]
    ultimately show ?thesis by (cases "golden_items pstr (Suc i) items") simp_all
  qed
qed simp

text \<open>
  the golden set is read completely or not at all. Either every item is a mapping with a question and an
  expected document, and the cases are the items, one by one, in order; or the script stops with a \<^verbatim>\<open>ValueError\<close>. No question is
  skipped, so the scores cannot be better than they are.
\<close>

theorem golden_all_or_nothing:
  "case load_golden pstr path raw of
     Inr cases \<Rightarrow> (\<exists>items. raw = JList items \<and> items \<noteq> [] \<and> list_all golden_ok items \<and> list_all2 (asks pstr) items cases)
   | Inl e \<Rightarrow> (\<exists>msg. e = value_error msg) \<and> \<not> (\<exists>items. raw = JList items \<and> items \<noteq> [] \<and> list_all golden_ok items)"
proof (cases "\<exists>item items. raw = JList (item # items)")
  case True
  then obtain item items where raw: "raw = JList (item # items)" by blast
  then show ?thesis
    using golden_items_result [of "item # items" pstr 1]
    by (cases "golden_items pstr 1 (item # items)") (simp_all add: load_golden_def del: golden_items.simps)
next
  case False
  then have "\<exists>msg. load_golden pstr path raw = Inl (value_error msg)"
    by (cases raw) (auto simp: load_golden_def split: list.splits)
  then show ?thesis using False by (auto simp: neq_Nil_conv)
qed

section \<open>What the scores mean\<close>

lemma find_enumerate:
  "case find (\<lambda>(i, x). P x) (enumerate n xs) of
     None \<Rightarrow> \<forall>x \<in> set xs. \<not> P x
   | Some (k, x) \<Rightarrow> n \<le> k \<and> k < n + length xs \<and> P (xs ! (k - n)) \<and> (\<forall>j < k - n. \<not> P (xs ! j))"
proof (induction xs arbitrary: n)
  case (Cons x xs)
  show ?case
  proof (cases "P x")
    case False
    show ?thesis
      using Cons [of "Suc n"] False
      by (auto simp: nth_Cons less_Suc_eq_0_disj Suc_diff_le split: option.splits nat.splits)
  qed simp
qed simp

lemma hit_rank_spec:
  "case hit_rank_of c chunks of
     None \<Rightarrow> \<forall>x \<in> set chunks. \<not> matches c x
   | Some k \<Rightarrow> 1 \<le> k \<and> k \<le> length chunks \<and> matches c (chunks ! (k - 1)) \<and> (\<forall>j < k - 1. \<not> matches c (chunks ! j))"
  using find_enumerate [where P = "matches c" and n = 1 and xs = chunks] by (auto simp: hit_rank_of_def split: option.splits prod.splits)

definition scored :: "int \<Rightarrow> golden_case \<Rightarrow> case_result \<Rightarrow> bool" where
  "scored top_k c r \<longleftrightarrow> cr_case r = c \<and> length (cr_chunks r) \<le> nat top_k
     \<and> (case cr_hit_rank r of
           None \<Rightarrow> \<forall>x \<in> set (cr_chunks r). \<not> matches c x
         | Some k \<Rightarrow> 1 \<le> k \<and> k \<le> length (cr_chunks r) \<and> matches c (cr_chunks r ! (k - 1))
             \<and> (\<forall>j < k - 1. \<not> matches c (cr_chunks r ! j)))"

lemma evaluate_cases_scored:
  "evaluate_cases search top_k cases s = (Inr results, t) \<Longrightarrow> 0 \<le> top_k \<Longrightarrow> list_all2 (scored top_k) cases results"
proof (induction search top_k cases arbitrary: s results t rule: evaluate_cases.induct)
  case (2 search top_k c cs)
  from 2(2) obtain found u rest where found: "search (gc_question c) top_k s = (Inr found, u)"
    and rest: "evaluate_cases search top_k cs u = (Inr rest, t)"
    and results: "results = \<lparr>cr_case = c, cr_chunks = py_upto top_k found, cr_hit_rank = hit_rank_of c (py_upto top_k found)\<rparr> # rest"
    by (auto simp: bnd_def ret_def Let_def split: prod.splits sum.splits)
  have "length (py_upto top_k found) \<le> nat top_k" using 2(3) by (simp add: py_upto_def)
  then have "scored top_k c (hd results)" using hit_rank_spec [where c = c and chunks = "py_upto top_k found"] by (simp add: results scored_def cong: option.case_cong)
  with 2(1) [OF refl rest 2(3)] show ?case by (simp add: results)
qed (simp add: ret_def)

lemma reciprocal_bounds:
  assumes "scored top_k c r"
  shows "0 \<le> reciprocal_rank r" and "reciprocal_rank r \<le> (if cr_hit_rank r \<noteq> None then 1 else 0)"
    and "(if cr_hit_rank r \<noteq> None then 1 else 0) \<le> of_int top_k * reciprocal_rank r"
proof -
  have "\<exists>k. cr_hit_rank r = Some k \<and> 1 \<le> k \<and> int k \<le> top_k" if "cr_hit_rank r \<noteq> None"
    using assms that by (auto simp: scored_def)
  then consider "cr_hit_rank r = None" | k where "cr_hit_rank r = Some k" "1 \<le> k" "int k \<le> top_k" by blast
  then have "0 \<le> reciprocal_rank r \<and> reciprocal_rank r \<le> (if cr_hit_rank r \<noteq> None then 1 else 0)
    \<and> (if cr_hit_rank r \<noteq> None then 1 else 0) \<le> of_int top_k * reciprocal_rank r"
  proof cases
    case (2 k)
    have "(of_int (int k) :: rat) \<le> of_int top_k" using 2(3) by (simp only: of_int_le_iff)
    with 2 show ?thesis by (simp add: reciprocal_rank_def divide_le_eq le_divide_eq)
  qed (simp add: reciprocal_rank_def)
  then show "0 \<le> reciprocal_rank r" "reciprocal_rank r \<le> (if cr_hit_rank r \<noteq> None then 1 else 0)"
    "(if cr_hit_rank r \<noteq> None then 1 else 0) \<le> of_int top_k * reciprocal_rank r" by blast+
qed

lemma hits_sum: "(of_nat (length (filter P xs)) :: rat) = sum_list (map (\<lambda>x. if P x then 1 else 0) xs)"
  by (induction xs) simp_all

lemma sums_bounded:
  assumes "list_all2 (scored top_k) cases results"
  shows "0 \<le> sum_list (map reciprocal_rank results)"
    and "sum_list (map reciprocal_rank results) \<le> of_nat (length (filter (\<lambda>r. cr_hit_rank r \<noteq> None) results))"
    and "of_nat (length (filter (\<lambda>r. cr_hit_rank r \<noteq> None) results)) \<le> of_int top_k * sum_list (map reciprocal_rank results)"
proof -
  have each: "\<exists>c. scored top_k c r" if "r \<in> set results" for r
    using assms that by (auto simp: list_all2_conv_all_nth in_set_conv_nth)
  show "0 \<le> sum_list (map reciprocal_rank results)"
    by (rule sum_list_nonneg) (use each reciprocal_bounds(1) in auto)
  show "sum_list (map reciprocal_rank results) \<le> of_nat (length (filter (\<lambda>r. cr_hit_rank r \<noteq> None) results))"
    unfolding hits_sum by (rule sum_list_mono) (use each reciprocal_bounds(2) in blast)
  have "sum_list (map (\<lambda>r. if cr_hit_rank r \<noteq> None then 1 else 0) results) \<le> sum_list (map (\<lambda>r. of_int top_k * reciprocal_rank r) results)"
    by (rule sum_list_mono) (use each reciprocal_bounds(3) in blast)
  then show "of_nat (length (filter (\<lambda>r. cr_hit_rank r \<noteq> None) results)) \<le> of_int top_k * sum_list (map reciprocal_rank results)"
    unfolding hits_sum by (simp add: sum_list_const_mult)
qed

text \<open>
  the scores mean what their names say. There is one result per case, in order, with at most \<open>top_k\<close> chunks and as its hit
  rank the position of the first chunk that matches, if one does; the mean reciprocal rank lies between the hit rate divided by
  \<open>top_k\<close> and the hit rate, and both between 0 and 1.
\<close>

theorem eval_scores:
  assumes "evaluate cases search top_k s = (Inr rp, t)" and "0 \<le> top_k"
  shows "list_all2 (scored top_k) cases (rp_results rp)
     \<and> 0 \<le> mrr rp \<and> mrr rp \<le> hit_rate rp \<and> hit_rate rp \<le> 1 \<and> hit_rate rp \<le> of_int top_k * mrr rp"
proof -
  have all: "list_all2 (scored top_k) cases (rp_results rp)"
    using assms evaluate_cases_scored [of search top_k cases s _ t] by (auto simp: evaluate_def bnd_def ret_def split: prod.splits sum.splits)
  let ?rs = "rp_results rp" and ?n = "of_nat (length (rp_results rp)) :: rat"
  let ?hits = "of_nat (length (filter (\<lambda>r. cr_hit_rank r \<noteq> None) ?rs)) :: rat"
  show ?thesis
  proof (cases "?rs = []")
    case False
    then have n: "0 < ?n" by simp
    have "?hits \<le> ?n" by (simp only: of_nat_le_iff length_filter_le)
    then have "hit_rate rp \<le> 1" using False by (simp add: hit_rate_def divide_le_eq_1)
    moreover note sums_bounded [OF all]
    ultimately show ?thesis
      using all False n by (simp add: hit_rate_def mrr_def divide_right_mono)
  qed (use all in \<open>simp add: hit_rate_def mrr_def\<close>)
qed

section \<open>Reading only\<close>

text \<open>\<open>others ix s t\<close>: from \<open>s\<close> to \<open>t\<close> nothing happened but what others commit during some of the searches.\<close>

definition others :: "chunk_index \<Rightarrow> sys \<Rightarrow> sys \<Rightarrow> bool" where
  "others ix s t \<longleftrightarrow> files t = files s \<and> broker t = broker s \<and> (\<exists>n. committed t = (ix_between ix ^^ n) (committed s))"

lemma others_refl: "others ix s s"
  by (auto simp: others_def intro: exI [of _ 0])

lemma others_trans: "others ix s t \<Longrightarrow> others ix t u \<Longrightarrow> others ix s u"
  by (auto simp: others_def) (metis comp_apply funpow_add)

lemma wp_search_others: "wp (hybrid_search ix u ids tokens v n) (\<lambda>_. others ix s) (\<lambda>_. others ix s) s"
proof -
  have "others ix s t" if "committed t \<in> {committed s, ix_between ix (committed s)}" "files t = files s" "broker t = broker s" for t
    using that by (auto simp: others_def intro: exI [of _ 0] exI [of _ 1])
  then show ?thesis by (intro wp_mono [OF hybrid_search_result [of ix u ids tokens v n s]]) blast+
qed

lemma wp_retrieve_others: "wp (retrieve ix ad qc cutter r ctx q ids n) (\<lambda>_. others ix s) (\<lambda>_. others ix s) s"
proof (cases "fst (embed_query (embed_texts ad) qc (take QUERY_EMBED_MAX_CHARS q) r)")
  case (Inl e)
  then show ?thesis by (simp add: retrieve_def Let_def wp_throw others_refl)
next
  case (Inr v)
  show ?thesis
    unfolding retrieve_def Let_def Inr sum.case wp_bnd wp_ret_fun by (rule wp_search_others)
qed

lemma wp_user_retrieve_others: "wp (user_retrieve ix ad qc cutter r ctx q k) (\<lambda>_. others ix s) (\<lambda>_. others ix s) s"
proof -
  have rest: "wp (if k < 0 then throw data_error else ret cs) (\<lambda>_. others ix s) (\<lambda>_. others ix s) = others ix s" for cs
    by (intro ext) (simp add: wp_simps)
  show ?thesis unfolding user_retrieve_def wp_bnd rest by (rule wp_retrieve_others)
qed

lemma wp_evaluate_others:
  assumes "\<And>q s. wp (search q top_k) (\<lambda>_. others ix s) (\<lambda>_. others ix s) s"
  shows "wp (evaluate_cases search top_k cases) (\<lambda>_. others ix s) (\<lambda>_. others ix s) s"
proof (induction cases arbitrary: s)
  case (Cons c cs)
  have rest: "wp (evaluate_cases search top_k cs) (\<lambda>_. others ix s) (\<lambda>_. others ix s) u" if "others ix s u" for u
    by (rule wp_mono [OF Cons [of u]]) (rule others_trans [OF that], assumption)+
  show ?case
    unfolding evaluate_cases.simps wp_bnd Let_def
    by (rule wp_mono [OF assms]) (auto simp: wp_ret_fun intro: rest)
qed (simp add: wp_ret others_refl)

text \<open>
  the script only reads. Whatever the golden set, the arguments, the index and the embedding service, and whether it
  ends normally or with an exception, files and broker are as before and the database has only changed by what others
  committed meanwhile.
\<close>

theorem eval_reads_only:
  "\<exists>n. let t = snd (rag_eval_run pstr fixed lower yaml ix ad qc cutter r args s) in
     files t = files s \<and> broker t = broker s \<and> committed t = (ix_between ix ^^ n) (committed s)"
proof -
  have run: "wp (evaluate cases (user_retrieve ix ad qc cutter r ctx) k) (\<lambda>_. others ix u) (\<lambda>_. others ix u) u" for cases ctx k u
    unfolding evaluate_def wp_bnd
    by (rule wp_mono [OF wp_evaluate_others [OF wp_user_retrieve_others]]) (simp_all add: wp_ret)
  have "others ix (s\<lparr>pending := d\<rparr>) = others ix s" for d by (intro ext) (simp add: others_def)
  with run [where u = "s\<lparr>pending := _\<rparr>"] have "wp (evaluate cases (user_retrieve ix ad qc cutter r ctx) k) (\<lambda>_. others ix s) (\<lambda>_. others ix s) (s\<lparr>pending := d\<rparr>)"
    for cases ctx k d by simp
  then have script: "wp (bnd (evaluate cases (user_retrieve ix ad qc cutter r ctx) k) (\<lambda>rp. ret (0, format_report fixed rp)))
      (\<lambda>_. others ix s) (\<lambda>_. others ix s) (s\<lparr>pending := d\<rparr>)" for cases ctx k d
    by (simp add: wp_bnd wp_ret_fun)
  have user: "wp (bnd (in_session (query f)) g) Q E s \<longleftrightarrow> wp (g (f (committed s))) Q E (s\<lparr>pending := committed s\<rparr>)"
    for f :: "db \<Rightarrow> user option" and g :: "user option \<Rightarrow> (sys, nat \<times> ustr) eff" and Q E
    by (simp add: wp_simps)
  have idle: "others ix s (s\<lparr>pending := d\<rparr>)" for d by (simp add: others_def exI [of _ 0])
  have "wp (rag_eval_run pstr fixed lower yaml ix ad qc cutter r args) (\<lambda>_. others ix s) (\<lambda>_. others ix s) s"
    unfolding rag_eval_run_def
    by (cases "yaml (ea_golden args)"; cases "load_golden pstr (ea_golden args) (projr (yaml (ea_golden args)))")
      (simp_all add: wp_throw others_refl user wp_ret idle script split: option.split)
  then show ?thesis unfolding wp_ends by (auto simp: others_def Let_def)
qed

section \<open>An example\<close>

definition demo_case :: golden_case where
  "demo_case = \<lparr>gc_question = hello, gc_expected_document = lit ''a.txt'', gc_expected_keyword = Some [65]\<rparr>"

theorem eval_scores_witness:
  "\<exists>rp t. evaluate [demo_case] (user_retrieve demo_ix demo_ead demo_qc (\<lambda>_. []) Map.empty demo_ctx) 3 rag_sys = (Inr rp, t)
     \<and> map cr_hit_rank (rp_results rp) = [Some 1] \<and> hit_rate rp \<le> 1 \<and> mrr rp \<le> hit_rate rp"
proof -
  obtain t where t: "retrieve demo_ix demo_ead demo_qc (\<lambda>_. []) Map.empty demo_ctx hello None 3 rag_sys
      = (Inr (load_chunks [(30, 1 / 61)] (rag_db [])), t)"
    using rag_retrieve [of rag_sys "[]"] by (auto simp: rag_sys_def)
  let ?chunks = "load_chunks [(30, 1 / 61)] (rag_db [])"
  let ?rp = "\<lparr>rp_results = [\<lparr>cr_case = demo_case, cr_chunks = ?chunks, cr_hit_rank = Some 1\<rparr>], rp_top_k = 3\<rparr>"
  have q: "gc_question demo_case = hello" by (simp add: demo_case_def)
  have hit: "py_upto 3 ?chunks = ?chunks" "hit_rank_of demo_case ?chunks = Some 1"
    by (simp_all add: demo_loaded py_upto_def hit_rank_of_def matches_def demo_case_def)
  have search: "user_retrieve demo_ix demo_ead demo_qc (\<lambda>_. []) Map.empty demo_ctx hello 3 rag_sys = (Inr ?chunks, t)"
    using t by (simp add: user_retrieve_def bnd_def ret_def)
  have "evaluate [demo_case] (user_retrieve demo_ix demo_ead demo_qc (\<lambda>_. []) Map.empty demo_ctx) 3 rag_sys = (Inr ?rp, t)"
    unfolding evaluate_def evaluate_cases.simps bnd_def q search by (simp add: ret_def Let_def hit)
  from eval_scores [OF this] this show ?thesis by (intro exI [of _ ?rp] exI [of _ t]) simp
qed

text \<open>A field that is there but null is no missing field: its text is Python's \<^verbatim>\<open>str(None)\<close>.\<close>

lemma null_question_is_kept:
  "load_golden pstr path (JList [JObj [(lit ''question'', JNull), (lit ''expected_document'', JStr d)]])
     = Inr [\<lparr>gc_question = pstr JNull, gc_expected_document = d, gc_expected_keyword = None\<rparr>]"
  by (simp add: load_golden_def golden_item_def dict_get_def str_of_def)

end
