(* ===== verification/Dev_Launcher.thy ===== *)
theory Dev_Launcher
  imports Effects
begin

text \<open>
  The development launcher (\<^verbatim>\<open>src/scripts/dev.py\<close>): checks, infrastructure, migrations, then the child processes and
  the loop that watches them. \<open>machine\<close> is what a run meets: which programs and directories exist, exit codes, when
  ports answer, when children end, when the user presses Ctrl+C: from the first child on at any of the moments named below, before it
  not (there it just ends the launcher, with no child to stop). A run records its steps; messages are left out. The watch loop has
  fuel, the seconds it may run.
\<close>

section \<open>The machine\<close>

type_synonym cmd = "string list"

text \<open>
  The moments at which Ctrl+C can be pressed: while a child is being started, while the threads that forward the output are
  being started, in a second of the watch loop, while a child is being stopped, and while its end is awaited.
\<close>

datatype moment = Starting string | Pumping | Second nat | Stopping string | Waiting string

record machine =
  mc_windows :: bool
  mc_docker_found :: bool
  mc_docker_runs :: bool
  mc_venv_exists :: bool
  mc_node_modules_exists :: bool
  mc_run :: "cmd \<Rightarrow> int option" \<comment> \<open>the exit code; None if the program cannot be started\<close>
  mc_probes :: nat \<comment> \<open>how many probes of a port fit into the timeout\<close>
  mc_port_open :: "nat \<Rightarrow> nat \<Rightarrow> bool" \<comment> \<open>by port and probe\<close>
  mc_spawns :: "string \<Rightarrow> bool" \<comment> \<open>\<^verbatim>\<open>Popen\<close> succeeds\<close>
  mc_exits :: "string \<Rightarrow> nat option" \<comment> \<open>the second in which the child ends by itself\<close>
  mc_interrupt :: "moment \<Rightarrow> bool" \<comment> \<open>Ctrl+C is pressed at this moment\<close>
  mc_obeys :: "string \<Rightarrow> bool" \<comment> \<open>ends within ten seconds of the signal\<close>

datatype step = Ran cmd | Spawned string cmd | Signalled string

type_synonym 'a launch = "(step list, 'a) eff"

definition file_not_found :: exn where "file_not_found = PyError (lit ''FileNotFoundError'') []"
definition system_exit :: exn where "system_exit = PyError (lit ''SystemExit'') [49]"

definition keyboard_interrupt :: exn where "keyboard_interrupt = PyError (lit ''KeyboardInterrupt'') []"

definition press :: "machine \<Rightarrow> moment \<Rightarrow> unit launch" where
  "press m x = (if mc_interrupt m x then throw keyboard_interrupt else ret ())"

definition record_step :: "step \<Rightarrow> unit launch" where
  "record_step x = change (\<lambda>xs. xs @ [x])"

section \<open>Checks and infrastructure\<close>

definition PG_PORT :: nat where "PG_PORT = 15432"
definition REDIS_PORT :: nat where "REDIS_PORT = 6379"
definition API_PORT :: string where "API_PORT = ''8000''"

definition venv_python :: "machine \<Rightarrow> string" where
  "venv_python m = (if mc_windows m then ''.venv/Scripts/python.exe'' else ''.venv/bin/python'')"

definition die :: "'a launch" where "die = throw system_exit"

definition run_cmd :: "machine \<Rightarrow> cmd \<Rightarrow> int launch" where
  "run_cmd m c = (case mc_run m c of None \<Rightarrow> throw file_not_found | Some code \<Rightarrow> bnd (record_step (Ran c)) (\<lambda>_. ret code))"

definition must_run :: "machine \<Rightarrow> cmd \<Rightarrow> unit launch" where
  \<comment> \<open>\<^verbatim>\<open>if run(...) != 0: die(...)\<close>\<close>
  "must_run m c = bnd (run_cmd m c) (\<lambda>code. if code \<noteq> 0 then die else ret ())"

fun probe :: "machine \<Rightarrow> nat \<Rightarrow> nat \<Rightarrow> nat \<Rightarrow> unit launch" where
  "probe m port k 0 = die"
| "probe m port k (Suc n) = (if mc_port_open m port k then ret () else probe m port (Suc k) n)"

definition wait_port :: "machine \<Rightarrow> nat \<Rightarrow> unit launch" where
  "wait_port m port = probe m port 0 (mc_probes m)"

definition check_docker :: "machine \<Rightarrow> unit launch" where
  "check_docker m = (if \<not> mc_docker_found m then die else if \<not> mc_docker_runs m then die else ret ())"

definition npm :: "machine \<Rightarrow> cmd \<Rightarrow> cmd" where
  "npm m args = (if mc_windows m then [''cmd'', ''/c'', ''npm''] else [''npm'']) @ args"

definition do_setup :: "machine \<Rightarrow> unit launch" where
  "do_setup m =
     bnd (check_docker m) (\<lambda>_.
     bnd (if mc_venv_exists m then ret () else must_run m [''python'', ''-m'', ''venv'', ''.venv'']) (\<lambda>_.
     bnd (must_run m [venv_python m, ''-m'', ''pip'', ''install'', ''-e'', ''.[dev]'']) (\<lambda>_.
     must_run m (npm m [''install'']))))"

definition preflight :: "machine \<Rightarrow> unit launch" where
  "preflight m =
     bnd (check_docker m) (\<lambda>_.
     if \<not> mc_venv_exists m then die else if \<not> mc_node_modules_exists m then die else ret ())"

definition compose_up :: cmd where "compose_up = [''docker'', ''compose'', ''up'', ''-d'']"
definition upgrade_cmd :: "machine \<Rightarrow> cmd" where "upgrade_cmd m = [venv_python m, ''-m'', ''alembic'', ''upgrade'', ''head'']"

definition start_infra_and_migrate :: "machine \<Rightarrow> unit launch" where
  "start_infra_and_migrate m =
     bnd (must_run m compose_up) (\<lambda>_.
     bnd (wait_port m PG_PORT) (\<lambda>_.
     bnd (wait_port m REDIS_PORT) (\<lambda>_.
     must_run m (upgrade_cmd m))))"

section \<open>Children\<close>

definition spawn :: "machine \<Rightarrow> string \<times> cmd \<Rightarrow> unit launch" where
  "spawn m child =
     bnd (press m (Starting (fst child))) (\<lambda>_.
     if mc_spawns m (fst child) then record_step (Spawned (fst child) (snd child)) else throw file_not_found)"

fun spawn_all :: "machine \<Rightarrow> (string \<times> cmd) list \<Rightarrow> unit launch" where
  "spawn_all m [] = ret ()"
| "spawn_all m (c # cs) = bnd (spawn m c) (\<lambda>_. spawn_all m cs)"

definition worker_queues :: "string list" where "worker_queues = [''ingest'', ''default'']"

definition children :: "machine \<Rightarrow> bool \<Rightarrow> (string \<times> cmd) list" where
  "children m no_web =
     [(''api'', [venv_python m, ''-m'', ''uvicorn'', ''app.main:app'', ''--reload'', ''--port'', API_PORT]),
      (''worker'', [venv_python m, ''-m'', ''celery'', ''-A'', ''app.workers.celery_app:celery_app'', ''worker'', ''-l'', ''info'', ''-Q'',
          hd worker_queues @ '','' @ last worker_queues] @ (if mc_windows m then [''--pool=solo''] else []))]
     @ (if no_web then [] else [(''web'', npm m [''run'', ''dev''])])"

definition ended_by :: "machine \<Rightarrow> nat \<Rightarrow> string \<Rightarrow> bool" where
  \<comment> \<open>\<^verbatim>\<open>proc.poll() is not None\<close>, before any signal\<close>
  "ended_by m t name = (case mc_exits m name of None \<Rightarrow> False | Some k \<Rightarrow> k \<le> t)"

definition kill :: "machine \<Rightarrow> nat \<Rightarrow> string \<Rightarrow> unit launch" where
  \<comment> \<open>the process group, or the process when that fails\<close>
  "kill m t name = (if ended_by m t name then ret () else record_step (Signalled name))"

fun shutdown :: "machine \<Rightarrow> nat \<Rightarrow> string list \<Rightarrow> unit launch" where
  "shutdown m t [] = ret ()"
| "shutdown m t (name # names) =
     bnd (press m (Stopping name)) (\<lambda>_.
     bnd (kill m t name) (\<lambda>_. shutdown m t names))"

text \<open>
  A round of the loop looks at the children, then sleeps a second. When a child has ended, the shutdown runs inside the \<^verbatim>\<open>try\<close>: a
  Ctrl+C in the middle of it is caught, and the second shutdown does nothing (\<^verbatim>\<open>stopping\<close> is set). The shutdown that Ctrl+C
  itself starts runs in the handler, where another Ctrl+C ends the launcher.
\<close>

fun watch :: "nat \<Rightarrow> machine \<Rightarrow> nat \<Rightarrow> string list \<Rightarrow> nat option launch" where
  \<comment> \<open>\<open>Some t\<close>: stopped in second \<open>t\<close>; \<open>None\<close>: out of fuel\<close>
  "watch 0 m t names = ret None"
| "watch (Suc n) m t names =
     (if list_ex (ended_by m t) names
      then bnd (try_with (shutdown m t names) (\<lambda>e. if e = keyboard_interrupt then ret () else throw e)) (\<lambda>_. ret (Some t))
      else if mc_interrupt m (Second t) then bnd (shutdown m t names) (\<lambda>_. ret (Some t))
      else watch n m (Suc t) names)"

fun reap :: "machine \<Rightarrow> nat \<Rightarrow> string list \<Rightarrow> unit launch" where
  \<comment> \<open>\<^verbatim>\<open>proc.wait(timeout=10)\<close>, which a Ctrl+C leaves (it is no \<^verbatim>\<open>Exception\<close>), and once more \<^verbatim>\<open>kill\<close> for those that do not end\<close>
  "reap m t [] = ret ()"
| "reap m t (name # names) =
     bnd (press m (Waiting name)) (\<lambda>_.
     bnd (look (\<lambda>steps. Signalled name \<in> set steps \<and> mc_obeys m name)) (\<lambda>obeyed.
     bnd (if ended_by m t name \<or> obeyed then ret () else kill m t name) (\<lambda>_. reap m t names)))"

definition run_all :: "nat \<Rightarrow> machine \<Rightarrow> bool \<Rightarrow> bool launch" where
  \<comment> \<open>False: still running when the fuel is spent\<close>
  "run_all fuel m no_web =
     bnd (preflight m) (\<lambda>_.
     bnd (start_infra_and_migrate m) (\<lambda>_.
     bnd (spawn_all m (children m no_web)) (\<lambda>_.
     bnd (press m Pumping) (\<lambda>_.
     bnd (watch fuel m 0 (map fst (children m no_web))) (\<lambda>stopped.
     case stopped of
       None \<Rightarrow> ret False
     | Some t \<Rightarrow> bnd (reap m t (map fst (children m no_web))) (\<lambda>_. ret True))))))"

definition main :: "nat \<Rightarrow> machine \<Rightarrow> bool \<Rightarrow> bool \<Rightarrow> bool launch" where
  "main fuel m setup no_web = (if setup then bnd (do_setup m) (\<lambda>_. ret True) else run_all fuel m no_web)"

section \<open>Starting\<close>

definition port_answers :: "machine \<Rightarrow> nat \<Rightarrow> bool" where
  "port_answers m port \<longleftrightarrow> (\<exists>k < mc_probes m. mc_port_open m port k)"

definition prepared :: "machine \<Rightarrow> bool" where
  "prepared m \<longleftrightarrow> mc_docker_found m \<and> mc_docker_runs m \<and> mc_venv_exists m \<and> mc_node_modules_exists m
     \<and> mc_run m compose_up = Some 0 \<and> port_answers m PG_PORT \<and> port_answers m REDIS_PORT \<and> mc_run m (upgrade_cmd m) = Some 0"

lemma probe_result:
  "probe m port k n s = (if \<exists>j < n. mc_port_open m port (k + j) then (Inr (), s) else (Inl system_exit, s))"
proof (induction n arbitrary: k)
  case (Suc n)
  have "(\<exists>j < Suc n. mc_port_open m port (k + j)) \<longleftrightarrow> mc_port_open m port k \<or> (\<exists>j < n. mc_port_open m port (Suc k + j))"
    by (auto simp: less_Suc_eq_0_disj)
  then show ?case using Suc [of "Suc k"] by (simp add: ret_def)
qed (simp add: die_def throw_def)

lemma wait_port_result:
  "wait_port m port s = (if port_answers m port then (Inr (), s) else (Inl system_exit, s))"
  by (simp add: wait_port_def probe_result port_answers_def)

lemma must_run_result:
  "must_run m c s = (case mc_run m c of None \<Rightarrow> (Inl file_not_found, s)
     | Some code \<Rightarrow> (if code \<noteq> 0 then Inl system_exit else Inr (), s @ [Ran c]))"
  by (simp add: must_run_def run_cmd_def bnd_def throw_def ret_def record_step_def change_def die_def split: option.split)

lemma infra_result:
  assumes "start_infra_and_migrate m s = (Inr u, t)"
  shows "mc_run m compose_up = Some 0 \<and> port_answers m PG_PORT \<and> port_answers m REDIS_PORT \<and> mc_run m (upgrade_cmd m) = Some 0
     \<and> t = s @ [Ran compose_up, Ran (upgrade_cmd m)]"
  using assms
  by (auto simp: start_infra_and_migrate_def bnd_def must_run_result wait_port_result split: option.splits if_splits)

lemma preflight_result:
  "preflight m s = (if mc_docker_found m \<and> mc_docker_runs m \<and> mc_venv_exists m \<and> mc_node_modules_exists m
     then (Inr (), s) else (Inl system_exit, s))"
  by (simp add: preflight_def check_docker_def bnd_def die_def throw_def ret_def)

definition startup :: "machine \<Rightarrow> unit launch" where
  "startup m = bnd (preflight m) (\<lambda>_. start_infra_and_migrate m)"

lemma startup_result:
  "prepared m \<Longrightarrow> startup m s = (Inr (), s @ [Ran compose_up, Ran (upgrade_cmd m)])"
  "startup m s = (Inr u, t) \<Longrightarrow> prepared m \<and> t = s @ [Ran compose_up, Ran (upgrade_cmd m)]"
  "startup m s = (Inl e, t) \<Longrightarrow> \<exists>rs. t = s @ map Ran rs"
proof -
  show "prepared m \<Longrightarrow> startup m s = (Inr (), s @ [Ran compose_up, Ran (upgrade_cmd m)])"
    by (simp add: startup_def prepared_def bnd_def preflight_result start_infra_and_migrate_def must_run_result wait_port_result)
  show "startup m s = (Inr u, t) \<Longrightarrow> prepared m \<and> t = s @ [Ran compose_up, Ran (upgrade_cmd m)]"
    using infra_result [of m s u t] by (auto simp: startup_def prepared_def bnd_def preflight_result split: if_splits)
  assume "startup m s = (Inl e, t)"
  then have "t \<in> {s @ map Ran [], s @ map Ran [compose_up], s @ map Ran [compose_up, upgrade_cmd m]}"
    by (auto simp: startup_def bnd_def preflight_result start_infra_and_migrate_def must_run_result wait_port_result split: option.splits if_splits)
  then show "\<exists>rs. t = s @ map Ran rs" by blast
qed

definition supervise :: "nat \<Rightarrow> machine \<Rightarrow> bool \<Rightarrow> bool launch" where
  "supervise fuel m no_web =
     bnd (spawn_all m (children m no_web)) (\<lambda>_.
     bnd (press m Pumping) (\<lambda>_.
     bnd (watch fuel m 0 (map fst (children m no_web))) (\<lambda>stopped.
     case stopped of
       None \<Rightarrow> ret False
     | Some t \<Rightarrow> bnd (reap m t (map fst (children m no_web))) (\<lambda>_. ret True))))"

lemma run_all_parts: "run_all fuel m no_web = bnd (startup m) (\<lambda>_. supervise fuel m no_web)"
  by (rule ext) (simp add: run_all_def startup_def supervise_def bnd_def split: prod.split sum.split)

section \<open>Watching\<close>

text \<open>Ctrl+C is pressed in the watch loop only.\<close>

definition loop_only :: "machine \<Rightarrow> bool" where
  "loop_only m \<longleftrightarrow> (\<forall>x. mc_interrupt m x \<longrightarrow> (\<exists>k. x = Second k))"

lemma loop_only_press:
  assumes "loop_only m"
  shows "press m (Starting n) = ret ()" "press m Pumping = ret ()" "press m (Stopping n) = ret ()" "press m (Waiting n) = ret ()"
  using assms by (auto simp: loop_only_def press_def)

lemma spawn_all_result:
  assumes "loop_only m"
  shows "spawn_all m cs s =
     (let ok = takeWhile (\<lambda>c. mc_spawns m (fst c)) cs; t = s @ map (\<lambda>c. Spawned (fst c) (snd c)) ok
      in (if length ok = length cs then Inr () else Inl file_not_found, t))"
  by (induction cs arbitrary: s)
    (auto simp: spawn_def loop_only_press [OF assms] bnd_def throw_def ret_def record_step_def change_def Let_def)

lemma shutdown_result:
  "loop_only m \<Longrightarrow> shutdown m t names s = (Inr (), s @ map Signalled (filter (\<lambda>n. \<not> ended_by m t n) names))"
  by (induction names arbitrary: s) (simp_all add: kill_def loop_only_press bnd_def ret_def record_step_def change_def)

lemma reap_result:
  assumes "loop_only m" and "\<forall>n \<in> set names. ended_by m t n \<or> Signalled n \<in> set s"
  shows "reap m t names s = (Inr (), s @ map Signalled (filter (\<lambda>n. \<not> ended_by m t n \<and> \<not> mc_obeys m n) names))"
  using assms(2)
proof (induction names arbitrary: s)
  case (Cons a names)
  have "reap m t names s' = (Inr (), s' @ map Signalled (filter (\<lambda>n. \<not> ended_by m t n \<and> \<not> mc_obeys m n) names))"
    if "s' = s \<or> s' = s @ [Signalled a]" for s'
    by (rule Cons.IH) (use Cons.prems that in auto)
  then show ?case
    using Cons.prems by (auto simp: kill_def loop_only_press [OF assms(1)] bnd_def ret_def look_def record_step_def change_def)
qed (simp add: ret_def)

lemma count_signalled: "n \<in> set ns \<Longrightarrow> P n \<Longrightarrow> count_list (map Signalled (filter P ns)) (Signalled n) \<ge> 1"
  by (induction ns) auto

lemma watch_result:
  assumes l: "loop_only m" and "t \<le> k" and "k < t + n" and "list_ex (ended_by m k) names \<or> mc_interrupt m (Second k)"
  shows "\<exists>u \<le> k. watch n m t names s = (Inr (Some u), s @ map Signalled (filter (\<lambda>x. \<not> ended_by m u x) names))"
  using assms(2-)
proof (induction n arbitrary: t)
  case (Suc n)
  show ?case
  proof (cases "list_ex (ended_by m t) names \<or> mc_interrupt m (Second t)")
    case True
    with Suc.prems(1) show ?thesis by (intro exI [of _ t]) (auto simp: bnd_def try_with_def shutdown_result [OF l] ret_def)
  next
    case False
    then have "t \<noteq> k" using Suc.prems(3) by auto
    with Suc.prems have "Suc t \<le> k" "k < Suc t + n" by simp_all
    from Suc.IH [OF this Suc.prems(3)] False show ?thesis by simp
  qed
qed simp

section \<open>What the launcher promises\<close>

text \<open>A run only adds to the record.\<close>

definition appends :: "'a launch \<Rightarrow> bool" where
  "appends f \<longleftrightarrow> (\<forall>s. \<exists>xs. snd (f s) = s @ xs)"

lemma appends_bnd:
  assumes "appends f" and "\<And>a. appends (g a)"
  shows "appends (bnd f g)"
  unfolding appends_def
proof
  fix s
  obtain r t where f: "f s = (r, t)" by (cases "f s")
  then obtain xs where t: "t = s @ xs" using assms(1) unfolding appends_def by (metis snd_conv)
  show "\<exists>ys. snd (bnd f g s) = s @ ys"
  proof (cases r)
    case (Inr a)
    obtain ys where "snd (g a t) = t @ ys" using assms(2) [of a] unfolding appends_def by blast
    then show ?thesis by (simp add: bnd_def f Inr t)
  qed (simp add: bnd_def f t)
qed

lemma appends_basic: "appends (ret a)" "appends (throw e)" "appends (look h)" "appends (record_step x)" "appends (press m y)"
  by (simp_all add: appends_def ret_def throw_def look_def record_step_def change_def press_def)

lemma appends_try:
  assumes "appends f" and "\<And>e. appends (g e)"
  shows "appends (try_with f g)"
  unfolding appends_def
proof
  fix s
  obtain r t where f: "f s = (r, t)" by (cases "f s")
  then obtain xs where t: "t = s @ xs" using assms(1) unfolding appends_def by (metis snd_conv)
  show "\<exists>ys. snd (try_with f g s) = s @ ys"
  proof (cases r)
    case (Inl e)
    obtain ys where "snd (g e t) = t @ ys" using assms(2) [of e] unfolding appends_def by blast
    then show ?thesis by (simp add: try_with_def f Inl t)
  qed (simp add: try_with_def f t)
qed

lemmas appends_intros = appends_basic appends_bnd appends_try

lemma appends_parts:
  "appends (spawn_all m cs)" "appends (shutdown m t names)" "appends (reap m t names)" "appends (watch n m t names)"
proof -
  show "appends (spawn_all m cs)" by (induction cs) (auto simp: spawn_def intro!: appends_intros)
  have kill: "appends (kill m t x)" for t x by (simp add: kill_def appends_basic)
  show shutdown: "appends (shutdown m t names)" for t by (induction names) (auto intro!: appends_intros kill)
  show "appends (reap m t names)" by (induction names) (auto intro!: appends_intros kill)
  show "appends (watch n m t names)" by (induction n arbitrary: t) (auto intro!: appends_intros shutdown)
qed

lemma appends_supervise: "appends (supervise fuel m no_web)"
  unfolding supervise_def by (auto intro!: appends_intros appends_parts split: option.split)

lemma startup_only_runs: "Spawned n c \<notin> set (snd (startup m []))"
proof (cases "startup m []")
  case (Pair r t)
  then show ?thesis using startup_result(2,3) [of m "[]"] by (cases r) auto
qed

text \<open>
  nothing starts on an unprepared machine. If the launcher has started any child, then Docker was there and running, environment and
  node modules existed, \<^verbatim>\<open>docker compose up\<close> and \<^verbatim>\<open>alembic upgrade head\<close> were the first things it ran, in this order and both with
  success, and both ports had answered; whatever happens later.
\<close>

theorem starts_only_when_migrated:
  assumes "run_all fuel m no_web [] = (r, steps)" and "Spawned name c \<in> set steps"
  shows "prepared m \<and> (\<exists>rest. steps = [Ran compose_up, Ran (upgrade_cmd m)] @ rest)"
proof (cases "startup m []")
  case (Pair q t)
  show ?thesis
  proof (cases q)
    case (Inl e)
    then have "steps = t" using assms(1) Pair by (simp add: run_all_parts bnd_def)
    then show ?thesis using assms(2) startup_only_runs [of name c m] Pair by simp
  next
    case (Inr u)
    then have t: "prepared m" "t = [Ran compose_up, Ran (upgrade_cmd m)]" using startup_result(2) [of m "[]" u t] Pair by simp_all
    have "\<exists>rest. snd (supervise fuel m no_web t) = t @ rest" using appends_supervise unfolding appends_def by blast
    moreover have "steps = snd (supervise fuel m no_web t)" using assms(1) Pair Inr by (simp add: run_all_parts bnd_def)
    ultimately show ?thesis using t by simp
  qed
qed

text \<open>
  C40: one down, all down. On a prepared machine on which every child can be started, and if Ctrl+C is pressed in the watch loop only
  (not while children are being started, stopped or awaited), as soon as a child ends or Ctrl+C is pressed, the launcher stops and
  returns, and every child has ended or got a signal; a child that does not obey gets a second one.
\<close>

theorem one_down_all_down:
  assumes prepared: "prepared m" and spawns: "\<forall>c \<in> set (children m no_web). mc_spawns m (fst c)"
    and interrupts: "loop_only m"
    and event: "list_ex (ended_by m k) (map fst (children m no_web)) \<or> mc_interrupt m (Second k)" "k < fuel"
  shows "\<exists>t steps. t \<le> k \<and> run_all fuel m no_web [] = (Inr True, steps)
     \<and> (\<forall>name \<in> fst ` set (children m no_web). ended_by m t name \<or> Signalled name \<in> set steps)
     \<and> (\<forall>name \<in> fst ` set (children m no_web). ended_by m t name \<or> mc_obeys m name \<or> count_list steps (Signalled name) \<ge> 2)"
proof -
  let ?names = "map fst (children m no_web)" and ?start = "[Ran compose_up, Ran (upgrade_cmd m)]"
  let ?spawned = "map (\<lambda>c. Spawned (fst c) (snd c)) (children m no_web)"
  have spawn: "spawn_all m (children m no_web) ?start = (Inr (), ?start @ ?spawned)"
    using spawns by (simp add: spawn_all_result [OF interrupts] Let_def takeWhile_eq_all_conv [THEN iffD2])
  obtain t where t: "t \<le> k" "watch fuel m 0 ?names (?start @ ?spawned)
      = (Inr (Some t), ?start @ ?spawned @ map Signalled (filter (\<lambda>x. \<not> ended_by m t x) ?names))"
    using watch_result [OF interrupts, of 0 k fuel ?names "?start @ ?spawned"] event by auto
  let ?steps = "?start @ ?spawned @ map Signalled (filter (\<lambda>x. \<not> ended_by m t x) ?names)
      @ map Signalled (filter (\<lambda>x. \<not> ended_by m t x \<and> \<not> mc_obeys m x) ?names)"
  have "reap m t ?names (?start @ ?spawned @ map Signalled (filter (\<lambda>x. \<not> ended_by m t x) ?names)) = (Inr (), ?steps)"
    by (subst reap_result [OF interrupts]) auto
  then have run: "run_all fuel m no_web [] = (Inr True, ?steps)"
    unfolding run_all_parts using t(2) spawn loop_only_press(2) [OF interrupts]
    by (simp add: bnd_def startup_result(1) [OF prepared] supervise_def ret_def)
  have twice: "count_list ?steps (Signalled n) \<ge> 2" if "n \<in> set ?names" "\<not> ended_by m t n" "\<not> mc_obeys m n" for n
  proof -
    have "count_list (map Signalled (filter P ?names)) (Signalled n) \<ge> 1" if "P n" for P
      by (rule count_signalled [where P = P and ns = ?names, OF \<open>n \<in> set ?names\<close> that])
    from this [of "\<lambda>x. \<not> ended_by m t x"] this [of "\<lambda>x. \<not> ended_by m t x \<and> \<not> mc_obeys m x"] that(2,3)
    show ?thesis by (simp add: count_list_append)
  qed
  have once: "Signalled n \<in> set ?steps" if "n \<in> set ?names" "\<not> ended_by m t n" for n using that by auto
  have "\<forall>n \<in> set ?names. ended_by m t n \<or> Signalled n \<in> set ?steps" using once by blast
  moreover have "\<forall>n \<in> set ?names. ended_by m t n \<or> mc_obeys m n \<or> count_list ?steps (Signalled n) \<ge> 2" using twice by blast
  ultimately show ?thesis unfolding set_map by (intro exI [of _ t] exI [of _ ?steps] conjI t(1) run)
qed

text \<open>
  a child that cannot be started leaves its elder siblings behind. On a prepared machine where api and worker can be started but
  the web server cannot (no \<^verbatim>\<open>npm\<close> on the path), the launcher dies of the exception without a signal to the two that
  run in sessions of their own.
\<close>

theorem failed_spawn_leaves_children:
  assumes "prepared m" and "mc_spawns m ''api''" "mc_spawns m ''worker''" "\<not> mc_spawns m ''web''" and "loop_only m"
  shows "\<exists>a w. run_all fuel m False [] = (Inl file_not_found, [Ran compose_up, Ran (upgrade_cmd m), Spawned ''api'' a, Spawned ''worker'' w])"
proof -
  have "\<exists>a w. spawn_all m (children m False) [Ran compose_up, Ran (upgrade_cmd m)]
      = (Inl file_not_found, [Ran compose_up, Ran (upgrade_cmd m), Spawned ''api'' a, Spawned ''worker'' w])"
    using assms(2-4) loop_only_press [OF assms(5)]
    by (simp add: children_def bnd_def spawn_def throw_def ret_def record_step_def change_def)
  then show ?thesis by (auto simp: run_all_parts bnd_def startup_result(1) [OF assms(1)] supervise_def simp del: spawn_all.simps)
qed

text \<open>
  Ctrl+C at the wrong moment leaves children behind: pressed while the worker is being started, or while the children's end is
  awaited, it ends the launcher, in the first case without a signal to the running api, in the second without the second
  signal to a child that did not obey.
\<close>

lemma interrupted_start_leaves_api:
  assumes "prepared m" and "mc_spawns m ''api''" "\<not> mc_interrupt m (Starting ''api'')" "mc_interrupt m (Starting ''worker'')"
  shows "\<exists>a. run_all fuel m no_web [] = (Inl keyboard_interrupt, [Ran compose_up, Ran (upgrade_cmd m), Spawned ''api'' a])"
proof -
  have "\<exists>a. spawn_all m (children m no_web) [Ran compose_up, Ran (upgrade_cmd m)]
      = (Inl keyboard_interrupt, [Ran compose_up, Ran (upgrade_cmd m), Spawned ''api'' a])"
    using assms(2-4) by (simp add: children_def bnd_def spawn_def press_def throw_def ret_def record_step_def change_def)
  then show ?thesis by (auto simp: run_all_parts bnd_def startup_result(1) [OF assms(1)] supervise_def simp del: spawn_all.simps)
qed

lemma interrupted_wait_gives_up:
  "mc_interrupt m (Waiting name) \<Longrightarrow> reap m t (name # names) s = (Inl keyboard_interrupt, s)"
  by (simp add: press_def bnd_def throw_def)

text \<open>\<^verbatim>\<open>--no-web\<close> does not spare the check for the web client's modules.\<close>

lemma no_web_needs_node_modules:
  "\<not> mc_node_modules_exists m \<Longrightarrow> run_all fuel m True s = (Inl system_exit, s)"
  by (simp add: run_all_def bnd_def preflight_result)

section \<open>An example\<close>

definition demo_machine :: "(string \<Rightarrow> bool) \<Rightarrow> machine" where
  "demo_machine spawns =
     \<lparr>mc_windows = False, mc_docker_found = True, mc_docker_runs = True, mc_venv_exists = True, mc_node_modules_exists = True,
      mc_run = (\<lambda>_. Some 0), mc_probes = 60, mc_port_open = (\<lambda>_ k. 2 \<le> k), mc_spawns = spawns, mc_exits = (\<lambda>_. None)(''worker'' := Some 3),
      mc_interrupt = (\<lambda>_. False), mc_obeys = (\<lambda>n. n \<noteq> ''web'')\<rparr>"

lemma demo_prepared: "prepared (demo_machine spawns)"
  by (auto simp: prepared_def demo_machine_def port_answers_def intro: exI [of _ 2])

lemma demo_uninterrupted: "loop_only (demo_machine spawns)"
  by (simp add: loop_only_def demo_machine_def)

theorem one_down_all_down_witness:
  "\<exists>steps. run_all 10 (demo_machine (\<lambda>_. True)) False [] = (Inr True, steps) \<and> count_list steps (Signalled ''web'') \<ge> 2"
proof -
  let ?m = "demo_machine (\<lambda>_. True)"
  have s: "\<forall>c \<in> set (children ?m False). mc_spawns ?m (fst c)" by (simp add: demo_machine_def)
  have e: "list_ex (ended_by ?m 3) (map fst (children ?m False)) \<or> mc_interrupt ?m (Second 3)"
    by (simp add: children_def ended_by_def demo_machine_def)
  have web: "''web'' \<in> fst ` set (children ?m False)" "\<not> ended_by ?m t ''web''" "\<not> mc_obeys ?m ''web''" for t
    by (simp_all add: children_def ended_by_def demo_machine_def)
  from one_down_all_down [OF demo_prepared s demo_uninterrupted e, of 10] web show ?thesis by auto
qed

theorem starts_only_when_migrated_witness:
  "\<exists>rest. snd (run_all 0 (demo_machine (\<lambda>_. True)) True []) = [Ran compose_up, Ran (upgrade_cmd (demo_machine (\<lambda>_. True)))] @ rest"
proof -
  let ?m = "demo_machine (\<lambda>_. True)"
  let ?api = "snd (hd (children ?m True))"
  obtain w where w: "spawn_all ?m (children ?m True) [Ran compose_up, Ran (upgrade_cmd ?m)]
      = (Inr (), [Ran compose_up, Ran (upgrade_cmd ?m), Spawned ''api'' ?api, Spawned ''worker'' w])"
    by (simp add: children_def bnd_def spawn_def press_def record_step_def change_def ret_def demo_machine_def)
  have "Spawned ''api'' ?api \<in> set (snd (run_all 0 ?m True []))"
    unfolding run_all_parts bnd_def startup_result(1) [OF demo_prepared] supervise_def
    by (simp add: w ret_def bnd_def loop_only_press [OF demo_uninterrupted] del: spawn_all.simps)
  from starts_only_when_migrated [OF prod.collapse [symmetric] this] show ?thesis by blast
qed

theorem failed_spawn_leaves_children_witness:
  "\<exists>steps. run_all 10 (demo_machine (\<lambda>n. n \<noteq> ''web'')) False [] = (Inl file_not_found, steps) \<and> length steps = 4"
proof -
  let ?m = "demo_machine (\<lambda>n. n \<noteq> ''web'')"
  have "mc_spawns ?m ''api''" "mc_spawns ?m ''worker''" "\<not> mc_spawns ?m ''web''" by (simp_all add: demo_machine_def)
  from failed_spawn_leaves_children [OF demo_prepared this demo_uninterrupted] show ?thesis by fastforce
qed

end
