(* ===== verification/Task_Routing.thy ===== *)
theory Task_Routing
  imports Dev_Launcher
begin

text \<open>
  Which worker gets which task: the names of the tasks (\<^verbatim>\<open>workers/tasks/ingest.py\<close>, \<^verbatim>\<open>titles.py\<close>), the routes of
  \<^verbatim>\<open>workers/celery_app.py\<close> and the queues that the worker of \<^verbatim>\<open>src/scripts/dev.py\<close> consumes. The queue of tasks without a
  route is Celery's \<^verbatim>\<open>task_default_queue\<close>, which the program does not set (documented as \<^verbatim>\<open>celery\<close>): a parameter.
\<close>

definition task_name :: "call \<Rightarrow> string" where
  "task_name c =
     (case c of
        Stage_call st i \<Rightarrow> (case st of Parse \<Rightarrow> ''parse_document'' | Chunk \<Rightarrow> ''chunk_document'' | Embed \<Rightarrow> ''embed_chunks'')
      | Purge_call pre \<Rightarrow> ''purge_document''
      | Title_call cid \<Rightarrow> ''generate_title'')"

definition task_routes :: "(string \<times> string) list" where
  "task_routes = [(''parse_document'', ''ingest''), (''chunk_document'', ''ingest''), (''embed_chunks'', ''ingest''), (''purge_document'', ''ingest'')]"

definition queue_of :: "string \<Rightarrow> call \<Rightarrow> string" where
  "queue_of default_queue c = (case map_of task_routes (task_name c) of None \<Rightarrow> default_queue | Some q \<Rightarrow> q)"

definition consumed :: "string \<Rightarrow> string list \<Rightarrow> task_message list \<Rightarrow> task_message list" where
  \<comment> \<open>the messages that a worker of these queues will ever get\<close>
  "consumed default_queue queues ms = filter (\<lambda>m. queue_of default_queue (tm_call m) \<in> set queues) ms"

lemma queue_of_simps:
  "queue_of q (Stage_call st i) = ''ingest''" "queue_of q (Purge_call pre) = ''ingest''" "queue_of q (Title_call cid) = q"
  by (cases st) (simp_all add: queue_of_def task_name_def task_routes_def)

text \<open>
  title tasks wait for ever. Unless the default queue happens to be one of the two that the development worker consumes, it gets
  every ingestion and purge message and no title message: what the chat turn queued stays in the broker.
\<close>

theorem title_tasks_are_not_consumed:
  assumes "default_queue \<notin> set worker_queues"
  shows "consumed default_queue worker_queues ms = filter (\<lambda>m. case tm_call m of Title_call _ \<Rightarrow> False | _ \<Rightarrow> True) ms"
proof -
  have "queue_of default_queue c \<in> set worker_queues \<longleftrightarrow> (case c of Title_call _ \<Rightarrow> False | _ \<Rightarrow> True)" for c
    using assms by (cases c) (simp_all add: queue_of_simps worker_queues_def)
  then show ?thesis by (simp add: consumed_def)
qed

theorem title_tasks_are_not_consumed_witness:
  "consumed ''celery'' worker_queues [\<lparr>tm_call = Title_call 5, tm_retries = 0, tm_countdown = 0\<rparr>] = []"
proof -
  have "''celery'' \<notin> set worker_queues" by (simp add: worker_queues_def)
  from title_tasks_are_not_consumed [OF this, of "[\<lparr>tm_call = Title_call 5, tm_retries = 0, tm_countdown = 0\<rparr>]"]
  show ?thesis by simp
qed

end
