(* ===== verification/Migrations.thy ===== *)
theory Migrations
  imports Conversations
begin

text \<open>
  The database schema: the Alembic migrations (\<^verbatim>\<open>src/backend/migrations/versions\<close>) as lists of DDL operations, the ORM
  metadata (\<^verbatim>\<open>infrastructure/db/models.py\<close>) as tables, and the run of the migrations to the head of the chain
  (\<^verbatim>\<open>src/backend/migrations/env.py\<close>). An operation that PostgreSQL refuses is \<open>None\<close>: a name that is taken or missing, a
  foreign key to a column that is no key, a table that is still referenced, a vector column without the extension.
\<close>

section \<open>Schemas\<close>

text \<open>In SQL expressions a backtick stands for the single quote.\<close>

datatype col_type =
    T_uuid | T_string nat | T_char nat | T_text | T_boolean | T_integer | T_bigint | T_double
  | T_timestamptz | T_jsonb | T_vector nat | T_tsvector

record column =
  co_name :: string
  co_type :: col_type
  co_nullable :: bool
  co_default :: "string option"
  co_primary_key :: bool
  co_foreign_key :: "(string \<times> string) option" \<comment> \<open>table (its column is \<^verbatim>\<open>id\<close>) and \<^verbatim>\<open>ondelete\<close>\<close>

record table =
  tb_name :: string
  tb_columns :: "column list"
  tb_checks :: "(string \<times> string) list"
  tb_uniques :: "(string \<times> string list) list"

record index =
  in_name :: string
  in_table :: string
  in_columns :: "string list"
  in_unique :: bool
  in_where :: "string option"
  in_using :: string

record schema =
  sc_tables :: "table list"
  sc_indexes :: "index list"
  sc_extensions :: "string list"

definition primary :: "string \<Rightarrow> col_type \<Rightarrow> column" where
  "primary n t = \<lparr>co_name = n, co_type = t, co_nullable = False, co_default = None, co_primary_key = True, co_foreign_key = None\<rparr>"

definition col :: "string \<Rightarrow> col_type \<Rightarrow> bool \<Rightarrow> string option \<Rightarrow> column" where
  "col n t nullable d = \<lparr>co_name = n, co_type = t, co_nullable = nullable, co_default = d, co_primary_key = False, co_foreign_key = None\<rparr>"

definition fkey :: "string \<Rightarrow> string \<Rightarrow> string \<Rightarrow> bool \<Rightarrow> column" where
  "fkey n target ondelete nullable =
     \<lparr>co_name = n, co_type = T_uuid, co_nullable = nullable, co_default = None, co_primary_key = False,
      co_foreign_key = Some (target, ondelete)\<rparr>"

definition plain_index :: "string \<Rightarrow> string \<Rightarrow> string list \<Rightarrow> index" where
  "plain_index n t cs = \<lparr>in_name = n, in_table = t, in_columns = cs, in_unique = False, in_where = None, in_using = ''btree''\<rparr>"

definition unique_index :: "string \<Rightarrow> string \<Rightarrow> string list \<Rightarrow> index" where
  "unique_index n t cs = (plain_index n t cs)\<lparr>in_unique := True\<rparr>"

section \<open>Operations\<close>

datatype ddl =
    Create_table table
  | Drop_table string
  | Create_index index
  | Drop_index string
  | Create_extension string \<comment> \<open>\<^verbatim>\<open>if not exists\<close>\<close>

definition find_table :: "schema \<Rightarrow> string \<Rightarrow> table option" where
  "find_table s n = find (\<lambda>t. tb_name t = n) (sc_tables s)"

definition find_column :: "table \<Rightarrow> string \<Rightarrow> column option" where
  "find_column t n = find (\<lambda>c. co_name c = n) (tb_columns t)"

definition relation_names :: "schema \<Rightarrow> string list" where
  \<comment> \<open>tables and indexes share one name space, unique constraints own an index of their name\<close>
  "relation_names s =
     map tb_name (sc_tables s) @ concat (map (\<lambda>t. map fst (tb_uniques t)) (sc_tables s)) @ map in_name (sc_indexes s)"

definition references :: "table \<Rightarrow> string list" where
  "references t = List.map_filter (\<lambda>c. map_option fst (co_foreign_key c)) (tb_columns t)"

definition key_of :: "schema \<Rightarrow> string \<Rightarrow> bool" where
  "key_of s n \<longleftrightarrow>
     (case find_table s n of None \<Rightarrow> False
      | Some t \<Rightarrow> (case find_column t ''id'' of None \<Rightarrow> False | Some c \<Rightarrow> co_primary_key c))"

definition is_vector :: "col_type \<Rightarrow> bool" where
  "is_vector t = (case t of T_vector _ \<Rightarrow> True | _ \<Rightarrow> False)"

definition indexable :: "table \<Rightarrow> string \<Rightarrow> bool" where
  \<comment> \<open>a column, with \<^verbatim>\<open>desc\<close> or an operator class after a space\<close>
  "indexable t e \<longleftrightarrow> find_column t (takeWhile (\<lambda>c. c \<noteq> CHR 0x20) e) \<noteq> None"

fun apply_ddl :: "ddl \<Rightarrow> schema \<Rightarrow> schema option" where
  "apply_ddl (Create_table t) s =
     (if tb_name t \<notin> set (relation_names s) \<and> (\<forall>u \<in> set (tb_uniques t). fst u \<notin> set (relation_names s))
         \<and> distinct (map co_name (tb_columns t))
         \<and> list_all (\<lambda>n. n = tb_name t \<or> key_of s n) (references t)
         \<and> list_all (\<lambda>c. is_vector (co_type c) \<longrightarrow> ''vector'' \<in> set (sc_extensions s)) (tb_columns t)
      then Some (s\<lparr>sc_tables := sc_tables s @ [t]\<rparr>) else None)"
| "apply_ddl (Drop_table n) s =
     (if find_table s n \<noteq> None \<and> list_all (\<lambda>t. tb_name t = n \<or> n \<notin> set (references t)) (sc_tables s)
      then Some (s\<lparr>sc_tables := filter (\<lambda>t. tb_name t \<noteq> n) (sc_tables s),
                   sc_indexes := filter (\<lambda>i. in_table i \<noteq> n) (sc_indexes s)\<rparr>) else None)"
| "apply_ddl (Create_index i) s =
     (case find_table s (in_table i) of
        None \<Rightarrow> None
      | Some t \<Rightarrow> if in_name i \<notin> set (relation_names s) \<and> list_all (indexable t) (in_columns i)
                  then Some (s\<lparr>sc_indexes := sc_indexes s @ [i]\<rparr>) else None)"
| "apply_ddl (Drop_index n) s =
     (if n \<in> set (map in_name (sc_indexes s))
      then Some (s\<lparr>sc_indexes := filter (\<lambda>i. in_name i \<noteq> n) (sc_indexes s)\<rparr>) else None)"
| "apply_ddl (Create_extension n) s =
     Some (if n \<in> set (sc_extensions s) then s else s\<lparr>sc_extensions := sc_extensions s @ [n]\<rparr>)"

fun apply_all :: "ddl list \<Rightarrow> schema \<Rightarrow> schema option" where
  "apply_all [] s = Some s"
| "apply_all (d # ds) s = (case apply_ddl d s of None \<Rightarrow> None | Some s' \<Rightarrow> apply_all ds s')"

record migration =
  mi_revision :: string
  mi_down_revision :: "string option"
  mi_upgrade :: "ddl list"
  mi_downgrade :: "ddl list"

section \<open>The versions\<close>

definition EMBEDDING_DIM :: nat where "EMBEDDING_DIM = 1024"

abbreviation now_default :: "string option" where "now_default \<equiv> Some ''now()''"
abbreviation empty_jsonb :: "string option" where "empty_jsonb \<equiv> Some ''`{}`::jsonb''"

definition v0001_baseline :: migration where
  "v0001_baseline = \<lparr>mi_revision = ''0001_baseline'', mi_down_revision = None, mi_upgrade = [], mi_downgrade = []\<rparr>"

definition v0002_upgrade :: "ddl list" where
  "v0002_upgrade =
     [Create_table \<lparr>tb_name = ''users'',
        tb_columns =
          [primary ''id'' T_uuid,
           col ''email'' (T_string 255) False None,
           col ''password_hash'' (T_string 255) False None,
           col ''role'' (T_string 16) False (Some ''`user`''),
           col ''is_active'' T_boolean False (Some ''true''),
           col ''created_at'' T_timestamptz False now_default,
           col ''updated_at'' T_timestamptz False now_default],
        tb_checks = [(''ck_users_role'', ''role in (`user`,`admin`)'')], tb_uniques = []\<rparr>,
      Create_index (unique_index ''ux_users_email'' ''users'' [''email'']),
      Create_table \<lparr>tb_name = ''refresh_tokens'',
        tb_columns =
          [primary ''id'' T_uuid,
           fkey ''user_id'' ''users'' ''CASCADE'' False,
           col ''family_id'' T_uuid False None,
           col ''token_hash'' (T_char 64) False None,
           col ''expires_at'' T_timestamptz False None,
           col ''revoked_at'' T_timestamptz True None,
           col ''replaced_by'' T_uuid True None,
           col ''user_agent'' (T_string 255) True None,
           col ''created_at'' T_timestamptz False now_default],
        tb_checks = [], tb_uniques = []\<rparr>,
      Create_index (unique_index ''ux_refresh_tokens_hash'' ''refresh_tokens'' [''token_hash'']),
      Create_index (plain_index ''ix_refresh_tokens_user'' ''refresh_tokens'' [''user_id'']),
      Create_index (plain_index ''ix_refresh_tokens_family'' ''refresh_tokens'' [''family_id''])]"

definition v0002_downgrade :: "ddl list" where
  "v0002_downgrade =
     [Drop_index ''ix_refresh_tokens_family'', Drop_index ''ix_refresh_tokens_user'', Drop_index ''ux_refresh_tokens_hash'',
      Drop_table ''refresh_tokens'', Drop_index ''ux_users_email'', Drop_table ''users'']"

definition v0002_users_auth :: migration where
  "v0002_users_auth = \<lparr>mi_revision = ''0002_users_auth'', mi_down_revision = Some ''0001_baseline'',
     mi_upgrade = v0002_upgrade, mi_downgrade = v0002_downgrade\<rparr>"

definition v0003_upgrade :: "ddl list" where
  "v0003_upgrade =
     [Create_table \<lparr>tb_name = ''conversations'',
        tb_columns =
          [primary ''id'' T_uuid,
           fkey ''user_id'' ''users'' ''CASCADE'' False,
           col ''title'' (T_string 200) True None,
           col ''channel'' (T_string 16) False (Some ''`web`''),
           col ''model_alias'' (T_string 64) False None,
           col ''created_at'' T_timestamptz False now_default,
           col ''updated_at'' T_timestamptz False now_default],
        tb_checks = [], tb_uniques = []\<rparr>,
      Create_index (plain_index ''ix_conversations_user_updated'' ''conversations'' [''user_id'', ''updated_at desc'', ''id desc'']),
      Create_table \<lparr>tb_name = ''messages'',
        tb_columns =
          [primary ''id'' T_uuid,
           fkey ''conversation_id'' ''conversations'' ''CASCADE'' False,
           col ''role'' (T_string 16) False None,
           col ''content'' T_text False None,
           col ''content_meta'' T_jsonb False empty_jsonb,
           col ''client_message_id'' T_uuid True None,
           col ''provider'' (T_string 32) True None,
           col ''model'' (T_string 64) True None,
           col ''tokens_in'' T_integer True None,
           col ''tokens_out'' T_integer True None,
           col ''latency_ms'' T_integer True None,
           col ''created_at'' T_timestamptz False now_default],
        tb_checks = [(''ck_messages_role'', ''role in (`system`,`user`,`assistant`,`tool`)'')], tb_uniques = []\<rparr>,
      Create_index (plain_index ''ix_messages_conv_created'' ''messages'' [''conversation_id'', ''created_at'', ''id'']),
      Create_index ((unique_index ''ux_messages_client_id'' ''messages'' [''conversation_id'', ''client_message_id''])
        \<lparr>in_where := Some ''client_message_id is not null''\<rparr>)]"

definition v0003_downgrade :: "ddl list" where
  "v0003_downgrade =
     [Drop_index ''ux_messages_client_id'', Drop_index ''ix_messages_conv_created'', Drop_table ''messages'',
      Drop_index ''ix_conversations_user_updated'', Drop_table ''conversations'']"

definition v0003_conversations_messages :: migration where
  "v0003_conversations_messages = \<lparr>mi_revision = ''0003_conversations_messages'', mi_down_revision = Some ''0002_users_auth'',
     mi_upgrade = v0003_upgrade, mi_downgrade = v0003_downgrade\<rparr>"

definition v0004_upgrade :: "ddl list" where
  "v0004_upgrade =
     [Create_table \<lparr>tb_name = ''model_usage_logs'',
        tb_columns =
          [primary ''id'' T_uuid,
           fkey ''user_id'' ''users'' ''SET NULL'' True,
           col ''conversation_id'' T_uuid True None,
           col ''message_id'' T_uuid True None,
           col ''channel'' (T_string 16) False (Some ''`web`''),
           col ''provider'' (T_string 32) False None,
           col ''model'' (T_string 64) False None,
           col ''tokens_in'' T_integer True None,
           col ''tokens_out'' T_integer True None,
           col ''latency_ms'' T_integer True None,
           col ''status'' (T_string 8) False None,
           col ''error_code'' (T_string 64) True None,
           col ''created_at'' T_timestamptz False now_default],
        tb_checks = [(''ck_usage_status'', ''status in (`ok`,`error`)'')], tb_uniques = []\<rparr>,
      Create_index (plain_index ''ix_usage_created'' ''model_usage_logs'' [''created_at'']),
      Create_index (plain_index ''ix_usage_user_created'' ''model_usage_logs'' [''user_id'', ''created_at''])]"

definition v0004_downgrade :: "ddl list" where
  "v0004_downgrade = [Drop_index ''ix_usage_user_created'', Drop_index ''ix_usage_created'', Drop_table ''model_usage_logs'']"

definition v0004_model_usage_logs :: migration where
  "v0004_model_usage_logs = \<lparr>mi_revision = ''0004_model_usage_logs'', mi_down_revision = Some ''0003_conversations_messages'',
     mi_upgrade = v0004_upgrade, mi_downgrade = v0004_downgrade\<rparr>"

definition v0005_upgrade :: "ddl list" where
  "v0005_upgrade =
     [Create_extension ''vector'',
      Create_table \<lparr>tb_name = ''knowledge_sources'',
        tb_columns =
          [primary ''id'' T_uuid,
           fkey ''owner_id'' ''users'' ''CASCADE'' False,
           col ''name'' (T_string 100) False None,
           col ''type'' (T_string 16) False None,
           col ''config'' T_jsonb False empty_jsonb,
           col ''enabled'' T_boolean False (Some ''true''),
           col ''created_at'' T_timestamptz False now_default,
           col ''updated_at'' T_timestamptz False now_default],
        tb_checks = [(''ck_sources_type'', ''type in (`upload`)'')], tb_uniques = []\<rparr>,
      Create_index (plain_index ''ix_sources_owner'' ''knowledge_sources'' [''owner_id'']),
      Create_index ((unique_index ''ux_sources_owner_default'' ''knowledge_sources'' [''owner_id''])\<lparr>in_where := Some ''type = `upload`''\<rparr>),
      Create_table \<lparr>tb_name = ''documents'',
        tb_columns =
          [primary ''id'' T_uuid,
           fkey ''source_id'' ''knowledge_sources'' ''CASCADE'' False,
           fkey ''uploaded_by'' ''users'' ''CASCADE'' False,
           col ''filename'' (T_string 255) False None,
           col ''mime'' (T_string 100) False None,
           col ''size_bytes'' T_bigint False None,
           col ''storage_key'' (T_string 500) False None,
           col ''checksum'' (T_char 64) False None,
           col ''status'' (T_string 16) False (Some ''`pending`''),
           col ''error'' T_text True None,
           col ''meta'' T_jsonb False empty_jsonb,
           col ''created_at'' T_timestamptz False now_default,
           col ''updated_at'' T_timestamptz False now_default],
        tb_checks = [(''ck_documents_status'', ''status in (`pending`,`parsing`,`chunking`,`embedding`,`ready`,`failed`)'')],
        tb_uniques = []\<rparr>,
      Create_index (unique_index ''ux_documents_owner_checksum'' ''documents'' [''uploaded_by'', ''checksum'']),
      Create_index (plain_index ''ix_documents_source'' ''documents'' [''source_id'']),
      Create_index (plain_index ''ix_documents_status'' ''documents'' [''status'']),
      Create_table \<lparr>tb_name = ''document_chunks'',
        tb_columns =
          [primary ''id'' T_uuid,
           fkey ''document_id'' ''documents'' ''CASCADE'' False,
           col ''seq'' T_integer False None,
           col ''text'' T_text False None,
           col ''tokens'' T_integer False None,
           col ''meta'' T_jsonb False empty_jsonb,
           col ''embedding'' (T_vector EMBEDDING_DIM) True None,
           col ''embedding_version'' (T_string 32) True None,
           col ''tsv'' T_tsvector False None],
        tb_checks = [], tb_uniques = [(''ux_chunks_doc_seq'', [''document_id'', ''seq''])]\<rparr>,
      Create_index (plain_index ''ix_chunks_document'' ''document_chunks'' [''document_id'']),
      Create_index ((plain_index ''ix_chunks_embedding'' ''document_chunks'' [''embedding vector_cosine_ops''])
        \<lparr>in_using := ''hnsw (m = 16, ef_construction = 64)''\<rparr>),
      Create_index ((plain_index ''ix_chunks_tsv'' ''document_chunks'' [''tsv''])\<lparr>in_using := ''gin''\<rparr>),
      Create_table \<lparr>tb_name = ''ingestion_jobs'',
        tb_columns =
          [primary ''id'' T_uuid,
           fkey ''document_id'' ''documents'' ''CASCADE'' False,
           col ''stage'' (T_string 8) False None,
           col ''status'' (T_string 10) False None,
           col ''attempts'' T_integer False (Some ''0''),
           col ''error'' T_text True None,
           col ''started_at'' T_timestamptz True None,
           col ''finished_at'' T_timestamptz True None,
           col ''created_at'' T_timestamptz False now_default],
        tb_checks = [(''ck_jobs_stage'', ''stage in (`parse`,`chunk`,`embed`)''),
          (''ck_jobs_status'', ''status in (`queued`,`running`,`succeeded`,`failed`)'')],
        tb_uniques = [(''ux_jobs_doc_stage'', [''document_id'', ''stage''])]\<rparr>,
      Create_table \<lparr>tb_name = ''message_citations'',
        tb_columns =
          [primary ''id'' T_uuid,
           fkey ''message_id'' ''messages'' ''CASCADE'' False,
           col ''chunk_id'' T_uuid True None,
           col ''document_id'' T_uuid True None,
           col ''filename'' (T_string 255) False None,
           col ''snippet'' T_text False None,
           col ''score'' T_double False None,
           col ''rank'' T_integer False None,
           col ''created_at'' T_timestamptz False now_default],
        tb_checks = [], tb_uniques = []\<rparr>,
      Create_index (plain_index ''ix_citations_message'' ''message_citations'' [''message_id''])]"

definition v0005_downgrade :: "ddl list" where
  \<comment> \<open>the extension stays: other tables may use it\<close>
  "v0005_downgrade =
     [Drop_table ''message_citations'', Drop_table ''ingestion_jobs'', Drop_table ''document_chunks'', Drop_table ''documents'',
      Drop_table ''knowledge_sources'']"

definition v0005_phase2 :: migration where
  "v0005_phase2 = \<lparr>mi_revision = ''0005_phase2'', mi_down_revision = Some ''0004_model_usage_logs'',
     mi_upgrade = v0005_upgrade, mi_downgrade = v0005_downgrade\<rparr>"

definition versions :: "migration list" where
  \<comment> \<open>the directory, in no particular order\<close>
  "versions = [v0003_conversations_messages, v0005_phase2, v0001_baseline, v0004_model_usage_logs, v0002_users_auth]"

section \<open>Running them\<close>

text \<open>The database's revision and schema; the run to the head is one transaction, so its failure changes nothing.\<close>

type_synonym migrated = "string option \<times> schema"

definition next_version :: "migration list \<Rightarrow> string option \<Rightarrow> migration option" where
  "next_version vs r = find (\<lambda>m. mi_down_revision m = r) vs"

fun upgrade_steps :: "nat \<Rightarrow> migration list \<Rightarrow> migrated \<Rightarrow> migrated option" where
  "upgrade_steps 0 vs d = Some d"
| "upgrade_steps (Suc n) vs (r, s) =
     (case next_version vs r of
        None \<Rightarrow> Some (r, s)
      | Some m \<Rightarrow> (case apply_all (mi_upgrade m) s of None \<Rightarrow> None | Some s' \<Rightarrow> upgrade_steps n vs (Some (mi_revision m), s')))"

definition upgrade_head :: "migration list \<Rightarrow> migrated \<Rightarrow> migrated option" where
  "upgrade_head vs d = upgrade_steps (length vs) vs d"

definition run_migrations :: "migration list \<Rightarrow> migrated \<Rightarrow> migrated" where
  "run_migrations vs d = (case upgrade_head vs d of None \<Rightarrow> d | Some d' \<Rightarrow> d')"

definition downgrade_one :: "migration list \<Rightarrow> migrated \<Rightarrow> migrated option" where
  "downgrade_one vs d =
     (case find (\<lambda>m. Some (mi_revision m) = fst d) vs of
        None \<Rightarrow> None
      | Some m \<Rightarrow> map_option (\<lambda>s. (mi_down_revision m, s)) (apply_all (mi_downgrade m) (snd d)))"

definition empty_schema :: schema where
  "empty_schema = \<lparr>sc_tables = [], sc_indexes = [], sc_extensions = []\<rparr>"

section \<open>The ORM metadata\<close>

text \<open>A column without explicit type takes the one of its annotation, \<^verbatim>\<open>index=True\<close> makes the index \<^verbatim>\<open>ix_table_column\<close>.\<close>

definition timestamps :: "column list" where
  \<comment> \<open>\<^verbatim>\<open>TimestampMixin\<close>\<close>
  "timestamps = [col ''created_at'' T_timestamptz False now_default, col ''updated_at'' T_timestamptz False now_default]"

definition User_table :: table where
  "User_table = \<lparr>tb_name = ''users'',
     tb_columns = timestamps @
       [primary ''id'' T_uuid, col ''email'' (T_string 255) False None, col ''password_hash'' (T_string 255) False None,
        col ''role'' (T_string 16) False (Some ''`user`''), col ''is_active'' T_boolean False (Some ''true'')],
     tb_checks = [(''ck_users_role'', ''role in (`user`,`admin`)'')], tb_uniques = []\<rparr>"

definition Conversation_table :: table where
  "Conversation_table = \<lparr>tb_name = ''conversations'',
     tb_columns = timestamps @
       [primary ''id'' T_uuid, fkey ''user_id'' ''users'' ''CASCADE'' False, col ''title'' (T_string 200) True None,
        col ''channel'' (T_string 16) False (Some ''`web`''), col ''model_alias'' (T_string 64) False None],
     tb_checks = [], tb_uniques = []\<rparr>"

definition Message_table :: table where
  "Message_table = \<lparr>tb_name = ''messages'',
     tb_columns =
       [primary ''id'' T_uuid, fkey ''conversation_id'' ''conversations'' ''CASCADE'' False, col ''role'' (T_string 16) False None,
        col ''content'' T_text False None, col ''content_meta'' T_jsonb False empty_jsonb, col ''client_message_id'' T_uuid True None,
        col ''provider'' (T_string 32) True None, col ''model'' (T_string 64) True None, col ''tokens_in'' T_integer True None,
        col ''tokens_out'' T_integer True None, col ''latency_ms'' T_integer True None, col ''created_at'' T_timestamptz False now_default],
     tb_checks = [(''ck_messages_role'', ''role in (`system`,`user`,`assistant`,`tool`)'')], tb_uniques = []\<rparr>"

definition RefreshToken_table :: table where
  "RefreshToken_table = \<lparr>tb_name = ''refresh_tokens'',
     tb_columns =
       [primary ''id'' T_uuid, fkey ''user_id'' ''users'' ''CASCADE'' False, col ''family_id'' T_uuid False None,
        col ''token_hash'' (T_string 64) False None, col ''expires_at'' T_timestamptz False None, col ''revoked_at'' T_timestamptz True None,
        col ''replaced_by'' T_uuid True None, col ''user_agent'' (T_string 255) True None, col ''created_at'' T_timestamptz False now_default],
     tb_checks = [], tb_uniques = [([], [''token_hash''])]\<rparr>"

definition ModelUsageLog_table :: table where
  "ModelUsageLog_table = \<lparr>tb_name = ''model_usage_logs'',
     tb_columns =
       [primary ''id'' T_uuid, fkey ''user_id'' ''users'' ''SET NULL'' True, col ''conversation_id'' T_uuid True None,
        col ''message_id'' T_uuid True None, col ''channel'' (T_string 16) False (Some ''`web`''), col ''provider'' (T_string 32) False None,
        col ''model'' (T_string 64) False None, col ''tokens_in'' T_integer True None, col ''tokens_out'' T_integer True None,
        col ''latency_ms'' T_integer True None, col ''status'' (T_string 8) False None, col ''error_code'' (T_string 64) True None,
        col ''created_at'' T_timestamptz False now_default],
     tb_checks = [(''ck_usage_status'', ''status in (`ok`,`error`)'')], tb_uniques = []\<rparr>"

definition KnowledgeSource_table :: table where
  "KnowledgeSource_table = \<lparr>tb_name = ''knowledge_sources'',
     tb_columns = timestamps @
       [primary ''id'' T_uuid, fkey ''owner_id'' ''users'' ''CASCADE'' False, col ''name'' (T_string 100) False None,
        col ''type'' (T_string 16) False None, col ''config'' T_jsonb False empty_jsonb, col ''enabled'' T_boolean False (Some ''true'')],
     tb_checks = [(''ck_sources_type'', ''type in (`upload`)'')], tb_uniques = []\<rparr>"

definition Document_table :: table where
  "Document_table = \<lparr>tb_name = ''documents'',
     tb_columns = timestamps @
       [primary ''id'' T_uuid, fkey ''source_id'' ''knowledge_sources'' ''CASCADE'' False, fkey ''uploaded_by'' ''users'' ''CASCADE'' False,
        col ''filename'' (T_string 255) False None, col ''mime'' (T_string 100) False None, col ''size_bytes'' T_bigint False None,
        col ''storage_key'' (T_string 500) False None, col ''checksum'' (T_string 64) False None,
        col ''status'' (T_string 16) False (Some ''`pending`''), col ''error'' T_text True None, col ''meta'' T_jsonb False empty_jsonb],
     tb_checks = [(''ck_documents_status'', ''status in (`pending`,`parsing`,`chunking`,`embedding`,`ready`,`failed`)'')],
     tb_uniques = []\<rparr>"

definition DocumentChunk_table :: table where
  "DocumentChunk_table = \<lparr>tb_name = ''document_chunks'',
     tb_columns =
       [primary ''id'' T_uuid, fkey ''document_id'' ''documents'' ''CASCADE'' False, col ''seq'' T_integer False None,
        col ''text'' T_text False None, col ''tokens'' T_integer False None, col ''meta'' T_jsonb False empty_jsonb,
        col ''embedding'' (T_vector EMBEDDING_DIM) True None, col ''embedding_version'' (T_string 32) True None,
        col ''tsv'' T_tsvector False None],
     tb_checks = [], tb_uniques = []\<rparr>"

definition IngestionJob_table :: table where
  "IngestionJob_table = \<lparr>tb_name = ''ingestion_jobs'',
     tb_columns =
       [primary ''id'' T_uuid, fkey ''document_id'' ''documents'' ''CASCADE'' False, col ''stage'' (T_string 8) False None,
        col ''status'' (T_string 10) False None, col ''attempts'' T_integer False (Some ''0''), col ''error'' T_text True None,
        col ''started_at'' T_timestamptz True None, col ''finished_at'' T_timestamptz True None, col ''created_at'' T_timestamptz False now_default],
     tb_checks = [(''ck_jobs_stage'', ''stage in (`parse`,`chunk`,`embed`)''),
       (''ck_jobs_status'', ''status in (`queued`,`running`,`succeeded`,`failed`)'')], tb_uniques = []\<rparr>"

definition MessageCitation_table :: table where
  "MessageCitation_table = \<lparr>tb_name = ''message_citations'',
     tb_columns =
       [primary ''id'' T_uuid, fkey ''message_id'' ''messages'' ''CASCADE'' False, col ''chunk_id'' T_uuid True None,
        col ''document_id'' T_uuid True None, col ''filename'' (T_string 255) False None, col ''snippet'' T_text False None,
        col ''score'' T_double False None, col ''rank'' T_integer False None, col ''created_at'' T_timestamptz False now_default],
     tb_checks = [], tb_uniques = []\<rparr>"

definition model_tables :: "table list" where
  "model_tables =
     [User_table, Conversation_table, Message_table, RefreshToken_table, ModelUsageLog_table, KnowledgeSource_table, Document_table,
      DocumentChunk_table, IngestionJob_table, MessageCitation_table]"

definition model_indexes :: "index list" where
  "model_indexes =
     [unique_index ''ux_users_email'' ''users'' [''email''],
      plain_index ''ix_messages_conv_created'' ''messages'' [''conversation_id'', ''created_at'', ''id''],
      (unique_index ''ux_messages_client_id'' ''messages'' [''conversation_id'', ''client_message_id''])
        \<lparr>in_where := Some ''client_message_id is not null''\<rparr>,
      plain_index ''ix_refresh_tokens_user_id'' ''refresh_tokens'' [''user_id''],
      plain_index ''ix_refresh_tokens_family_id'' ''refresh_tokens'' [''family_id''],
      plain_index ''ix_model_usage_logs_created_at'' ''model_usage_logs'' [''created_at''],
      plain_index ''ix_usage_user_created'' ''model_usage_logs'' [''user_id'', ''created_at''],
      plain_index ''ix_sources_owner'' ''knowledge_sources'' [''owner_id''],
      unique_index ''ux_documents_owner_checksum'' ''documents'' [''uploaded_by'', ''checksum''],
      plain_index ''ix_documents_source'' ''documents'' [''source_id''],
      plain_index ''ix_documents_status'' ''documents'' [''status''],
      unique_index ''ux_chunks_doc_seq'' ''document_chunks'' [''document_id'', ''seq''],
      plain_index ''ix_chunks_document'' ''document_chunks'' [''document_id''],
      unique_index ''ux_jobs_doc_stage'' ''ingestion_jobs'' [''document_id'', ''stage''],
      plain_index ''ix_citations_message'' ''message_citations'' [''message_id'']]"

definition metadata :: schema where
  "metadata = \<lparr>sc_tables = model_tables, sc_indexes = model_indexes, sc_extensions = []\<rparr>"

section \<open>Migrations against metadata\<close>

text \<open>
  Where a table of the metadata and the table of the same name differ: the model's columns whose migrated column is missing or another
  (type, nullability, default or key), the migrated columns the model lacks, and whether the checks differ.
\<close>

definition changed_columns :: "table \<Rightarrow> table \<Rightarrow> (column \<times> column option) list" where
  "changed_columns t u =
     filter (\<lambda>(c, c'). c' \<noteq> Some c) (map (\<lambda>c. (c, find_column u (co_name c))) (tb_columns t))"

definition table_differences :: "schema \<Rightarrow> table \<Rightarrow> (column \<times> column option) list \<times> column list \<times> bool" where
  "table_differences s t =
     (case find_table s (tb_name t) of
        None \<Rightarrow> (map (\<lambda>c. (c, None)) (tb_columns t), [], True)
      | Some u \<Rightarrow> (changed_columns t u, filter (\<lambda>c. find_column t (co_name c) = None) (tb_columns u), tb_checks t \<noteq> tb_checks u))"

text \<open>The indexes of a schema without their names; a unique constraint is a unique index.\<close>

definition index_shapes :: "schema \<Rightarrow> (string \<times> string list \<times> bool \<times> string option \<times> string) list" where
  "index_shapes s =
     map (\<lambda>i. (in_table i, in_columns i, in_unique i, in_where i, in_using i)) (sc_indexes s)
     @ concat (map (\<lambda>t. map (\<lambda>u. (tb_name t, snd u, True, None, ''btree'')) (tb_uniques t)) (sc_tables s))"

definition migration_only :: "(string \<times> string list \<times> bool \<times> string option \<times> string) list" where
  \<comment> \<open>the indexes that the comments of \<^verbatim>\<open>models.py\<close> leave to the migrations\<close>
  "migration_only =
     [(''conversations'', [''user_id'', ''updated_at desc'', ''id desc''], False, None, ''btree''),
      (''knowledge_sources'', [''owner_id''], True, Some ''type = `upload`'', ''btree''),
      (''document_chunks'', [''embedding vector_cosine_ops''], False, None, ''hnsw (m = 16, ef_construction = 64)''),
      (''document_chunks'', [''tsv''], False, None, ''gin'')]"

definition head_schema :: schema where
  "head_schema = snd (run_migrations versions (None, empty_schema))"

lemma head_run: "upgrade_head versions (None, empty_schema) = Some (Some ''0005_phase2'', head_schema)"
  by code_simp

text \<open>
  The models against the head of the migrations: the same tables; two columns, a token's hash and a document's
  checksum, are \<^verbatim>\<open>String(64)\<close> in the models and \<^verbatim>\<open>CHAR(64)\<close> in the database, all others and the checks are the same; and the
  indexes agree but for their names and the four that the comments leave to the migrations.
\<close>

lemma head_names: "length (sc_tables head_schema) = length (sc_tables metadata) \<and> distinct (map tb_name (sc_tables head_schema))"
  by code_simp

lemma head_columns_differ:
  "map (\<lambda>t. (tb_name t, table_differences head_schema t))
       (filter (\<lambda>t. table_differences head_schema t \<noteq> ([], [], False)) (sc_tables metadata))
   = [(''refresh_tokens'', [(col ''token_hash'' (T_string 64) False None, Some (col ''token_hash'' (T_char 64) False None))], [], False),
      (''documents'', [(col ''checksum'' (T_string 64) False None, Some (col ''checksum'' (T_char 64) False None))], [], False)]"
  by code_simp

lemma head_indexes: "set (index_shapes head_schema) = set (index_shapes metadata @ migration_only)"
  by code_simp

section \<open>Going back\<close>

text \<open>In a schema without dangling references every foreign key and every index belongs to a table that exists.\<close>

definition wf_schema :: "schema \<Rightarrow> bool" where
  "wf_schema s \<longleftrightarrow> (\<forall>t \<in> set (sc_tables s). set (references t) \<subseteq> tb_name ` set (sc_tables s))
     \<and> (\<forall>i \<in> set (sc_indexes s). in_table i \<in> tb_name ` set (sc_tables s))"

definition with_table :: "table \<Rightarrow> index list \<Rightarrow> schema \<Rightarrow> schema" where
  "with_table t is s = s\<lparr>sc_tables := sc_tables s @ [t], sc_indexes := sc_indexes s @ is\<rparr>"

lemma find_table_name: "find_table s n = Some t \<Longrightarrow> t \<in> set (sc_tables s) \<and> tb_name t = n"
  by (auto simp: find_table_def find_Some_iff)

lemma create_indexes:
  "apply_all (map Create_index is) s = Some s' \<Longrightarrow>
     s' = s\<lparr>sc_indexes := sc_indexes s @ is\<rparr> \<and> set (map in_name is) \<inter> set (relation_names s) = {} \<and> distinct (map in_name is)"
proof (induction "is" arbitrary: s)
  case (Cons i "is")
  from Cons.prems have fresh: "in_name i \<notin> set (relation_names s)"
    and rest: "apply_all (map Create_index is) (s\<lparr>sc_indexes := sc_indexes s @ [i]\<rparr>) = Some s'"
    by (auto split: option.splits if_splits)
  from Cons.IH [OF rest] fresh show ?case by (auto simp: relation_names_def)
qed simp

lemma create_block:
  assumes run: "apply_all (Create_table t # map Create_index is) s = Some s'" and wf: "wf_schema s"
    and "is": "\<forall>i \<in> set is. in_table i = tb_name t"
  shows "s' = with_table t is s" and "wf_schema s'" and "tb_name t \<notin> tb_name ` set (sc_tables s)"
    and "set (map in_name is) \<inter> in_name ` set (sc_indexes s) = {}" and "distinct (map in_name is)"
proof -
  let ?s = "s\<lparr>sc_tables := sc_tables s @ [t]\<rparr>"
  from run have fresh: "tb_name t \<notin> set (relation_names s)"
    and refs: "list_all (\<lambda>n. n = tb_name t \<or> key_of s n) (references t)"
    and rest: "apply_all (map Create_index is) ?s = Some s'"
    by (auto split: option.splits if_splits)
  from create_indexes [OF rest] have s': "s' = with_table t is s"
    and names: "set (map in_name is) \<inter> set (relation_names ?s) = {}" "distinct (map in_name is)"
    by (simp_all add: with_table_def)
  show "s' = with_table t is s" "distinct (map in_name is)" by (fact s' names)+
  show "set (map in_name is) \<inter> in_name ` set (sc_indexes s) = {}" using names(1) by (auto simp: relation_names_def)
  show "tb_name t \<notin> tb_name ` set (sc_tables s)" using fresh by (auto simp: relation_names_def)
  have "n \<in> tb_name ` set (sc_tables s)" if "key_of s n" for n
    using that find_table_name [of s n] by (auto simp: key_of_def split: option.splits)
  then have "set (references t) \<subseteq> tb_name ` set (sc_tables ?s)" using refs by (auto simp: list_all_iff)
  then show "wf_schema s'" using wf "is" by (auto simp: s' with_table_def wf_schema_def)
qed

lemma find_snoc: "\<forall>x \<in> set xs. \<not> P x \<Longrightarrow> P y \<Longrightarrow> find P (xs @ [y]) = Some y"
  by (induction xs) auto

lemma filter_unnamed: "n \<notin> f ` set xs \<Longrightarrow> filter (\<lambda>x. f x \<noteq> n) xs = xs"
  by (induction xs) auto

lemma drop_table_block:
  assumes wf: "wf_schema s" and fresh: "tb_name t \<notin> tb_name ` set (sc_tables s)"
    and "is": "\<forall>i \<in> set is. in_table i = tb_name t"
  shows "apply_ddl (Drop_table (tb_name t)) (with_table t is s) = Some s"
proof -
  have "find (\<lambda>u. tb_name u = tb_name t) (sc_tables s @ [t]) = Some t"
    using fresh by (intro find_snoc) (auto simp: image_iff)
  then have "find_table (with_table t is s) (tb_name t) = Some t" by (simp add: find_table_def with_table_def)
  moreover have "filter (\<lambda>u. tb_name u \<noteq> tb_name t) (sc_tables s) = sc_tables s"
    using fresh by (rule filter_unnamed)
  moreover have "in_table ` set (sc_indexes s) \<subseteq> tb_name ` set (sc_tables s)" using wf by (auto simp: wf_schema_def)
  with fresh have "tb_name t \<notin> in_table ` set (sc_indexes s)" by blast
  then have "filter (\<lambda>i. in_table i \<noteq> tb_name t) (sc_indexes s) = sc_indexes s" by (rule filter_unnamed)
  moreover have "tb_name t \<notin> set (references u)" if "u \<in> set (sc_tables s)" for u
    using that fresh wf by (auto simp: wf_schema_def)
  moreover have "filter (\<lambda>i. in_table i \<noteq> tb_name t) is = []" using "is" by (auto simp: filter_empty_conv)
  ultimately show ?thesis by (auto simp: with_table_def list_all_iff)
qed

lemma drop_indexes_block:
  "set (map in_name is) \<inter> in_name ` set (sc_indexes s) = {} \<Longrightarrow> distinct (map in_name is) \<Longrightarrow>
     apply_all (map (\<lambda>i. Drop_index (in_name i)) (rev is)) (with_table t is s) = Some (with_table t [] s)"
proof (induction "is" rule: rev_induct)
  case (snoc i "is")
  have "filter (\<lambda>x. in_name x \<noteq> in_name i) (sc_indexes s @ is) = sc_indexes s @ is"
    using snoc.prems by (intro filter_unnamed) auto
  then show ?case using snoc by (simp add: with_table_def)
qed simp

lemma apply_all_append: "apply_all (xs @ ys) s = Option.bind (apply_all xs s) (apply_all ys)"
  by (induction xs arbitrary: s) (simp_all split: option.split)

text \<open>A version's upgrade as blocks: a table and its indexes.\<close>

fun take_indexes :: "ddl list \<Rightarrow> index list" where
  "take_indexes (Create_index i # ds) = i # take_indexes ds"
| "take_indexes ds = []"

fun to_blocks :: "ddl list \<Rightarrow> (table \<times> index list) list" where
  "to_blocks [] = []"
| "to_blocks (Create_table t # ds) = (t, take_indexes ds) # to_blocks ds"
| "to_blocks (d # ds) = to_blocks ds"

definition block_up :: "table \<times> index list \<Rightarrow> ddl list" where
  "block_up b = Create_table (fst b) # map Create_index (snd b)"

definition block_down :: "bool \<Rightarrow> table \<times> index list \<Rightarrow> ddl list" where
  "block_down drops b = (if drops then map (\<lambda>i. Drop_index (in_name i)) (rev (snd b)) else []) @ [Drop_table (tb_name (fst b))]"

definition block_ok :: "table \<times> index list \<Rightarrow> bool" where
  "block_ok b \<longleftrightarrow> list_all (\<lambda>i. in_table i = tb_name (fst b)) (snd b)"

definition undone :: "ddl list \<Rightarrow> ddl list \<Rightarrow> bool" where
  "undone ups downs \<longleftrightarrow> (\<forall>s s'. wf_schema s \<longrightarrow> apply_all ups s = Some s' \<longrightarrow> wf_schema s' \<and> apply_all downs s' = Some s)"

lemma undone_block:
  assumes "block_ok b"
  shows "undone (block_up b) (block_down drops b)"
proof -
  have "wf_schema s' \<and> apply_all (block_down drops b) s' = Some s" if wf: "wf_schema s" and run: "apply_all (block_up b) s = Some s'" for s s'
  proof -
    have "is": "\<forall>i \<in> set (snd b). in_table i = tb_name (fst b)" using assms by (simp add: block_ok_def list_all_iff)
    note block = create_block [OF run [unfolded block_up_def] wf "is"]
    have drop: "apply_ddl (Drop_table (tb_name (fst b))) (with_table (fst b) js s) = Some s" if "\<forall>i \<in> set js. in_table i = tb_name (fst b)" for js
      by (rule drop_table_block [OF wf block(3) that])
    have "apply_all (map (\<lambda>i. Drop_index (in_name i)) (rev (snd b))) s' = Some (with_table (fst b) [] s)"
      unfolding block(1) by (rule drop_indexes_block [OF block(4,5)])
    then have "apply_all (block_down True b) s' = Some s"
      unfolding block_down_def apply_all_append using drop [of "[]"] by (simp del: apply_ddl.simps)
    moreover have "apply_all (block_down False b) s' = Some s"
      unfolding block_down_def block(1) using drop [OF "is"] by (simp del: apply_ddl.simps)
    ultimately show ?thesis using block(2) by (cases drops) simp_all
  qed
  then show ?thesis by (simp add: undone_def)
qed

lemma undone_append: "undone u1 d1 \<Longrightarrow> undone u2 d2 \<Longrightarrow> undone (u1 @ u2) (d2 @ d1)"
  unfolding undone_def
proof (intro allI impI)
  fix s s'
  assume u1: "\<forall>s s'. wf_schema s \<longrightarrow> apply_all u1 s = Some s' \<longrightarrow> wf_schema s' \<and> apply_all d1 s' = Some s"
    and u2: "\<forall>s s'. wf_schema s \<longrightarrow> apply_all u2 s = Some s' \<longrightarrow> wf_schema s' \<and> apply_all d2 s' = Some s"
    and wf: "wf_schema s" and run: "apply_all (u1 @ u2) s = Some s'"
  from run obtain m where m: "apply_all u1 s = Some m" "apply_all u2 m = Some s'"
    by (auto simp: apply_all_append bind_eq_Some_conv)
  have "wf_schema m \<and> apply_all d1 m = Some s" using u1 wf m(1) by blast
  moreover from this have "wf_schema s' \<and> apply_all d2 s' = Some m" using u2 m(2) by blast
  ultimately show "wf_schema s' \<and> apply_all (d2 @ d1) s' = Some s" by (simp add: apply_all_append)
qed

lemma undone_blocks:
  "list_all block_ok bs \<Longrightarrow> undone (concat (map block_up bs)) (concat (map (block_down drops) (rev bs)))"
proof (induction bs)
  case (Cons b bs)
  then show ?case by (auto intro!: undone_append undone_block)
qed (simp add: undone_def)

lemma undone_version:
  assumes "concat (map block_up (to_blocks ups)) = ups" and "list_all block_ok (to_blocks ups)"
    and "concat (map (block_down drops) (rev (to_blocks ups))) = downs"
  shows "undone ups downs"
  using undone_blocks [OF assms(2), of drops] by (simp only: assms(1,3))

lemma v0002_undone: "undone v0002_upgrade v0002_downgrade"
  by (rule undone_version [where drops = True]) code_simp+

lemma v0003_undone: "undone v0003_upgrade v0003_downgrade"
  by (rule undone_version [where drops = True]) code_simp+

lemma v0004_undone: "undone v0004_upgrade v0004_downgrade"
  by (rule undone_version [where drops = True]) code_simp+

lemma v0005_undone: "undone (tl v0005_upgrade) v0005_downgrade"
  by (rule undone_version [where drops = False]) code_simp+

lemma wf_extension: "wf_schema (s\<lparr>sc_extensions := e\<rparr>) = wf_schema s"
  by (simp add: wf_schema_def)

lemma empty_undone: "undone [] []"
  by (simp add: undone_def)

text \<open>
  C29: every step back undoes its step forth. For each version and any database without dangling references on which its upgrade
  goes through, whatever other tables it has, the downgrade goes through as well and restores the schema, indexes
  included; only the extension of the last version stays.
\<close>

theorem downgrade_undoes_upgrade:
  assumes wf: "wf_schema s" and m: "m \<in> set versions" and run: "apply_all (mi_upgrade m) s = Some s'"
  shows "\<exists>e. apply_all (mi_downgrade m) s' = Some (s\<lparr>sc_extensions := e\<rparr>)
     \<and> (e = sc_extensions s \<or> mi_revision m = ''0005_phase2'' \<and> e = sc_extensions s @ [''vector''])"
proof (cases "m = v0005_phase2")
  case True
  let ?e = "if ''vector'' \<in> set (sc_extensions s) then sc_extensions s else sc_extensions s @ [''vector'']"
  have "v0005_upgrade = Create_extension ''vector'' # tl v0005_upgrade" by (simp add: v0005_upgrade_def)
  then have up: "apply_all (tl v0005_upgrade) (s\<lparr>sc_extensions := ?e\<rparr>) = Some s'"
    using run apply_all.simps(2) [of "Create_extension ''vector''" "tl v0005_upgrade" s]
    by (auto simp: True v0005_phase2_def split: if_splits)
  have "wf_schema (s\<lparr>sc_extensions := ?e\<rparr>)" using wf by (simp only: wf_extension)
  from v0005_undone [unfolded undone_def, rule_format, OF this up]
  have "apply_all v0005_downgrade s' = Some (s\<lparr>sc_extensions := ?e\<rparr>)" by (rule conjunct2)
  then show ?thesis by (intro exI [of _ ?e]) (simp add: True v0005_phase2_def)
next
  case False
  then have "m = v0001_baseline \<or> m = v0002_users_auth \<or> m = v0003_conversations_messages \<or> m = v0004_model_usage_logs"
    using m by (auto simp: versions_def)
  then have "undone (mi_upgrade m) (mi_downgrade m)"
    using empty_undone v0002_undone v0003_undone v0004_undone
    by (auto simp: v0001_baseline_def v0002_users_auth_def v0003_conversations_messages_def v0004_model_usage_logs_def)
  then have "apply_all (mi_downgrade m) s' = Some s" using wf run unfolding undone_def by blast
  then show ?thesis by (intro exI [of _ "sc_extensions s"]) simp
qed

theorem downgrade_undoes_upgrade_witness:
  "\<exists>s e. apply_all v0002_downgrade s = Some (empty_schema\<lparr>sc_extensions := e\<rparr>) \<and> length (sc_tables s) = 2"
proof -
  have wf: "wf_schema empty_schema" by (simp add: wf_schema_def empty_schema_def)
  have m: "v0002_users_auth \<in> set versions" by (simp add: versions_def)
  obtain s where s: "apply_all v0002_upgrade empty_schema = Some s" "length (sc_tables s) = 2"
  proof -
    have "map_option (\<lambda>s. length (sc_tables s)) (apply_all v0002_upgrade empty_schema) = Some 2" by code_simp
    then show ?thesis using that by auto
  qed
  have up: "mi_upgrade v0002_users_auth = v0002_upgrade" "mi_downgrade v0002_users_auth = v0002_downgrade"
    by (simp_all add: v0002_users_auth_def)
  show ?thesis using downgrade_undoes_upgrade [OF wf m, unfolded up, OF s(1)] s(2) by blast
qed

section \<open>Rows against columns\<close>

definition fits :: "column \<Rightarrow> ustr option \<Rightarrow> bool" where
  "fits c v =
     (case v of
        None \<Rightarrow> co_nullable c
      | Some x \<Rightarrow> (case co_type c of T_string n \<Rightarrow> length x \<le> n \<and> 0 \<notin> set x | T_char n \<Rightarrow> length x \<le> n \<and> 0 \<notin> set x
                   | T_text \<Rightarrow> 0 \<notin> set x | _ \<Rightarrow> True))"

definition column_fits :: "schema \<Rightarrow> string \<Rightarrow> string \<Rightarrow> ustr option \<Rightarrow> bool" where
  "column_fits s t n v =
     (case find_table s t of None \<Rightarrow> False
      | Some t' \<Rightarrow> (case find_column t' n of None \<Rightarrow> False | Some c \<Rightarrow> fits c v))"

definition column_of :: "schema \<Rightarrow> string \<Rightarrow> string \<Rightarrow> column option" where
  "column_of s t n = Option.bind (find_table s t) (\<lambda>t'. find_column t' n)"

lemma head_columns:
  "map (\<lambda>(t, n). map_option (\<lambda>c. (co_type c, co_nullable c)) (column_of head_schema t n))
     [(''conversations'', ''title''), (''conversations'', ''model_alias''), (''messages'', ''content''), (''messages'', ''provider''),
      (''messages'', ''model''), (''message_citations'', ''filename''), (''message_citations'', ''snippet''),
      (''model_usage_logs'', ''provider''), (''model_usage_logs'', ''model''), (''model_usage_logs'', ''error_code'')]
   = [Some (T_string 200, True), Some (T_string 64, False), Some (T_text, False), Some (T_string 32, True), Some (T_string 64, True),
      Some (T_string 255, False), Some (T_text, False), Some (T_string 32, False), Some (T_string 64, False), Some (T_string 64, True)]"
  by code_simp

lemma column_fits_typed:
  "map_option (\<lambda>c. (co_type c, co_nullable c)) (column_of s t n) = Some (ty, nullable) \<Longrightarrow>
     column_fits s t n v = fits (col n ty nullable None) v"
  by (auto simp: column_fits_def column_of_def fits_def col_def bind_eq_Some_conv split: option.split)

lemma head_fits:
  "column_fits head_schema ''conversations'' ''title'' v = opt_ok (text_ok 200) v"
  "column_fits head_schema ''conversations'' ''model_alias'' (Some x) = text_ok 64 x"
  "column_fits head_schema ''messages'' ''content'' (Some x) = (0 \<notin> set x)"
  "column_fits head_schema ''messages'' ''provider'' v = opt_ok (text_ok 32) v"
  "column_fits head_schema ''messages'' ''model'' v = opt_ok (text_ok 64) v"
  "column_fits head_schema ''message_citations'' ''filename'' (Some x) = text_ok 255 x"
  "column_fits head_schema ''message_citations'' ''snippet'' (Some x) = (0 \<notin> set x)"
  "column_fits head_schema ''model_usage_logs'' ''provider'' (Some x) = text_ok 32 x"
  "column_fits head_schema ''model_usage_logs'' ''model'' (Some x) = text_ok 64 x"
  "column_fits head_schema ''model_usage_logs'' ''error_code'' v = opt_ok (text_ok 64) v"
proof -
  have fits: "fits (col n (T_string k) True None) v = opt_ok (text_ok k) v" "fits (col n (T_string k) b None) (Some x) = text_ok k x"
    "fits (col n T_text b None) (Some x) = (0 \<notin> set x)" for n k b v x
    by (simp_all add: fits_def col_def opt_ok_def text_ok_def split: option.split)
  note typed = head_columns [unfolded list.map prod.case list.inject, simplified]
  show "column_fits head_schema ''conversations'' ''title'' v = opt_ok (text_ok 200) v"
    "column_fits head_schema ''conversations'' ''model_alias'' (Some x) = text_ok 64 x"
    "column_fits head_schema ''messages'' ''content'' (Some x) = (0 \<notin> set x)"
    "column_fits head_schema ''messages'' ''provider'' v = opt_ok (text_ok 32) v"
    "column_fits head_schema ''messages'' ''model'' v = opt_ok (text_ok 64) v"
    "column_fits head_schema ''message_citations'' ''filename'' (Some x) = text_ok 255 x"
    "column_fits head_schema ''message_citations'' ''snippet'' (Some x) = (0 \<notin> set x)"
    "column_fits head_schema ''model_usage_logs'' ''provider'' (Some x) = text_ok 32 x"
    "column_fits head_schema ''model_usage_logs'' ''model'' (Some x) = text_ok 64 x"
    "column_fits head_schema ''model_usage_logs'' ''error_code'' v = opt_ok (text_ok 64) v"
    using typed by (simp_all add: column_fits_def column_of_def bind_eq_Some_conv) (auto simp: fits_def opt_ok_def text_ok_def split: option.split)
qed

text \<open>
  the rows the repositories refuse are those the migrated columns refuse. A conversation, message, citation or usage row, a
  renamed or generated title is answered with PostgreSQL's data error exactly if one of its texts does not fit the type
  of its column in the schema that the migrations build.
\<close>

theorem row_checks_are_columns:
  "(conv_create c s = Inl data_error \<longleftrightarrow> \<not> (column_fits head_schema ''conversations'' ''title'' (c_title c)
       \<and> column_fits head_schema ''conversations'' ''model_alias'' (Some (c_model_alias c))))
   \<and> (conv_rename i title now s = Inl data_error \<longleftrightarrow> \<not> column_fits head_schema ''conversations'' ''title'' (Some title))
   \<and> (conv_set_title_if_null i title now s = Inl data_error \<longleftrightarrow> \<not> column_fits head_schema ''conversations'' ''title'' (Some title))
   \<and> (message_add m s = Inl data_error \<longleftrightarrow> \<not> (column_fits head_schema ''messages'' ''content'' (Some (m_content m))
       \<and> column_fits head_schema ''messages'' ''provider'' (m_provider m) \<and> column_fits head_schema ''messages'' ''model'' (m_model m)))
   \<and> (citation_add_one ci s = Inl data_error \<longleftrightarrow> \<not> (column_fits head_schema ''message_citations'' ''filename'' (Some (ci_filename ci))
       \<and> column_fits head_schema ''message_citations'' ''snippet'' (Some (ci_snippet ci))))
   \<and> (usage_add l s = Inl data_error \<longleftrightarrow> \<not> (column_fits head_schema ''model_usage_logs'' ''provider'' (Some (ul_provider l))
       \<and> column_fits head_schema ''model_usage_logs'' ''model'' (Some (ul_model l))
       \<and> column_fits head_schema ''model_usage_logs'' ''error_code'' (ul_error_code l)))"
  unfolding head_fits
  by (auto simp: conv_create_def conv_rename_def conv_set_title_if_null_def message_add_def citation_add_one_def usage_add_def
      data_error_def opt_ok_def)

end
