(* ===== verification/Wiring.thy ===== *)
theory Wiring
  imports Retrieval Migrations
begin

text \<open>
  Settings and assembly: \<^verbatim>\<open>core/config.py\<close> with its defaults, \<^verbatim>\<open>core/wiring.py\<close> and the providers of \<^verbatim>\<open>api/deps.py\<close>, which
  hand the settings to the components. What a component takes from elsewhere (the HTTP client, redis, the database) is an argument.
\<close>

section \<open>Settings\<close>

record settings =
  st_database_url :: ustr
  st_redis_url :: ustr
  st_jwt_secret :: ustr
  st_access_token_ttl_min :: int
  st_refresh_token_ttl_days :: int
  st_cookie_secure :: bool
  st_llm_base_url :: ustr
  st_llm_api_key :: ustr
  st_llm_timeout_s :: rat
  st_chat_system_prompt :: ustr
  st_chat_history_max_messages :: nat
  st_storage_root :: ustr
  st_max_upload_mb :: nat
  st_chunk_target_tokens :: int
  st_chunk_overlap_tokens :: int
  st_embedding_base_url :: ustr
  st_embedding_api_key :: ustr
  st_embedding_model :: ustr
  st_embedding_dim :: nat
  st_embedding_version :: ustr
  st_embedding_batch_size :: nat
  st_embedding_timeout_s :: rat
  st_embedding_query_cache_ttl_s :: nat
  st_retrieval_top_k :: nat
  st_retrieval_top_n :: nat
  st_rrf_k :: nat
  st_hnsw_ef_search :: nat
  st_rag_context_char_budget :: int

definition default_settings :: "ustr \<Rightarrow> ustr \<Rightarrow> settings" where
  \<comment> \<open>the two values without a default come from the environment\<close>
  "default_settings database_url jwt_secret =
     \<lparr>st_database_url = database_url, st_redis_url = lit ''redis://localhost:6379/0'', st_jwt_secret = jwt_secret,
      st_access_token_ttl_min = 20, st_refresh_token_ttl_days = 14, st_cookie_secure = False,
      st_llm_base_url = lit ''http://localhost:11434/v1'', st_llm_api_key = lit ''ollama'', st_llm_timeout_s = 120,
      st_chat_system_prompt = [0x4F60, 0x662F, 0x4E00, 0x500B, 0x8AA0, 0x5BE6, 0x3001, 0x7CBE, 0x7C21, 0x7684, 0x4E2D, 0x6587, 0x52A9, 0x7406, 0x3002], st_chat_history_max_messages = 20,
      st_storage_root = lit ''/data/storage'', st_max_upload_mb = 20, st_chunk_target_tokens = 450, st_chunk_overlap_tokens = 80,
      st_embedding_base_url = lit ''http://localhost:11434/v1'', st_embedding_api_key = lit ''ollama'',
      st_embedding_model = lit ''bge-m3'', st_embedding_dim = 1024, st_embedding_version = lit ''bge-m3@1024'',
      st_embedding_batch_size = 32, st_embedding_timeout_s = 60, st_embedding_query_cache_ttl_s = 3600,
      st_retrieval_top_k = 30, st_retrieval_top_n = 8, st_rrf_k = 60, st_hnsw_ef_search = 60, st_rag_context_char_budget = 9000\<rparr>"

section \<open>Assembly\<close>

definition build_embedding :: "(ustr \<Rightarrow> ustr) \<Rightarrow> (nat \<Rightarrow> ustr list \<Rightarrow> wire_exn + nat \<times> ustr \<times> (int \<times> vec) list option) \<Rightarrow> settings \<Rightarrow> embedding_adapter" where
  "build_embedding lower post st =
     \<lparr>eb_dim = st_embedding_dim st, eb_batch_size = st_embedding_batch_size st, eb_lower = lower, eb_post = post\<rparr>"

definition build_retrieval :: "chunk_index \<Rightarrow> query_cache \<Rightarrow> (ustr \<Rightarrow> ustr list) \<Rightarrow> redis \<Rightarrow> embedding_adapter \<Rightarrow> settings
    \<Rightarrow> auth_context \<Rightarrow> ustr \<Rightarrow> uuid list option \<Rightarrow> nat \<Rightarrow> (sys, retrieved_chunk list) eff" where
  \<comment> \<open>the database's and redis's parts of the index and the cache with the settings' parts in place\<close>
  "build_retrieval db_index db_cache cutter redis ad st =
     retrieve (db_index\<lparr>ix_top_k := st_retrieval_top_k st, ix_rrf_k := st_rrf_k st\<rparr>) ad
       (db_cache\<lparr>qc_version := st_embedding_version st\<rparr>) cutter redis"

definition get_orchestrator :: "models_yaml \<Rightarrow> (json \<Rightarrow> ustr) \<Rightarrow> settings \<Rightarrow> chat_cfg" where
  "get_orchestrator models pstr st =
     \<lparr>cc_models = models, cc_system_prompt = st_chat_system_prompt st, cc_history_max = st_chat_history_max_messages st,
      cc_top_n = st_retrieval_top_n st, cc_char_budget = st_rag_context_char_budget st, cc_pstr = pstr, cc_llm_name = lit ''openai_compat''\<rparr>"

section \<open>Settings that fit the schema\<close>

lemma embedding_column:
  "map_option (\<lambda>c. (co_type c, co_nullable c)) (column_of head_schema ''document_chunks'' ''embedding'') = Some (T_vector 1024, True)"
  "map_option (\<lambda>c. (co_type c, co_nullable c)) (column_of head_schema ''document_chunks'' ''embedding_version'') = Some (T_string 32, True)"
  by code_simp+

text \<open>
  C34: vectors fit their column. With the default settings, whatever the embedding service answers, every vector that the assembled adapter
  returns has exactly the dimension of the column \<^verbatim>\<open>document_chunks.embedding\<close> that the migrations create, there is one per
  text, and the version stored with it fits its column; an answer of any other dimension is an error, never a row.
\<close>

theorem vectors_fit_column:
  assumes "embed_texts (build_embedding lower post (default_settings url secret)) texts = Inr vectors"
  shows "\<exists>c. column_of head_schema ''document_chunks'' ''embedding'' = Some c
     \<and> list_all (\<lambda>v. co_type c = T_vector (length v)) vectors \<and> length vectors = length texts
     \<and> column_fits head_schema ''document_chunks'' ''embedding_version'' (Some (st_embedding_version (default_settings url secret)))"
proof -
  have dim: "eb_dim (build_embedding lower post (default_settings url secret)) = 1024"
    by (simp add: build_embedding_def default_settings_def)
  have vectors: "list_all (\<lambda>v. length v = 1024) vectors"
    using openai_embedding.dimension [OF assms] by (simp add: list_all_iff dim)
  obtain c where c: "column_of head_schema ''document_chunks'' ''embedding'' = Some c" "co_type c = T_vector 1024"
    using embedding_column(1) by (auto simp del: One_nat_def)
  have "column_fits head_schema ''document_chunks'' ''embedding_version'' (Some (st_embedding_version (default_settings url secret)))"
    unfolding column_fits_typed [OF embedding_column(2)] by (simp add: fits_def col_def default_settings_def)
  then show ?thesis
    using c vectors openai_embedding.aligned [OF assms] by (intro exI [of _ c]) (simp add: list_all_iff)
qed

theorem vectors_fit_column_witness:
  "\<exists>vectors. embed_texts (build_embedding (\<lambda>s. s) (\<lambda>_ _. Inr (200, [], Some [(0, replicate 1024 0)])) (default_settings [] [])) [[65]] = Inr vectors
     \<and> length vectors = length [[65] :: ustr]"
proof -
  let ?ad = "build_embedding (\<lambda>s. s) (\<lambda>_ _. Inr (200, [], Some [(0, replicate 1024 0)])) (default_settings [] [])"
  have n: "max 1 (eb_batch_size ?ad) = 32" "eb_dim ?ad = 1024" by (simp_all add: build_embedding_def default_settings_def)
  have batch: "embed_http_batch ?ad 0 [[65]] = Inr [replicate 1024 0]"
    by (simp add: embed_http_batch_def Let_def build_embedding_def default_settings_def)
  have "embed_texts ?ad [[65]] = Inr [replicate 1024 0]"
    unfolding embed_texts_def embed_from.simps [of ?ad 0 "[[65]]"] Let_def n
    by (simp add: batch embed_from.simps [of ?ad "Suc 0" "[]"])
  from vectors_fit_column [OF this] this show ?thesis by blast
qed

end
