(* ===== verification/Api.thy ===== *)
theory Api
  imports Sse Retrieval
begin

text \<open>
  The private part of the API: the remaining endpoints of \<^verbatim>\<open>api/routers/documents.py\<close> and \<^verbatim>\<open>conversations.py\<close> with the
  response models of \<^verbatim>\<open>api/schemas\<close>, and all endpoints that need a user as one function of the request.
\<close>

section \<open>Response models\<close>

record document_out =
  dt_id :: uuid
  dt_source_id :: uuid
  dt_filename :: ustr
  dt_mime :: ustr
  dt_size_bytes :: int
  dt_status :: doc_status
  dt_error :: "ustr option"
  dt_created_at :: time
  dt_updated_at :: time

definition document_out_of :: "document \<Rightarrow> document_out" where
  "document_out_of d =
     \<lparr>dt_id = d_id d, dt_source_id = d_source_id d, dt_filename = d_filename d, dt_mime = d_mime d, dt_size_bytes = d_size_bytes d,
      dt_status = d_status d, dt_error = d_error d, dt_created_at = d_created_at d, dt_updated_at = d_updated_at d\<rparr>"

record conversation_out =
  cv_out_id :: uuid
  cv_out_title :: "ustr option"
  cv_out_channel :: ustr
  cv_out_model_alias :: ustr
  cv_out_created_at :: time
  cv_out_updated_at :: time

definition conversation_out_of :: "conversation \<Rightarrow> conversation_out" where
  "conversation_out_of c =
     \<lparr>cv_out_id = c_id c, cv_out_title = c_title c, cv_out_channel = c_channel c, cv_out_model_alias = c_model_alias c,
      cv_out_created_at = c_created_at c, cv_out_updated_at = c_updated_at c\<rparr>"

section \<open>Endpoints\<close>

definition status_named :: "ustr \<Rightarrow> doc_status option" where
  "status_named s = map_of [(lit ''pending'', St_pending), (lit ''parsing'', St_parsing), (lit ''chunking'', St_chunking),
     (lit ''embedding'', St_embedding), (lit ''ready'', St_ready), (lit ''failed'', St_failed)] s"

definition list_documents_endpoint :: "cursor_codec \<Rightarrow> auth_context \<Rightarrow> int \<Rightarrow> ustr option \<Rightarrow> ustr option
    \<Rightarrow> (sys, document_out list \<times> ustr option) eff" where
  \<comment> \<open>a status that no row can have selects nothing; PostgreSQL refuses a NUL\<close>
  "list_documents_endpoint cc ctx limit cursor doc_status =
     (if \<not> limit_ok limit then throw (App (ValidationError None))
      else in_session
        (case doc_status of
           None \<Rightarrow> bnd (list_documents cc ctx (nat limit) cursor None) (\<lambda>(items, next_cursor). ret (map document_out_of items, next_cursor))
         | Some name \<Rightarrow>
             (case status_named name of
                Some st \<Rightarrow> bnd (list_documents cc ctx (nat limit) cursor (Some st)) (\<lambda>(items, next_cursor).
                  ret (map document_out_of items, next_cursor))
              | None \<Rightarrow> (case decode_optional cc cursor of
                           Inl e \<Rightarrow> throw (App e)
                         | Inr _ \<Rightarrow> if 0 \<in> set name then throw data_error else ret ([], None)))))"

definition get_document_endpoint :: "auth_context \<Rightarrow> uuid \<Rightarrow> (sys, document_out) eff" where
  "get_document_endpoint ctx i = in_session (bnd (get_document ctx i) (\<lambda>d. ret (document_out_of d)))"

definition retry_document_endpoint :: "doc_env \<Rightarrow> auth_context \<Rightarrow> uuid \<Rightarrow> (sys, nat \<times> document_out) eff" where
  "retry_document_endpoint env ctx i = in_session (bnd (retry_document env ctx i) (\<lambda>d. ret (202, document_out_of d)))"

definition delete_document_endpoint :: "doc_env \<Rightarrow> auth_context \<Rightarrow> uuid \<Rightarrow> (sys, nat) eff" where
  "delete_document_endpoint env ctx i = in_session (bnd (delete_document env ctx i) (\<lambda>_. ret 204))"

definition list_conversations_endpoint :: "cursor_codec \<Rightarrow> auth_context \<Rightarrow> int \<Rightarrow> ustr option
    \<Rightarrow> (sys, conversation_out list \<times> ustr option) eff" where
  "list_conversations_endpoint cc ctx limit cursor =
     (if \<not> limit_ok limit then throw (App (ValidationError None))
      else in_session (bnd (list_conversations cc ctx (nat limit) cursor) (\<lambda>(items, next_cursor).
        ret (map conversation_out_of items, next_cursor))))"

definition get_conversation_endpoint :: "auth_context \<Rightarrow> uuid \<Rightarrow> (sys, conversation_out) eff" where
  "get_conversation_endpoint ctx i = in_session (bnd (get_conversation ctx i) (\<lambda>c. ret (conversation_out_of c)))"

definition delete_conversation_endpoint :: "auth_context \<Rightarrow> uuid \<Rightarrow> (sys, nat) eff" where
  "delete_conversation_endpoint ctx i = in_session (bnd (delete_conversation ctx i) (\<lambda>_. ret 204))"

section \<open>Every request of a user\<close>

datatype private_request =
    Rq_list_conversations int "ustr option"
  | Rq_create_conversation "ustr option" "ustr option"
  | Rq_get_conversation uuid
  | Rq_update_conversation uuid ustr
  | Rq_delete_conversation uuid
  | Rq_list_messages uuid int "ustr option"
  | Rq_send_message uuid ustr "uuid option" "knowledge_scope option"
  | Rq_upload_document "ustr option" "ustr option" bytes "uuid option"
  | Rq_list_documents int "ustr option" "ustr option"
  | Rq_get_document uuid
  | Rq_retry_document uuid
  | Rq_delete_document uuid

datatype reply =
    Rp_conversation conversation_out
  | Rp_conversations "conversation_out list" "ustr option"
  | Rp_messages "message_out list" "ustr option"
  | Rp_stream "ustr list"
  | Rp_document document_out
  | Rp_uploaded document_out bool
  | Rp_documents "document_out list" "ustr option"
  | Rp_nothing

record api_env =
  ae_models :: models_yaml
  ae_codec :: cursor_codec
  ae_conv :: conv_env
  ae_doc_cfg :: doc_cfg
  ae_doc :: doc_env
  ae_max_upload_mb :: nat
  ae_chat_cfg :: chat_cfg
  ae_chat :: chat_env
  ae_frepr :: "rat \<Rightarrow> ustr"
  ae_waits :: "bool list"

definition replies :: "nat \<Rightarrow> ('a \<Rightarrow> reply) \<Rightarrow> (sys, 'a) eff \<Rightarrow> (sys, nat \<times> reply) eff" where
  "replies st f m = bnd m (\<lambda>a. ret (st, f a))"

definition private_api :: "api_env \<Rightarrow> auth_context \<Rightarrow> private_request \<Rightarrow> (sys, nat \<times> reply) eff" where
  "private_api env ctx rq =
     (case rq of
        Rq_list_conversations limit cursor \<Rightarrow>
          replies 200 (\<lambda>(cs, c). Rp_conversations cs c) (list_conversations_endpoint (ae_codec env) ctx limit cursor)
      | Rq_create_conversation title alias \<Rightarrow>
          bnd (create_conversation_endpoint (ae_models env) (ae_conv env) ctx title alias) (\<lambda>(st, c).
          ret (st, Rp_conversation (conversation_out_of c)))
      | Rq_get_conversation i \<Rightarrow> replies 200 Rp_conversation (get_conversation_endpoint ctx i)
      | Rq_update_conversation i title \<Rightarrow>
          bnd (update_conversation_endpoint (ae_conv env) ctx i title) (\<lambda>(st, c). ret (st, Rp_conversation (conversation_out_of c)))
      | Rq_delete_conversation i \<Rightarrow> bnd (delete_conversation_endpoint ctx i) (\<lambda>st. ret (st, Rp_nothing))
      | Rq_list_messages i limit cursor \<Rightarrow>
          replies 200 (\<lambda>(ms, c). Rp_messages ms c) (list_messages_endpoint (ae_codec env) ctx i limit cursor)
      | Rq_send_message i content client_id scope \<Rightarrow>
          replies 200 Rp_stream
            (send_message (ae_chat_cfg env) (ae_frepr env) (ae_chat env) (ae_waits env) ctx i content client_id scope)
      | Rq_upload_document filename content_type file_data source_id \<Rightarrow>
          bnd (upload_document (ae_doc_cfg env) (ae_doc env) (ae_max_upload_mb env) ctx filename content_type file_data source_id)
            (\<lambda>(st, d, deduplicated). ret (st, Rp_uploaded (document_out_of d) deduplicated))
      | Rq_list_documents limit cursor name \<Rightarrow>
          replies 200 (\<lambda>(ds, c). Rp_documents ds c) (list_documents_endpoint (ae_codec env) ctx limit cursor name)
      | Rq_get_document i \<Rightarrow> replies 200 Rp_document (get_document_endpoint ctx i)
      | Rq_retry_document i \<Rightarrow>
          bnd (retry_document_endpoint (ae_doc env) ctx i) (\<lambda>(st, d). ret (st, Rp_document d))
      | Rq_delete_document i \<Rightarrow> bnd (delete_document_endpoint (ae_doc env) ctx i) (\<lambda>st. ret (st, Rp_nothing)))"

end
