(* ===== verification/Isolation.thy ===== *)
theory Isolation
  imports Api System Titles
begin

text \<open>
  What requests and workers can do to the data of a user whom they do not serve. \<open>yields P R m\<close> says that \<open>m\<close> preserves
  \<open>P\<close>, however it ends, and returns only values in \<open>R\<close>; its introduction rules are collected in \<open>keeps_intros\<close>. The
  preserved predicate on databases is \<open>has_world v w\<close>: the rows of the user of the ward \<open>v\<close> are \<open>w\<close>; \<open>undisturbed\<close> adds the user's
  queued tasks and stored files.
\<close>

section \<open>Preserving\<close>

definition yields :: "('s \<Rightarrow> bool) \<Rightarrow> ('a \<Rightarrow> bool) \<Rightarrow> ('s, 'a) eff \<Rightarrow> bool" where
  "yields P R m \<longleftrightarrow> (\<forall>s. P s \<longrightarrow> wp m (\<lambda>a t. P t \<and> R a) (\<lambda>_. P) s)"

abbreviation keeps :: "('s \<Rightarrow> bool) \<Rightarrow> ('s, 'a) eff \<Rightarrow> bool" where "keeps P \<equiv> yields P (\<lambda>_. True)"

named_theorems keeps_intros \<open>what preserves a predicate\<close>

declare TrueI [keeps_intros]

lemma yieldsD:
  assumes "yields P R m" and "P s"
  shows "P (snd (m s))" and "fst (m s) = Inr a \<Longrightarrow> R a"
proof -
  have "wp m (\<lambda>a t. P t \<and> R a) (\<lambda>_. P) s" using assms by (simp add: yields_def)
  then show "P (snd (m s))" and "fst (m s) = Inr a \<Longrightarrow> R a" by (auto simp: wp_def split: prod.splits sum.splits)
qed

lemma keeps_weaken: "yields P R m \<Longrightarrow> keeps P m"
  by (auto simp: yields_def elim!: wp_mono)

lemma yields_mono: "yields P R m \<Longrightarrow> (\<And>a. R a \<Longrightarrow> R' a) \<Longrightarrow> yields P R' m"
  unfolding yields_def by (blast intro: wp_mono)

lemma yields_bnd: "yields P R m \<Longrightarrow> (\<And>a. R a \<Longrightarrow> yields P R' (f a)) \<Longrightarrow> yields P R' (bnd m f)"
  unfolding yields_def wp_bnd by (blast intro: wp_mono)

lemma keeps_bnd [keeps_intros]: "keeps P m \<Longrightarrow> (\<And>a. yields P R (f a)) \<Longrightarrow> yields P R (bnd m f)"
  by (rule yields_bnd)

lemma keeps_try [keeps_intros]: "yields P R m \<Longrightarrow> (\<And>e. yields P R (h e)) \<Longrightarrow> yields P R (try_with m h)"
  unfolding yields_def wp_try by (blast intro: wp_mono)

lemma keeps_pure [keeps_intros]: "R a \<Longrightarrow> yields P R (ret a)" "yields P R (throw e)" "keeps P (look g)" "keeps P (guard_fault x)"
  by (simp_all add: yields_def wp_simps split: option.split)

lemma keeps_cases [keeps_intros]:
  "yields P R m \<Longrightarrow> yields P R m' \<Longrightarrow> yields P R (if b then m else m')"
  "yields P R n \<Longrightarrow> (\<And>a. yields P R (f a)) \<Longrightarrow> yields P R (case x of None \<Rightarrow> n | Some a \<Rightarrow> f a)"
  "(\<And>e. yields P R (h e)) \<Longrightarrow> (\<And>a. yields P R (f a)) \<Longrightarrow> yields P R (case y of Inl e \<Rightarrow> h e | Inr a \<Rightarrow> f a)"
  by (simp_all split: option.split sum.split)

lemma keeps_try_except [keeps_intros]: "yields P R m \<Longrightarrow> (\<And>e. yields P R (h e)) \<Longrightarrow> yields P R (try_except m h)"
  unfolding try_except_def by (intro keeps_intros)

text \<open>A predicate on databases, of both views of the database, one on the queued messages and one on the stored files.\<close>

definition holding :: "(db \<Rightarrow> bool) \<Rightarrow> (task_message list \<Rightarrow> bool) \<Rightarrow> (fs \<Rightarrow> bool) \<Rightarrow> sys \<Rightarrow> bool" where
  "holding J B G s \<longleftrightarrow> J (committed s) \<and> J (pending s) \<and> B (broker s) \<and> G (files s)"

lemma keeps_db [keeps_intros]:
  "keeps (holding J B G) commit" "keeps (holding J B G) rollback" "keeps (holding J B G) (query g)"
  by (auto simp: yields_def holding_def wp_simps)

lemma holding_committed: "holding J B G t \<Longrightarrow> holding J B G (t\<lparr>pending := committed t\<rparr>)"
  by (simp add: holding_def)

lemma keeps_session [keeps_intros]: "yields (holding J B G) R m \<Longrightarrow> yields (holding J B G) R (in_session m)"
  unfolding yields_def wp_in_session
proof (intro allI impI)
  fix s
  assume m: "\<forall>s. holding J B G s \<longrightarrow> wp m (\<lambda>a t. holding J B G t \<and> R a) (\<lambda>_. holding J B G) s" and s: "holding J B G s"
  from s have "holding J B G (s\<lparr>pending := committed s\<rparr>)" by (simp add: holding_def)
  with m show "wp m (\<lambda>a t. holding J B G (t\<lparr>pending := committed t\<rparr>) \<and> R a) (\<lambda>_ t. holding J B G (t\<lparr>pending := committed t\<rparr>))
     (s\<lparr>pending := committed s\<rparr>)"
    by (blast intro: wp_mono holding_committed)
qed

lemma keeps_stmt: "(\<And>d. J d \<Longrightarrow> J (f d)) \<Longrightarrow> keeps (holding J B G) (stmt f)"
  by (simp add: yields_def holding_def wp_simps)

lemma yields_stmt_opt: "(\<And>d d'. J d \<Longrightarrow> f d = Some d' \<Longrightarrow> J d' \<and> F) \<Longrightarrow> yields (holding J B G) (\<lambda>_. F) (stmt_opt f)"
  by (auto simp: yields_def holding_def wp_simps split: option.split)

lemma yields_stmt_exn: "(\<And>d d'. J d \<Longrightarrow> f d = Inr d' \<Longrightarrow> J d' \<and> F) \<Longrightarrow> yields (holding J B G) (\<lambda>_. F) (stmt_exn f)"
  by (auto simp: yields_def holding_def wp_simps split: sum.split)

lemma yields_query: "(\<And>d. J d \<Longrightarrow> R (g d)) \<Longrightarrow> yields (holding J B G) R (query g)"
  by (auto simp: yields_def holding_def wp_simps)

text \<open>On the state of a chat run: a predicate on the system, and one on the chunks cited by the events so far.\<close>

abbreviation on_chat :: "(sys \<Rightarrow> bool) \<Rightarrow> (uuid \<Rightarrow> bool) \<Rightarrow> chat_st \<Rightarrow> bool" where
  "on_chat P Q s \<equiv> P (ch_sys s) \<and> cites Q s"

lemma keeps_on_sys: "yields P R m \<Longrightarrow> yields (on_chat P Q) R (on_sys m)"
  by (auto simp: yields_def wp_simps elim!: wp_mono)

lemma keeps_locals [keeps_intros]:
  "keeps (on_chat P Q) (change (\<lambda>s. s\<lparr>ch_buffer := b s\<rparr>))" "keeps (on_chat P Q) (change (\<lambda>s. s\<lparr>ch_tokens := k\<rparr>))"
  "keeps (on_chat P Q) (change (\<lambda>s. s\<lparr>ch_stop := r\<rparr>))"
  by (simp_all add: yields_def wp_simps)

lemma keeps_emit [keeps_intros]:
  "keeps (on_chat P Q) (emit_event env (Message_start i j))" "keeps (on_chat P Q) (emit_event env (Delta x))"
  "keeps (on_chat P Q) (emit_event env (Done i f a b l))" "keeps (on_chat P Q) (emit_event env (Error_event c m t))"
  "\<forall>it \<in> set items. Q (it_chunk_id it) \<Longrightarrow> keeps (on_chat P Q) (emit_event env (Citations_event items))"
  by (auto simp: yields_def wp_simps cites_def split: option.split)

section \<open>One user's data\<close>

record world =
  w_conversations :: "conversation list"
  w_messages :: "message list"
  w_citations :: "message_citation list"
  w_sources :: "knowledge_source list"
  w_documents :: "document list"
  w_chunks :: "document_chunk list"
  w_jobs :: "ingestion_job list"

definition user_messages :: "uuid \<Rightarrow> db \<Rightarrow> message list" where
  "user_messages v d = filter (\<lambda>m. m_conversation_id m \<in> c_id ` set (user_conversations d v)) (messages d)"

definition user_world :: "uuid \<Rightarrow> db \<Rightarrow> world" where
  "user_world v d =
     \<lparr>w_conversations = user_conversations d v, w_messages = user_messages v d,
      w_citations = filter (\<lambda>ci. ci_message_id ci \<in> m_id ` set (user_messages v d)) (message_citations d),
      w_sources = filter (\<lambda>k. ks_owner_id k = v) (knowledge_sources d),
      w_documents = user_documents d v None,
      w_chunks = filter (\<lambda>k. ck_document_id k \<in> d_id ` set (user_documents d v None)) (document_chunks d),
      w_jobs = filter (\<lambda>j. j_document_id j \<in> d_id ` set (user_documents d v None)) (ingestion_jobs d)\<rparr>"

definition keyed :: "db \<Rightarrow> bool" where
  \<comment> \<open>the primary keys of conversations, messages, documents and chunks\<close>
  "keyed d \<longleftrightarrow> distinct (map c_id (conversations d)) \<and> distinct (map m_id (messages d)) \<and> distinct (map d_id (documents d))
     \<and> distinct (map ck_id (document_chunks d))"

text \<open>
  The user under protection, with the ids of the documents that are or were the user's (as they appear in file names) and the
  directory of the object storage.
\<close>

record ward =
  wd_user :: uuid
  wd_ids :: "uuid set"
  wd_root :: path

definition named :: "ward \<Rightarrow> uuid \<Rightarrow> bool" where
  "named v i \<longleftrightarrow> uuid_str i \<in> uuid_str ` wd_ids v"

definition documents_named :: "ward \<Rightarrow> db \<Rightarrow> bool" where
  "documents_named v d \<longleftrightarrow> (\<forall>x \<in> set (documents d). named v (d_id x) \<longleftrightarrow> d_uploaded_by x = wd_user v)"

text \<open>
  The chunks that are the user's alone: those that are no shared law. \<open>cites_apart w cs\<close>: among the citations \<open>cs\<close>, only those of the
  user's own messages cite them.
\<close>

definition hidden :: "world \<Rightarrow> uuid set" where
  "hidden w = ck_id ` set (filter (\<lambda>c. \<not> is_law c) (w_chunks w))"

definition cites_apart :: "world \<Rightarrow> message_citation list \<Rightarrow> bool" where
  "cites_apart w cs \<longleftrightarrow> (\<forall>ci \<in> set cs. ci_message_id ci \<in> m_id ` set (w_messages w) \<or> ci_chunk_id ci \<notin> Some ` hidden w)"

text \<open>The databases in which the user has the data \<open>w\<close>.\<close>

definition has_world :: "ward \<Rightarrow> world \<Rightarrow> db \<Rightarrow> bool" where
  "has_world v w d \<longleftrightarrow> keyed d \<and> user_world (wd_user v) d = w \<and> documents_named v d \<and> cites_apart w (message_citations d)"

text \<open>What others commit in the middle of a request.\<close>

definition spares :: "ward \<Rightarrow> (db \<Rightarrow> db) \<Rightarrow> bool" where
  "spares v f \<longleftrightarrow> (\<forall>w d. has_world v w d \<longrightarrow> has_world v w (f d))"

lemma spares_nothing [intro]: "spares v (\<lambda>d. d)"
  by (simp add: spares_def)

text \<open>
  The tasks that concern the user: those on the user's documents and conversations, and every purge that is not of somebody else's
  document; and the user's stored files.
\<close>

fun concerns :: "ward \<Rightarrow> world \<Rightarrow> call \<Rightarrow> bool" where
  "concerns v w (Stage_call st i) \<longleftrightarrow> named v i"
| "concerns v w (Title_call i) \<longleftrightarrow> i \<in> c_id ` set (w_conversations w)"
| "concerns v w (Purge_call pre) \<longleftrightarrow> \<not> (\<exists>i. \<not> named v i \<and> pre = storage_prefix i)"

definition own_tasks :: "ward \<Rightarrow> world \<Rightarrow> task_message list \<Rightarrow> task_message list" where
  "own_tasks v w = filter (\<lambda>m. concerns v w (tm_call m))"

definition own_path :: "ward \<Rightarrow> path \<Rightarrow> bool" where
  "own_path v p \<longleftrightarrow> (\<exists>i \<in> wd_ids v. prefix (wd_root v @ [lit ''documents'', uuid_str i]) p)"

definition same_files :: "ward \<Rightarrow> fs \<Rightarrow> fs \<Rightarrow> bool" where
  "same_files v f g \<longleftrightarrow> (\<forall>p. own_path v p \<longrightarrow> g p = f p)"

text \<open>\<open>q\<close> holds the user's queued tasks and the files.\<close>

abbreviation undisturbed :: "ward \<Rightarrow> world \<Rightarrow> task_message list \<times> fs \<Rightarrow> sys \<Rightarrow> bool" where
  "undisturbed v w q \<equiv> holding (has_world v w) (\<lambda>ms. own_tasks v w ms = fst q) (same_files v (snd q))"

lemma keeps_enqueue [keeps_intros]: "\<not> concerns v w c \<Longrightarrow> keeps (undisturbed v w q) (enqueue c i j)"
  by (simp add: yields_def holding_def own_tasks_def wp_simps)

lemma concerns_not [keeps_intros]:
  "\<not> named v i \<Longrightarrow> \<not> concerns v w (Stage_call st i)"
  "i \<notin> c_id ` set (w_conversations w) \<Longrightarrow> \<not> concerns v w (Title_call i)" "\<not> named v i \<Longrightarrow> \<not> concerns v w (Purge_call (storage_prefix i))"
  by auto

lemma unnamed_path:
  assumes "\<not> named v i"
  shows "\<not> own_path v (wd_root v @ [lit ''documents'', uuid_str i] @ rest)"
proof
  assume "own_path v (wd_root v @ [lit ''documents'', uuid_str i] @ rest)"
  then obtain j where j: "j \<in> wd_ids v"
    "prefix (wd_root v @ [lit ''documents'', uuid_str j]) (wd_root v @ [lit ''documents'', uuid_str i] @ rest)"
    unfolding own_path_def by blast
  have "uuid_str j = uuid_str i" using j(2) by (simp del: lit_simps)
  then have "uuid_str i \<in> uuid_str ` wd_ids v" using j(1) by (metis imageI)
  then show False using assms by (simp add: named_def)
qed

lemma keeps_files:
  assumes i: "\<not> named v i"
  shows "47 \<notin> set name \<Longrightarrow> name \<notin> {[], [46], [46, 46]} \<Longrightarrow> keeps (undisturbed v w q) (fs_put (wd_root v) (storage_prefix i @ name) data)"
    and "keeps (undisturbed v w q) (fs_delete_prefix (wd_root v) (storage_prefix i))"
proof -
  assume n: "47 \<notin> set name" "name \<notin> {[], [46], [46, 46]}"
  show "keeps (undisturbed v w q) (fs_put (wd_root v) (storage_prefix i @ name) data)"
    using unnamed_path [OF i, of "[name]"]
    by (auto simp: yields_def holding_def wp_simps storage_put_def resolve_key [OF n] same_files_def)
next
  have "\<not> strict_prefix (wd_root v @ [lit ''documents'', uuid_str i]) p" if "own_path v p" for p
  proof
    assume "strict_prefix (wd_root v @ [lit ''documents'', uuid_str i]) p"
    then obtain rest where "p = wd_root v @ [lit ''documents'', uuid_str i] @ rest" by (auto simp: strict_prefix_def prefix_def)
    then show False using that unnamed_path [OF i] by simp
  qed
  then show "keeps (undisturbed v w q) (fs_delete_prefix (wd_root v) (storage_prefix i))"
    by (auto simp: yields_def holding_def wp_simps storage_delete_prefix_def resolve_prefix same_files_def)
qed

lemma keeps_race [keeps_intros]: "spares v f \<Longrightarrow> keeps (undisturbed v w q) (race f)"
  by (simp add: spares_def yields_def holding_def race_def wp_simps)

lemma has_worldD:
  assumes "has_world v w d"
  shows "w_conversations w = user_conversations d (wd_user v)" "w_messages w = user_messages (wd_user v) d" "w_documents w = user_documents d (wd_user v) None"
    "keyed d" "cites_apart w (message_citations d)"
  using assms by (auto simp: has_world_def user_world_def)

lemma distinct_key: "distinct (map k xs) \<Longrightarrow> x \<in> set xs \<Longrightarrow> y \<in> set xs \<Longrightarrow> k x = k y \<Longrightarrow> x = y"
  by (meson distinct_map inj_onD)

lemma foreign_conversation:
  assumes "has_world v w d" and "c \<in> set (conversations d)" and "c_user_id c \<noteq> wd_user v"
  shows "c_id c \<notin> c_id ` set (w_conversations w)"
  using assms distinct_key [of c_id "conversations d" c] by (auto simp: has_worldD(1) [OF assms(1)] has_world_def keyed_def user_conversations_def)

lemma foreign_document:
  assumes "has_world v w d" and "x \<in> set (documents d)" and "d_uploaded_by x \<noteq> wd_user v"
  shows "\<not> named v (d_id x)"
  using assms by (simp add: has_world_def documents_named_def)

lemma own_documents:
  assumes "has_world v w d" and "x \<in> set (documents d)" and "\<not> named v (d_id x)"
  shows "d_uploaded_by x \<noteq> wd_user v"
  using assms by (simp add: has_world_def documents_named_def)

lemma unnamed:
  assumes "has_world v w d" and "\<not> named v i"
  shows "i \<notin> d_id ` set (w_documents w)"
  using assms by (auto simp: has_worldD(3) [OF assms(1)] user_documents_def has_world_def documents_named_def)

lemma foreign_message:
  assumes "has_world v w d" and "m \<in> set (messages d)" and "m_conversation_id m \<notin> c_id ` set (w_conversations w)"
  shows "m_id m \<notin> m_id ` set (w_messages w)"
  using assms distinct_key [of m_id "messages d" m] by (auto simp: has_worldD(1,2) [OF assms(1)] has_world_def keyed_def user_messages_def)

text \<open>The statements on others' rows.\<close>

lemma filter_update_where:
  assumes "\<And>r. r \<in> set rows \<Longrightarrow> p r \<Longrightarrow> \<not> q r \<and> \<not> q (f r)"
  shows "filter q (update_where p f rows) = filter q rows"
  using assms by (induction rows) (auto simp: update_where_def)

lemma world_conv_update:
  assumes w: "has_world v w d" and i: "i \<notin> c_id ` set (w_conversations w)"
    and f: "\<And>c. c_id (f c) = c_id c" "\<And>c. c_user_id (f c) = c_user_id c"
  shows "has_world v w (conv_update i f d)"
proof -
  have "user_conversations (conv_update i f d) (wd_user v) = user_conversations d (wd_user v)"
    using i unfolding has_worldD(1) [OF w] user_conversations_def conv_update_def
    by (auto simp: f intro!: filter_update_where)
  then show ?thesis
    using w by (simp add: has_world_def user_world_def user_messages_def user_documents_def keyed_def documents_named_def conv_update_def f map_update_where)
qed

lemma world_conv_create:
  assumes w: "has_world v w d" and c: "c_user_id c \<noteq> wd_user v" and d': "conv_create c d = Inr d'"
  shows "has_world v w d'" and "c_id c \<notin> c_id ` set (w_conversations w)"
proof -
  have d: "d' = d\<lparr>conversations := conversations d @ [c]\<rparr>" "c_id c \<notin> c_id ` set (conversations d)"
    using d' by (auto simp: conv_create_def split: if_splits)
  then show h: "has_world v w d'"
    using w c by (simp add: has_world_def user_world_def user_messages_def user_documents_def user_conversations_def keyed_def documents_named_def)
  show "c_id c \<notin> c_id ` set (w_conversations w)" by (rule foreign_conversation [OF h _ c]) (simp add: d(1))
qed

lemma world_conv_delete:
  assumes w: "has_world v w d" and i: "i \<notin> c_id ` set (w_conversations w)"
  shows "has_world v w (conv_delete i d)"
proof -
  have conv: "user_conversations (conv_delete i d) (wd_user v) = user_conversations d (wd_user v)"
    using i unfolding has_worldD(1) [OF w] by (auto simp: user_conversations_def conv_delete_def intro!: filter_cong)
  have ms: "user_messages (wd_user v) (conv_delete i d) = user_messages (wd_user v) d"
    using i unfolding user_messages_def conv has_worldD(1) [OF w] by (auto simp: conv_delete_def intro!: filter_cong)
  have none: "ci_message_id ci \<noteq> m_id m"
    if "ci_message_id ci \<in> m_id ` set (user_messages (wd_user v) d)" "m \<in> set (messages d)" "m_conversation_id m = i" for ci m
    using foreign_message [OF w that(2)] that(1,3) i by (auto simp: has_worldD(2) [OF w])
  have cs: "filter (\<lambda>ci. ci_message_id ci \<in> m_id ` set (user_messages (wd_user v) d)) (message_citations (conv_delete i d))
      = filter (\<lambda>ci. ci_message_id ci \<in> m_id ` set (user_messages (wd_user v) d)) (message_citations d)"
    by (simp add: conv_delete_def) (rule filter_cong [OF refl], use none in metis)
  have "keyed (conv_delete i d)" using w by (auto simp: has_world_def keyed_def conv_delete_def distinct_map_filter)
  moreover have "cites_apart w (message_citations (conv_delete i d))"
    using has_worldD(5) [OF w] by (auto simp: cites_apart_def conv_delete_def)
  ultimately show ?thesis
    using w unfolding has_world_def user_world_def ms conv cs by (simp add: conv_delete_def user_documents_def documents_named_def)
qed

lemma world_message_add:
  assumes w: "has_world v w d" and i: "m_conversation_id m \<notin> c_id ` set (w_conversations w)" and d': "message_add m d = Inr d'"
  shows "has_world v w d'" and "m_id m \<notin> m_id ` set (w_messages w)"
proof -
  have d: "d' = d\<lparr>messages := messages d @ [m]\<rparr>" "m_id m \<notin> m_id ` set (messages d)"
    using d' by (auto simp: message_add_def split: if_splits)
  have "user_messages (wd_user v) d' = user_messages (wd_user v) d"
    using i by (simp add: d(1) user_messages_def user_conversations_def has_worldD(1) [OF w])
  then show h: "has_world v w d'"
    using w d by (simp add: has_world_def user_world_def user_documents_def user_conversations_def keyed_def documents_named_def)
  show "m_id m \<notin> m_id ` set (w_messages w)" by (rule foreign_message [OF h _ i]) (simp add: d(1))
qed

lemma world_citation_add:
  assumes w: "has_world v w d" and i: "ci_message_id ci \<notin> m_id ` set (w_messages w) \<and> ci_chunk_id ci \<notin> Some ` hidden w"
    and d': "citation_add_one ci d = Inr d'"
  shows "has_world v w d'"
proof -
  have d: "d' = d\<lparr>message_citations := message_citations d @ [ci]\<rparr>" using d' by (auto simp: citation_add_one_def split: if_splits)
  then show ?thesis
    using w i unfolding has_worldD(2) [OF w]
    by (simp add: has_world_def user_world_def user_messages_def user_documents_def user_conversations_def keyed_def documents_named_def
        cites_apart_def)
qed

lemma world_citations_add:
  "has_world v w d \<Longrightarrow> \<forall>ci \<in> set cs. ci_message_id ci \<notin> m_id ` set (w_messages w) \<and> ci_chunk_id ci \<notin> Some ` hidden w
     \<Longrightarrow> citations_add_all cs d = Inr d' \<Longrightarrow> has_world v w d'"
  by (induction cs d rule: citations_add_all.induct) (auto split: sum.splits dest: world_citation_add)

lemma world_usage_add:
  assumes "has_world v w d" and d': "usage_add l d = Inr d'"
  shows "has_world v w d'"
proof -
  have "d' = d\<lparr>usage_logs := usage_logs d @ [l]\<rparr>" using d' by (simp add: usage_add_def split: if_splits)
  then show ?thesis
    using assms(1) by (simp add: has_world_def user_world_def user_messages_def user_documents_def user_conversations_def keyed_def documents_named_def)
qed

lemma world_source_create:
  assumes "has_world v w d" and "u \<noteq> wd_user v" and d': "source_create_default i u now d = Some d'"
  shows "has_world v w d'"
proof -
  obtain k where "d' = d\<lparr>knowledge_sources := knowledge_sources d @ [k]\<rparr>" "ks_owner_id k = u"
    using d' by (simp add: source_create_default_def split: if_splits) force
  then show ?thesis
    using assms(1,2) by (simp add: has_world_def user_world_def user_messages_def user_documents_def user_conversations_def keyed_def documents_named_def)
qed

lemma world_doc_create:
  assumes w: "has_world v w d" and x: "d_uploaded_by x \<noteq> wd_user v" "\<not> named v (d_id x)" and d': "doc_create x d = Some d'"
  shows "has_world v w d'"
proof -
  have d: "d' = d\<lparr>documents := documents d @ [x]\<rparr>" "d_id x \<notin> d_id ` set (documents d)"
    using d' by (auto simp: doc_create_def split: if_splits)
  then show "has_world v w d'"
    using w x by (simp add: has_world_def user_world_def user_messages_def user_documents_def user_conversations_def keyed_def documents_named_def)
qed

lemma named_update:
  assumes "documents_named v d" and "\<And>x. d_id (f x) = d_id x" "\<And>x. d_uploaded_by (f x) = d_uploaded_by x"
  shows "documents_named v (d\<lparr>documents := update_where p f (documents d)\<rparr>)"
  using assms by (auto simp: documents_named_def update_where_def)

lemma world_doc_update:
  assumes w: "has_world v w d" and i: "\<not> named v i"
    and f: "\<And>x. d_id (f x) = d_id x" "\<And>x. d_uploaded_by (f x) = d_uploaded_by x"
  shows "has_world v w (doc_update i f d)"
proof -
  have "user_documents (doc_update i f d) (wd_user v) None = user_documents d (wd_user v) None"
    using unnamed [OF w i] unfolding has_worldD(3) [OF w] user_documents_def doc_update_def
    by (auto simp: f intro!: filter_update_where)
  then show ?thesis
    using w named_update [of v d f] f
    by (simp add: has_world_def user_world_def user_messages_def user_conversations_def keyed_def doc_update_def map_update_where)
qed

lemma world_doc_delete:
  assumes w: "has_world v w d" and i: "\<not> named v i"
  shows "has_world v w (doc_delete i d)"
proof -
  have docs: "user_documents (doc_delete i d) (wd_user v) None = user_documents d (wd_user v) None"
    using unnamed [OF w i] unfolding has_worldD(3) [OF w] by (auto simp: user_documents_def doc_delete_def intro!: filter_cong)
  have chunks: "filter (\<lambda>k. ck_document_id k \<in> d_id ` set (user_documents d (wd_user v) None)) (document_chunks (doc_delete i d))
      = filter (\<lambda>k. ck_document_id k \<in> d_id ` set (user_documents d (wd_user v) None)) (document_chunks d)"
    using unnamed [OF w i] unfolding has_worldD(3) [OF w] by (auto simp: doc_delete_def intro!: filter_cong)
  have jobs: "filter (\<lambda>j. j_document_id j \<in> d_id ` set (user_documents d (wd_user v) None)) (ingestion_jobs (doc_delete i d))
      = filter (\<lambda>j. j_document_id j \<in> d_id ` set (user_documents d (wd_user v) None)) (ingestion_jobs d)"
    using unnamed [OF w i] unfolding has_worldD(3) [OF w] by (auto simp: doc_delete_def intro!: filter_cong)
  have "keyed (doc_delete i d)" "documents_named v (doc_delete i d)"
    using w by (auto simp: has_world_def keyed_def documents_named_def doc_delete_def distinct_map_filter)
  then show ?thesis
    using w unfolding has_world_def user_world_def docs chunks jobs by (simp add: doc_delete_def user_messages_def user_conversations_def)
qed

lemma foreign_chunk:
  assumes w: "has_world v w d" and k: "k \<in> set (document_chunks d)" and i: "ck_document_id k \<notin> d_id ` set (w_documents w)"
  shows "ck_id k \<notin> ck_id ` set (w_chunks w)"
proof
  assume "ck_id k \<in> ck_id ` set (w_chunks w)"
  then obtain k' where k': "k' \<in> set (w_chunks w)" "ck_id k' = ck_id k" by auto
  have "w_chunks w = filter (\<lambda>k. ck_document_id k \<in> d_id ` set (w_documents w)) (document_chunks d)"
    using w by (auto simp: has_world_def user_world_def)
  with k' have "k' \<in> set (document_chunks d)" "ck_document_id k' \<in> d_id ` set (w_documents w)" by auto
  moreover have "distinct (map ck_id (document_chunks d))" using w by (simp add: has_world_def keyed_def)
  ultimately show False using distinct_key [of ck_id "document_chunks d" k' k] k k'(2) i by simp
qed

text \<open>What the condition of the search lets another user see is shared law or not the protected user's.\<close>

lemma visible_apart:
  assumes w: "has_world v w d" and u: "u \<noteq> wd_user v" and i: "visible d u ids i"
  shows "i \<notin> hidden w"
proof
  assume "i \<in> hidden w"
  then obtain k' where k': "k' \<in> set (w_chunks w)" "ck_id k' = i" "\<not> is_law k'" by (auto simp: hidden_def)
  have "w_chunks w = filter (\<lambda>k. ck_document_id k \<in> d_id ` set (w_documents w)) (document_chunks d)"
    using w by (auto simp: has_world_def user_world_def)
  with k'(1) have own: "k' \<in> set (document_chunks d)" "ck_document_id k' \<in> d_id ` set (w_documents w)" by auto
  from i obtain k ids' where k: "k \<in> set (document_chunks d)" "ck_id k = i" "eligible d u ids' k" by (auto simp: visible_def)
  have "distinct (map ck_id (document_chunks d))" using w by (simp add: has_world_def keyed_def)
  then have "k = k'" using distinct_key [of ck_id "document_chunks d" k k'] k own k'(2) by simp
  with k(3) k'(3) obtain x where x: "doc_by_id d (ck_document_id k') = Some x" "d_uploaded_by x = u"
    by (auto simp: eligible_def split: option.splits)
  from x(1) have "x \<in> set (documents d)" "d_id x = ck_document_id k'" by (auto simp: doc_by_id_def dest: find_SomeD)
  with own(2) show False using foreign_document [OF w, of x] unnamed [OF w, of "d_id x"] x(2) u by auto
qed

section \<open>Operations of another user\<close>

text \<open>From here on \<open>ctx\<close> is a user other than \<open>v\<close>.\<close>

lemma yields_owned:
  assumes "ctx_user_id ctx \<noteq> wd_user v"
  shows "yields (undisturbed v w q) (\<lambda>c. c_id c = i \<and> i \<notin> c_id ` set (w_conversations w)) (get_conversation ctx i)"
  unfolding get_conversation_def
proof (rule yields_bnd [OF yields_query])
  fix d
  assume d: "has_world v w d"
  show "case conv_get_owned d (ctx_user_id ctx) i of None \<Rightarrow> True | Some c \<Rightarrow> c_id c = i \<and> i \<notin> c_id ` set (w_conversations w)"
  proof (cases "conv_get_owned d (ctx_user_id ctx) i")
    case (Some c)
    then have "c_id c = i" "c \<in> set (conversations d)" "c_user_id c = ctx_user_id ctx" unfolding conv_get_owned_def by (auto dest: find_SomeD)
    then show ?thesis using foreign_conversation [OF d, of c] assms Some by simp
  qed simp
qed (auto intro!: keeps_intros split: option.split)

lemma yields_get_conversation:
  assumes "ctx_user_id ctx \<noteq> wd_user v"
  shows "yields (undisturbed v w q) (\<lambda>c. c_id c \<notin> c_id ` set (w_conversations w)) (get_conversation ctx i)"
  by (rule yields_mono [OF yields_owned [OF assms]]) simp

lemma yields_get_document:
  assumes "ctx_user_id ctx \<noteq> wd_user v"
  shows "yields (undisturbed v w q) (\<lambda>d. \<not> named v (d_id d)) (get_document ctx i)"
  unfolding get_document_def
proof (rule yields_bnd [OF yields_query])
  fix d
  assume d: "has_world v w d"
  show "case doc_get_owned d (ctx_user_id ctx) i of None \<Rightarrow> True | Some x \<Rightarrow> \<not> named v (d_id x)"
  proof (cases "doc_get_owned d (ctx_user_id ctx) i")
    case (Some x)
    then have "x \<in> set (documents d)" "d_uploaded_by x = ctx_user_id ctx" unfolding doc_get_owned_def by (auto dest: find_SomeD)
    then show ?thesis using foreign_document [OF d] assms Some by simp
  qed simp
qed (auto intro!: keeps_intros split: option.split)

lemma page_subset: "set (fst (paginate cc (select_page key limit cursor rows) n key')) \<subseteq> set rows"
  by (auto simp: paginate_def select_page_def Let_def dest!: in_set_takeD)

text \<open>Conversations.\<close>

lemma yields_conv_create:
  "c_user_id c \<noteq> wd_user v \<Longrightarrow> yields (undisturbed v w q) (\<lambda>_. c_id c \<notin> c_id ` set (w_conversations w)) (stmt_exn (conv_create c))"
  by (rule yields_stmt_exn) (rule conjI; rule world_conv_create; assumption)

lemma keeps_conv_update:
  assumes i: "i \<notin> c_id ` set (w_conversations w)" and f: "\<And>c. c_id (f c) = c_id c" "\<And>c. c_user_id (f c) = c_user_id c"
    and g: "\<And>d d'. g d = Inr d' \<Longrightarrow> d' = conv_update i f d"
  shows "keeps (undisturbed v w q) (stmt_exn g)"
  by (rule yields_stmt_exn) (drule g, simp add: world_conv_update [OF _ i f])

lemma yields_create_conversation:
  assumes "ctx_user_id ctx \<noteq> wd_user v"
  shows "yields (undisturbed v w q) (\<lambda>c. c_id c \<notin> c_id ` set (w_conversations w)) (create_conversation cfg env ctx title alias)"
proof -
  have owner: "c_user_id (new_conversation i (ctx_user_id ctx) title a now) \<noteq> wd_user v" for i a now
    using assms by (simp add: new_conversation_def)
  show ?thesis
    unfolding create_conversation_def Let_def
    by (rule keeps_cases(1) [OF keeps_pure(2) yields_bnd [OF yields_conv_create [OF owner]]]) (intro keeps_intros)
qed

lemma yields_rename_conversation:
  assumes "ctx_user_id ctx \<noteq> wd_user v"
  shows "yields (undisturbed v w q) (\<lambda>c. c_id c \<notin> c_id ` set (w_conversations w)) (rename_conversation env ctx i title)"
  unfolding rename_conversation_def
proof (rule yields_bnd [OF yields_get_conversation [OF assms]], intro keeps_intros yields_query)
  fix c :: conversation
  assume c: "c_id c \<notin> c_id ` set (w_conversations w)"
  show "keeps (undisturbed v w q) (stmt_exn (conv_rename (c_id c) title (cv_now env)))"
    by (rule keeps_conv_update [OF c, where f = "\<lambda>c. if c_title c = Some title then c else c\<lparr>c_title := Some title, c_updated_at := cv_now env\<rparr>"])
      (simp_all add: conv_rename_def split: if_splits)
  have "c_id (case conv_by_id d (c_id c) of None \<Rightarrow> c | Some c' \<Rightarrow> c') = c_id c" for d
    by (auto simp: conv_by_id_def dest!: find_SomeD split: option.split)
  with c show "c_id (case conv_by_id d (c_id c) of None \<Rightarrow> c | Some c' \<Rightarrow> c') \<notin> c_id ` set (w_conversations w)" for d by simp
qed

lemma keeps_delete_conversation:
  "ctx_user_id ctx \<noteq> wd_user v \<Longrightarrow> keeps (undisturbed v w q) (delete_conversation ctx i)"
  unfolding delete_conversation_def
  by (rule yields_bnd [OF yields_get_conversation], assumption) (intro keeps_intros keeps_stmt world_conv_delete)

lemma yields_list_conversations:
  assumes "ctx_user_id ctx \<noteq> wd_user v"
  shows "yields (undisturbed v w q) (\<lambda>p. \<forall>c \<in> set (fst p). c_id c \<notin> c_id ` set (w_conversations w))
     (list_conversations cc ctx limit cursor)"
proof -
  have "\<forall>c \<in> set (fst (paginate cc (conv_list_page d (ctx_user_id ctx) limit k) limit conv_key)). c_id c \<notin> c_id ` set (w_conversations w)"
    if "has_world v w d" for d k
    using foreign_conversation [OF that] assms page_subset [of cc conv_key limit k "user_conversations d (ctx_user_id ctx)" limit conv_key]
    by (fastforce simp: conv_list_page_def user_conversations_def)
  then have "yields (undisturbed v w q) (\<lambda>rows. \<forall>c \<in> set (fst (paginate cc rows limit conv_key)). c_id c \<notin> c_id ` set (w_conversations w))
     (query (\<lambda>s. conv_list_page s (ctx_user_id ctx) limit k))" for k
    by (rule yields_query)
  then show ?thesis
    unfolding list_conversations_def by (intro keeps_intros yields_bnd)
qed

lemma yields_list_messages:
  assumes "ctx_user_id ctx \<noteq> wd_user v"
  shows "yields (undisturbed v w q) (\<lambda>(ms, cs, _). (\<forall>m \<in> set ms. m_id m \<notin> m_id ` set (w_messages w))
       \<and> (\<forall>p \<in> set cs. \<forall>ci \<in> set (snd p). ci_chunk_id ci \<notin> Some ` hidden w))
     (list_messages cc ctx i limit cursor)"
proof -
  let ?C = "\<lambda>cs. \<forall>p \<in> set cs. \<forall>ci \<in> set (snd p). ci_chunk_id ci \<notin> Some ` hidden w"
  let ?R = "\<lambda>(ms, cs, _). (\<forall>m \<in> set ms. m_id m \<notin> m_id ` set (w_messages w)) \<and> ?C cs"
  have quoted: "yields (undisturbed v w q) ?C (query (\<lambda>s. citations_for_messages s (map m_id ms)))"
    if "\<forall>m \<in> set ms. m_id m \<notin> m_id ` set (w_messages w)" for ms :: "message list"
  proof (rule yields_query)
    fix d
    assume d: "has_world v w d"
    show "?C (citations_for_messages d (map m_id ms))"
    proof (intro ballI)
      fix p ci
      assume p: "p \<in> set (citations_for_messages d (map m_id ms))" and ci: "ci \<in> set (snd p)"
      from p have "fst p \<in> m_id ` set ms" "snd p = citations_of d (fst p)" by (auto simp: citations_for_messages_def)
      with ci have "ci \<in> set (message_citations d)" "ci_message_id ci = fst p" by (simp_all add: citations_of_def)
      moreover have "fst p \<notin> m_id ` set (w_messages w)" using that \<open>fst p \<in> m_id ` set ms\<close> by (elim imageE) simp
      ultimately have "ci \<in> set (message_citations d)" "ci_message_id ci \<notin> m_id ` set (w_messages w)" by simp_all
      then show "ci_chunk_id ci \<notin> Some ` hidden w" using has_worldD(5) [OF d] unfolding cites_apart_def by blast
    qed
  qed
  have owned: "yields (undisturbed v w q) (\<lambda>_. i \<notin> c_id ` set (w_conversations w)) (get_conversation ctx i)"
    by (rule yields_mono [OF yields_owned [OF assms]]) simp
  have "\<forall>m \<in> set (fst (paginate cc (message_list_page d i limit k) limit msg_key)). m_id m \<notin> m_id ` set (w_messages w)"
    if "has_world v w d" "i \<notin> c_id ` set (w_conversations w)" for d k
    using foreign_message [OF that(1)] that(2) page_subset [of cc msg_key limit k "conv_messages d i" limit msg_key]
    by (fastforce simp: message_list_page_def conv_messages_def)
  then have page: "yields (undisturbed v w q) (\<lambda>rows. \<forall>m \<in> set (fst (paginate cc rows limit msg_key)). m_id m \<notin> m_id ` set (w_messages w))
     (query (\<lambda>s. message_list_page s i limit k))" if "i \<notin> c_id ` set (w_conversations w)" for k
    using that by (intro yields_query)
  show ?thesis
    unfolding list_messages_def
  proof (rule yields_bnd [OF owned], rule keeps_cases(3) [OF keeps_pure(2)])
    fix k
    assume i: "i \<notin> c_id ` set (w_conversations w)"
    show "yields (undisturbed v w q) ?R
       (bnd (query (\<lambda>s. message_list_page s i limit k)) (\<lambda>rows. let (items, next_cursor) = paginate cc rows limit msg_key
          in bnd (query (\<lambda>s. citations_for_messages s (map m_id items))) (\<lambda>citations. ret (items, citations, next_cursor))))"
      unfolding Let_def split_beta by (rule yields_bnd [OF page [OF i] yields_bnd [OF quoted]]) (simp_all add: keeps_pure)
  qed
qed

text \<open>Documents.\<close>

lemma keeps_doc_update:
  assumes "\<not> named v i" and "\<And>x. d_id (f x) = d_id x" "\<And>x. d_uploaded_by (f x) = d_uploaded_by x"
  shows "keeps (undisturbed v w q) (stmt (doc_update i f))"
  by (rule keeps_stmt) (rule world_doc_update [OF _ assms])

lemma keeps_enqueue_stage:
  "\<not> named v (d_id doc) \<Longrightarrow> keeps (undisturbed v w q) (enqueue_stage env doc st)"
  unfolding enqueue_stage_def by (intro keeps_intros keeps_doc_update) simp_all

lemma keeps_restart:
  "\<not> named v (d_id doc) \<Longrightarrow> keeps (undisturbed v w q) (restart_from_failed_stage env doc)"
  unfolding restart_from_failed_stage_def Let_def by (intro keeps_intros keeps_doc_update keeps_enqueue_stage) simp_all

lemma keeps_reset:
  "\<not> named v (d_id doc) \<Longrightarrow> keeps (undisturbed v w q) (reset_if_failed env doc)"
  unfolding reset_if_failed_def by (intro keeps_intros keeps_restart)

lemma yields_reload:
  assumes "\<not> named v (d_id doc)"
  shows "yields (undisturbed v w q) (\<lambda>d. \<not> named v (d_id d)) (reload doc)"
proof -
  have "d_id (case doc_by_id d (d_id doc) of None \<Rightarrow> doc | Some d' \<Rightarrow> d') = d_id doc" for d
    by (auto simp: doc_by_id_def dest!: find_SomeD split: option.split)
  then show ?thesis unfolding reload_def using assms by (intro yields_query) simp
qed

lemma yields_retry_document:
  assumes "ctx_user_id ctx \<noteq> wd_user v"
  shows "yields (undisturbed v w q) (\<lambda>d. \<not> named v (d_id d)) (retry_document env ctx i)"
  unfolding retry_document_def
  by (rule yields_bnd [OF yields_get_document [OF assms]]) (intro keeps_intros keeps_restart yields_reload)

lemma keeps_delete_document:
  assumes "ctx_user_id ctx \<noteq> wd_user v"
  shows "keeps (undisturbed v w q) (delete_document env ctx i)"
  unfolding delete_document_def
  by (rule yields_bnd [OF yields_get_document [OF assms]]) (intro keeps_intros keeps_stmt world_doc_delete)

lemma yields_list_documents:
  assumes "ctx_user_id ctx \<noteq> wd_user v"
  shows "yields (undisturbed v w q) (\<lambda>p. \<forall>d \<in> set (fst p). \<not> named v (d_id d))
     (list_documents cc ctx limit cursor status)"
proof -
  have "\<forall>x \<in> set (fst (paginate cc (doc_list_page d (ctx_user_id ctx) limit k status) limit doc_key_of)). \<not> named v (d_id x)"
    if "has_world v w d" for d k
    using foreign_document [OF that] assms
      page_subset [of cc doc_key_of limit k "user_documents d (ctx_user_id ctx) status" limit doc_key_of]
    by (fastforce simp: doc_list_page_def user_documents_def)
  then have page: "yields (undisturbed v w q) (\<lambda>rows. \<forall>d \<in> set (fst (paginate cc rows limit doc_key_of)). \<not> named v (d_id d))
     (query (\<lambda>s. doc_list_page s (ctx_user_id ctx) limit k status))" for k
    by (rule yields_query)
  show ?thesis
    unfolding list_documents_def by (rule keeps_cases(3) [OF keeps_pure(2)], rule yields_bnd [OF page], rule keeps_pure(1))
qed

text \<open>Uploads.\<close>

lemma keeps_resolve_source:
  assumes "ctx_user_id ctx \<noteq> wd_user v" and "spares v (u_race_source env)"
  shows "keeps (undisturbed v w q) (resolve_source_id env ctx sid)"
proof -
  have "keeps (undisturbed v w q) (stmt_opt (source_create_default i (ctx_user_id ctx) now))" for i now
    by (rule yields_stmt_opt) (use world_source_create [OF _ assms(1)] in blast)
  then show ?thesis unfolding resolve_source_id_def by (intro keeps_intros assms(2))
qed

lemma yields_by_checksum:
  assumes "ctx_user_id ctx \<noteq> wd_user v"
  shows "yields (undisturbed v w q) (\<lambda>x. \<forall>d. x = Some d \<longrightarrow> \<not> named v (d_id d))
     (query (\<lambda>s. doc_get_by_checksum s (ctx_user_id ctx) checksum))"
proof (rule yields_query, intro allI impI)
  fix d x
  assume d: "has_world v w d" and x: "doc_get_by_checksum d (ctx_user_id ctx) checksum = Some x"
  then have "x \<in> set (documents d)" "d_uploaded_by x = ctx_user_id ctx" by (auto simp: doc_get_by_checksum_def dest: find_SomeD)
  then show "\<not> named v (d_id x)" using foreign_document [OF d] assms by simp
qed

lemma yields_found:
  "\<forall>d. x = Some d \<longrightarrow> R d \<Longrightarrow> yields P R' n \<Longrightarrow> (\<And>d. R d \<Longrightarrow> yields P R' (f d)) \<Longrightarrow> yields P R' (case x of None \<Rightarrow> n | Some d \<Rightarrow> f d)"
  by (simp split: option.split)

lemma yields_store_new:
  assumes u: "ctx_user_id ctx \<noteq> wd_user v" and doc: "d_uploaded_by doc = ctx_user_id ctx" and race: "spares v (u_race_doc env)"
    and key: "d_storage_key doc = storage_prefix (d_id doc) @ name" "47 \<notin> set name" "name \<notin> {[], [46], [46, 46]}"
    and fresh: "\<not> named v (d_id doc)" and root: "dc_root cfg = wd_root v"
  shows "yields (undisturbed v w q) (\<lambda>p. \<not> named v (d_id (fst p))) (store_new cfg env ctx doc data)"
proof -
  let ?K = "undisturbed v w q" and ?free = "\<lambda>d. \<not> named v (d_id d)"
  let ?R = "\<lambda>x. case x of None \<Rightarrow> ?free doc | Some d \<Rightarrow> ?free d"
  have create: "yields ?K (\<lambda>_. ?free doc) (stmt_opt (doc_create doc))"
    by (rule yields_stmt_opt) (use world_doc_create [of v w _ doc] u doc fresh in simp)
  have put: "keeps ?K (fs_put (dc_root cfg) (d_storage_key doc) data)"
    unfolding root key(1) by (rule keeps_files(1) [OF fresh key(2,3)])
  have cleanup: "keeps ?K (fs_delete_prefix (dc_root cfg) (storage_prefix (d_id doc)))"
    unfolding root by (rule keeps_files(2) [OF fresh])
  have dup: "yields ?K ?R (bnd (query (\<lambda>s. doc_get_by_checksum s (ctx_user_id ctx) (d_checksum doc))) (\<lambda>duplicate.
      case duplicate of None \<Rightarrow> throw e | Some d \<Rightarrow> bnd (reset_if_failed env d) (\<lambda>_. bnd (reload d) (\<lambda>d. ret (Some d)))))" for e
    by (rule yields_bnd [OF yields_by_checksum [OF u]], erule yields_found)
      (auto intro!: keeps_intros keeps_reset yields_bnd [OF yields_reload])
  have inserted: "yields ?K ?R (bnd (stmt_opt (doc_create doc)) (\<lambda>_. bnd commit (\<lambda>_. ret None)))"
    by (rule yields_bnd [OF create]) (auto intro!: keeps_intros)
  show ?thesis
    unfolding store_new_def
  proof (rule keeps_bnd [OF keeps_pure(4)], rule keeps_bnd [OF put], rule keeps_bnd [OF keeps_race [OF race]],
      rule yields_bnd [OF keeps_try [OF inserted]])
    show "yields ?K ?R (if e = IntegrityError then bnd rollback (\<lambda>_. bnd (guard_fault (u_cleanup_fault env)) (\<lambda>_.
        bnd (fs_delete_prefix (dc_root cfg) (storage_prefix (d_id doc))) (\<lambda>_.
        bnd (query (\<lambda>s. doc_get_by_checksum s (ctx_user_id ctx) (d_checksum doc))) (\<lambda>duplicate.
        case duplicate of None \<Rightarrow> throw e
        | Some d \<Rightarrow> bnd (reset_if_failed env d) (\<lambda>_. bnd (reload d) (\<lambda>d. ret (Some d))))))) else throw e)" for e
      by (rule keeps_cases(1) [OF _ keeps_pure(2)], rule keeps_bnd [OF keeps_db(2)], rule keeps_bnd [OF keeps_pure(4)],
          rule keeps_bnd [OF cleanup], rule dup)
    fix x :: "document option"
    assume x: "?R x"
    show "yields ?K (\<lambda>p. ?free (fst p)) (case x of None \<Rightarrow> bnd (enqueue_stage env doc Parse) (\<lambda>_. bnd (reload doc) (\<lambda>d. ret (d, False)))
        | Some d \<Rightarrow> ret (d, True))"
      using x by (cases x) (auto intro!: keeps_pure(1) keeps_bnd keeps_enqueue_stage yields_bnd [OF yields_reload])
  qed
qed

text \<open>What an upload needs: an id of its own, the common storage directory and a \<^verbatim>\<open>str.lower\<close> that makes no slash.\<close>

definition uploads_apart :: "ward \<Rightarrow> doc_cfg \<Rightarrow> doc_env \<Rightarrow> bool" where
  "uploads_apart v cfg env \<longleftrightarrow> spares v (u_race_doc env) \<and> spares v (u_race_source env) \<and> \<not> named v (u_doc_id env)
     \<and> dc_root cfg = wd_root v \<and> (\<forall>x. 47 \<notin> set x \<longrightarrow> 47 \<notin> set (dc_lower cfg x))"

lemma split_on_parts: "p \<in> set (split_on c s) \<Longrightarrow> c \<notin> set p"
  by (induction c s arbitrary: p rule: split_on.induct) (auto split: list.splits if_splits)

lemma suffix_plain: "47 \<notin> set (posix_suffix s)"
proof -
  have "47 \<notin> set (posix_name s)"
  proof (cases "rev (filter (\<lambda>p. p \<noteq> [] \<and> p \<noteq> [46]) (split_on 47 s))")
    case (Cons p ps)
    then have "p \<in> set (rev (filter (\<lambda>p. p \<noteq> [] \<and> p \<noteq> [46]) (split_on 47 s)))" by simp
    then have "p \<in> set (split_on 47 s)" by simp
    with Cons show ?thesis by (simp add: posix_name_def split_on_parts)
  qed (simp add: posix_name_def)
  then show ?thesis by (auto simp: posix_suffix_def Let_def dest: in_set_dropD split: option.split)
qed

lemma yields_upload:
  assumes u: "ctx_user_id ctx \<noteq> wd_user v" and race: "uploads_apart v cfg env"
  shows "yields (undisturbed v w q) (\<lambda>p. \<not> named v (d_id (fst p))) (upload cfg env ctx filename ct data sid)"
proof -
  let ?K = "undisturbed v w q" and ?R = "\<lambda>p. \<not> named v (d_id (fst p))"
  have known: "yields ?K ?R (bnd (reset_if_failed env d) (\<lambda>_. bnd (reload d) (\<lambda>d. ret (d, True))))"
    if "\<not> named v (d_id d)" for d
    using that by (intro keeps_bnd keeps_reset yields_bnd [OF yields_reload]) (auto intro: keeps_pure)
  have new: "yields ?K ?R (bnd (resolve_source_id env ctx sid) (\<lambda>sid. store_new cfg env ctx (new_document cfg env ctx sid name mime data) data))"
    for name mime
  proof (rule keeps_bnd [OF keeps_resolve_source [OF u]])
    show "spares v (u_race_source env)" using race by (simp add: uploads_apart_def)
    fix sid
    show "yields ?K ?R (store_new cfg env ctx (new_document cfg env ctx sid name mime data) data)"
      by (rule yields_store_new [OF u, where name = "lit ''original'' @ dc_lower cfg (posix_suffix name)"])
        (use race suffix_plain in \<open>auto simp: uploads_apart_def new_document_def\<close>)
  qed
  have found: "yields ?K ?R (bnd (query (\<lambda>s. doc_get_by_checksum s (ctx_user_id ctx) (dc_sha256 cfg data))) (\<lambda>existing.
      case existing of Some d \<Rightarrow> bnd (reset_if_failed env d) (\<lambda>_. bnd (reload d) (\<lambda>d. ret (d, True)))
      | None \<Rightarrow> bnd (resolve_source_id env ctx sid) (\<lambda>sid. store_new cfg env ctx (new_document cfg env ctx sid name mime data) data)))"
    for name mime
    by (rule yields_bnd [OF yields_by_checksum [OF u]], erule yields_found, rule new, rule known)
  show ?thesis
    unfolding upload_def Let_def by (intro keeps_cases(2,3) keeps_pure(2) found)
qed

text \<open>Chat. A turn is apart if it cites none of the protected user's private chunks.\<close>

definition turn_apart :: "world \<Rightarrow> turn \<Rightarrow> bool" where
  "turn_apart w turn \<longleftrightarrow> (\<forall>c \<in> set (t_citations turn). rc_chunk_id c \<notin> hidden w)"

lemma turn_apart_items: "turn_apart w turn \<Longrightarrow> it \<in> set (citation_items (t_citations turn)) \<Longrightarrow> it_chunk_id it \<notin> hidden w"
  by (auto simp: turn_apart_def citation_items_def in_set_enumerate_eq)

lemma turn_apart_rows: "turn_apart w turn \<Longrightarrow> ci \<in> set (citation_rows env turn) \<Longrightarrow> ci_chunk_id ci \<notin> Some ` hidden w"
  by (auto simp: turn_apart_def citation_rows_def in_set_enumerate_eq)

lemma keeps_txn_b:
  assumes "spares v (ce_between env)" and "keeps (undisturbed v w q) m"
  shows "keeps (undisturbed v w q) (txn_b env p m)"
  unfolding txn_b_def by (intro keeps_intros assms)

lemma keeps_bump:
  assumes "i \<notin> c_id ` set (w_conversations w)"
  shows "keeps (undisturbed v w q) (bump_and_log env i l)"
proof -
  have "keeps (undisturbed v w q) (stmt (conv_bump_updated_at i now))" for now
    unfolding conv_bump_updated_at_def [abs_def] by (rule keeps_stmt) (rule world_conv_update [OF _ assms], simp_all)
  moreover have "keeps (undisturbed v w q) (stmt_exn (usage_add l))"
    by (rule yields_stmt_exn) (blast intro: world_usage_add)
  ultimately show ?thesis unfolding bump_and_log_def by (intro keeps_intros)
qed

lemma keeps_answer:
  assumes "m_conversation_id m \<notin> c_id ` set (w_conversations w)" and "m_id m = t_assistant_message_id turn" and "turn_apart w turn"
  shows "keeps (undisturbed v w q) (bnd (stmt_exn (message_add m)) (\<lambda>_. add_citations env turn))"
proof (rule yields_bnd [OF yields_stmt_exn])
  show "has_world v w d' \<and> m_id m \<notin> m_id ` set (w_messages w)" if "has_world v w d" "message_add m d = Inr d'" for d d'
    using world_message_add [OF that(1) assms(1) that(2)] by blast
  assume "m_id m \<notin> m_id ` set (w_messages w)"
  then have "\<forall>ci \<in> set (citation_rows env turn). ci_message_id ci \<notin> m_id ` set (w_messages w) \<and> ci_chunk_id ci \<notin> Some ` hidden w"
    using rows_are_items(2) [of env turn] turn_apart_rows [OF assms(3)] assms(2) by simp
  then show "keeps (undisturbed v w q) (add_citations env turn)"
    unfolding add_citations_def by (intro yields_stmt_exn) (blast intro: world_citations_add)
qed

lemma keeps_stored:
  assumes "m_conversation_id m \<notin> c_id ` set (w_conversations w)" and "m_id m = t_assistant_message_id turn"
    and "turn_apart w turn" and "i \<notin> c_id ` set (w_conversations w)"
  shows "keeps (undisturbed v w q) (bnd (stmt_exn (message_add m)) (\<lambda>_. bnd (add_citations env turn) (\<lambda>_. bump_and_log env i l)))"
  unfolding bnd_assoc [of "stmt_exn (message_add m)" "\<lambda>_. add_citations env turn" "\<lambda>_. bump_and_log env i l", symmetric]
  by (intro keeps_bnd keeps_answer keeps_bump assms)

lemma keeps_persist:
  assumes b: "spares v (ce_between env)" and i: "i \<notin> c_id ` set (w_conversations w)" and a: "turn_apart w turn"
  shows "keeps (undisturbed v w q) (persist_success cfg env ctx i turn buffer tokens l)"
    "keeps (undisturbed v w q) (persist_error cfg env ctx i turn buffer code)"
    "keeps (undisturbed v w q) (persist_cancelled cfg env p ctx i turn buffer)"
proof -
  have m: "m_conversation_id (assistant_message cfg env i turn buffer meta k l) = i"
    "m_id (assistant_message cfg env i turn buffer meta k l) = t_assistant_message_id turn" for meta k l
    by (simp_all add: assistant_message_def)
  note st = keeps_stored [of "assistant_message cfg env i turn buffer _ _ _", unfolded m, OF i refl a i]
  show "keeps (undisturbed v w q) (persist_success cfg env ctx i turn buffer tokens l)"
    unfolding persist_success_def by (intro keeps_bnd keeps_txn_b b st) (intro keeps_intros i)
  show "keeps (undisturbed v w q) (persist_cancelled cfg env p ctx i turn buffer)"
    unfolding persist_cancelled_def assistant_partial_def by (intro keeps_cases(1) keeps_pure(1) TrueI keeps_txn_b b st)
  show "keeps (undisturbed v w q) (persist_error cfg env ctx i turn buffer code)"
    unfolding persist_error_def assistant_partial_def
    by (intro keeps_txn_b b keeps_bnd keeps_cases(1) keeps_answer keeps_pure(1) TrueI keeps_bump i a) (simp_all add: m i)
qed

lemma keeps_guarded:
  assumes "spares v (ce_between env)" and "i \<notin> c_id ` set (w_conversations w)" and "turn_apart w turn"
  shows "keeps (undisturbed v w q) (persist_error_guarded cfg env ctx i turn buffer code)"
    "keeps (undisturbed v w q) (persist_cancelled_guarded cfg env ctx i turn buffer)"
  unfolding persist_error_guarded_def persist_cancelled_guarded_def by (intro keeps_intros keeps_persist assms)+

text \<open>The stream, on the state of a run.\<close>

abbreviation chat_has :: "ward \<Rightarrow> world \<Rightarrow> task_message list \<times> fs \<Rightarrow> chat_st \<Rightarrow> bool" where
  "chat_has v w q \<equiv> on_chat (undisturbed v w q) (\<lambda>i. i \<notin> hidden w)"

lemma keeps_chat_loop:
  "spares v (ce_between env) \<Longrightarrow> i \<notin> c_id ` set (w_conversations w) \<Longrightarrow> turn_apart w turn \<Longrightarrow> keeps (chat_has v w q) (chat_loop cfg env ctx i turn items)"
proof (induction cfg env ctx i turn items rule: chat_loop.induct)
  case (5 cfg env ctx i turn code m items)
  then show ?case by (simp, intro keeps_intros keeps_on_sys keeps_persist)
qed (simp_all, (intro keeps_intros | assumption)+)

lemma keeps_on_close:
  "spares v (ce_between env) \<Longrightarrow> i \<notin> c_id ` set (w_conversations w) \<Longrightarrow> turn_apart w turn \<Longrightarrow> keeps (chat_has v w q) (on_close cfg env ctx i turn e)"
  unfolding on_close_def by (intro keeps_intros keeps_on_sys keeps_persist keeps_guarded)

lemma keeps_finish:
  "spares v (ce_between env) \<Longrightarrow> i \<notin> c_id ` set (w_conversations w) \<Longrightarrow> turn_apart w turn \<Longrightarrow> keeps (chat_has v w q) (finish_phase cfg env ctx i turn)"
  unfolding finish_phase_def split_beta by (intro keeps_intros keeps_on_sys keeps_persist)

lemma yields_search:
  assumes u: "u \<noteq> wd_user v" and ix: "spares v (ix_between ix)"
  shows "yields (undisturbed v w q) (\<lambda>chunks. \<forall>c \<in> set chunks. rc_chunk_id c \<notin> hidden w) (hybrid_search ix u ids tokens qvec n)"
proof -
  let ?ids = "case ids of None \<Rightarrow> [] | Some ids \<Rightarrow> ids"
  have ranked: "yields (undisturbed v w q) (\<lambda>ranked. \<forall>p \<in> set ranked. fst p \<notin> hidden w)
      (query (search_ranked ix u ?ids (build_tsquery tokens) qvec n))"
  proof (rule yields_query, rule ballI)
    fix d p
    assume d: "has_world v w d" and p: "p \<in> set (search_ranked ix u ?ids (build_tsquery tokens) qvec n d)"
    have "\<exists>c \<in> set (document_chunks d). ck_id c = fst p \<and> eligible d u ?ids c"
      by (rule ranked_eligible [where score = "snd p"]) (use p in \<open>simp only: prod.collapse\<close>)
    then have "visible d u ids (fst p)" by (simp only: visible_def)
    then show "fst p \<notin> hidden w" by (rule visible_apart [OF d u])
  qed
  have loaded: "\<forall>c \<in> set (load_chunks ranked d). rc_chunk_id c \<notin> hidden w" if "\<forall>p \<in> set ranked. fst p \<notin> hidden w" for ranked d
  proof
    fix c assume "c \<in> set (load_chunks ranked d)"
    then have "(rc_chunk_id c, rc_score c) \<in> set (map (\<lambda>c. (rc_chunk_id c, rc_score c)) (load_chunks ranked d))" by auto
    then have "(rc_chunk_id c, rc_score c) \<in> set ranked" using list_emb_set [OF load_chunks_spec(3) [of ranked d]] by blast
    with that show "rc_chunk_id c \<notin> hidden w" by fastforce
  qed
  show ?thesis
    unfolding hybrid_search_def Let_def
    by (rule keeps_session, rule keeps_bnd [OF keeps_pure(4)], rule yields_bnd [OF ranked], rule keeps_cases(1) [OF keeps_pure(1)], simp,
        rule keeps_bnd [OF keeps_race [OF ix]], rule keeps_bnd [OF keeps_pure(4)], rule yields_query, rule loaded)
qed

lemma yields_retrieve:
  assumes "ctx_user_id ctx \<noteq> wd_user v" and "spares v (ix_between ix)"
  shows "yields (undisturbed v w q) (\<lambda>chunks. \<forall>c \<in> set chunks. rc_chunk_id c \<notin> hidden w) (retrieve ix ad qc cutter r ctx question ids n)"
  unfolding retrieve_def Let_def
  by (rule keeps_cases(3) [OF keeps_pure(2)], rule yields_bnd [OF yields_search [OF assms]])
    (auto simp: noop_rerank_def intro!: keeps_pure(1) dest!: in_set_takeD)

lemma yields_retrieval_phase:
  assumes u: "ctx_user_id ctx \<noteq> wd_user v" and b: "spares v (ce_between env)" and i: "i \<notin> c_id ` set (w_conversations w)"
    and r: "ce_retrieve env = retrieve ix ad qc cutter rd" "spares v (ix_between ix)" and a: "turn_apart w turn"
  shows "yields (chat_has v w q) (\<lambda>x. \<forall>t. x = Some t \<longrightarrow> turn_apart w t) (retrieval_phase cfg env ctx i content turn)"
proof -
  let ?R = "\<lambda>x. \<forall>t. x = Some t \<longrightarrow> turn_apart w t" and ?S = "\<lambda>x. \<forall>t. x = Inr t \<longrightarrow> turn_apart w t"
  have turn: "yields (undisturbed v w q) (turn_apart w) (retrieve_turn cfg env ctx content turn)"
    unfolding retrieve_turn_def r(1) Let_def split_beta
    by (rule yields_bnd [OF yields_retrieve [OF u r(2)]])
      (auto simp: turn_apart_def rag_system_prompt_def Let_def split_beta intro!: keeps_pure(1) dest!: subsetD [OF used_subset [OF surjective_pairing]])
  have failed: "yields (chat_has v w q) ?R (retrieval_failed cfg env ctx i turn e)" for e
    unfolding retrieval_failed_def Let_def split_beta
    by (intro keeps_bnd keeps_on_sys keeps_guarded b i a keeps_emit keeps_pure(1)) simp
  have announced: "yields (chat_has v w q) ?R (announce_citations env t)" if "turn_apart w t" for t
    unfolding announce_citations_def
    by (intro keeps_bnd keeps_cases(1) keeps_emit keeps_pure(1)) (use that turn_apart_items in auto)
  have result: "yields (chat_has v w q) ?S
      (try_except (bnd (on_sys (retrieve_turn cfg env ctx content turn)) (\<lambda>t. ret (Inr t))) (\<lambda>e. ret (Inl e)))"
    by (rule keeps_try_except [OF yields_bnd [OF keeps_on_sys [OF turn]]]) (simp_all add: keeps_pure)
  have rest: "yields (chat_has v w q) ?R (case x of Inl e \<Rightarrow> retrieval_failed cfg env ctx i turn e | Inr turn \<Rightarrow> announce_citations env turn)"
    if "?S x" for x using that failed announced by (cases x) auto
  show ?thesis
    unfolding retrieval_phase_def
    by (rule keeps_cases(1) [OF keeps_pure(1)], simp add: a, rule yields_bnd [OF result rest])
qed

lemma keeps_sources_owned: "keeps (holding J B G) (assert_sources_owned ctx ids)"
proof (induction ids)
  case (Cons i ids)
  then show ?case unfolding assert_sources_owned.simps by (intro keeps_intros)
qed (simp add: keeps_pure)

lemma yields_prepare:
  assumes u: "ctx_user_id ctx \<noteq> wd_user v"
  shows "yields (undisturbed v w q) (\<lambda>turn. i \<notin> c_id ` set (w_conversations w) \<and> turn_apart w turn)
     (prepare_turn cfg env ctx i content client_id ids)"
proof -
  have owned: "yields (undisturbed v w q) (\<lambda>x. \<forall>c. x = Some c \<longrightarrow> i \<notin> c_id ` set (w_conversations w))
     (query (\<lambda>s. conv_get_owned s (ctx_user_id ctx) i))"
  proof (rule yields_query, intro allI impI)
    fix d c
    assume d: "has_world v w d" and "conv_get_owned d (ctx_user_id ctx) i = Some c"
    then have "c_id c = i" "c \<in> set (conversations d)" "c_user_id c = ctx_user_id ctx"
      unfolding conv_get_owned_def by (auto dest: find_SomeD)
    then show "i \<notin> c_id ` set (w_conversations w)" using foreign_conversation [OF d, of c] u by simp
  qed
  have add: "keeps (undisturbed v w q) (stmt_exn (message_add (user_message env i content client_id)))"
    if i: "i \<notin> c_id ` set (w_conversations w)"
  proof (rule yields_stmt_exn, rule conjI [OF _ TrueI])
    show "has_world v w d'" if "has_world v w d" "message_add (user_message env i content client_id) d = Inr d'" for d d'
      by (rule world_message_add(1) [OF that(1) _ that(2)]) (simp add: user_message_def i)
  qed
  show ?thesis
    unfolding prepare_turn_def
    by (rule keeps_session, rule yields_bnd [OF owned], erule yields_found, rule keeps_pure(2))
      (intro keeps_intros keeps_sources_owned add | assumption | simp add: turn_apart_def)+
qed

lemma keeps_stream_reply:
  assumes u: "ctx_user_id ctx \<noteq> wd_user v" and b: "spares v (ce_between env)"
    and r: "ce_retrieve env = retrieve ix ad qc cutter rd" "spares v (ix_between ix)"
  shows "keeps (chat_has v w q) (stream_reply cfg env ctx i content client_id ids)"
  unfolding stream_reply_def
proof (rule yields_bnd [OF keeps_on_sys [OF yields_prepare [OF u]]])
  fix turn :: turn
  assume ia: "i \<notin> c_id ` set (w_conversations w) \<and> turn_apart w turn"
  then have i: "i \<notin> c_id ` set (w_conversations w)" and a: "turn_apart w turn" by simp_all
  have finish: "keeps (chat_has v w q) (case exit of Returned \<Rightarrow> ret () | Finished \<Rightarrow> finish_phase cfg env ctx i t)" if "turn_apart w t" for exit t
    using keeps_finish [OF b i that] by (auto intro: keeps_pure split: loop_exit.split)
  have answer: "keeps (chat_has v w q) (case next_turn of None \<Rightarrow> ret () | Some turn \<Rightarrow>
      bnd (try_with (chat_loop cfg env ctx i turn (ce_llm env (prompt_of turn) (t_params turn))) (on_close cfg env ctx i turn))
        (\<lambda>exit. case exit of Returned \<Rightarrow> ret () | Finished \<Rightarrow> finish_phase cfg env ctx i turn))"
    if "\<forall>t. next_turn = Some t \<longrightarrow> turn_apart w t" for next_turn
    using that by (auto intro!: keeps_pure(1) keeps_bnd keeps_try keeps_chat_loop [OF b i] keeps_on_close [OF b i] finish split: option.split)
  show "keeps (chat_has v w q) (bnd (emit_event env (Message_start (t_user_message_id turn) (t_assistant_message_id turn))) (\<lambda>_.
     bnd (retrieval_phase cfg env ctx i content turn) (\<lambda>next_turn.
     case next_turn of
       None \<Rightarrow> ret ()
     | Some turn \<Rightarrow>
         bnd (try_with (chat_loop cfg env ctx i turn (ce_llm env (prompt_of turn) (t_params turn)))
                (on_close cfg env ctx i turn)) (\<lambda>exit.
         case exit of Returned \<Rightarrow> ret () | Finished \<Rightarrow> finish_phase cfg env ctx i turn))))"
    by (rule keeps_bnd [OF keeps_emit(1)], rule yields_bnd [OF yields_retrieval_phase [OF u b i r a] answer])
qed

section \<open>Users are isolated\<close>

text \<open>
  A reply hides the protected user's data: it shows none of the user's conversations, messages and documents, and neither a
  message's citations nor the citation event of a stream names a private chunk of the user. A stream is the wire form of some
  events, with heartbeats in between.
\<close>

definition shows_nothing :: "world \<Rightarrow> message_out \<Rightarrow> bool" where
  "shows_nothing w m \<longleftrightarrow> mo_id m \<notin> m_id ` set (w_messages w) \<and> (\<forall>c \<in> set (mo_citations m). co_chunk_id c \<notin> Some ` hidden w)"

definition frame_hides :: "(rat \<Rightarrow> ustr) \<Rightarrow> world \<Rightarrow> ustr \<Rightarrow> bool" where
  "frame_hides frepr w frame \<longleftrightarrow>
     frame = PING \<or> (\<exists>ev. frame = format_event frepr ev \<and> (\<forall>it \<in> set (cited [ev]). it_chunk_id it \<notin> hidden w))"

fun hides :: "(rat \<Rightarrow> ustr) \<Rightarrow> ward \<Rightarrow> world \<Rightarrow> reply \<Rightarrow> bool" where
  "hides frepr v w (Rp_conversation c) \<longleftrightarrow> cv_out_id c \<notin> c_id ` set (w_conversations w)"
| "hides frepr v w (Rp_conversations cs next_cursor) \<longleftrightarrow> (\<forall>c \<in> set cs. cv_out_id c \<notin> c_id ` set (w_conversations w))"
| "hides frepr v w (Rp_messages ms next_cursor) \<longleftrightarrow> (\<forall>m \<in> set ms. shows_nothing w m)"
| "hides frepr v w (Rp_document d) \<longleftrightarrow> \<not> named v (dt_id d)"
| "hides frepr v w (Rp_uploaded d deduplicated) \<longleftrightarrow> \<not> named v (dt_id d)"
| "hides frepr v w (Rp_documents ds next_cursor) \<longleftrightarrow> (\<forall>d \<in> set ds. \<not> named v (dt_id d))"
| "hides frepr v w (Rp_stream frames) \<longleftrightarrow> (\<forall>frame \<in> set frames. frame_hides frepr w frame)"
| "hides frepr v w Rp_nothing \<longleftrightarrow> True"

definition apart :: "ward \<Rightarrow> api_env \<Rightarrow> bool" where
  \<comment> \<open>what others commit meanwhile spares the user too, uploads are apart, and chat has this program's retrieval behind it\<close>
  "apart v env \<longleftrightarrow> uploads_apart v (ae_doc_cfg env) (ae_doc env) \<and> spares v (ce_between (ae_chat env))
     \<and> (\<exists>ix ad qc cutter r. ce_retrieve (ae_chat env) = retrieve ix ad qc cutter r \<and> spares v (ix_between ix))"

lemma out_ids [simp]:
  "cv_out_id (conversation_out_of c) = c_id c" "dt_id (document_out_of d) = d_id d" "mo_id (message_out_of m cs) = m_id m"
  "mo_citations (message_out_of m cs) = map citation_out_of cs" "co_chunk_id (citation_out_of ci) = ci_chunk_id ci"
  by (simp_all add: conversation_out_of_def document_out_of_def message_out_of_def citation_out_of_def)

lemma yields_replies: "yields P R m \<Longrightarrow> (\<And>a. R a \<Longrightarrow> hides frepr v w (f a)) \<Longrightarrow> yields P (\<lambda>r. hides frepr v w (snd r)) (replies st f m)"
  unfolding replies_def by (erule yields_bnd) (simp add: keeps_pure)

lemma pump_hides:
  "\<forall>it \<in> set (cited evs). it_chunk_id it \<notin> hidden w \<Longrightarrow> \<forall>frame \<in> set (sse_pump frepr evs waits). frame_hides frepr w frame"
proof (induction frepr evs waits rule: sse_pump.induct)
  case (4 frepr ev evs waits)
  have "cited (ev # evs) = cited [ev] @ cited evs" using cited_append [of "[ev]" evs] by simp
  with 4 show ?case by (auto simp: frame_hides_def)
qed (auto simp: frame_hides_def)

lemma yields_send_message:
  assumes "ctx_user_id ctx \<noteq> wd_user v" and "spares v (ce_between env)"
    and "ce_retrieve env = retrieve ix ad qc cutter rd" "spares v (ix_between ix)"
  shows "yields (undisturbed v w q) (\<lambda>frames. hides frepr v w (Rp_stream frames)) (send_message cfg frepr env waits ctx i content client_id scope)"
proof -
  have run: "chat_has v w q (snd (run_chat cfg env ctx i content client_id ids s))" if "undisturbed v w q s" for s ids
    unfolding run_chat_def by (rule yieldsD(1) [OF keeps_stream_reply [OF assms]]) (simp add: chat_start_def cites_def that)
  show ?thesis
    unfolding yields_def
  proof (intro allI impI)
    fix s
    assume s: "undisturbed v w q s"
    obtain r t where t: "run_chat cfg env ctx i content client_id (scope_source_ids scope) s = (r, t)" by fastforce
    with run [OF s, of "scope_source_ids scope"] have u: "undisturbed v w q (ch_sys t)" and c: "cites (\<lambda>i. i \<notin> hidden w) t" by simp_all
    have "hides frepr v w (Rp_stream (format_event frepr first # sse_pump frepr rest waits))" if "ch_events t = first # rest" for first rest
      using c that cited_append [of "[first]" rest] pump_hides [of rest w frepr waits] by (auto simp: cites_def frame_hides_def)
    with s u show "wp (send_message cfg frepr env waits ctx i content client_id scope)
       (\<lambda>frames t. undisturbed v w q t \<and> hides frepr v w (Rp_stream frames)) (\<lambda>_. undisturbed v w q) s"
      by (simp add: wp_def send_message_def t split: list.split sum.split)
  qed
qed

lemma yields_conversation_requests:
  assumes u: "ctx_user_id ctx \<noteq> wd_user v"
  shows "yields (undisturbed v w q) (\<lambda>r. hides (ae_frepr env) v w (snd r)) (private_api env ctx (Rq_list_conversations limit cursor))"
    "yields (undisturbed v w q) (\<lambda>r. hides (ae_frepr env) v w (snd r)) (private_api env ctx (Rq_create_conversation title alias))"
    "yields (undisturbed v w q) (\<lambda>r. hides (ae_frepr env) v w (snd r)) (private_api env ctx (Rq_get_conversation i))"
    "yields (undisturbed v w q) (\<lambda>r. hides (ae_frepr env) v w (snd r)) (private_api env ctx (Rq_update_conversation i name))"
    "yields (undisturbed v w q) (\<lambda>r. hides (ae_frepr env) v w (snd r)) (private_api env ctx (Rq_delete_conversation i))"
    "yields (undisturbed v w q) (\<lambda>r. hides (ae_frepr env) v w (snd r)) (private_api env ctx (Rq_list_messages i limit cursor))"
proof -
  let ?K = "undisturbed v w q" and ?c = "\<lambda>i. i \<notin> c_id ` set (w_conversations w)"
  have "yields ?K (\<lambda>p. \<forall>c \<in> set (fst p). ?c (cv_out_id c)) (list_conversations_endpoint (ae_codec env) ctx limit cursor)"
    unfolding list_conversations_endpoint_def
    by (rule keeps_cases(1) [OF keeps_pure(2)], rule keeps_session, rule yields_bnd [OF yields_list_conversations [OF u]])
      (simp add: split_beta keeps_pure)
  then show "yields ?K (\<lambda>r. hides (ae_frepr env) v w (snd r)) (private_api env ctx (Rq_list_conversations limit cursor))"
    unfolding private_api_def private_request.case by (rule yields_replies) (simp add: split_beta)
  have "yields ?K (\<lambda>p. ?c (c_id (snd p))) (create_conversation_endpoint (ae_models env) (ae_conv env) ctx title alias)"
    unfolding create_conversation_endpoint_def
    by (rule keeps_cases(1) [OF keeps_pure(2)], rule keeps_session, rule yields_bnd [OF yields_create_conversation [OF u]])
      (simp add: keeps_pure)
  then show "yields ?K (\<lambda>r. hides (ae_frepr env) v w (snd r)) (private_api env ctx (Rq_create_conversation title alias))"
    unfolding private_api_def private_request.case by (rule yields_bnd) (simp add: split_beta keeps_pure)
  have "yields ?K (\<lambda>c. ?c (cv_out_id c)) (get_conversation_endpoint ctx i)"
    unfolding get_conversation_endpoint_def
    by (rule keeps_session, rule yields_bnd [OF yields_get_conversation [OF u]]) (simp add: keeps_pure)
  then show "yields ?K (\<lambda>r. hides (ae_frepr env) v w (snd r)) (private_api env ctx (Rq_get_conversation i))"
    unfolding private_api_def private_request.case by (rule yields_replies) simp
  have "yields ?K (\<lambda>p. ?c (c_id (snd p))) (update_conversation_endpoint (ae_conv env) ctx i name)"
    unfolding update_conversation_endpoint_def
    by (rule keeps_cases(1) [OF keeps_pure(2)], rule keeps_session, rule yields_bnd [OF yields_rename_conversation [OF u]])
      (simp add: keeps_pure)
  then show "yields ?K (\<lambda>r. hides (ae_frepr env) v w (snd r)) (private_api env ctx (Rq_update_conversation i name))"
    unfolding private_api_def private_request.case by (rule yields_bnd) (simp add: split_beta keeps_pure)
  show "yields ?K (\<lambda>r. hides (ae_frepr env) v w (snd r)) (private_api env ctx (Rq_delete_conversation i))"
    unfolding private_api_def private_request.case delete_conversation_endpoint_def
    by (intro keeps_bnd keeps_session keeps_delete_conversation u keeps_pure) simp_all
  have "yields ?K (\<lambda>p. \<forall>m \<in> set (fst p). shows_nothing w m) (list_messages_endpoint (ae_codec env) ctx i limit cursor)"
    unfolding list_messages_endpoint_def
  proof (rule keeps_cases(1) [OF keeps_pure(2)], rule keeps_session, rule yields_bnd [OF yields_list_messages [OF u]])
    fix a :: "message list \<times> (uuid \<times> message_citation list) list \<times> ustr option"
    obtain ms cs c where a: "a = (ms, cs, c)" by (cases a)
    assume "case a of (ms, cs, _) \<Rightarrow> (\<forall>m \<in> set ms. m_id m \<notin> m_id ` set (w_messages w))
       \<and> (\<forall>p \<in> set cs. \<forall>ci \<in> set (snd p). ci_chunk_id ci \<notin> Some ` hidden w)"
    then have ms: "\<forall>m \<in> set ms. m_id m \<notin> m_id ` set (w_messages w)"
      and cs: "\<forall>p \<in> set cs. \<forall>ci \<in> set (snd p). ci_chunk_id ci \<notin> Some ` hidden w" unfolding a prod.case by (rule conjunct1, rule conjunct2)
    have "shows_nothing w (message_out_of m (case map_of cs (m_id m) of None \<Rightarrow> [] | Some cs \<Rightarrow> cs))" if "m \<in> set ms" for m
    proof (cases "map_of cs (m_id m)")
      case (Some cis)
      from cs map_of_SomeD [OF Some] have "\<forall>ci \<in> set cis. ci_chunk_id ci \<notin> Some ` hidden w" by (metis snd_conv)
      then show ?thesis using ms that Some by (simp only: shows_nothing_def out_ids option.case set_map ball_simps) simp
    qed (use ms that in \<open>simp add: shows_nothing_def\<close>)
    then show "yields ?K (\<lambda>p. \<forall>m \<in> set (fst p). shows_nothing w m) (case a of (items, citations, next_cursor) \<Rightarrow>
        ret (map (\<lambda>m. message_out_of m (case map_of citations (m_id m) of None \<Rightarrow> [] | Some cs \<Rightarrow> cs)) items, next_cursor))"
      by (simp add: a keeps_pure)
  qed
  then show "yields ?K (\<lambda>r. hides (ae_frepr env) v w (snd r)) (private_api env ctx (Rq_list_messages i limit cursor))"
    unfolding private_api_def private_request.case by (rule yields_replies) (simp add: split_beta)
qed

lemma yields_document_requests:
  assumes u: "ctx_user_id ctx \<noteq> wd_user v" and race: "uploads_apart v (ae_doc_cfg env) (ae_doc env)"
  shows "yields (undisturbed v w q) (\<lambda>r. hides (ae_frepr env) v w (snd r)) (private_api env ctx (Rq_upload_document filename ct data sid))"
    "yields (undisturbed v w q) (\<lambda>r. hides (ae_frepr env) v w (snd r)) (private_api env ctx (Rq_list_documents limit cursor name))"
    "yields (undisturbed v w q) (\<lambda>r. hides (ae_frepr env) v w (snd r)) (private_api env ctx (Rq_get_document i))"
    "yields (undisturbed v w q) (\<lambda>r. hides (ae_frepr env) v w (snd r)) (private_api env ctx (Rq_retry_document i))"
    "yields (undisturbed v w q) (\<lambda>r. hides (ae_frepr env) v w (snd r)) (private_api env ctx (Rq_delete_document i))"
proof -
  let ?K = "undisturbed v w q" and ?d = "\<lambda>i. \<not> named v i"
  have "yields ?K (\<lambda>p. ?d (d_id (fst (snd p)))) (upload_document (ae_doc_cfg env) (ae_doc env) (ae_max_upload_mb env) ctx filename ct data sid)"
    unfolding upload_document_def
    by (rule keeps_cases(3) [OF keeps_pure(2)], rule keeps_session, rule yields_bnd [OF yields_upload [OF u race]])
      (simp add: split_beta keeps_pure)
  then show "yields ?K (\<lambda>r. hides (ae_frepr env) v w (snd r)) (private_api env ctx (Rq_upload_document filename ct data sid))"
    unfolding private_api_def private_request.case by (rule yields_bnd) (simp add: split_beta keeps_pure)
  have "yields ?K (\<lambda>p. \<forall>d \<in> set (fst p). ?d (dt_id d))
      (bnd (list_documents (ae_codec env) ctx (nat limit) cursor st) (\<lambda>(items, next_cursor). ret (map document_out_of items, next_cursor)))" for st
    by (rule yields_bnd [OF yields_list_documents [OF u]]) (simp add: split_beta keeps_pure)
  then have "yields ?K (\<lambda>p. \<forall>d \<in> set (fst p). ?d (dt_id d)) (list_documents_endpoint (ae_codec env) ctx limit cursor name)"
    unfolding list_documents_endpoint_def
    by (intro keeps_cases keeps_pure keeps_session) simp_all
  then show "yields ?K (\<lambda>r. hides (ae_frepr env) v w (snd r)) (private_api env ctx (Rq_list_documents limit cursor name))"
    unfolding private_api_def private_request.case by (rule yields_replies) (simp add: split_beta)
  have "yields ?K (\<lambda>d. ?d (dt_id d)) (get_document_endpoint ctx i)"
    unfolding get_document_endpoint_def
    by (rule keeps_session, rule yields_bnd [OF yields_get_document [OF u]]) (simp add: keeps_pure)
  then show "yields ?K (\<lambda>r. hides (ae_frepr env) v w (snd r)) (private_api env ctx (Rq_get_document i))"
    unfolding private_api_def private_request.case by (rule yields_replies) simp
  have "yields ?K (\<lambda>p. ?d (dt_id (snd p))) (retry_document_endpoint (ae_doc env) ctx i)"
    unfolding retry_document_endpoint_def
    by (rule keeps_session, rule yields_bnd [OF yields_retry_document [OF u]]) (simp add: keeps_pure)
  then show "yields ?K (\<lambda>r. hides (ae_frepr env) v w (snd r)) (private_api env ctx (Rq_retry_document i))"
    unfolding private_api_def private_request.case by (rule yields_bnd) (simp add: split_beta keeps_pure)
  show "yields ?K (\<lambda>r. hides (ae_frepr env) v w (snd r)) (private_api env ctx (Rq_delete_document i))"
    unfolding private_api_def private_request.case delete_document_endpoint_def
    by (intro keeps_bnd keeps_session keeps_delete_document u keeps_pure) simp_all
qed

lemma yields_private_api:
  assumes u: "ctx_user_id ctx \<noteq> wd_user v" and env: "apart v env"
  shows "yields (undisturbed v w q) (\<lambda>r. hides (ae_frepr env) v w (snd r)) (private_api env ctx rq)"
proof (cases rq)
  case (Rq_send_message i content client_id scope)
  obtain ix ad qc cutter r where "spares v (ce_between (ae_chat env))" "ce_retrieve (ae_chat env) = retrieve ix ad qc cutter r"
    "spares v (ix_between ix)" using env unfolding apart_def by blast
  from yields_send_message [OF u this] show ?thesis
    unfolding Rq_send_message private_api_def private_request.case by (rule yields_replies)
qed (use env in \<open>simp_all add: apart_def yields_conversation_requests [OF u] yields_document_requests [OF u]\<close>)

text \<open>
  C1: users are isolated. Whatever a user asks of the API, with any ids, cursors, titles and files, any answers and faults of
  storage, broker, retrieval and model, and any end of a stream: another user's conversations, messages, citations, sources, documents,
  chunks and ingestion jobs are afterwards exactly what they were, and so are that user's stored files and the queued tasks that
  concern them, purges included; and no reply shows a conversation, message or document of that user, nor does a citation in it, of a
  stored message or of a stream, name a chunk of that user that is not shared law. The condition on stored citations says that so far
  nobody else's message cites such a chunk; it is kept, too. That holds with commits of other requests in the middle of this one, as long as these
  respect that user's data, and with uploads under fresh ids. Accounts, tokens and usage logs are not part of a user's data here.
\<close>

theorem users_are_isolated:
  assumes "pending s = committed s" and "keyed (committed s)" and "documents_named v (committed s)"
    and "cites_apart (user_world (wd_user v) (committed s)) (message_citations (committed s))"
    and "apart v env" and "ctx_user_id ctx \<noteq> wd_user v"
    and "private_api env ctx rq s = (r, t)"
  shows "user_world (wd_user v) (committed t) = user_world (wd_user v) (committed s)
     \<and> same_files v (files s) (files t)
     \<and> own_tasks v (user_world (wd_user v) (committed s)) (broker t) = own_tasks v (user_world (wd_user v) (committed s)) (broker s)
     \<and> (case r of Inl e \<Rightarrow> True | Inr (st, rp) \<Rightarrow> hides (ae_frepr env) v (user_world (wd_user v) (committed s)) rp)
     \<and> cites_apart (user_world (wd_user v) (committed s)) (message_citations (committed t))"
proof -
  let ?w = "user_world (wd_user v) (committed s)"
  let ?q = "(own_tasks v ?w (broker s), files s)"
  have s: "undisturbed v ?w ?q s" using assms(1-4) by (simp add: holding_def has_world_def same_files_def)
  note step = yieldsD [OF yields_private_api [OF assms(6,5), of ?w ?q rq] s, unfolded assms(7)]
  have "user_world (wd_user v) (committed t) = ?w \<and> same_files v (files s) (files t) \<and> own_tasks v ?w (broker t) = own_tasks v ?w (broker s)
     \<and> cites_apart ?w (message_citations (committed t))"
    using step(1) by (simp add: holding_def has_world_def)
  then show ?thesis using step(2) by (cases r) (auto simp: split_beta)
qed

end
