(* ===== verification/Isolated_System.thy ===== *)
theory Isolated_System
  imports Isolation Auth
begin

text \<open>
  The whole system, seen by one user: requests of other users, sign-ups and logins, and runs of the worker's tasks on other
  users' documents and conversations, in any order, leave that user's data alone. Each operation is shown to
  preserve \<open>has_world v w\<close> with the calculus of theory \<open>Isolation\<close>; the system is the step relation \<open>other_step\<close>.
\<close>

section \<open>Statements of the worker\<close>

lemma world_same:
  assumes "has_world v w d" and "conversations d' = conversations d" "messages d' = messages d"
    "message_citations d' = message_citations d" "knowledge_sources d' = knowledge_sources d" "documents d' = documents d"
    "document_chunks d' = document_chunks d" "ingestion_jobs d' = ingestion_jobs d"
  shows "has_world v w d'"
  using assms by (simp add: has_world_def user_world_def user_messages_def user_conversations_def user_documents_def keyed_def documents_named_def)

lemma world_documents:
  assumes w: "has_world v w d" and p: "\<And>x. p x \<Longrightarrow> \<not> named v (d_id x)"
    and f: "\<And>x. d_id (f x) = d_id x" "\<And>x. d_uploaded_by (f x) = d_uploaded_by x"
  shows "has_world v w (d\<lparr>documents := update_where p f (documents d)\<rparr>)"
proof -
  have "user_documents (d\<lparr>documents := update_where p f (documents d)\<rparr>) (wd_user v) None = user_documents d (wd_user v) None"
    unfolding user_documents_def
    by (simp, rule filter_update_where) (use own_documents [OF w] p f in auto)
  then show ?thesis
    using w named_update [of v d f p] f
    by (simp add: has_world_def user_world_def user_messages_def user_conversations_def keyed_def map_update_where)
qed

lemma world_jobs:
  assumes w: "has_world v w d"
    and J: "filter (\<lambda>j. j_document_id j \<in> d_id ` set (w_documents w)) J
        = filter (\<lambda>j. j_document_id j \<in> d_id ` set (w_documents w)) (ingestion_jobs d)"
  shows "has_world v w (d\<lparr>ingestion_jobs := J\<rparr>)"
  using w J unfolding has_worldD(3) [OF w]
  by (simp add: has_world_def user_world_def user_messages_def user_conversations_def user_documents_def keyed_def documents_named_def)

lemma world_chunks:
  assumes w: "has_world v w d" and K: "distinct (map ck_id K)"
      "filter (\<lambda>k. ck_document_id k \<in> d_id ` set (w_documents w)) K
        = filter (\<lambda>k. ck_document_id k \<in> d_id ` set (w_documents w)) (document_chunks d)"
  shows "has_world v w (d\<lparr>document_chunks := K\<rparr>)"
  using w K unfolding has_worldD(3) [OF w]
  by (simp add: has_world_def user_world_def user_messages_def user_conversations_def user_documents_def keyed_def documents_named_def)

lemma world_claim:
  "has_world v w d \<Longrightarrow> \<not> named v i \<Longrightarrow> has_world v w (fst (doc_claim i allowed to now d))"
  unfolding doc_claim_def fst_conv by (rule world_documents) auto

lemma world_job_update:
  assumes "has_world v w d" and "\<not> named v i" and "\<And>j. j_document_id (f j) = j_document_id j"
  shows "has_world v w (d\<lparr>ingestion_jobs := update_where (\<lambda>j. j_document_id j = i \<and> j_stage j = st) f (ingestion_jobs d)\<rparr>)"
proof (rule world_jobs [OF assms(1) filter_update_where])
  fix j :: ingestion_job
  assume "j_document_id j = i \<and> j_stage j = st"
  with unnamed [OF assms(1,2)] show "j_document_id j \<notin> d_id ` set (w_documents w) \<and> j_document_id (f j) \<notin> d_id ` set (w_documents w)"
    by (simp add: assms(3))
qed

lemma world_job_upserts:
  assumes "has_world v w d" and "\<not> named v i"
  shows "job_mark_running i st fresh now d = Some d' \<Longrightarrow> has_world v w d'"
    "job_mark_finished i st status err fresh now d = Some d' \<Longrightarrow> has_world v w d'"
proof -
  have add: "has_world v w (d\<lparr>ingestion_jobs := ingestion_jobs d @ [j]\<rparr>)" if "j_document_id j = i" for j
    by (rule world_jobs [OF assms(1)]) (simp add: that unnamed [OF assms(1,2)])
  note upd = world_job_update [OF assms, of _ st]
  have "case job_mark_running i st fresh now d of None \<Rightarrow> True | Some d' \<Rightarrow> has_world v w d'"
    "case job_mark_finished i st status err fresh now d of None \<Rightarrow> True | Some d' \<Rightarrow> has_world v w d'"
    by (simp_all add: job_mark_running_def job_mark_finished_def upd add)
  then show "job_mark_running i st fresh now d = Some d' \<Longrightarrow> has_world v w d'"
    "job_mark_finished i st status err fresh now d = Some d' \<Longrightarrow> has_world v w d'" by simp_all
qed

lemma world_replace:
  assumes w: "has_world v w d" and i: "\<not> named v i"
    and d': "chunk_replace_for_document cutter fresh i drafts d = Some d'"
  shows "has_world v w d'"
proof -
  let ?mine = "\<lambda>k. ck_document_id k \<in> d_id ` set (w_documents w)" and ?kept = "filter (\<lambda>c. ck_document_id c \<noteq> i) (document_chunks d)"
    and ?rows = "chunk_rows cutter fresh i drafts"
  have kept: "filter ?mine ?kept = filter ?mine (document_chunks d)" using unnamed [OF w i] by (auto intro: filter_cong)
  have rows: "filter ?mine ?rows = []" using unnamed [OF w i] by (auto simp: filter_empty_conv chunk_rows_def chunk_row_def)
  have "distinct (map ck_id ?kept)" using w by (simp add: has_world_def keyed_def distinct_map_filter)
  with d' kept rows show ?thesis
    by (auto simp: chunk_replace_for_document_def Let_def split: if_splits intro!: world_chunks [OF w])
qed

lemma world_vectors:
  assumes w: "has_world v w d" and ids: "fst ` set vs \<inter> ck_id ` set (w_chunks w) = {}"
  shows "has_world v w (chunk_set_embeddings vs version d)"
  unfolding chunk_set_embeddings_eq
proof (rule world_chunks [OF w])
  let ?mine = "\<lambda>k. ck_document_id k \<in> d_id ` set (w_documents w)"
  have chunks: "w_chunks w = filter ?mine (document_chunks d)" using w by (auto simp: has_world_def user_world_def)
  have "map ck_id (map (with_vectors vs version) (document_chunks d)) = map ck_id (document_chunks d)" by simp
  then show "distinct (map ck_id (map (with_vectors vs version) (document_chunks d)))"
    using w unfolding has_world_def keyed_def by (simp only: simp_thms)
  have same: "with_vectors vs version k = k" if "k \<in> set (w_chunks w)" for k
  proof -
    have "ck_id k \<notin> fst ` set (rev vs)" using ids that by auto
    then have "map_of (rev vs) (ck_id k) = None" by (simp only: map_of_eq_None_iff not_False_eq_True)
    then show ?thesis by (simp add: with_vectors_def)
  qed
  have "filter ?mine (map (with_vectors vs version) (document_chunks d)) = map (with_vectors vs version) (w_chunks w)"
    by (simp add: chunks filter_map o_def)
  also have "\<dots> = w_chunks w" by (rule map_idI) (rule same)
  finally show "filter ?mine (map (with_vectors vs version) (document_chunks d)) = filter ?mine (document_chunks d)"
    by (simp add: chunks)
qed

section \<open>The worker\<close>

lemma keeps_reach [keeps_intros]: "keeps P (reach env p)"
  by (simp add: reach_def keeps_pure)

lemma keeps_fs_get [keeps_intros]: "keeps (holding J B G) (fs_get base key)"
  unfolding fs_get_def by (intro keeps_intros)

lemma keeps_keys [keeps_intros]:
  "keeps (holding J B G) (read_key cfg env key)"
  unfolding read_key_def
  by (rule keeps_try, intro keeps_intros, simp add: keeps_pure split: exn.split)

lemma keeps_write [keeps_intros]:
  assumes "\<not> named v i" and "cfg_root cfg = wd_root v"
  shows "keeps (undisturbed v w q) (write_key cfg env (normalized_key i) data)"
proof -
  have key: "normalized_key i = storage_prefix i @ lit ''normalized.json''" by (simp add: normalized_key_def storage_prefix_def)
  have "keeps (undisturbed v w q) (fs_put (cfg_root cfg) (normalized_key i) data)"
    unfolding key assms(2) by (rule keeps_files(1) [OF assms(1)]) simp_all
  then show ?thesis
    unfolding write_key_def by (intro keeps_try keeps_bnd keeps_reach) (simp_all add: keeps_pure split: exn.split)
qed

lemma keeps_unless_missing [keeps_intros]:
  "yields P R m \<Longrightarrow> R None \<Longrightarrow> yields P R (try_with m (\<lambda>e. case e of FileNotFoundError \<Rightarrow> ret None | _ \<Rightarrow> throw e))"
  by (rule keeps_try) (simp_all add: keeps_pure split: exn.split)

lemma keeps_statements:
  assumes "\<not> named v i"
  shows "keeps (undisturbed v w q) (stmt (\<lambda>d. fst (doc_claim i allowed to now d)))"
    "keeps (undisturbed v w q) (stmt_opt (job_mark_running i st fresh now))"
    "keeps (undisturbed v w q) (stmt_opt (job_mark_finished i st status err fresh now))"
    "keeps (undisturbed v w q) (stmt (doc_set_status i to now))"
    "keeps (undisturbed v w q) (stmt (doc_set_failed i error now))"
    "keeps (undisturbed v w q) (stmt_opt (chunk_replace_for_document cutter fresh' i drafts))"
proof -
  show "keeps (undisturbed v w q) (stmt (\<lambda>d. fst (doc_claim i allowed to now d)))"
    by (rule keeps_stmt) (rule world_claim [OF _ assms])
  show "keeps (undisturbed v w q) (stmt (doc_set_status i to now))"
    "keeps (undisturbed v w q) (stmt (doc_set_failed i error now))"
    unfolding doc_set_status_def [abs_def] doc_set_failed_def [abs_def] by (rule keeps_doc_update [OF assms]; simp)+
  show "keeps (undisturbed v w q) (stmt_opt (job_mark_running i st fresh now))"
    by (rule yields_stmt_opt) (use world_job_upserts(1) [OF _ assms] in blast)
  show "keeps (undisturbed v w q) (stmt_opt (job_mark_finished i st status err fresh now))"
    by (rule yields_stmt_opt) (use world_job_upserts(2) [OF _ assms] in blast)
  show "keeps (undisturbed v w q) (stmt_opt (chunk_replace_for_document cutter fresh' i drafts))"
    by (rule yields_stmt_opt) (use world_replace [OF _ assms] in blast)
qed

lemma keeps_transitions:
  assumes i: "\<not> named v i"
  shows "keeps (undisturbed v w q) (claim env i allowed to st)"
    "keeps (undisturbed v w q) (succeed env i st to)"
    "keeps (undisturbed v w q) (fail env i st error)"
    "keeps (undisturbed v w q) (shell_fail env i st error)"
proof -
  show "keeps (undisturbed v w q) (claim env i allowed to st)" "keeps (undisturbed v w q) (succeed env i st to)"
    and f: "keeps (undisturbed v w q) (fail env i st error)"
    unfolding claim_def succeed_def fail_def by (intro keeps_intros keeps_statements i)+
  show "keeps (undisturbed v w q) (shell_fail env i st error)"
    unfolding shell_fail_def mark_stage_failed_def by (intro keeps_intros f)
qed

lemma keeps_parse:
  assumes i: "\<not> named v i" and root: "cfg_root cfg = wd_root v"
  shows "keeps (undisturbed v w q) (parse_stage cfg env i)"
proof -
  have parsed: "keeps (undisturbed v w q) (case r of Inl (ParseError m) \<Rightarrow> bnd (fail env i Parse m) (\<lambda>_. ret False)
      | Inr nd \<Rightarrow> bnd (write_key cfg env (normalized_key i) (cfg_dump cfg nd)) (\<lambda>_. bnd (succeed env i Parse St_chunking) (\<lambda>_. ret True)))"
    for r by (auto intro!: keeps_intros keeps_transitions i root split: sum.split parse_error.split)
  show ?thesis unfolding parse_stage_def parse_body_def by (intro keeps_intros keeps_transitions i parsed)
qed

lemma keeps_chunk:
  assumes i: "\<not> named v i"
  shows "keeps (undisturbed v w q) (chunk_stage cfg env i)"
  unfolding chunk_stage_def chunk_body_def by (intro keeps_intros keeps_transitions keeps_statements i)

lemma keeps_embed_batch:
  assumes i: "\<not> named v i" and d: "has_world v w d"
  shows "keeps (undisturbed v w q) (embed_batch cfg env i k (chunk_list_unembedded d i n))"
proof -
  let ?batch = "chunk_list_unembedded d i n"
  have "ck_id c \<notin> ck_id ` set (w_chunks w)" if "c \<in> set ?batch" for c
  proof -
    have "c \<in> set (document_chunks d)" "ck_document_id c = i"
      using that by (auto simp: chunk_list_unembedded_def dest!: in_set_takeD)
    then show ?thesis using unnamed [OF d i] foreign_chunk [OF d, of c] by simp
  qed
  then have "set (map ck_id ?batch) \<inter> ck_id ` set (w_chunks w) = {}" by auto
  moreover have "fst ` set (zip (map ck_id ?batch) vectors) \<subseteq> set (map ck_id ?batch)" for vectors
    by (auto dest: set_zip_leftD)
  ultimately have "fst ` set (zip (map ck_id ?batch) vectors) \<inter> ck_id ` set (w_chunks w) = {}" for vectors by blast
  then have "keeps (undisturbed v w q) (stmt (chunk_set_embeddings (zip (map ck_id ?batch) vectors) version))" for vectors version
    by (intro keeps_stmt) (rule world_vectors)
  then show ?thesis
    unfolding embed_batch_def
    by (auto intro!: keeps_bnd keeps_reach keeps_pure keeps_db keeps_transitions i split: sum.split)
qed

lemma keeps_embed_loop:
  assumes i: "\<not> named v i"
  shows "keeps (undisturbed v w q) (embed_loop cfg env i k)"
proof -
  have "undisturbed v w q s \<Longrightarrow> \<not> named v i \<Longrightarrow> undisturbed v w q (snd (embed_loop cfg env i k s))" for s
  proof (induction cfg env i k s rule: embed_loop.induct)
    case (1 cfg env i k s)
    let ?batch = "chunk_list_unembedded (pending s) i (cfg_batch_size cfg)"
    obtain r t where step: "embed_batch cfg env i k ?batch s = (r, t)" by fastforce
    have "has_world v w (pending s)" using "1.prems"(1) by (simp add: holding_def)
    from yieldsD(1) [OF keeps_embed_batch [OF "1.prems"(2) this] "1.prems"(1)] step
    have t: "undisturbed v w q t" by (metis snd_conv)
    show ?case
      using "1.IH" [OF _ refl _ step [symmetric]] "1.prems" step t
      by (subst embed_loop.simps) (simp add: Let_def split: option.split sum.split bool.split)
  qed
  with i show ?thesis by (auto simp: yields_def wp_def split: prod.split sum.split) (metis snd_conv)+
qed

lemma keeps_embed:
  assumes i: "\<not> named v i"
  shows "keeps (undisturbed v w q) (embed_stage cfg env i)"
  unfolding embed_stage_def by (intro keeps_intros keeps_transitions keeps_embed_loop i)

lemma keeps_run_stage:
  assumes i: "\<not> named v i" and root: "cfg_root cfg = wd_root v"
  shows "keeps (undisturbed v w q) (run_stage cfg env env' st i retries)"
proof -
  have "keeps (undisturbed v w q) (stage_fn st cfg env i)"
    by (cases st) (simp_all add: stage_fn_def keeps_parse keeps_chunk keeps_embed i root)
  then show ?thesis unfolding run_stage_def task_retry_def by (intro keeps_intros keeps_transitions i)
qed

lemma keeps_purge:
  assumes i: "\<not> named v i" and root: "cfg_root cfg = wd_root v"
  shows "keeps (undisturbed v w q) (purge_document cfg env (storage_prefix i) retries countdown)"
  unfolding purge_document_def root
  by (rule keeps_try, intro keeps_intros keeps_files(2) i) (auto intro!: keeps_intros i split: exn.split)

lemma keeps_title:
  assumes i: "i \<notin> c_id ` set (w_conversations w)" and b: "spares v (te_between env)"
  shows "keeps (undisturbed v w q) (generate_title cfg env i)"
proof -
  have set_title: "keeps (undisturbed v w q) (stmt_exn (conv_set_title_if_null i title now))" for title now
    by (rule keeps_conv_update [OF i, where f = "\<lambda>c. if c_title c = None then c\<lparr>c_title := Some title, c_updated_at := now\<rparr> else c"])
      (simp_all add: conv_set_title_if_null_def split: if_splits)
  have "keeps (undisturbed v w q) (generate_title_body cfg env i)"
    unfolding generate_title_body_def Let_def split_beta
    by (intro keeps_intros keeps_race b set_title)
  then show ?thesis unfolding generate_title_def run_title_def by (intro keeps_intros)
qed

section \<open>Signing up and in\<close>

lemma keeps_accounts:
  assumes "spares v (au_race env)"
  shows "keeps (undisturbed v w q) (register_endpoint cfg env is_email email password)"
    "keeps (undisturbed v w q) (login_endpoint cfg env is_email email password agent)"
    "keeps (undisturbed v w q) (refresh_endpoint cfg env cookie agent)"
    "keeps (undisturbed v w q) (logout_endpoint cfg env cookie)"
    "keeps (undisturbed v w q) (me ctx)"
proof -
  have st: "keeps (undisturbed v w q) (stmt_exn (user_create u))"
    "keeps (undisturbed v w q) (stmt_exn (user_set_hash i h now))"
    "keeps (undisturbed v w q) (stmt_exn (token_create tk))" for u i h now tk
    by (rule yields_stmt_exn,
        auto simp: user_create_def user_set_hash_def token_create_def split: if_splits elim!: world_same)+
  have tk: "keeps (undisturbed v w q) (stmt (revoke_family fam now))" "keeps (undisturbed v w q) (stmt (rotate_out i new now))"
    for fam i new now
    by (rule keeps_stmt, erule world_same; simp add: revoke_family_def rotate_out_def)+
  note account_defs = register_endpoint_def register_def login_endpoint_def login_def refresh_endpoint_def refresh_def
    logout_endpoint_def logout_def me_def issue_def Let_def split_beta
  show "keeps (undisturbed v w q) (register_endpoint cfg env is_email email password)"
    "keeps (undisturbed v w q) (login_endpoint cfg env is_email email password agent)"
    "keeps (undisturbed v w q) (refresh_endpoint cfg env cookie agent)"
    "keeps (undisturbed v w q) (logout_endpoint cfg env cookie)"
    "keeps (undisturbed v w q) (me ctx)"
    unfolding account_defs by (intro keeps_intros st tk assms)+
qed

section \<open>The system without one user\<close>

definition perform :: "ingest_cfg \<Rightarrow> models_yaml \<Rightarrow> run_env \<Rightarrow> run_env \<Rightarrow> title_env \<Rightarrow> nat \<Rightarrow> task_message \<Rightarrow> (sys, unit) eff" where
  \<comment> \<open>the worker's task for a message\<close>
  "perform cfg models env env' tenv backoff m =
     (case tm_call m of
        Stage_call st i \<Rightarrow> run_stage cfg env env' st i (tm_retries m)
      | Purge_call pre \<Rightarrow> purge_document cfg env pre (tm_retries m) backoff
      | Title_call i \<Rightarrow> generate_title models tenv i)"

text \<open>
  The steps in which the user of \<open>v\<close> has no part: a request of somebody else, a sign-up or login of anybody, and the worker's run of
  a queued task that does not concern the user, on the same object storage.
\<close>

inductive other_step :: "ward \<Rightarrow> sys \<Rightarrow> sys \<Rightarrow> bool" for v where
  Request: "ctx_user_id ctx \<noteq> wd_user v \<Longrightarrow> apart v env \<Longrightarrow> other_step v s (snd (private_api env ctx rq s))"
| Register: "spares v (au_race env) \<Longrightarrow> other_step v s (snd (register_endpoint cfg env is_email email password s))"
| Login: "spares v (au_race env) \<Longrightarrow> other_step v s (snd (login_endpoint cfg env is_email email password agent s))"
| Refresh: "spares v (au_race env) \<Longrightarrow> other_step v s (snd (refresh_endpoint cfg env cookie agent s))"
| Logout: "spares v (au_race env) \<Longrightarrow> other_step v s (snd (logout_endpoint cfg env cookie s))"
| Task: "broker s = xs @ m # ys \<Longrightarrow> \<not> concerns v (user_world (wd_user v) (committed s)) (tm_call m) \<Longrightarrow> spares v (te_between tenv)
    \<Longrightarrow> cfg_root cfg = wd_root v
    \<Longrightarrow> other_step v s (snd (perform cfg models env env' tenv n m (s\<lparr>broker := xs @ ys\<rparr>)))"

lemma keeps_perform:
  assumes "\<not> concerns v w (tm_call m)" and "spares v (te_between tenv)" and "cfg_root cfg = wd_root v"
  shows "keeps (undisturbed v w q) (perform cfg models env env' tenv n m)"
  using assms by (cases "tm_call m") (auto simp: perform_def keeps_run_stage keeps_purge keeps_title)

lemma other_step_undisturbed:
  assumes "other_step v s t" and s: "undisturbed v w q s"
  shows "undisturbed v w q t"
  using assms(1)
proof cases
  case (Request ctx env rq)
  show ?thesis unfolding Request(1) by (rule yieldsD(1) [OF yields_private_api [OF Request(2,3)] s])
next
  case (Task xs m ys tenv cfg models env env' n)
  have w: "user_world (wd_user v) (committed s) = w" using s by (simp add: holding_def has_world_def)
  have "undisturbed v w q (s\<lparr>broker := xs @ ys\<rparr>)"
    using s Task(2,3) unfolding w by (simp add: holding_def own_tasks_def)
  from yieldsD(1) [OF keeps_perform [OF Task(3)[unfolded w] Task(4,5)] this] show ?thesis unfolding Task(1) .
qed (simp_all only: yieldsD(1) [OF keeps_accounts(1) s] yieldsD(1) [OF keeps_accounts(2) s] yieldsD(1) [OF keeps_accounts(3) s]
    yieldsD(1) [OF keeps_accounts(4) s])

text \<open>
  C2: the system keeps a user's data for the user. However requests of others, sign-ups, logins and tasks that do not concern the user
  follow each other, with whatever answers and faults: as long as the user takes no part, the user's conversations, messages,
  citations, sources, documents, chunks and ingestion jobs stay exactly what they are, so do all files stored for the documents
  that are or were the user's, and so do the queued tasks on them, purges included; and nobody else's message comes to cite a chunk
  that is the user's alone. (At the start, among the documents in the database exactly the user's have ids of the given set, and only
  the user's own messages cite the user's private chunks.) Accounts, tokens and usage logs are not part of a user's data here.
\<close>

theorem system_isolation:
  assumes "(other_step v)\<^sup>*\<^sup>* s t" and "pending s = committed s" and "keyed (committed s)" and "documents_named v (committed s)"
    and "cites_apart (user_world (wd_user v) (committed s)) (message_citations (committed s))"
  shows "user_world (wd_user v) (committed t) = user_world (wd_user v) (committed s)
     \<and> same_files v (files s) (files t)
     \<and> own_tasks v (user_world (wd_user v) (committed s)) (broker t) = own_tasks v (user_world (wd_user v) (committed s)) (broker s)
     \<and> cites_apart (user_world (wd_user v) (committed s)) (message_citations (committed t))"
proof -
  let ?w = "user_world (wd_user v) (committed s)"
  let ?q = "(own_tasks v ?w (broker s), files s)"
  have "undisturbed v ?w ?q s" using assms(2-5) by (simp add: holding_def has_world_def same_files_def)
  with assms(1) have "undisturbed v ?w ?q t" by induction (blast intro: other_step_undisturbed)+
  then show ?thesis by (simp add: holding_def has_world_def)
qed

end
