(* ===== verification/Worker_Run.thy ===== *)
theory Worker_Run
  imports Pipeline_Complete
begin

text \<open>
  Resources with a lifetime: the clients a process opens and has to close. Here a worker's run of a stage with the service it
  builds (\<^verbatim>\<open>_with_service\<close>, \<^verbatim>\<open>_fail\<close> and \<^verbatim>\<open>_run_stage\<close> of \<^verbatim>\<open>workers/tasks/ingest.py\<close>); the API's lifespan is in theory
  \<open>Application\<close>. The constructors and \<^verbatim>\<open>aclose\<close> of third-party clients may raise. With clients that open and close, a run
  is the \<open>run_stage\<close> of theory \<open>Ingestion\<close>; when closing raises, the outcome of the stage is lost.
\<close>

section \<open>Opening and closing\<close>

datatype resource = Res_engine | Res_llm | Res_embedding | Res_redis

type_synonym 'a life = "(resource list, 'a) eff"

definition open_resource :: "(resource \<Rightarrow> exn option) \<Rightarrow> resource \<Rightarrow> unit life" where
  "open_resource fault r = bnd (guard_fault (fault r)) (\<lambda>_. change (\<lambda>rs. rs @ [r]))"

definition close_resource :: "(resource \<Rightarrow> exn option) \<Rightarrow> resource \<Rightarrow> unit life" where
  "close_resource fault r = bnd (guard_fault (fault r)) (\<lambda>_. change (remove1 r))"

definition try_finally :: "('s, 'a) eff \<Rightarrow> ('s, unit) eff \<Rightarrow> ('s, 'a) eff" where
  "try_finally m f = bnd (try_with m (\<lambda>e. bnd f (\<lambda>_. throw e))) (\<lambda>a. bnd f (\<lambda>_. ret a))"

lemma wp_open [wp_simps]:
  "wp (open_resource fault r) Q E s = (case fault r of None \<Rightarrow> Q () (s @ [r]) | Some e \<Rightarrow> E e s)"
  by (simp add: open_resource_def wp_simps wp_fun split: option.split)

lemma wp_close [wp_simps]:
  "wp (close_resource fault r) Q E s = (case fault r of None \<Rightarrow> Q () (remove1 r s) | Some e \<Rightarrow> E e s)"
  by (simp add: close_resource_def wp_simps wp_fun split: option.split)

lemma wp_finally [wp_simps]:
  "wp (try_finally m f) Q E s
     = wp m (\<lambda>a. wp f (\<lambda>_. Q a) E) (\<lambda>e. wp f (\<lambda>_. E e) E) s"
  by (simp add: try_finally_def wp_simps wp_fun)

section \<open>A run with its service\<close>

record worker =
  wk_open :: "resource list"
  wk_sys :: sys

definition with_clients :: "'a life \<Rightarrow> (worker, 'a) eff" where
  "with_clients m s = (case m (wk_open s) of (r, rs) \<Rightarrow> (r, s\<lparr>wk_open := rs\<rparr>))"

definition with_system :: "(sys, 'a) eff \<Rightarrow> (worker, 'a) eff" where
  "with_system m s = (case m (wk_sys s) of (r, t) \<Rightarrow> (r, s\<lparr>wk_sys := t\<rparr>))"

lemma wp_with [wp_simps]:
  "wp (with_clients m) Q E s = wp m (\<lambda>a rs. Q a (s\<lparr>wk_open := rs\<rparr>)) (\<lambda>e rs. E e (s\<lparr>wk_open := rs\<rparr>)) (wk_open s)"
  "wp (with_system n) Q E s = wp n (\<lambda>a t. Q a (s\<lparr>wk_sys := t\<rparr>)) (\<lambda>e t. E e (s\<lparr>wk_sys := t\<rparr>)) (wk_sys s)"
  by (simp_all add: with_clients_def with_system_def wp_def split: prod.split sum.split)

record service_env =
  sv_open :: "resource \<Rightarrow> exn option"
  sv_close :: "resource \<Rightarrow> exn option"

definition with_service :: "service_env \<Rightarrow> (sys, 'a) eff \<Rightarrow> (worker, 'a) eff" where
  \<comment> \<open>the embedding client of \<^verbatim>\<open>build_embedding\<close> has an \<^verbatim>\<open>aclose\<close>\<close>
  "with_service sv m =
     bnd (with_clients (open_resource (sv_open sv) Res_engine)) (\<lambda>_.
     bnd (with_clients (open_resource (sv_open sv) Res_embedding)) (\<lambda>_.
     try_finally (with_system m)
       (with_clients (bnd (close_resource (sv_close sv) Res_embedding) (\<lambda>_. close_resource (sv_close sv) Res_engine)))))"

definition fail_task :: "service_env \<Rightarrow> run_env \<Rightarrow> uuid \<Rightarrow> stage \<Rightarrow> ustr \<Rightarrow> (worker, unit) eff" where
  "fail_task sv env i st error = try_with (with_service sv (mark_stage_failed env i st error)) (\<lambda>_. ret ())"

definition stage_task ::
  "ingest_cfg \<Rightarrow> service_env \<Rightarrow> service_env \<Rightarrow> run_env \<Rightarrow> run_env \<Rightarrow> stage \<Rightarrow> uuid \<Rightarrow> nat \<Rightarrow> (worker, unit) eff" where
  \<comment> \<open>\<open>sv'\<close> and \<open>env'\<close> are the second service, in which a failure is marked\<close>
  "stage_task cfg sv sv' env env' st i retries =
     try_with (with_service sv (stage_fn st cfg env i)) (\<lambda>e.
       if e = SoftTimeLimitExceeded
       then fail_task sv' env' i st (stage_name st @ [0x20, 0x968E, 0x6BB5, 0x57F7, 0x884C, 0x903E, 0x6642])
       else if retryable e then
         (if retries \<ge> max_retries st then fail_task sv' env' i st (stage_name st @ [0x20, 0x968E, 0x6BB5, 0x91CD, 0x8A66, 0x8017, 0x76E1, 0x3A] @ exn_str e)
          else with_system (task_retry cfg env (Stage_call st i) retries e))
       else fail_task sv' env' i st (stage_name st @ [0x20, 0x968E, 0x6BB5, 0x767C, 0x751F, 0x975E, 0x9810, 0x671F, 0x932F, 0x8AA4, 0x3A] @ exn_name e))"

lemma with_system_seq:
  "with_system (ret a) = ret a" "with_system (throw e) = throw e"
  "with_system (bnd m f) = bnd (with_system m) (\<lambda>a. with_system (f a))"
  "with_system (try_with m h) = try_with (with_system m) (\<lambda>e. with_system (h e))"
  by (rule ext, simp add: with_system_def ret_def throw_def bnd_def try_with_def split: prod.split sum.split)+

text \<open>Clients that open and close leave nothing behind and change nothing.\<close>

definition opens_and_closes :: "service_env \<Rightarrow> bool" where
  "opens_and_closes sv \<longleftrightarrow> (\<forall>r \<in> {Res_engine, Res_embedding}. sv_open sv r = None \<and> sv_close sv r = None)"

lemma with_service_calm:
  assumes "opens_and_closes sv" and "Res_engine \<notin> set (wk_open s)" "Res_embedding \<notin> set (wk_open s)"
  shows "with_service sv m s = with_system m s"
proof -
  have rs: "remove1 Res_engine (remove1 Res_embedding (wk_open s @ [Res_engine, Res_embedding])) = wk_open s"
    using assms(2,3) by (simp add: remove1_append remove1_idem)
  show ?thesis
    using assms(1) rs
    by (simp add: with_service_def opens_and_closes_def try_finally_def with_clients_def with_system_def open_resource_def
        close_resource_def guard_fault_def bnd_def try_with_def ret_def throw_def change_def split: prod.split sum.split)
qed

text \<open>
  a run with clients that open and close is the run of the stage alone, and leaves none of them open.
\<close>

theorem service_is_transparent:
  assumes "opens_and_closes sv" and "opens_and_closes sv'"
  shows "stage_task cfg sv sv' env env' st i retries \<lparr>wk_open = [], wk_sys = s\<rparr>
     = (let (r, t) = run_stage cfg env env' st i retries s in (r, \<lparr>wk_open = [], wk_sys = t\<rparr>))"
proof -
  have fail: "fail_task sv' env' i st err \<lparr>wk_open = [], wk_sys = t\<rparr> = with_system (shell_fail env' i st err) \<lparr>wk_open = [], wk_sys = t\<rparr>"
    for err t
    by (simp add: fail_task_def shell_fail_def with_system_seq try_with_def with_service_calm [OF assms(2)])
  obtain r t where run: "stage_fn st cfg env i s = (r, t)" by fastforce
  have "with_service sv (stage_fn st cfg env i) \<lparr>wk_open = [], wk_sys = s\<rparr> = with_system (stage_fn st cfg env i) \<lparr>wk_open = [], wk_sys = s\<rparr>"
    by (rule with_service_calm [OF assms(1)]) simp_all
  then have stage: "with_service sv (stage_fn st cfg env i) \<lparr>wk_open = [], wk_sys = s\<rparr> = (r, \<lparr>wk_open = [], wk_sys = t\<rparr>)"
    by (simp add: with_system_def run)
  show ?thesis
  proof (cases r)
    case (Inl e)
    with run show ?thesis
      by (cases "e = SoftTimeLimitExceeded"; cases "retryable e"; cases "retries \<ge> max_retries st")
        (simp_all add: stage_task_def run_stage_def try_with_def stage fail, simp_all add: with_system_def)
  qed (use run in \<open>simp add: stage_task_def run_stage_def try_with_def stage\<close>)
qed

section \<open>When closing fails\<close>

lemma wp_fail_task:
  assumes "opens_and_closes sv" and "wp (shell_fail env i st err) Q E (wk_sys s)"
    and rs: "wk_open s = [Res_engine, Res_embedding]"
  shows "wp (fail_task sv env i st err) (\<lambda>a t. Q a (wk_sys t) \<and> wk_open t = [Res_engine, Res_embedding]) (\<lambda>_ _. False) s"
proof -
  have "wp (mark_stage_failed env i st err) (\<lambda>_. Q ()) (\<lambda>_. Q ()) (wk_sys s)"
    using assms(2) by (simp add: shell_fail_def wp_simps wp_fun)
  then show ?thesis
    using assms(1) rs by (simp add: fail_task_def with_service_def opens_and_closes_def wp_simps wp_fun)
qed

text \<open>
  C15: a failed close takes the result back. The embed stage has done its work and committed the document as ready; then the
  embedding client raises on \<^verbatim>\<open>aclose\<close>, an exception that is not retryable, or the soft time limit strikes there; recording a failure works. The shell
  takes that for a failure of the stage: the completely embedded document is marked failed, and the engine is not disposed of.
\<close>

theorem close_failure_undoes_ready:
  assumes s: "synced i s s" "enters Embed i (committed s)" and env: "calm env" "provider_total env" "0 < cfg_batch_size cfg"
    and sv: "\<forall>r. sv_open sv r = None" "sv_close sv Res_embedding = Some x" "x = SoftTimeLimitExceeded \<or> \<not> retryable x"
    and marking: "opens_and_closes sv'" "e_fault env' At_fail = None"
  shows "\<exists>t. stage_task cfg sv sv' env env' Embed i retries \<lparr>wk_open = [], wk_sys = s\<rparr> = (Inr (), t)
     \<and> status_of (committed (wk_sys t)) i = Some St_failed \<and> chunk_count_unembedded (committed (wk_sys t)) i = 0
     \<and> wk_open t = [Res_engine, Res_embedding]"
proof -
  let ?Q = "\<lambda>_ u. status_of (committed u) i = Some St_failed \<and> chunk_count_unembedded (committed u) i = 0"
    and ?left = "\<lambda>t. wk_open t = [Res_engine, Res_embedding]"
  have failed: "wp (shell_fail env' i Embed err) ?Q (\<lambda>_ _. False) t"
    if t: "synced i s t \<and> status_of (committed t) i = Some St_ready \<and> chunk_count_unembedded (committed t) i = 0" for err t
    by (rule wp_shell_fail [of i s])
      (use t marking(2) in \<open>auto simp: status_of_def chunk_count_unembedded_def\<close>)
  have task: "wp (fail_task sv' env' i Embed err) (\<lambda>a u. ?Q a (wk_sys u) \<and> ?left u) (\<lambda>_ _. False) t"
    if "?left t" "synced i s (wk_sys t) \<and> status_of (committed (wk_sys t)) i = Some St_ready
       \<and> chunk_count_unembedded (committed (wk_sys t)) i = 0" for err t
    by (rule wp_fail_task [OF marking(1) failed [OF that(2)] that(1)])
  have "wp (with_service sv (stage_fn Embed cfg env i)) (\<lambda>_ _. False)
      (\<lambda>e t. e = x \<and> ?left t \<and> synced i s (wk_sys t) \<and> status_of (committed (wk_sys t)) i = Some St_ready
         \<and> chunk_count_unembedded (committed (wk_sys t)) i = 0) \<lparr>wk_open = [], wk_sys = s\<rparr>"
    using sv(1,2) by (auto simp: stage_fn_def with_service_def wp_simps wp_fun intro: wp_mono [OF embed_calm [OF s env]])
  then have "wp (stage_task cfg sv sv' env env' Embed i retries) (\<lambda>a t. ?Q a (wk_sys t) \<and> ?left t) (\<lambda>_ _. False)
      \<lparr>wk_open = [], wk_sys = s\<rparr>"
    unfolding stage_task_def wp_try
    by (rule wp_mono) (use sv(3) in \<open>auto simp: wp_if intro!: task [simplified]\<close>)
  then show ?thesis by (auto simp: wp_def split: prod.splits sum.splits)
qed

text \<open>A worker whose clients work, and one whose embedding client cannot be closed.\<close>

definition demo_service :: "(resource \<Rightarrow> exn option) \<Rightarrow> service_env" where
  "demo_service closing = \<lparr>sv_open = (\<lambda>_. None), sv_close = closing\<rparr>"

lemma demo_service_simps: "sv_open (demo_service f) r = None" "sv_close (demo_service f) = f" "opens_and_closes (demo_service (\<lambda>_. None))"
  by (simp_all add: demo_service_def opens_and_closes_def)

theorem close_failure_undoes_ready_witness:
  "\<exists>t. stage_task demo_cfg (demo_service ((\<lambda>_. None)(Res_embedding := Some (PyError (lit ''RuntimeError'') [])))) (demo_service (\<lambda>_. None))
       calm_env calm_env Embed 7 0 \<lparr>wk_open = [], wk_sys = demo_sys St_embedding\<rparr> = (Inr (), t)
     \<and> status_of (committed (wk_sys t)) 7 = Some St_failed \<and> wk_open t = [Res_engine, Res_embedding]"
  using close_failure_undoes_ready [of 7 "demo_sys St_embedding" calm_env demo_cfg
      "demo_service ((\<lambda>_. None)(Res_embedding := Some (PyError (lit ''RuntimeError'') [])))" "PyError (lit ''RuntimeError'') []"
      "demo_service (\<lambda>_. None)" calm_env 0] demo_synced [of St_embedding] demo_enters(4) demo_calm
  by (auto simp: demo_service_simps demo_env_def demo_cfg_def)

theorem service_is_transparent_witness:
  "stage_task demo_cfg (demo_service (\<lambda>_. None)) (demo_service (\<lambda>_. None)) calm_env calm_env Parse 7 0 \<lparr>wk_open = [], wk_sys = demo_sys St_ready\<rparr>
     = (let (r, t) = run_stage demo_cfg calm_env calm_env Parse 7 0 (demo_sys St_ready) in (r, \<lparr>wk_open = [], wk_sys = t\<rparr>))"
  by (rule service_is_transparent) (rule demo_service_simps)+

end
