(* ===== verification/Application.thy ===== *)
theory Application
  imports Wiring Rag_Witness Auth_Correct Isolated_System Worker_Run
begin

text \<open>
  The API application, \<^verbatim>\<open>main.py\<close>: the lifespan that opens and closes what the requests share, the routes it serves and
  what guards them, and a chat request through everything that \<^verbatim>\<open>core/wiring.py\<close> and \<^verbatim>\<open>api/deps.py\<close> put behind it. The
  resources are those of theory \<open>Worker_Run\<close>; matching a path against a route is Starlette's documented rule.
\<close>

section \<open>The lifespan\<close>

record lifespan_env =
  lf_open :: "resource \<Rightarrow> exn option" \<comment> \<open>raised by the construction\<close>
  lf_close :: "resource \<Rightarrow> exn option" \<comment> \<open>raised by \<^verbatim>\<open>aclose\<close> or \<^verbatim>\<open>dispose\<close>\<close>
  lf_serving :: "exn option" \<comment> \<open>thrown in at the \<^verbatim>\<open>yield\<close>\<close>

definition close_all :: "lifespan_env \<Rightarrow> unit life" where
  "close_all env =
     bnd (close_resource (lf_close env) Res_llm) (\<lambda>_.
     bnd (close_resource (lf_close env) Res_embedding) (\<lambda>_.
     bnd (close_resource (lf_close env) Res_redis) (\<lambda>_.
     close_resource (lf_close env) Res_engine)))"

definition lifespan :: "models_yaml \<Rightarrow> lifespan_env \<Rightarrow> unit life" where
  "lifespan models env =
     bnd (open_resource (lf_open env) Res_engine) (\<lambda>_.
     bnd (case build_llm models of Inl e \<Rightarrow> throw e | Inr _ \<Rightarrow> open_resource (lf_open env) Res_llm) (\<lambda>_.
     bnd (open_resource (lf_open env) Res_embedding) (\<lambda>_.
     bnd (open_resource (lf_open env) Res_redis) (\<lambda>_.
     try_finally (guard_fault (lf_serving env)) (close_all env)))))"

lemma wp_try_finally:
  "wp f (\<lambda>_. Q) (\<lambda>_. Q) s \<Longrightarrow> wp (try_finally (guard_fault x) f) (\<lambda>_. Q) (\<lambda>_. Q) s"
  by (cases x) (simp_all add: try_finally_def wp_simps wp_fun)

lemma wp_close_all:
  "wp (close_all env)
     (\<lambda>_ t. set t = set (dropWhile (\<lambda>r. lf_close env r = None) [Res_llm, Res_embedding, Res_redis, Res_engine]))
     (\<lambda>_ t. set t = set (dropWhile (\<lambda>r. lf_close env r = None) [Res_llm, Res_embedding, Res_redis, Res_engine]))
     [Res_engine, Res_llm, Res_embedding, Res_redis]"
  unfolding close_all_def
  by (cases "lf_close env Res_llm"; cases "lf_close env Res_embedding"; cases "lf_close env Res_redis"; cases "lf_close env Res_engine")
    (auto simp: wp_simps)

text \<open>
  what the lifespan leaves open. Opening stops at the first construction that fails and closes nothing; after a
  successful start, however serving ends, the resources are closed in order up to the first whose closing fails, and that
  one and all after it stay open. So nothing stays open exactly if everything could be opened and closed.
\<close>

theorem lifespan_leaves_open:
  assumes "build_llm models = Inr ()"
  shows "set (snd (lifespan models env [])) =
    (let opening = [Res_engine, Res_llm, Res_embedding, Res_redis]; closing = [Res_llm, Res_embedding, Res_redis, Res_engine] in
     if list_all (\<lambda>r. lf_open env r = None) opening then set (dropWhile (\<lambda>r. lf_close env r = None) closing)
     else set (takeWhile (\<lambda>r. lf_open env r = None) opening))"
proof -
  let ?left = "\<lambda>t. set t = (let opening = [Res_engine, Res_llm, Res_embedding, Res_redis]; closing = [Res_llm, Res_embedding, Res_redis, Res_engine] in
     if list_all (\<lambda>r. lf_open env r = None) opening then set (dropWhile (\<lambda>r. lf_close env r = None) closing)
     else set (takeWhile (\<lambda>r. lf_open env r = None) opening))"
  have "wp (lifespan models env) (\<lambda>_. ?left) (\<lambda>_. ?left) []"
    using wp_try_finally [OF wp_close_all [of env], of "lf_serving env"]
    by (cases "lf_open env Res_engine"; cases "lf_open env Res_llm"; cases "lf_open env Res_embedding"; cases "lf_open env Res_redis")
      (simp_all add: lifespan_def assms wp_simps)
  then show ?thesis by (simp only: wp_ends)
qed

section \<open>Routes\<close>

datatype endpoint =
    Health | Register | Login | Refresh | Logout | Me
  | List_conversations | Create_conversation | Get_conversation | Update_conversation | Delete_conversation
  | List_messages | Send_message
  | Upload_document | List_documents | Get_document | Retry_document | Delete_document

datatype segment = Lit string | Param

record route =
  rt_method :: string
  rt_path :: "segment list"
  rt_status :: nat
  rt_endpoint :: endpoint
  rt_auth :: bool \<comment> \<open>depends on \<^verbatim>\<open>get_auth\<close>\<close>

definition routed :: "string \<Rightarrow> segment list \<Rightarrow> nat \<Rightarrow> endpoint \<Rightarrow> bool \<Rightarrow> route" where
  "routed m p st ep a = \<lparr>rt_method = m, rt_path = p, rt_status = st, rt_endpoint = ep, rt_auth = a\<rparr>"

definition prefixed :: "segment list \<Rightarrow> route list \<Rightarrow> route list" where
  "prefixed p rs = map (\<lambda>r. r\<lparr>rt_path := p @ rt_path r\<rparr>) rs"

definition health_router :: "route list" where
  "health_router = [routed ''GET'' [Lit ''health''] 200 Health False]"

definition health :: "nat \<times> json" where
  "health = (200, JObj [(lit ''status'', JStr (lit ''ok''))])"

definition auth_router :: "route list" where
  "auth_router = prefixed [Lit ''auth'']
     [routed ''POST'' [Lit ''register''] 201 Register False, routed ''POST'' [Lit ''login''] 200 Login False,
      routed ''POST'' [Lit ''refresh''] 200 Refresh False, routed ''POST'' [Lit ''logout''] 204 Logout False]"

definition me_router :: "route list" where
  "me_router = [routed ''GET'' [Lit ''me''] 200 Me True]"

definition conversations_router :: "route list" where
  "conversations_router = prefixed [Lit ''conversations'']
     [routed ''GET'' [] 200 List_conversations True, routed ''POST'' [] 201 Create_conversation True,
      routed ''GET'' [Param] 200 Get_conversation True, routed ''PATCH'' [Param] 200 Update_conversation True,
      routed ''DELETE'' [Param] 204 Delete_conversation True, routed ''GET'' [Param, Lit ''messages''] 200 List_messages True]"

definition chat_router :: "route list" where
  "chat_router = prefixed [Lit ''conversations''] [routed ''POST'' [Param, Lit ''messages''] 200 Send_message True]"

definition documents_router :: "route list" where
  "documents_router = prefixed [Lit ''documents'']
     [routed ''POST'' [] 202 Upload_document True, routed ''GET'' [] 200 List_documents True,
      routed ''GET'' [Param] 200 Get_document True, routed ''POST'' [Param, Lit ''retry''] 202 Retry_document True,
      routed ''DELETE'' [Param] 204 Delete_document True]"

definition api_routes :: "route list" where
  "api_routes = prefixed [Lit ''api'']
     (health_router @ auth_router @ me_router @ conversations_router @ chat_router @ documents_router)"

fun segment_matches :: "segment \<Rightarrow> string \<Rightarrow> bool" where
  "segment_matches (Lit l) x = (x = l)"
| "segment_matches Param x = (x \<noteq> [])"

definition route_matches :: "string \<Rightarrow> string list \<Rightarrow> route \<Rightarrow> bool" where
  "route_matches m path r \<longleftrightarrow> rt_method r = m \<and> list_all2 segment_matches (rt_path r) path"

definition route_for :: "string \<Rightarrow> string list \<Rightarrow> route option" where
  \<comment> \<open>the first that matches; the path is split at its slashes\<close>
  "route_for m path = find (route_matches m path) api_routes"

definition admit :: "auth_cfg \<Rightarrow> time \<Rightarrow> ustr \<Rightarrow> ustr option \<Rightarrow> route \<Rightarrow> exn + auth_context option" where
  \<comment> \<open>the route's dependency on \<^verbatim>\<open>get_auth\<close>, resolved before its endpoint runs\<close>
  "admit cfg now rid creds r =
     (if rt_auth r then (case get_auth cfg now rid creds of Inl e \<Rightarrow> Inl e | Inr ctx \<Rightarrow> Inr (Some ctx)) else Inr None)"

text \<open>Two routes overlap when some request could match both.\<close>

fun may_overlap :: "segment \<Rightarrow> segment \<Rightarrow> bool" where
  "may_overlap (Lit a) (Lit b) = (a = b)"
| "may_overlap (Lit a) Param = (a \<noteq> [])"
| "may_overlap Param (Lit b) = (b \<noteq> [])"
| "may_overlap Param Param = True"

definition overlap :: "route \<Rightarrow> route \<Rightarrow> bool" where
  "overlap r r' \<longleftrightarrow> rt_method r = rt_method r' \<and> list_all2 may_overlap (rt_path r) (rt_path r')"

lemma matches_overlap:
  assumes "route_matches m path r" and "route_matches m path r'"
  shows "overlap r r'"
proof -
  have seg: "may_overlap a b" if "segment_matches a x" "segment_matches b x" for a b x
    using that by (cases a; cases b) auto
  have "list_all2 may_overlap ps qs" if "list_all2 segment_matches ps xs" "list_all2 segment_matches qs xs" for ps qs xs
    using that by (induction ps xs arbitrary: qs rule: list_all2_induct) (auto simp: list_all2_Cons2 intro: seg)
  with assms show ?thesis by (auto simp: route_matches_def overlap_def)
qed

lemma routes_apart: "list_all (\<lambda>r. list_all (\<lambda>r'. overlap r r' \<longrightarrow> rt_endpoint r = rt_endpoint r') api_routes) api_routes"
  by code_simp

lemma routes_private:
  "list_all (\<lambda>r. rt_auth r = (rt_endpoint r \<notin> set [Health, Register, Login, Refresh, Logout])) api_routes"
  by code_simp

lemma routes_distinct: "distinct (map rt_endpoint api_routes)"
  by code_simp

text \<open>
  C8: one request, one endpoint. No request matches two routes, so the order in which routers are registered does not matter;
  and every endpoint but the health check and those of \<^verbatim>\<open>/api/auth\<close> lets in only a bearer of an access token that
  decodes now, as the user it was issued for: without credentials the answer is the 401 error.
\<close>

theorem no_token_no_entry:
  assumes r: "route_for m path = Some r"
  shows "(\<forall>r' \<in> set api_routes. route_matches m path r' \<longrightarrow> r' = r)
     \<and> (rt_endpoint r \<in> {Health, Register, Login, Refresh, Logout}
        \<or> (creds = None \<longrightarrow> admit cfg now rid creds r = Inl (App InvalidToken))
          \<and> (\<forall>a. admit cfg now rid creds r = Inr a \<longrightarrow>
               (\<exists>token claims ctx. creds = Some token \<and> decode_access_token cfg now token = Inr claims
                  \<and> a = Some ctx \<and> ac_of_uuid cfg (cl_sub claims) = Some (ctx_user_id ctx))))"
proof -
  have in_routes: "r \<in> set api_routes" "route_matches m path r" using r by (auto simp: route_for_def find_Some_iff)
  have one: "r' = r" if "r' \<in> set api_routes" "route_matches m path r'" for r'
  proof -
    have "rt_endpoint r' = rt_endpoint r"
      using routes_apart that in_routes matches_overlap [OF that(2) in_routes(2)] by (auto simp: list_all_iff)
    then show ?thesis using routes_distinct that(1) in_routes(1) by (meson distinct_map inj_onD)
  qed
  have kind: "rt_auth r = (rt_endpoint r \<notin> {Health, Register, Login, Refresh, Logout})"
    using routes_private in_routes(1) by (simp add: list_all_iff)
  have guard: "\<exists>token claims ctx. creds = Some token \<and> decode_access_token cfg now token = Inr claims
       \<and> a = Some ctx \<and> ac_of_uuid cfg (cl_sub claims) = Some (ctx_user_id ctx)"
    if "rt_auth r" "admit cfg now rid creds r = Inr a" for a
    using that by (auto simp: admit_def get_auth_def split: sum.splits option.splits)
  have none: "admit cfg now rid None r = Inl (App InvalidToken)" if "rt_auth r"
    using that by (simp add: admit_def get_auth_def)
  show ?thesis using one kind guard none by blast
qed

section \<open>A chat request through the assembly\<close>

definition build_llm_adapter :: "llm_adapter \<Rightarrow> settings \<Rightarrow> llm_adapter" where
  "build_llm_adapter codec st = codec\<lparr>ad_base_url := st_llm_base_url st\<rparr>"

text \<open>What lies outside of the program: the database's search functions, redis, and the two HTTP services.\<close>

record backend =
  bk_index :: chunk_index
  bk_cache :: query_cache
  bk_cutter :: "ustr \<Rightarrow> ustr list"
  bk_redis :: redis
  bk_lower :: "ustr \<Rightarrow> ustr"
  bk_embed_post :: "nat \<Rightarrow> ustr list \<Rightarrow> wire_exn + nat \<times> ustr \<times> (int \<times> vec) list option"
  bk_llm_codec :: llm_adapter
  bk_llm_post :: "llm_request \<Rightarrow> wire_exn + http_response"

definition assembled :: "backend \<Rightarrow> settings \<Rightarrow> chat_env \<Rightarrow> chat_env" where
  "assembled bk st env =
     env\<lparr>ce_retrieve := build_retrieval (bk_index bk) (bk_cache bk) (bk_cutter bk) (bk_redis bk)
           (build_embedding (bk_lower bk) (bk_embed_post bk) st) st,
         ce_llm := (\<lambda>msgs params. map Ev (openai_chat (build_llm_adapter (bk_llm_codec bk) st) (bk_llm_post bk) msgs params))\<rparr>"

lemma embed_from_errors: "embed_from ad k texts = Inl e \<Longrightarrow> \<not> base_only e"
proof (induction ad k texts rule: embed_from.induct)
  case (1 ad k texts)
  have batch: "\<not> base_only e" if "embed_http_batch ad k batch = Inl e" for batch
    using that by (auto simp: embed_http_batch_def embed_error_def base_only_def generator_exit_def cancelled_error_def Let_def
        split: sum.splits wire_exn.splits prod.splits if_splits option.splits)
  from 1 show ?case
    by (subst (asm) (2) embed_from.simps) (auto simp: Let_def batch split: if_splits sum.splits)
qed

lemma embed_query_errors: "fst (embed_query (embed_texts ad) qc q r) = Inl e \<Longrightarrow> \<not> base_only e"
  by (auto simp: embed_query_def embed_texts_def base_only_def generator_exit_def cancelled_error_def
      dest: embed_from_errors split: option.splits sum.splits list.splits)

lemma retrieve_tame:
  assumes "\<forall>p e. ix_fault ix p = Some e \<longrightarrow> \<not> base_only e"
  shows "tame (retrieve ix ad qc cutter r ctx q ids n)"
proof -
  have search: "tame (hybrid_search ix uid ids toks v n)" for uid toks v
    unfolding hybrid_search_def Let_def using assms by (intro raises_intros) auto
  show ?thesis
  proof (cases "fst (embed_query (embed_texts ad) qc (take QUERY_EMBED_MAX_CHARS q) r)")
    case (Inl e)
    then show ?thesis using embed_query_errors [OF Inl] by (simp add: retrieve_def raises_def wp_throw)
  next
    case (Inr v)
    then show ?thesis unfolding retrieve_def Let_def by (simp add: raises_bnd search raises_simple)
  qed
qed

lemma retrieve_reads_only:
  assumes "ix_between ix = (\<lambda>d. d)" and "pending s = committed s"
  shows "snd (retrieve ix ad qc cutter r ctx q ids n s) = s"
proof -
  have "s\<lparr>pending := committed s\<rparr> = s" using assms(2) by (cases s) simp
  then have "wp (retrieve ix ad qc cutter r ctx q ids n) (\<lambda>_ t. t = s) (\<lambda>_ t. t = s) s"
    by (auto simp: retrieve_def hybrid_search_def Let_def race_def wp_simps wp_fun assms split: option.split sum.split)
  then show ?thesis by (simp only: wp_ends)
qed

lemma phase_ends:
  assumes "phase es = Some 3"
  obtains a b where "hd es = Message_start a b" and "es \<noteq> []"
    and "(\<exists>i f j k l. last es = Done i f j k l) \<or> (\<exists>c m t. last es = Error_event c m t)"
proof -
  obtain e es' where e: "es = e # es'" using assms by (cases es) auto
  then obtain a b where a: "e = Message_start a b" using assms by (cases e) auto
  obtain ys x where x: "es = ys @ [x]" using e rev_exhaust [of es] by blast
  have "(\<exists>i f j k l. x = Done i f j k l) \<or> (\<exists>c m t. x = Error_event c m t)"
    using assms by (cases x) (auto simp: x phase_snoc split: option.splits if_splits)
  moreover have "hd es = Message_start a b" "es \<noteq> []" using e a by simp_all
  moreover have "last es = x" by (simp only: x last_snoc)
  ultimately show ?thesis using that by blast
qed

lemma assembled_run:
  assumes pc: "pending s = committed s" and alone: "ce_between env = (\<lambda>d. d)" "ix_between (bk_index bk) = (\<lambda>d. d)"
    and calm: "\<forall>k. ce_stop env k = None" "\<forall>p e. ce_fault env p = Some e \<longrightarrow> \<not> base_only e"
      "\<forall>p e. ix_fault (bk_index bk) p = Some e \<longrightarrow> \<not> base_only e"
  shows "steady (assembled bk st env)"
    and "stream_reply cfg (assembled bk st env) ctx cid content client_message_id ids (chat_start s) = (Inr (), t)
      \<Longrightarrow> cites (visible (committed s) (ctx_user_id ctx) ids) t"
    and "stream_reply cfg (assembled bk st env) ctx cid content client_message_id ids (chat_start s) = (Inr (), t)
      \<Longrightarrow> answered cfg (assembled bk st env) cid
        ((committed s)\<lparr>messages := messages (committed s) @ [user_message env cid content client_message_id]\<rparr>) t"
proof -
  let ?env = "assembled bk st env"
  let ?d0 = "(committed s)\<lparr>messages := messages (committed s) @ [user_message env cid content client_message_id]\<rparr>"
  let ?ix = "(bk_index bk)\<lparr>ix_top_k := st_retrieval_top_k st, ix_rrf_k := st_rrf_k st\<rparr>"
  let ?qc = "(bk_cache bk)\<lparr>qc_version := st_embedding_version st\<rparr>"
  have retr: "ce_retrieve ?env = retrieve ?ix (build_embedding (bk_lower bk) (bk_embed_post bk) st) ?qc (bk_cutter bk) (bk_redis bk)"
    by (simp add: assembled_def build_retrieval_def [abs_def])
  have same: "ce_between ?env = (\<lambda>d. d)" "user_message ?env cid content client_message_id = user_message env cid content client_message_id"
    using alone by (simp_all add: assembled_def user_message_def)
  have ro: "\<forall>ctx q ids n s. pending s = committed s \<longrightarrow> snd (ce_retrieve ?env ctx q ids n s) = s"
    unfolding retr using alone by (auto intro!: retrieve_reads_only)
  show "steady ?env"
    unfolding steady_def retr using calm by (auto simp: assembled_def intro!: retrieve_tame)
  show "cites (visible (committed s) (ctx_user_id ctx) ids) t"
    if "stream_reply cfg ?env ctx cid content client_message_id ids (chat_start s) = (Inr (), t)"
    using wp_stream_cites [OF pc retr, of cfg ctx cid content client_message_id ids] by (simp add: wp_def that)
  show "answered cfg ?env cid ?d0 t"
    if "stream_reply cfg ?env ctx cid content client_message_id ids (chat_start s) = (Inr (), t)"
    using wp_stream_stored [OF pc same(1) ro, of ?d0 cid content client_message_id cfg ctx ids] by (simp add: wp_def that same(2))
qed

text \<open>
  C3: the reply on the wire. The application as it is assembled, whatever the embedding service, the model's service,
  redis, the database and the broker answer: when nobody else commits meanwhile and the client stays, what it reads from the
  body of the response begins with \<^verbatim>\<open>message_start\<close> and ends in \<^verbatim>\<open>done\<close> or \<^verbatim>\<open>error\<close>; after
  \<^verbatim>\<open>done\<close> the database holds one new answer, whose text is letter by letter what the client has put together from the deltas (and
  after \<^verbatim>\<open>error\<close> either no answer or that text); the citations stored with it are chunks that the user may see.
\<close>

theorem reply_on_the_wire:
  assumes repr: "\<And>x. one_line (frepr x)" and pc: "pending s = committed s"
    and alone: "ce_between env = (\<lambda>d. d)" "ix_between (bk_index bk) = (\<lambda>d. d)"
    and calm: "\<forall>k. ce_stop env k = None" "\<forall>p e. ce_fault env p = Some e \<longrightarrow> \<not> base_only e"
      "\<forall>p e. ix_fault (bk_index bk) p = Some e \<longrightarrow> \<not> base_only e"
    and send: "send_message (get_orchestrator models pstr st) frepr (assembled bk st env) waits ctx cid content client_message_id scope s
      = (Inr frames, u)"
    and stays: "length (ch_events (snd (run_chat (get_orchestrator models pstr st) (assembled bk st env) ctx cid content client_message_id
      (scope_source_ids scope) s))) \<le> 1 + length (filter Not waits)"
    and what: "body = sse_read (concat frames)" "received = concat (map delta_text body)"
  shows "\<exists>answer rows. messages (committed u)
        = messages (committed s) @ user_message env cid content client_message_id # answer
     \<and> message_citations (committed u) = message_citations (committed s) @ rows
     \<and> (\<forall>x \<in> set rows. visible (committed s) (ctx_user_id ctx) (scope_source_ids scope) (the (ci_chunk_id x)))
     \<and> fst (hd body) = lit ''message_start''
     \<and> (fst (last body) = lit ''done'' \<and> (\<exists>m. answer = [m] \<and> m_role m = Role_assistant \<and> m_conversation_id m = cid \<and> m_content m = received)
        \<or> fst (last body) = lit ''error'' \<and> (answer = [] \<or> (\<exists>m. answer = [m] \<and> m_content m = received)))"
proof -
  let ?cfg = "get_orchestrator models pstr st" and ?env = "assembled bk st env" and ?src = "scope_source_ids scope"
  let ?d0 = "(committed s)\<lparr>messages := messages (committed s) @ [user_message env cid content client_message_id]\<rparr>"
  note assembled_run = assembled_run [OF pc alone calm, where st = st]
  obtain r t where run: "run_chat ?cfg ?env ctx cid content client_message_id ?src s = (r, t)" by fastforce
  note frames = send_frames [OF repr send run]
  have "r = Inr ()"
    using steady_run [OF assembled_run(1), of ?cfg ctx cid content client_message_id ?src s] run frames by (auto split: sum.splits)
  then have stream: "stream_reply ?cfg ?env ctx cid content client_message_id ?src (chat_start s) = (Inr (), t)"
    using run by (simp add: run_chat_def)
  have "phase (ch_events t) = Some 3"
    using wp_run_phase [of ?cfg ?env ctx cid content client_message_id ?src s] by (simp add: wp_def stream)
  then obtain a b where evs: "hd (ch_events t) = Message_start a b" "ch_events t \<noteq> []"
    "(\<exists>i f j k l. last (ch_events t) = Done i f j k l) \<or> (\<exists>c m t'. last (ch_events t) = Error_event c m t')"
    by (rule phase_ends)
  have body: "body = map (wire frepr) (ch_events t)" using frames stays run by (simp add: what(1))
  then have received: "received = concat (delta_list (ch_events t))" by (simp only: what(2) delta_texts)
  have ends: "fst (hd body) = lit ''message_start''" "fst (last body) = event_name (last (ch_events t))"
    using evs(1,2) by (simp_all add: body hd_map last_map wire_def event_name_def)
  have cited: "\<forall>it \<in> set (cited (ch_events t)). visible (committed s) (ctx_user_id ctx) ?src (it_chunk_id it)"
    using assembled_run(2) [OF stream] by (simp add: cites_def)
  obtain answer rows where stored: "messages (committed u) = messages ?d0 @ answer"
      "message_citations (committed u) = message_citations (committed s) @ rows"
      "answer = [] \<and> rows = [] \<or> (\<exists>m. answer = [m] \<and> m_conversation_id m = cid \<and> m_role m = Role_assistant
         \<and> m_content m = received \<and> map row_item rows = cited (ch_events t))"
    and outcome: "messages (committed u) \<noteq> messages ?d0 \<or> (\<exists>c m t'. last (ch_events t) = Error_event c m t')"
    using assembled_run(3) [OF stream] frames unfolding answered_def transcript_def received by auto
  have rows: "visible (committed s) (ctx_user_id ctx) ?src (the (ci_chunk_id x))" if x: "x \<in> set rows" for x
  proof -
    have "row_item x \<in> set (cited (ch_events t))" using stored(3) x by (metis empty_iff empty_set image_eqI list.set_map)
    with cited show ?thesis by (auto simp: row_item_def)
  qed
  show ?thesis
    using stored rows ends outcome evs(3)
    by (intro exI [of _ answer] exI [of _ rows]) (auto simp: event_name_def)
qed

section \<open>An example\<close>

text \<open>The conversation of \<open>Chat_Witness\<close>, and a model service that times out.\<close>

definition demo_backend :: backend where
  "demo_backend = \<lparr>bk_index = demo_ix, bk_cache = demo_qc, bk_cutter = (\<lambda>_. []), bk_redis = Map.empty, bk_lower = (\<lambda>s. s),
     bk_embed_post = (\<lambda>_ _. Inl Timeout_exception), bk_llm_codec = demo_ad, bk_llm_post = (\<lambda>_. Inl Timeout_exception)\<rparr>"

definition demo_st :: settings where "demo_st = default_settings [] []"

abbreviation demo_api_env :: chat_env where
  "demo_api_env \<equiv> assembled demo_backend demo_st (demo_cenv [] (\<lambda>_. None) (\<lambda>_. None))"
abbreviation demo_api_cfg :: chat_cfg where "demo_api_cfg \<equiv> get_orchestrator demo_models (\<lambda>_. []) demo_st"

lemma demo_api_steady: "steady demo_api_env"
  unfolding steady_def
  by (auto simp: assembled_def demo_backend_def build_retrieval_def [abs_def] demo_ix_calm intro!: retrieve_tame)

lemma demo_api_run:
  "\<exists>t. run_chat demo_api_cfg demo_api_env demo_ctx 5 hello None None chat_sys = (Inr (), t) \<and> length (ch_events t) = 2"
proof -
  have add: "message_add (user_message demo_api_env 5 hello None) (committed chat_sys) = Inr (asked_db [] (\<lambda>_. None) (\<lambda>_. None))"
    using demo_asked [of "[]" "\<lambda>_. None" "\<lambda>_. None"] by (simp add: assembled_def user_message_def)
  have rm: "resolve_alias (cc_models demo_api_cfg) (c_model_alias demo_conv)
      = Inr \<lparr>rm_provider = lit ''openai_compat'', rm_model = [120], rm_temperature = 7 / 10, rm_max_tokens = None\<rparr>"
    using demo_resolved by (simp add: demo_ccfg_def get_orchestrator_def)
  obtain turn u where prep: "prepare_turn demo_api_cfg demo_api_env demo_ctx 5 hello None None chat_sys = (Inr turn, u)"
    and turn: "t_source_ids turn = None"
    using prepare_run [OF chat_sys_simps(1) demo_conv_owned rm _ add] by (auto simp: assembled_def plain_turn_def)
  have llm: "ce_llm demo_api_env (prompt_of turn) (t_params turn) = [Ev (StreamError Transient (LLM_ERROR_MESSAGES Transient))]"
    by (simp add: assembled_def demo_backend_def openai_chat_def llm_stream_def llm_error_def)
  have calm: "ce_stop demo_api_env = (\<lambda>_. None)" by (simp add: assembled_def)
  have kept: "\<exists>v. try_except (on_sys (persist_error demo_api_cfg demo_api_env demo_ctx 5 turn buffer code)) (\<lambda>_. ret ()) x
      = (Inr (), x\<lparr>ch_sys := v\<rparr>)" for buffer code x
  proof -
    obtain r v where p: "persist_error demo_api_cfg demo_api_env demo_ctx 5 turn buffer code (ch_sys x) = (r, v)" by fastforce
    have "tame (persist_error demo_api_cfg demo_api_env demo_ctx 5 turn buffer code)" by (rule tame_persist) (rule demo_api_steady)
    then have "wp (persist_error demo_api_cfg demo_api_env demo_ctx 5 turn buffer code) (\<lambda>_ _. True) (\<lambda>e _. \<not> base_only e) (ch_sys x)"
      unfolding raises_def by blast
    then have "r = Inl e \<Longrightarrow> \<not> base_only e" for e by (simp add: wp_def p)
    then show ?thesis by (intro exI [of _ v]) (cases r; simp add: try_except_def try_with_def on_sys_def ret_def p)
  qed
  let ?x = "\<lparr>ch_sys = u, ch_events = [Message_start (t_user_message_id turn) (t_assistant_message_id turn)], ch_buffer = [],
       ch_tokens = (None, None), ch_stop = End_turn\<rparr>"
  obtain v where v: "try_except (on_sys (persist_error demo_api_cfg demo_api_env demo_ctx 5 turn [] (code_str Transient))) (\<lambda>_. ret ()) ?x
      = (Inr (), ?x\<lparr>ch_sys := v\<rparr>)" using kept by blast
  show ?thesis
    using v by (simp add: chat_run_start [OF prep turn fun_cong [OF calm]] llm bnd_def look_def emit_event_def change_def guard_fault_def
        calm ret_def try_with_def)
qed

theorem reply_on_the_wire_witness:
  "\<exists>frames u answer. send_message demo_api_cfg (\<lambda>_. [48]) demo_api_env [True, False, False] demo_ctx 5 hello None None chat_sys
       = (Inr frames, u)
     \<and> messages (committed u) = user_message (demo_cenv [] (\<lambda>_. None) (\<lambda>_. None)) 5 hello None # answer
     \<and> fst (hd (sse_read (concat frames))) = lit ''message_start''"
proof -
  let ?env = "demo_cenv [] (\<lambda>_. None) (\<lambda>_. None)"
  obtain t where t: "run_chat demo_api_cfg demo_api_env demo_ctx 5 hello None None chat_sys = (Inr (), t)" "length (ch_events t) = 2"
    using demo_api_run by blast
  have scope: "scope_source_ids None = None" by (simp add: scope_source_ids_def)
  obtain frames u where send: "send_message demo_api_cfg (\<lambda>_. [48]) demo_api_env [True, False, False] demo_ctx 5 hello None None chat_sys
      = (Inr frames, u)"
    using t by (cases "ch_events t") (simp_all add: send_message_def content_ok_def scope)
  have stays: "length (ch_events (snd (run_chat demo_api_cfg demo_api_env demo_ctx 5 hello None (scope_source_ids None) chat_sys)))
      \<le> 1 + length (filter Not [True, False, False])" by (simp add: scope t)
  have one: "one_line [48]" by simp
  have calm: "ce_between ?env = (\<lambda>d. d)" "ix_between (bk_index demo_backend) = (\<lambda>d. d)" "\<forall>k. ce_stop ?env k = None"
    "\<forall>p e. ce_fault ?env p = Some e \<longrightarrow> \<not> base_only e" "\<forall>p e. ix_fault (bk_index demo_backend) p = Some e \<longrightarrow> \<not> base_only e"
    by (simp_all add: demo_backend_def demo_ix_calm)
  from reply_on_the_wire [OF one chat_sys_simps(1) calm send stays refl refl] send show ?thesis by auto
qed

theorem no_token_no_entry_witness:
  "\<exists>r. route_for ''GET'' [''api'', ''documents'', ''7'', ''''] = None \<and> route_for ''DELETE'' [''api'', ''documents'', ''7''] = Some r
     \<and> admit demo_auth 0 [] None r = Inl (App InvalidToken)"
proof -
  obtain r where r: "route_for ''DELETE'' [''api'', ''documents'', ''7''] = Some r" "rt_endpoint r = Delete_document"
    and none: "route_for ''GET'' [''api'', ''documents'', ''7'', ''''] = None"
    by (simp add: route_for_def route_matches_def api_routes_def prefixed_def routed_def health_router_def auth_router_def
        me_router_def conversations_router_def chat_router_def documents_router_def)
  from no_token_no_entry [OF r(1), of None demo_auth 0 "[]"] r none show ?thesis by auto
qed

theorem lifespan_leaves_open_witness:
  "set (snd (lifespan demo_models \<lparr>lf_open = (\<lambda>_. None), lf_close = (\<lambda>_. None)(Res_embedding := Some (OSError [])), lf_serving = None\<rparr> []))
     = {Res_embedding, Res_redis, Res_engine}"
proof -
  have "build_llm demo_models = Inr ()" by (simp add: build_llm_def demo_models_def resolve_alias_def alias_exists_def Let_def)
  from lifespan_leaves_open [OF this] show ?thesis by (simp add: Let_def)
qed

definition demo_api :: api_env where
  "demo_api = \<lparr>ae_models = demo_models, ae_codec = demo_codec, ae_conv = \<lparr>cv_now = 1, cv_id = 6\<rparr>, ae_doc_cfg = demo_dc,
     ae_doc = demo_denv (\<lambda>d. d), ae_max_upload_mb = 1, ae_chat_cfg = demo_ccfg, ae_chat = rag_env, ae_frepr = (\<lambda>_. [48]), ae_waits = []\<rparr>"

text \<open>User 1 has document 7 and has deleted document 6.\<close>

definition demo_ward :: ward where
  "demo_ward = \<lparr>wd_user = 1, wd_ids = {6, 7}, wd_root = []\<rparr>"

lemma demo_named: "named demo_ward 7" "named demo_ward 6" "\<not> named demo_ward 8" "wd_user demo_ward = 1" "wd_root demo_ward = []"
proof -
  have "uuid_str 8 \<noteq> uuid_str i" if "i \<in> {6, 7}" for i
    using uuid_str_inj [of 8 i] that by auto
  then show "\<not> named demo_ward 8" by (auto simp: named_def demo_ward_def)
qed (simp_all add: named_def demo_ward_def)

lemma demo_apart: "apart demo_ward demo_api"
proof -
  have "uploads_apart demo_ward demo_dc (demo_denv (\<lambda>d. d))"
    using demo_named by (simp add: uploads_apart_def demo_denv_def demo_dc_def spares_nothing)
  then show ?thesis
    using demo_ix_calm(2) spares_nothing by (simp add: apart_def demo_api_def rag_env_def) metis
qed

lemma rag_db_tables:
  "documents (rag_db []) = [demo_doc St_ready]" "document_chunks (rag_db []) = [demo_ck]" "conversations (rag_db []) = [demo_conv]"
  "messages (rag_db []) = []" "keyed (rag_db [])" "map d_id (w_documents (user_world 1 (rag_db []))) = [7]"
  "map ck_id (w_chunks (user_world 1 (rag_db []))) = [30]"
  "documents_named demo_ward (rag_db [])" "cites_apart w (message_citations (rag_db []))"
proof -
  show t: "documents (rag_db []) = [demo_doc St_ready]" "document_chunks (rag_db []) = [demo_ck]" "conversations (rag_db []) = [demo_conv]"
    "messages (rag_db []) = []" by (simp_all add: rag_db_def chat_db_def)
  then show "keyed (rag_db [])" by (simp add: keyed_def)
  have "d_id (demo_doc St_ready) = 7" "ck_document_id demo_ck = 7" "ck_id demo_ck = 30" by (simp_all add: demo_doc_def demo_ck_def)
  with t show "map d_id (w_documents (user_world 1 (rag_db []))) = [7]" "map ck_id (w_chunks (user_world 1 (rag_db []))) = [30]"
    by (simp_all add: user_world_def user_documents_def)
  show "documents_named demo_ward (rag_db [])"
    using t(1) demo_named by (simp add: documents_named_def demo_doc_def del: One_nat_def)
  show "cites_apart w (message_citations (rag_db []))" by (simp add: cites_apart_def rag_db_def chat_db_def empty_db_def)
qed

theorem users_are_isolated_witness:
  "\<exists>t. private_api demo_api \<lparr>ctx_user_id = 2, ctx_role = R_user, ctx_trace_id = []\<rparr> (Rq_delete_document 7) rag_sys
       = (Inl (App DocumentNotFound), t)
     \<and> map d_id (w_documents (user_world 1 (committed t))) = [7] \<and> map ck_id (w_chunks (user_world 1 (committed t))) = [30]
     \<and> same_files demo_ward (files rag_sys) (files t)"
proof -
  let ?ctx = "\<lparr>ctx_user_id = 2, ctx_role = R_user, ctx_trace_id = []\<rparr>"
  have s: "pending rag_sys = committed rag_sys" "committed rag_sys = rag_db []" by (simp_all add: rag_sys_def)
  obtain t where t: "private_api demo_api ?ctx (Rq_delete_document 7) rag_sys = (Inl (App DocumentNotFound), t)"
    by (simp add: private_api_def delete_document_endpoint_def delete_document_def get_document_def in_session_def bnd_def query_def
        look_def throw_def doc_get_owned_def s rag_db_tables)
  have keyed: "keyed (committed rag_sys)" by (simp add: s rag_db_tables)
  have "user_world 1 (committed t) = user_world 1 (rag_db []) \<and> same_files demo_ward (files rag_sys) (files t)"
    using users_are_isolated [OF s(1) keyed _ _ demo_apart _ t] by (simp add: s rag_db_tables demo_named)
  with t rag_db_tables show ?thesis by (intro exI [of _ t]) (simp only: simp_thms)
qed

text \<open>
  A stage task on somebody else's document, then a request to delete document 7 of user 1 by user 2; an embed task of user 1 and the purge
  of the deleted document 6 stay in the queue.
\<close>

theorem system_isolation_witness:
  "let m = \<lparr>tm_call = Stage_call Chunk 8, tm_retries = 0, tm_countdown = 0\<rparr>;
       own = [\<lparr>tm_call = Stage_call Embed 7, tm_retries = 0, tm_countdown = 0\<rparr>,
              \<lparr>tm_call = Purge_call (storage_prefix 6), tm_retries = 0, tm_countdown = 0\<rparr>];
       t = snd (perform demo_cfg demo_models calm_env calm_env demo_tenv 1 m (rag_sys\<lparr>broker := own\<rparr>));
       u = snd (private_api demo_api \<lparr>ctx_user_id = 2, ctx_role = R_user, ctx_trace_id = []\<rparr> (Rq_delete_document 7) t)
   in map d_id (w_documents (user_world 1 (committed u))) = [7] \<and> own_tasks demo_ward (user_world 1 (rag_db [])) (broker u) = own
      \<and> same_files demo_ward (files rag_sys) (files u)"
proof -
  let ?m = "\<lparr>tm_call = Stage_call Chunk 8, tm_retries = 0, tm_countdown = 0\<rparr>"
    and ?own = "[\<lparr>tm_call = Stage_call Embed 7, tm_retries = 0, tm_countdown = 0\<rparr>,
        \<lparr>tm_call = Purge_call (storage_prefix 6), tm_retries = 0, tm_countdown = 0\<rparr>]"
    and ?ctx = "\<lparr>ctx_user_id = 2, ctx_role = R_user, ctx_trace_id = []\<rparr>"
  let ?s = "rag_sys\<lparr>broker := ?m # ?own\<rparr>" and ?w = "user_world 1 (rag_db [])"
  let ?t = "snd (perform demo_cfg demo_models calm_env calm_env demo_tenv 1 ?m (?s\<lparr>broker := [] @ ?own\<rparr>))"
  let ?u = "snd (private_api demo_api ?ctx (Rq_delete_document 7) ?t)"
  have s: "pending ?s = committed ?s" "committed ?s = rag_db []" "broker ?s = [] @ ?m # ?own" "files ?s = files rag_sys"
    by (simp_all add: rag_sys_def)
  have purge: "concerns demo_ward ?w (Purge_call (storage_prefix 6))"
    using demo_named(2) by (auto simp: storage_prefix_def named_def)
  have "other_step demo_ward ?s ?t"
    by (rule other_step.Task [OF s(3)]) (simp_all add: demo_named demo_tenv_def demo_cfg_def spares_nothing)
  moreover have "other_step demo_ward ?t ?u" by (rule other_step.Request) (simp_all add: demo_apart demo_named)
  ultimately have run: "(other_step demo_ward)\<^sup>*\<^sup>* ?s ?u" by simp
  have db: "keyed (committed ?s)" "documents_named demo_ward (committed ?s)"
    "cites_apart (user_world (wd_user demo_ward) (committed ?s)) (message_citations (committed ?s))"
    using rag_db_tables by (simp_all only: s(2))
  have "own_tasks demo_ward ?w (broker ?s) = ?own"
    unfolding s(3) using purge demo_named by (simp add: own_tasks_def del: concerns.simps(3))
  with system_isolation [OF run s(1) db, unfolded demo_named(4) s(2,4)] rag_db_tables(6) show ?thesis by (simp add: Let_def)
qed

end
