(* ===== verification/Spec2Isabelle.thy ===== *)
theory Spec2Isabelle
  imports System Auth_Correct Chat_Witness Rag_Eval Task_Routing Application
begin

text \<open>
  A model of the backend of a knowledge base with chat (\<^verbatim>\<open>backend/app\<close>, FastAPI, PostgreSQL, Celery) and what makes
  it correct. Paths are below \<^verbatim>\<open>src/backend/app\<close> unless they start with \<^verbatim>\<open>src/\<close>.

  \<^bold>\<open>The program.\<close> A user uploads documents (\<^verbatim>\<open>api/routers/documents.py\<close>, \<^verbatim>\<open>application/document_service.py\<close>). A document
  is a row with a status, its bytes lie in a file store, and a message in the task queue starts the ingestion
  pipeline: three tasks (\<^verbatim>\<open>workers/tasks/ingest.py\<close>, \<^verbatim>\<open>application/ingestion_service.py\<close>) parse the file, cut it into chunks and
  embed them, each handing over to the next by a message, until the document is ready. In a conversation
  (\<^verbatim>\<open>application/chat_orchestrator.py\<close>) a message is stored, the best chunks of the user's ready documents are looked up
  (\<^verbatim>\<open>application/retrieval_service.py\<close>), a model is asked with prompt, chunks and history, and its reply is streamed
  to the client as server-sent events and stored with its citations. A title task names the conversation. Accounts
  and refresh token rotation (\<^verbatim>\<open>application/auth_service.py\<close>) protect all of it.

  \<^bold>\<open>State and effects.\<close> \<open>sys\<close> (Effects) is what all processes share: the committed database, the pending database of
  the session at hand, the files and the broker's messages. An operation is a function \<open>sys \<Rightarrow> (exn + 'a) \<times> sys\<close>, composed by
  \<open>bnd\<close>, with \<open>throw\<close>, \<open>try_with\<close>, \<open>commit\<close>, \<open>rollback\<close> and \<open>in_session\<close> (a session that rolls back at its end what was not committed).
  What the outside does to one run is a record (\<open>run_env\<close>, \<open>doc_env\<close>, \<open>auth_env\<close>, \<open>chat_env\<close>, \<open>title_env\<close>): fresh ids and clock readings,
  a possible exception at each point where the run touches the outside, and what other processes commit meanwhile.
  \<open>wp\<close> with its simp rules (\<open>wp_simps\<close>) is the calculus in which the operations are proved.

  \<^bold>\<open>Theories.\<close>
  \<^item> Prelude: Python strings as lists of code points, \<^verbatim>\<open>strip\<close>, \<^verbatim>\<open>join\<close>, JSON values, decimal and hexadecimal numbers.
  \<^item> Blocks, Text_Parsers, Parsers (\<^verbatim>\<open>infrastructure/parsing\<close>): the block model and its limits, the five parsers and their registry.
    The interface \<open>document_parser\<close> is interpreted on each; the loop of \<^verbatim>\<open>finalize\<close> refines a declarative specification.
  \<^item> Chunking, Chunking_Correct (\<^verbatim>\<open>infrastructure/parsing/chunking\<close>): token estimate, recursive splitting, the chunk builder with
    its heading stack, table packing; \<open>chunking_strategy\<close> is interpreted on both strategies. Nothing is lost, sizes are bounded.
  \<^item> Tables (\<^verbatim>\<open>infrastructure/db/models.py\<close> and the repositories of documents, jobs, chunks and sources), Storage
    (\<^verbatim>\<open>infrastructure/storage/local_fs.py\<close>, interface \<open>object_storage\<close>), Http (errors, envelope, request id, redaction).
  \<^item> Ingestion, Ingestion_Correct, Pipeline, Pipeline_Complete: the stages and the task shell, whose retry can fail to be published; status
    transitions, which faults leave a document behind and that no others do, the run that goes well, and the parse retry that gets lost.
  \<^item> Worker_Run: the clients that a run of a stage opens and closes; with clients that close it is the run of Ingestion, and what happens
    when closing fails.
  \<^item> Pagination (\<^verbatim>\<open>core/pagination.py\<close>, interface \<open>keyset_table\<close>, interpreted on documents and messages), Document_Service,
    Document_Correct: upload, deduplication and its race, retry, delete, list, the bounded read of the body.
  \<^item> System: whole requests and task runs, with any faults, as a transition relation \<open>sys_step\<close> that records which documents a
    run hits (by a fault that is not \<open>harmless\<close>); its invariant by rule induction.
  \<^item> Auth, Auth_Correct: accounts, token families (relation \<open>auth_step\<close>), cookies, access tokens.
  \<^item> Prompts, Llm_Adapter, Conversations: prompts and model aliases, the chat model adapter (interface \<open>llm_provider\<close>), conversations and messages.
  \<^item> Chat, Chat_Correct, Chat_Runs, Chat_Storage: one turn as a run that records its events (\<open>chat_st\<close>); event order by an automaton
    (\<open>phase\<close>), what is stored, the runs that succeed, break off or fail.
  \<^item> Sse (\<^verbatim>\<open>api/routers/chat.py\<close>): frames, heartbeats and a client that reads them back. Titles (\<^verbatim>\<open>workers/tasks/titles.py\<close>).
  \<^item> Embedding (\<^verbatim>\<open>infrastructure/embedding\<close>, interface \<open>embedding_provider\<close>), Retrieval (\<^verbatim>\<open>infrastructure/vector\<close>,
    interface \<open>chunk_search\<close>): batches and their order, the query cache, the two search legs, their fusion, the service.
  \<^item> Rag_Eval (\<^verbatim>\<open>src/backend/scripts/rag_eval.py\<close>): the golden set, the scores, and that the script only reads.
  \<^item> Migrations (\<^verbatim>\<open>src/backend/migrations\<close>): every version as DDL on schemas and its undoing; the schema at the head against the ORM
    metadata (with the differences there are) and against the row checks of the repositories.
  \<^item> Dev_Launcher (\<^verbatim>\<open>src/scripts/dev.py\<close>): checks, children and their shutdown, and what Ctrl+C at other moments
    does. Task_Routing (\<^verbatim>\<open>workers/celery_app.py\<close>): which
    queue a task goes to and who consumes it.
  \<^item> Api (\<^verbatim>\<open>api/routers\<close>, \<^verbatim>\<open>api/schemas\<close>): every request of a user as one function. Isolation, Isolated_System: the calculus \<open>yields\<close>
    of what an operation preserves and returns; one user's rows (\<open>user_world\<close>), stored files and queued tasks
    under the requests of others, the replies to which show none of it (\<open>hides\<close>), and under all steps of the system in which the user has no part (\<open>other_step\<close>). Wiring (\<^verbatim>\<open>core/config.py\<close>, \<^verbatim>\<open>core/wiring.py\<close>): the settings and what is built from them. Application
    (\<^verbatim>\<open>main.py\<close>): lifespan, routes and who is admitted, and a chat request through everything that is assembled behind it, down to
    the bytes that the client reads.
  \<^item> Chat_Witness, Rag_Witness: small concrete systems on which the properties with hypotheses are applied.

  \<^bold>\<open>Bounds and fuel.\<close> Everything terminates. \<open>split_to_limit\<close>, \<open>read_loop\<close>, \<open>embed_from\<close> and \<open>embed_loop\<close> are recursive functions with a
  measure (\<open>embed_loop\<close>: the chunks that still lack an embedding). Fuel is left in three places. \<open>walk\<close>, a client that follows page
  cursors: the page theorems state that any fuel above the number of rows suffices. \<open>watch\<close>, the launcher's loop, which runs as long as
  its children: the shutdown theorem says when it ends. The run of the migrations, whose fuel is the number of versions. Limits of the code (block, document,
  upload, snippet, title and message lengths) are the code's own constants; text columns refuse what PostgreSQL refuses
  (\<open>text_ok\<close>: too long, or a NUL).

  \<^bold>\<open>Parameters.\<close> Codecs, python-docx, PyMuPDF, BeautifulSoup, argon2, PyJWT, SHA-256, jieba, httpx, redis, the parsed
  YAML, float formatting, the distance and text search functions of PostgreSQL, the order it gives to ties, and Celery's own retry limit and default queue
  are arguments of the definitions, with their documented laws as hypotheses where a property needs them.

  \<^bold>\<open>Not modelled.\<close> The constructors of the database engine and the redis client, log output, Alembic's offline mode and connection,
  argument parsing and the threads that copy the children's output have no behaviour that the properties could rest on. Path matching,
  redirects and the 404 and 405 answers of the web framework are its own.
\<close>

end
